(* ===== verification/Wardline_Prelude.thy ===== *)
theory Wardline_Prelude
  imports Main "HOL-Library.Code_Target_Nat" "HOL-Library.Word" "HOL-Library.Sublist" "HOL-Library.Signed_Division"
begin

text \<open>
  Shared vocabulary of the development: how the Go values the components exchange are
  represented, and the generic lemmas on strings, decimal numerals, finite machine integers and
  maps that every component uses.

  \<^item> A Go \<open>string\<close> is a byte sequence, here \<^typ>\<open>string\<close> (a \<^typ>\<open>char list\<close>).
  \<^item> A \<open>time.Time\<close> is the number of nanoseconds since Go's zero time (January 1, year 1, UTC),
    so \<open>IsZero\<close> is equality with 0. A \<open>time.Duration\<close> is a number of nanoseconds;
    \<open>Sub\<close> saturates at the ends of the 64-bit range as the library does. Monotonic
    clock readings are not distinguished from wall-clock readings.
  \<^item> A Go \<open>int\<close> has 64 bits; where the code adds to one, the wrap-around is written out with
    \<open>wrap64\<close>. An unsigned call counter is a \<^typ>\<open>64 word\<close>.
  \<^item> A Go \<open>map\<close> is a partial function. A loop over a map visits the keys in an order the
    runtime picks; where the order can show in the result, it is an argument \<open>ks\<close>
    of the definition, related to the map by \<open>range_order\<close>.
  \<^item> A fallible operation returns \<open>Inl\<close> of its error message or \<open>Inr\<close> of its result.
\<close>

named_theorems wardline_defs \<open>definitions unfolded by the component proofs\<close>
named_theorems wardline_keys \<open>injectivity of the composite map keys\<close>

declare Let_def [simp]

type_synonym go_time = int
type_synonym duration = int
type_synonym 'a result = "string + 'a"

section \<open>Time\<close>

definition second :: duration where
  "second = 1000000000"

definition max_duration :: duration where
  "max_duration = 2 ^ 63 - 1"

definition min_duration :: duration where
  "min_duration = - (2 ^ 63)"

definition time_sub :: "go_time \<Rightarrow> go_time \<Rightarrow> duration" where
  "time_sub t u = max min_duration (min max_duration (t - u))"

definition time_is_zero :: "go_time \<Rightarrow> bool" where
  "time_is_zero t = (t = 0)"

definition time_after :: "go_time \<Rightarrow> go_time \<Rightarrow> bool" where
  "time_after t u = (u < t)"

text \<open>\<open>time.Time.Unix\<close>: whole seconds since 1970, rounded down.\<close>

definition unix_epoch_seconds :: int where
  "unix_epoch_seconds = 62135596800"

definition unix_seconds :: "go_time \<Rightarrow> int" where
  "unix_seconds t = t div second - unix_epoch_seconds"

section \<open>Machine integers\<close>

definition wrap64 :: "int \<Rightarrow> int" where
  "wrap64 i = signed_take_bit 63 i"

section \<open>Decimal numerals\<close>

definition digit_char :: "nat \<Rightarrow> char" where
  "digit_char d = char_of (48 + d)"

fun digits10 :: "nat \<Rightarrow> string" where
  "digits10 n = (if n < 10 then [digit_char n] else digits10 (n div 10) @ [digit_char (n mod 10)])"

declare digits10.simps [simp del]

text \<open>\<open>strconv.Itoa\<close> and \<open>strconv.FormatInt (_, 10)\<close>.\<close>

definition itoa :: "int \<Rightarrow> string" where
  "itoa i = (if i < 0 then CHR ''-'' # digits10 (nat (- i)) else digits10 (nat i))"

text \<open>
  \<open>time.Duration.String\<close>: below a second the unit is ns, \<open>\<mu>s\<close> (two UTF-8 bytes) or ms, from a
  second on the form is \<open>[[h]m]s\<close>; a fraction loses its trailing zeros.
\<close>

fun pad_digits :: "nat \<Rightarrow> nat \<Rightarrow> string" where
  "pad_digits 0 u = []"
| "pad_digits (Suc n) u = pad_digits n (u div 10) @ [digit_char (u mod 10)]"

definition fmt_frac :: "nat \<Rightarrow> nat \<Rightarrow> string" where
  "fmt_frac prec u =
     (let ds = rev (dropWhile (\<lambda>c. c = CHR ''0'') (rev (pad_digits prec (u mod 10 ^ prec))))
      in if ds = [] then [] else CHR ''.'' # ds)"

definition duration_String :: "duration \<Rightarrow> string" where
  "duration_String d =
     (let u = nat \<bar>d\<bar>;
          body =
            (if u = 0 then ''0s''
             else if u < 1000 then digits10 u @ ''ns''
             else if u < 1000000 then digits10 (u div 1000) @ fmt_frac 3 u @ [char_of (0xC2 :: nat), char_of (0xB5 :: nat), CHR ''s'']
             else if u < 1000000000 then digits10 (u div 1000000) @ fmt_frac 6 u @ ''ms''
             else let secs = u div 1000000000; mins = secs div 60; hrs = mins div 60;
                      stail = digits10 (secs mod 60) @ fmt_frac 9 u @ ''s''
                  in if mins = 0 then stail
                     else if hrs = 0 then digits10 (mins mod 60) @ ''m'' @ stail
                     else digits10 hrs @ ''h'' @ digits10 (mins mod 60) @ ''m'' @ stail)
      in if d < 0 then CHR ''-'' # body else body)"

section \<open>Maps\<close>

text \<open>Deleting, during a loop over a map, every entry that fails a test.\<close>

definition map_keep :: "('k \<Rightarrow> 'v \<Rightarrow> bool) \<Rightarrow> ('k \<rightharpoonup> 'v) \<Rightarrow> ('k \<rightharpoonup> 'v)" where
  "map_keep P m = (\<lambda>k. case m k of None \<Rightarrow> None | Some v \<Rightarrow> if P k v then Some v else None)"

text \<open>The order \<open>ks\<close> in which a loop visits the keys of \<open>m\<close>: each key once.\<close>

definition range_order :: "'k list \<Rightarrow> ('k \<rightharpoonup> 'v) \<Rightarrow> bool" where
  "range_order ks m = (distinct ks \<and> set ks = dom m)"

definition range_entries :: "'k list \<Rightarrow> ('k \<rightharpoonup> 'v) \<Rightarrow> ('k \<times> 'v) list" where
  "range_entries ks m = List.map_filter (\<lambda>k. map_option (Pair k) (m k)) ks"

text \<open>A lookup of a numeric entry reads the zero value where the key is absent.\<close>

definition lookup0 :: "('k \<rightharpoonup> int) \<Rightarrow> 'k \<Rightarrow> int" where
  "lookup0 m k = (case m k of None \<Rightarrow> 0 | Some v \<Rightarrow> v)"

section \<open>Generic lemmas\<close>

lemma time_sub_exact: "min_duration \<le> t - u \<Longrightarrow> t - u \<le> max_duration \<Longrightarrow> time_sub t u = t - u"
  by (simp add: time_sub_def)

lemma time_sub_ge_iff:
  "min_duration < d \<Longrightarrow> d \<le> max_duration \<Longrightarrow> d \<le> time_sub t u \<longleftrightarrow> d \<le> t - u"
  by (auto simp: time_sub_def max_def min_def)

lemma time_sub_bounds: "min_duration \<le> time_sub t u" "time_sub t u \<le> max_duration"
  by (auto simp: time_sub_def min_duration_def max_duration_def)

lemma wrap64_id: "- (2 ^ 63) \<le> i \<Longrightarrow> i < 2 ^ 63 \<Longrightarrow> wrap64 i = i"
  by (simp add: wrap64_def signed_take_bit_int_eq_self)

lemma wrap64_range: "- (2 ^ 63) \<le> wrap64 i" "wrap64 i < 2 ^ 63"
  using signed_take_bit_int_greater_eq_minus_exp [of 63 i] signed_take_bit_int_less_exp [of 63 i]
  by (simp_all add: wrap64_def)

lemma digit_char_inj: "a < 10 \<Longrightarrow> b < 10 \<Longrightarrow> digit_char a = digit_char b \<Longrightarrow> a = b"
proof -
  assume ab: "a < 10" "b < 10" and eq: "digit_char a = digit_char b"
  from eq have "(of_char (digit_char a) :: nat) = of_char (digit_char b)" by simp
  with ab show "a = b" by (simp add: digit_char_def)
qed

lemma digit_char_code: "d < 10 \<Longrightarrow> (of_char (digit_char d) :: nat) = 48 + d"
  by (simp add: digit_char_def)

lemma digits10_nonempty: "digits10 n \<noteq> []"
  by (subst digits10.simps) simp

lemma digits10_codes: "c \<in> set (digits10 n) \<Longrightarrow> 48 \<le> (of_char c :: nat) \<and> (of_char c :: nat) < 58"
proof (induction n rule: digits10.induct)
  case (1 n)
  show ?case
  proof (cases "n < 10")
    case True
    with "1.prems" have "c = digit_char n" by (simp add: digits10.simps [of n])
    with True show ?thesis by (simp add: digit_char_code)
  next
    case False
    with "1.prems" have "c \<in> set (digits10 (n div 10)) \<or> c = digit_char (n mod 10)"
      by (auto simp: digits10.simps [of n])
    with False "1.IH" show ?thesis by (auto simp: digit_char_code)
  qed
qed

lemma digits10_inj: "digits10 m = digits10 n \<Longrightarrow> m = n"
proof (induction m arbitrary: n rule: digits10.induct)
  case (1 m)
  show ?case
  proof (cases "m < 10 \<or> n < 10")
    case True
    have long: "\<And>k. \<not> k < 10 \<Longrightarrow> length (digits10 k) > 1"
      using digits10_nonempty by (subst digits10.simps) auto
    from True long [of m] long [of n] "1.prems" have small: "m < 10 \<and> n < 10"
      by (auto simp: digits10.simps [of m] digits10.simps [of n] split: if_splits)
    with "1.prems" have "digit_char m = digit_char n"
      by (simp add: digits10.simps [of m] digits10.simps [of n])
    with small show ?thesis by (auto dest: digit_char_inj)
  next
    case False
    with "1.prems" have "digits10 (m div 10) = digits10 (n div 10)"
      and "digit_char (m mod 10) = digit_char (n mod 10)"
      by (auto simp: digits10.simps [of m] digits10.simps [of n])
    moreover from this False "1.IH" have "m div 10 = n div 10" by auto
    moreover have "m mod 10 = n mod 10"
      using calculation(2) by (auto intro: digit_char_inj)
    ultimately show ?thesis by (metis div_mult_mod_eq)
  qed
qed

lemma itoa_nat: "itoa (int n) = digits10 n"
  by (simp add: itoa_def)

lemma colon_notin_digits10: "CHR '':'' \<notin> set (digits10 n)"
  using digits10_codes [of "CHR '':''" n] by auto

lemma minus_notin_digits10: "CHR ''-'' \<notin> set (digits10 n)"
  using digits10_codes [of "CHR ''-''" n] by auto

lemma itoa_inj: "itoa i = itoa j \<Longrightarrow> i = j"
proof -
  have head: "\<And>n xs. digits10 n \<noteq> CHR ''-'' # xs"
    using minus_notin_digits10 by (metis list.set_intros(1))
  assume "itoa i = itoa j"
  then show "i = j"
    using head by (auto simp: itoa_def split: if_splits dest!: digits10_inj) metis+
qed

text \<open>
  The first occurrence of a separator splits a string in one way: the fact behind every
  length-prefixed key.
\<close>

lemma split_at_separator:
  "xs @ c # ys = xs' @ c # ys' \<Longrightarrow> c \<notin> set xs \<Longrightarrow> c \<notin> set xs' \<Longrightarrow> xs = xs' \<and> ys = ys'"
proof (induction xs arbitrary: xs')
  case Nil
  then show ?case by (cases xs') auto
next
  case (Cons x xs)
  then show ?case by (cases xs') auto
qed

lemma map_keep_eq_Some: "map_keep P m k = Some v \<longleftrightarrow> m k = Some v \<and> P k v"
  by (auto simp: map_keep_def split: option.splits)

lemma map_keep_eq_None: "map_keep P m k = None \<longleftrightarrow> (\<forall>v. m k = Some v \<longrightarrow> \<not> P k v)"
  by (auto simp: map_keep_def split: option.splits)

lemma dom_map_keep: "dom (map_keep P m) \<subseteq> dom m"
  by (auto simp: map_keep_eq_Some dom_def)

lemma finite_dom_map_keep: "finite (dom m) \<Longrightarrow> finite (dom (map_keep P m))"
  by (rule finite_subset [OF dom_map_keep])

lemma set_range_entries:
  "range_order ks m \<Longrightarrow> set (range_entries ks m) = {(k, v). m k = Some v}"
  by (auto simp: range_entries_def range_order_def List.map_filter_def dom_def image_def)

lemma find_SomeD: "find P xs = Some x \<Longrightarrow> x \<in> set xs \<and> P x"
  by (induction xs) (auto split: if_splits)

lemma find_NoneD: "find P xs = None \<Longrightarrow> x \<in> set xs \<Longrightarrow> \<not> P x"
  by (simp add: find_None_iff)

lemma lookup0_upd: "lookup0 (m(k \<mapsto> v)) k' = (if k' = k then v else lookup0 m k')"
  by (simp add: lookup0_def)

lemma find_filter: "(\<And>x. P x \<Longrightarrow> Q x) \<Longrightarrow> find P (filter Q xs) = find P xs"
  by (induction xs) auto

end
