(* ===== verification/Json.thy ===== *)
theory Json
  imports Wardline_Prelude
begin

text \<open>
  What the proxy uses of Go's \<open>encoding/json\<close>: the scanner (\<open>checkValid\<close> and the value syntax), string
  unquoting with its replacement of invalid UTF-8 and lone surrogates, and the decoding of an object
  into struct fields, where a member is matched to a field name without regard to case and the
  last matching member wins.

  A value keeps the text it was read from, because \<open>json.RawMessage\<close> fields copy it. The parser is
  driven by a fuel argument; \<open>pval_fuel\<close> shows that any fuel above twice the length of the input
  gives the same answer, and \<open>json_scan\<close> uses the first such. Nesting is limited to 10000 as in
  the library.
\<close>

section \<open>Values\<close>

datatype json =
    JNull
  | JBool bool
  | JNumber string
  | JString string
  | JArray "(string \<times> json) list"
  | JObject "(string \<times> string \<times> json) list"

type_synonym raw_value = "string \<times> json"

definition maxNestingDepth :: nat where
  "maxNestingDepth = 10000"

section \<open>Characters\<close>

definition byte :: "char \<Rightarrow> nat" where
  "byte c = of_char c"

definition is_ws :: "char \<Rightarrow> bool" where
  "is_ws c \<longleftrightarrow> byte c \<in> {32, 9, 10, 13}"

definition is_digit :: "char \<Rightarrow> bool" where
  "is_digit c \<longleftrightarrow> 48 \<le> byte c \<and> byte c \<le> 57"

definition hex_value :: "char \<Rightarrow> nat option" where
  "hex_value c =
     (let b = byte c
      in if 48 \<le> b \<and> b \<le> 57 then Some (b - 48)
         else if 97 \<le> b \<and> b \<le> 102 then Some (b - 87)
         else if 65 \<le> b \<and> b \<le> 70 then Some (b - 55)
         else None)"

abbreviation skip_ws :: "string \<Rightarrow> string" where
  "skip_ws \<equiv> dropWhile is_ws"

section \<open>Strings\<close>

definition is_escape :: "char \<Rightarrow> bool" where
  "is_escape e \<longleftrightarrow> e \<in> {CHR 0x22, CHR 0x5C, CHR ''/'', CHR ''b'', CHR ''f'', CHR ''n'', CHR ''r'', CHR ''t''}"

text \<open>The text of a string literal up to its closing quote, and what follows it.\<close>

fun scan_string :: "string \<Rightarrow> (string \<times> string) option" where
  "scan_string [] = None"
| "scan_string (c # cs) =
     (if c = CHR 0x22 then Some ([], cs)
      else if c = CHR 0x5C then
        (case cs of
           [] \<Rightarrow> None
         | e # cs' \<Rightarrow>
             if e = CHR ''u'' then
               (case cs' of
                  h1 # h2 # h3 # h4 # cs'' \<Rightarrow>
                    if list_all (\<lambda>h. hex_value h \<noteq> None) [h1, h2, h3, h4]
                    then map_option (\<lambda>(s, r). (c # e # h1 # h2 # h3 # h4 # s, r)) (scan_string cs'')
                    else None
                | _ \<Rightarrow> None)
             else if is_escape e then map_option (\<lambda>(s, r). (c # e # s, r)) (scan_string cs')
             else None)
      else if byte c < 32 then None
      else map_option (\<lambda>(s, r). (c # s, r)) (scan_string cs))"

text \<open>UTF-8: the width of a valid encoding at the head of a string, 0 when it is invalid.\<close>

definition utf8_width :: "string \<Rightarrow> nat" where
  "utf8_width s =
     (let b = (\<lambda>i. if i < length s then byte (s ! i) else 0);
          cont = (\<lambda>i. 128 \<le> b i \<and> b i \<le> 191);
          within = (\<lambda>lo hi. lo \<le> b 1 \<and> b 1 \<le> hi)
      in if b 0 < 128 then 1
         else if 194 \<le> b 0 \<and> b 0 \<le> 223 then (if cont 1 then 2 else 0)
         else if b 0 = 224 then (if within 160 191 \<and> cont 2 then 3 else 0)
         else if b 0 = 237 then (if within 128 159 \<and> cont 2 then 3 else 0)
         else if 225 \<le> b 0 \<and> b 0 \<le> 239 then (if cont 1 \<and> cont 2 then 3 else 0)
         else if b 0 = 240 then (if within 144 191 \<and> cont 2 \<and> cont 3 then 4 else 0)
         else if 241 \<le> b 0 \<and> b 0 \<le> 243 then (if cont 1 \<and> cont 2 \<and> cont 3 then 4 else 0)
         else if b 0 = 244 then (if within 128 143 \<and> cont 2 \<and> cont 3 then 4 else 0)
         else 0)"

definition utf8_encode :: "nat \<Rightarrow> string" where
  "utf8_encode r =
     map char_of
       (if r < 128 then [r]
        else if r < 2048 then [192 + r div 64, 128 + r mod 64]
        else if r < 65536 then [224 + r div 4096, 128 + r div 64 mod 64, 128 + r mod 64]
        else [240 + r div 262144, 128 + r div 4096 mod 64, 128 + r div 64 mod 64, 128 + r mod 64])"

definition replacement_char :: nat where
  "replacement_char = 65533"

text \<open>A four-digit escape at the head of a string, as \<open>getu4\<close> reads it.\<close>

fun getu4 :: "string \<Rightarrow> nat option" where
  "getu4 (c # e # h1 # h2 # h3 # h4 # _) =
     (if c = CHR 0x5C \<and> e = CHR ''u'' then
        (case (hex_value h1, hex_value h2, hex_value h3, hex_value h4) of
           (Some a, Some b, Some c, Some d) \<Rightarrow> Some (((a * 16 + b) * 16 + c) * 16 + d)
         | _ \<Rightarrow> None)
      else None)"
| "getu4 _ = None"

definition escaped :: "char \<Rightarrow> char" where
  "escaped e =
     (if e = CHR ''b'' then char_of (8 :: nat) else if e = CHR ''f'' then char_of (12 :: nat)
      else if e = CHR ''n'' then char_of (10 :: nat) else if e = CHR ''r'' then char_of (13 :: nat)
      else if e = CHR ''t'' then char_of (9 :: nat) else e)"

function unquote :: "string \<Rightarrow> string" where
  "unquote [] = []"
| "unquote (c # cs) =
     (if c = CHR 0x5C then
        (case getu4 (c # cs) of
           Some r \<Rightarrow>
             if 55296 \<le> r \<and> r < 57344 then
               (case getu4 (drop 5 cs) of
                  Some r' \<Rightarrow>
                    if r < 56320 \<and> 56320 \<le> r' \<and> r' < 57344
                    then utf8_encode (65536 + (r - 55296) * 1024 + (r' - 56320)) @ unquote (drop 11 cs)
                    else utf8_encode replacement_char @ unquote (drop 5 cs)
                | None \<Rightarrow> utf8_encode replacement_char @ unquote (drop 5 cs))
             else utf8_encode r @ unquote (drop 5 cs)
         | None \<Rightarrow> (case cs of [] \<Rightarrow> [] | e # cs' \<Rightarrow> escaped e # unquote cs'))
      else if utf8_width (c # cs) = 0 then utf8_encode replacement_char @ unquote cs
      else take (utf8_width (c # cs)) (c # cs) @ unquote (drop (utf8_width (c # cs) - 1) cs))"
  by pat_completeness auto
termination by (relation "measure length") auto

section \<open>Numbers and literals\<close>

definition scan_digits :: "string \<Rightarrow> string option" where
  "scan_digits s = (case s of c # r \<Rightarrow> if is_digit c then Some (dropWhile is_digit r) else None | [] \<Rightarrow> None)"

definition scan_int :: "string \<Rightarrow> string option" where
  "scan_int s = (case s of c # r \<Rightarrow> if c = CHR ''0'' then Some r else scan_digits s | [] \<Rightarrow> None)"

definition scan_frac :: "string \<Rightarrow> string option" where
  "scan_frac s = (case s of c # r \<Rightarrow> if c = CHR ''.'' then scan_digits r else Some s | [] \<Rightarrow> Some s)"

definition scan_exp :: "string \<Rightarrow> string option" where
  "scan_exp s =
     (case s of
        c # r \<Rightarrow>
          if c = CHR ''e'' \<or> c = CHR ''E''
          then scan_digits (case r of d # r' \<Rightarrow> if d = CHR ''+'' \<or> d = CHR ''-'' then r' else r | [] \<Rightarrow> r)
          else Some s
      | [] \<Rightarrow> Some s)"

definition scan_number :: "string \<Rightarrow> string option" where
  "scan_number s =
     Option.bind (scan_int (case s of c # r \<Rightarrow> if c = CHR ''-'' then r else s | [] \<Rightarrow> s))
       (\<lambda>r. Option.bind (scan_frac r) scan_exp)"

definition scan_literal :: "string \<Rightarrow> json \<Rightarrow> string \<Rightarrow> (json \<times> string) option" where
  "scan_literal lit v s = (if prefix lit s then Some (v, drop (length lit) s) else None)"

definition consumed :: "string \<Rightarrow> string \<Rightarrow> string" where
  "consumed s rest = take (length s - length rest) s"

section \<open>The parser\<close>

fun pval :: "nat \<Rightarrow> nat \<Rightarrow> string \<Rightarrow> (json \<times> string) option"
  and pelems :: "nat \<Rightarrow> nat \<Rightarrow> string \<Rightarrow> (raw_value list \<times> string) option"
  and pmembers :: "nat \<Rightarrow> nat \<Rightarrow> string \<Rightarrow> ((string \<times> raw_value) list \<times> string) option" where
  "pval 0 d s = None"
| "pval (Suc n) d s =
     (case s of
        [] \<Rightarrow> None
      | c # r \<Rightarrow>
          if c = CHR 0x7B then
            if d = 0 then None
            else (case skip_ws r of
                    [] \<Rightarrow> None
                  | e # r' \<Rightarrow>
                      if e = CHR 0x7D then Some (JObject [], r')
                      else map_option (\<lambda>(ms, r''). (JObject ms, r'')) (pmembers n (d - 1) (e # r')))
          else if c = CHR ''['' then
            if d = 0 then None
            else (case skip_ws r of
                    [] \<Rightarrow> None
                  | e # r' \<Rightarrow>
                      if e = CHR '']'' then Some (JArray [], r')
                      else map_option (\<lambda>(xs, r''). (JArray xs, r'')) (pelems n (d - 1) (e # r')))
          else if c = CHR 0x22 then map_option (\<lambda>(body, r'). (JString (unquote body), r')) (scan_string r)
          else if c = CHR ''t'' then scan_literal ''true'' (JBool True) s
          else if c = CHR ''f'' then scan_literal ''false'' (JBool False) s
          else if c = CHR ''n'' then scan_literal ''null'' JNull s
          else map_option (\<lambda>r'. (JNumber (consumed s r'), r')) (scan_number s))"
| "pelems 0 d s = None"
| "pelems (Suc n) d s =
     (case pval n d s of
        None \<Rightarrow> None
      | Some (v, r) \<Rightarrow>
          (case skip_ws r of
             [] \<Rightarrow> None
           | e # r' \<Rightarrow>
               if e = CHR '','' then
                 map_option (\<lambda>(xs, r''). ((consumed s r, v) # xs, r'')) (pelems n d (skip_ws r'))
               else if e = CHR '']'' then Some ([(consumed s r, v)], r')
               else None))"
| "pmembers 0 d s = None"
| "pmembers (Suc n) d s =
     (case s of
        [] \<Rightarrow> None
      | q # s0 \<Rightarrow>
          if q \<noteq> CHR 0x22 then None
          else (case scan_string s0 of
                  None \<Rightarrow> None
                | Some (key, s1) \<Rightarrow>
                    (case skip_ws s1 of
                       [] \<Rightarrow> None
                     | col # s2 \<Rightarrow>
                         if col \<noteq> CHR '':'' then None
                         else (case pval n d (skip_ws s2) of
                                 None \<Rightarrow> None
                               | Some (v, r) \<Rightarrow>
                                   let m = (unquote key, consumed (skip_ws s2) r, v)
                                   in case skip_ws r of
                                        [] \<Rightarrow> None
                                      | e # r' \<Rightarrow>
                                          if e = CHR '','' then
                                            map_option (\<lambda>(ms, r''). (m # ms, r'')) (pmembers n d (skip_ws r'))
                                          else if e = CHR 0x7D then Some ([m], r')
                                          else None))))"

text \<open>The whole input is one value, with white space around it.\<close>

definition json_scan :: "string \<Rightarrow> raw_value option" where
  "json_scan body =
     (let s = skip_ws body
      in case pval (Suc (2 * length s)) maxNestingDepth s of
           None \<Rightarrow> None
         | Some (v, r) \<Rightarrow> if skip_ws r = [] then Some (consumed s r, v) else None)"

section \<open>Decoding into struct fields\<close>

text \<open>
  The case folding that matches a member to an ASCII field name: ASCII letters fold to upper case, and
  the two other letters that fold to an ASCII one, the long s and the Kelvin sign, fold to it. Every
  other byte stays outside the ASCII letters, as in the library.
\<close>

fun foldName :: "string \<Rightarrow> string" where
  "foldName [] = []"
| "foldName (c # cs) =
     (if 97 \<le> byte c \<and> byte c \<le> 122 then char_of (byte c - 32) # foldName cs
      else if byte c = 197 \<and> (case cs of d # _ \<Rightarrow> byte d = 191 | [] \<Rightarrow> False) then CHR ''S'' # foldName (drop 1 cs)
      else if byte c = 226 \<and> (case cs of d # e # _ \<Rightarrow> byte d = 132 \<and> byte e = 170 | _ \<Rightarrow> False)
      then CHR ''K'' # foldName (drop 2 cs)
      else c # foldName cs)"

definition field_values :: "string \<Rightarrow> (string \<times> raw_value) list \<Rightarrow> raw_value list" where
  "field_values name ms = map snd (filter (\<lambda>(k, _). foldName k = foldName name) ms)"

text \<open>
  Decoding successive members into a field of type \<open>json.RawMessage\<close> keeps the last one's text. Into a
  string, \<open>null\<close> leaves the field alone, and any other value than a string is an error, reported
  when the rest has been decoded.
\<close>

definition raw_field :: "string \<Rightarrow> (string \<times> raw_value) list \<Rightarrow> string" where
  "raw_field name ms = (case rev (field_values name ms) of [] \<Rightarrow> [] | (text, _) # _ \<Rightarrow> text)"

fun decode_strings :: "raw_value list \<Rightarrow> string \<Rightarrow> string option" where
  "decode_strings [] cur = Some cur"
| "decode_strings ((_, v) # vs) cur =
     (case v of
        JString s \<Rightarrow> decode_strings vs s
      | JNull \<Rightarrow> decode_strings vs cur
      | _ \<Rightarrow> None)"

definition string_field :: "string \<Rightarrow> (string \<times> raw_value) list \<Rightarrow> string option" where
  "string_field name ms = decode_strings (field_values name ms) []"

text \<open>The members a struct is decoded from: of an object, or none for \<open>null\<close>; anything else is an error.\<close>

definition struct_members :: "string \<Rightarrow> (string \<times> raw_value) list option" where
  "struct_members text =
     (case json_scan text of
        Some (_, JObject ms) \<Rightarrow> Some ms
      | Some (_, JNull) \<Rightarrow> Some []
      | _ \<Rightarrow> None)"

section \<open>Progress and fuel\<close>

lemma length_skip_ws: "length (skip_ws s) \<le> length s"
  by (rule length_dropWhile_le)

lemma skip_ws_Cons: "skip_ws r = e # r' \<Longrightarrow> length r' < length r"
  using length_skip_ws [of r] by simp

lemma scan_string_length: "scan_string s = Some (x, r) \<Longrightarrow> length r < length s"
proof (induction s arbitrary: x rule: length_induct)
  case (1 s)
  then have IH: "scan_string t = Some (y, r) \<Longrightarrow> length t < length s \<Longrightarrow> length r < length t" for t y by blast
  from "1.prems" show ?case
    by (cases s) (auto split: if_splits list.splits dest!: IH)
qed

lemma scan_digits_length: "scan_digits s = Some r \<Longrightarrow> length r < length s"
  by (auto simp: scan_digits_def less_Suc_eq_le length_dropWhile_le split: list.splits if_splits)

lemma scan_int_length: "scan_int s = Some r \<Longrightarrow> length r < length s"
  by (auto simp: scan_int_def dest: scan_digits_length split: list.splits if_splits)

lemma scan_frac_length: "scan_frac s = Some r \<Longrightarrow> length r \<le> length s"
  by (auto simp: scan_frac_def dest: scan_digits_length split: list.splits if_splits)

lemma scan_exp_length: "scan_exp s = Some r \<Longrightarrow> length r \<le> length s"
  by (fastforce simp: scan_exp_def dest: scan_digits_length split: list.splits if_splits)

lemma scan_number_length: "scan_number s = Some r \<Longrightarrow> length r < length s"
  by (fastforce simp: scan_number_def bind_eq_Some_conv dest!: scan_int_length scan_frac_length scan_exp_length
      split: list.splits if_splits)

lemma scan_literal_length: "scan_literal lit v s = Some (w, r) \<Longrightarrow> lit \<noteq> [] \<Longrightarrow> length r < length s"
  by (auto simp: scan_literal_def prefix_def split: if_splits)

lemma parse_length:
  "pval n d s = Some (v, r) \<Longrightarrow> length r < length s"
  "pelems n d s = Some (xs, r) \<Longrightarrow> length r < length s"
  "pmembers n d s = Some (ms, r) \<Longrightarrow> length r < length s"
proof (induction n arbitrary: d s v xs ms r)
  case (Suc n)
  have ws: "pval n d (skip_ws t) = Some (v, r) \<Longrightarrow> length r < length t"
    "pelems n d (skip_ws t) = Some (xs, r) \<Longrightarrow> length r < length t"
    "pmembers n d (skip_ws t) = Some (ms, r) \<Longrightarrow> length r < length t" for d t v xs ms r
    using Suc.IH length_skip_ws [of t] less_le_trans by blast+
  {
    case 1
    then show ?case
      by (auto split: list.splits if_splits dest!: skip_ws_Cons Suc.IH(2,3) scan_string_length scan_literal_length
          scan_number_length)
  next
    case 2
    then show ?case
      by (auto split: list.splits if_splits option.splits prod.splits dest!: skip_ws_Cons Suc.IH(1) ws(2))
  next
    case 3
    then show ?case
      by (auto split: list.splits if_splits option.splits prod.splits dest!: skip_ws_Cons ws(1,3) scan_string_length)
  }
qed simp_all

text \<open>With enough fuel, one more does not change the answer.\<close>

lemma parse_Suc_fuel:
  "2 * length s < n \<Longrightarrow> pval (Suc n) d s = pval n d s"
  "2 * length s + 1 < n \<Longrightarrow> pelems (Suc n) d s = pelems n d s"
  "2 * length s + 1 < n \<Longrightarrow> pmembers (Suc n) d s = pmembers n d s"
proof (induction n arbitrary: d s)
  case (Suc n)
  define k where "k = Suc n"
  have IH: "2 * length s < n \<Longrightarrow> pval k d s = pval n d s"
    "2 * length s + 1 < n \<Longrightarrow> pelems k d s = pelems n d s"
    "2 * length s + 1 < n \<Longrightarrow> pmembers k d s = pmembers n d s" for d s
    unfolding k_def by (fact Suc.IH)+
  {
    case 1
    have "pval (Suc k) d s = pval (Suc n) d s"
    proof (cases s)
      case (Cons c r)
      show ?thesis
      proof (cases "skip_ws r")
        case (Cons e r')
        then have "2 * length (e # r') + 1 < n" using 1 \<open>s = c # r\<close> skip_ws_Cons [OF Cons] by simp
        then show ?thesis using \<open>s = c # r\<close> Cons IH(2,3) by simp
      qed (simp only: \<open>s = c # r\<close> pval.simps list.case)
    qed simp
    then show ?case by (simp only: k_def)
  next
    case 2
    have "2 * length (skip_ws r') + 1 < n" if "pval n d s = Some (v, r)" "skip_ws r = e # r'" for v r e r'
      using 2 parse_length(1) [OF that(1)] skip_ws_Cons [OF that(2)] length_skip_ws [of r'] by simp
    then have "pelems (Suc k) d s = pelems (Suc n) d s"
      using IH(1,2) 2 by (simp del: dropWhile_eq_Nil_conv split: option.split list.split)
    then show ?case by (simp only: k_def)
  next
    case 3
    have "pmembers (Suc k) d s = pmembers (Suc n) d s"
    proof (cases s)
      case (Cons q s0)
      have "2 * length (skip_ws s2) < n"
        if "scan_string s0 = Some (key, s1)" "skip_ws s1 = col # s2" for key s1 col s2
        using 3 Cons scan_string_length [OF that(1)] skip_ws_Cons [OF that(2)] length_skip_ws [of s2] by simp
      moreover have "2 * length (skip_ws r') + 1 < n"
        if "scan_string s0 = Some (key, s1)" "skip_ws s1 = col # s2" "pval n d (skip_ws s2) = Some (v, r)"
          "skip_ws r = e # r'" for key s1 col s2 v r e r'
        using 3 Cons scan_string_length [OF that(1)] skip_ws_Cons [OF that(2)] length_skip_ws [of s2]
          parse_length(1) [OF that(3)] skip_ws_Cons [OF that(4)] length_skip_ws [of r'] by simp
      ultimately show ?thesis using Cons IH(1,3) by (simp del: dropWhile_eq_Nil_conv split: option.split list.split)
    qed simp
    then show ?case by (simp only: k_def)
  }
qed simp_all

lemma pval_fuel: "2 * length s < n \<Longrightarrow> pval n d s = pval (Suc (2 * length s)) d s"
proof (induction n)
  case (Suc n)
  show ?case
  proof (cases "2 * length s < n")
    case True
    then show ?thesis using parse_Suc_fuel(1) Suc.IH by metis
  next
    case False
    then have "n = 2 * length s" using Suc.prems by simp
    then show ?thesis by simp
  qed
qed simp

end
