(* ===== verification/Policy.thy ===== *)
theory Policy
  imports Wardline_Prelude
begin

text \<open>
  The policy feature: \<open>internal/features/policy/domain/policy.go\<close> (effects, rules, the
  evaluation context) and \<open>internal/features/policy/usecase/matcher.go\<close> (the first-match engine
  behind the YAML backend). The OPA and Cedar engines call third-party evaluators; a caller that
  is independent of the engine takes any function from contexts to decisions.

  The reference semantics \<open>policy_spec\<close> says declaratively which rule decides: the first
  applicable one, else the default. The locale \<open>policy_engine\<close> is what the rest of the program
  may rely on for the rule-based engine; \<open>Matcher_Evaluate\<close> interprets it.
\<close>

section \<open>Data\<close>

text \<open>
  \<open>Effect\<close> is a Go string type: a rule list built by hand can hold any string, so the model keeps
  a constructor for the strings that are none of the three constants.
\<close>

datatype Effect = EffectAllow | EffectDeny | EffectNeedsApproval | OtherEffect string

record Rule =
  rule_Identity :: string
  rule_Tool :: string
  rule_Effect :: Effect
  rule_Tenant :: string
  rule_Method :: string

record Decision =
  dec_Effect :: Effect
  dec_Reason :: string

text \<open>\<open>Params\<close> is kept as an uninterpreted value of type \<open>'p\<close>: the rule engine never reads it.\<close>

record 'p Context =
  ctx_Identity :: string
  ctx_Tool :: string
  ctx_Params :: 'p
  ctx_Timestamp :: go_time
  ctx_RemoteAddr :: string
  ctx_UserAgent :: string
  ctx_Tenant :: string
  ctx_Method :: string
  ctx_Tainted :: bool
  ctx_JobOverBudget :: bool
  ctx_CostOverBudget :: bool

record Matcher =
  m_Rules :: "Rule list"
  m_Default :: Effect

section \<open>The matcher\<close>

definition defaultMethod :: string where
  "defaultMethod = ''tools/call''"

definition NewMatcher :: "Rule list \<Rightarrow> Effect \<Rightarrow> Matcher" where
  "NewMatcher rules def = \<lparr>m_Rules = rules, m_Default = def\<rparr>"

text \<open>The loop over the rules, one iteration per equation; \<open>continue\<close> is the recursive call.\<close>

fun matcher_loop :: "Rule list \<Rightarrow> Effect \<Rightarrow> string \<Rightarrow> 'p Context \<Rightarrow> Decision" where
  "matcher_loop [] def pcMethod pc = \<lparr>dec_Effect = def, dec_Reason = ''default''\<rparr>"
| "matcher_loop (r # rs) def pcMethod pc =
     (if rule_Identity r \<noteq> ctx_Identity pc then matcher_loop rs def pcMethod pc
      else let ruleMethod = (if rule_Method r = '''' then defaultMethod else rule_Method r)
      in if ruleMethod \<noteq> pcMethod then matcher_loop rs def pcMethod pc
      else if (rule_Tool r = ctx_Tool pc \<or> rule_Tool r = ''*'') \<and>
              (rule_Tenant r = '''' \<or> rule_Tenant r = ctx_Tenant pc)
      then \<lparr>dec_Effect = rule_Effect r, dec_Reason = ''matched rule''\<rparr>
      else matcher_loop rs def pcMethod pc)"

definition Matcher_Evaluate :: "Matcher \<Rightarrow> 'p Context \<Rightarrow> Decision" where
  "Matcher_Evaluate m pc =
     (let pcMethod = (if ctx_Method pc = '''' then defaultMethod else ctx_Method pc)
      in matcher_loop (m_Rules m) (m_Default m) pcMethod pc)"

section \<open>Reference semantics\<close>

definition method_or_default :: "string \<Rightarrow> string" where
  "method_or_default m = (if m = '''' then ''tools/call'' else m)"

definition rule_applies :: "Rule \<Rightarrow> 'p Context \<Rightarrow> bool" where
  "rule_applies r pc \<longleftrightarrow>
     rule_Identity r = ctx_Identity pc \<and>
     method_or_default (rule_Method r) = method_or_default (ctx_Method pc) \<and>
     rule_Tool r \<in> {ctx_Tool pc, ''*''} \<and>
     rule_Tenant r \<in> {'''', ctx_Tenant pc}"

definition policy_spec :: "Rule list \<Rightarrow> Effect \<Rightarrow> 'p Context \<Rightarrow> Effect" where
  "policy_spec rs def pc =
     (case find (\<lambda>r. rule_applies r pc) rs of None \<Rightarrow> def | Some r \<Rightarrow> rule_Effect r)"

section \<open>The contract of a rule engine\<close>

locale policy_engine =
  fixes evaluate :: "'m \<Rightarrow> 'p Context \<Rightarrow> Decision"
    and rules :: "'m \<Rightarrow> Rule list"
    and fallback :: "'m \<Rightarrow> Effect"
  assumes evaluate_effect: "dec_Effect (evaluate m pc) = policy_spec (rules m) (fallback m) pc"
begin

lemma effect_is_listed:
  "dec_Effect (evaluate m pc) \<noteq> fallback m \<Longrightarrow>
     \<exists>r \<in> set (rules m). rule_applies r pc \<and> rule_Effect r = dec_Effect (evaluate m pc)"
  by (cases "find (\<lambda>r. rule_applies r pc) (rules m)")
    (auto simp: evaluate_effect policy_spec_def dest: find_SomeD)

lemma no_rule_default:
  "(\<And>r. r \<in> set (rules m) \<Longrightarrow> \<not> rule_applies r pc) \<Longrightarrow> dec_Effect (evaluate m pc) = fallback m"
  by (cases "find (\<lambda>r. rule_applies r pc) (rules m)")
    (auto simp: evaluate_effect policy_spec_def dest: find_SomeD)

lemma first_match:
  "rules m = rs @ r # rs' \<Longrightarrow> (\<And>q. q \<in> set rs \<Longrightarrow> \<not> rule_applies q pc) \<Longrightarrow>
     rule_applies r pc \<Longrightarrow> dec_Effect (evaluate m pc) = rule_Effect r"
proof -
  assume rs: "rules m = rs @ r # rs'" and none: "\<And>q. q \<in> set rs \<Longrightarrow> \<not> rule_applies q pc"
    and app: "rule_applies r pc"
  have "find (\<lambda>r. rule_applies r pc) (rs @ r # rs') = Some r"
    using none app by (induction rs) auto
  with rs show ?thesis by (simp add: evaluate_effect policy_spec_def)
qed

end

section \<open>Proofs\<close>

lemma matcher_loop_spec:
  "pcm = method_or_default (ctx_Method pc) \<Longrightarrow>
     matcher_loop rs def pcm pc =
       (case find (\<lambda>r. rule_applies r pc) rs of
          None \<Rightarrow> \<lparr>dec_Effect = def, dec_Reason = ''default''\<rparr>
        | Some r \<Rightarrow> \<lparr>dec_Effect = rule_Effect r, dec_Reason = ''matched rule''\<rparr>)"
  by (induction rs) (auto simp: rule_applies_def method_or_default_def defaultMethod_def Let_def)

lemma Matcher_Evaluate_find:
  "Matcher_Evaluate m pc =
     (case find (\<lambda>r. rule_applies r pc) (m_Rules m) of
        None \<Rightarrow> \<lparr>dec_Effect = m_Default m, dec_Reason = ''default''\<rparr>
      | Some r \<Rightarrow> \<lparr>dec_Effect = rule_Effect r, dec_Reason = ''matched rule''\<rparr>)"
  by (simp add: Matcher_Evaluate_def Let_def matcher_loop_spec method_or_default_def
      defaultMethod_def)

interpretation yaml_engine: policy_engine Matcher_Evaluate m_Rules m_Default
  by unfold_locales (simp add: Matcher_Evaluate_find policy_spec_def split: option.split)

text \<open>
  C3. The matcher implements the declarative first-match semantics on every rule list and every
  context: the decision is that of the first rule whose identity, method, tool (or wildcard) and
  tenant (or global) fit the call, and the default where no rule fits.
\<close>
theorem Matcher_Evaluate_refines_spec:
  "dec_Effect (Matcher_Evaluate (NewMatcher rs def) pc) = policy_spec rs def pc"
  by (simp add: yaml_engine.evaluate_effect NewMatcher_def)

text \<open>
  A deny-by-default policy fails closed: a call is given any effect other than deny only
  when some rule names the calling identity itself, fits the call and carries that effect. In
  particular no rule of another identity and no rule scoped to another tenant can admit it.
\<close>
theorem deny_by_default:
  "dec_Effect (Matcher_Evaluate (NewMatcher rs EffectDeny) pc) \<noteq> EffectDeny \<Longrightarrow>
     \<exists>r \<in> set rs. rule_Identity r = ctx_Identity pc \<and> rule_Tenant r \<in> {'''', ctx_Tenant pc} \<and>
       rule_applies r pc \<and> rule_Effect r = dec_Effect (Matcher_Evaluate (NewMatcher rs EffectDeny) pc)"
  using yaml_engine.effect_is_listed [of "NewMatcher rs EffectDeny" pc]
  by (auto simp: NewMatcher_def rule_applies_def)

definition example_context :: "unit Context" where
  "example_context = \<lparr>ctx_Identity = ''agent'', ctx_Tool = ''read_file'', ctx_Params = (),
     ctx_Timestamp = 0, ctx_RemoteAddr = '''', ctx_UserAgent = '''', ctx_Tenant = ''acme'',
     ctx_Method = ''tools/call'', ctx_Tainted = False, ctx_JobOverBudget = False,
     ctx_CostOverBudget = False\<rparr>"

definition example_rule :: Rule where
  "example_rule = \<lparr>rule_Identity = ''agent'', rule_Tool = ''*'', rule_Effect = EffectAllow,
     rule_Tenant = ''acme'', rule_Method = ''''\<rparr>"

theorem deny_by_default_witness:
  "dec_Effect (Matcher_Evaluate (NewMatcher [example_rule] EffectDeny) example_context) = EffectAllow
   \<and> (\<exists>r \<in> set [example_rule]. rule_Identity r = ctx_Identity example_context)"
proof -
  have ev: "dec_Effect (Matcher_Evaluate (NewMatcher [example_rule] EffectDeny) example_context)
      = EffectAllow"
    by (simp add: Matcher_Evaluate_def NewMatcher_def example_rule_def example_context_def
        defaultMethod_def)
  then show ?thesis
    using deny_by_default [of "[example_rule]" example_context] by auto
qed

end
