(* ===== verification/Audit_Log.thy ===== *)
theory Audit_Log
  imports Wardline_Prelude
begin

text \<open>
  The audit feature: the entry type and its effect classification
  (\<open>internal/features/audit/domain/entry.go\<close>), the recorder
  (\<open>internal/features/audit/usecase/recorder.go\<close>) and the fan-out sink
  (\<open>internal/features/audit/adapter/multi_sink.go\<close>). The writer and the sinks are interfaces of
  the code; the recorder takes them as functions that update a state of type \<open>'s\<close>.
\<close>

section \<open>Entries\<close>

datatype EffectStatus =
    EffectStatusConfirmed
  | EffectStatusUnconfirmed
  | EffectStatusContradicted
  | EffectStatusNotAWrite
  | EffectStatusEmpty \<comment> \<open>the empty string: no effect was recorded\<close>

record audit_Effect =
  eff_Target :: string
  eff_ClaimedOp :: string
  eff_ClaimedArgs :: "string \<rightharpoonup> string"
  eff_ResponseStatus :: int
  eff_RPCError :: bool
  eff_NoOpSignal :: bool

record Entry =
  e_Timestamp :: go_time
  e_Identity :: string
  e_Tenant :: string
  e_Tool :: string
  e_Decision :: string
  e_LatencyMS :: int
  e_Reason :: string
  e_TraceID :: string
  e_Effect :: "audit_Effect option"
  e_EffectStatus :: EffectStatus
  e_SessionID :: string
  e_TaintSources :: "string list"

section \<open>Recorder and sinks\<close>

text \<open>
  A writer reports a failure as \<open>Some\<close> of its message. \<open>sink\<close> and \<open>onError\<close> may be nil.
\<close>

record 's Recorder =
  rec_writer :: "Entry \<Rightarrow> 's \<Rightarrow> string option \<times> 's"
  rec_sink :: "(Entry \<Rightarrow> 's \<Rightarrow> 's) option"
  rec_onError :: "(string \<Rightarrow> 's \<Rightarrow> 's) option"

definition NewRecorder ::
  "(Entry \<Rightarrow> 's \<Rightarrow> string option \<times> 's) \<Rightarrow> (Entry \<Rightarrow> 's \<Rightarrow> 's) option \<Rightarrow>
   (string \<Rightarrow> 's \<Rightarrow> 's) option \<Rightarrow> 's Recorder" where
  "NewRecorder w sink onError = \<lparr>rec_writer = w, rec_sink = sink, rec_onError = onError\<rparr>"

definition RecordWithEffect ::
  "'s Recorder \<Rightarrow> string \<Rightarrow> string \<Rightarrow> string \<Rightarrow> string \<Rightarrow> string \<Rightarrow> string \<Rightarrow> duration \<Rightarrow> go_time \<Rightarrow>
   string \<Rightarrow> audit_Effect option \<Rightarrow> EffectStatus \<Rightarrow> string list \<Rightarrow> 's \<Rightarrow> 's" where
  "RecordWithEffect r identity tenantName tool decision reason traceID latency now sessionID effect
     status taintSources s =
     (let entry = \<lparr>e_Timestamp = now, e_Identity = identity, e_Tenant = tenantName, e_Tool = tool,
            e_Decision = decision, e_LatencyMS = latency sdiv 1000000, e_Reason = reason,
            e_TraceID = traceID, e_Effect = effect, e_EffectStatus = status,
            e_SessionID = sessionID, e_TaintSources = taintSources\<rparr>;
          (err, s) = rec_writer r entry s;
          s = (case (err, rec_onError r) of (Some e, Some f) \<Rightarrow> f e s | _ \<Rightarrow> s)
      in case rec_sink r of Some publish \<Rightarrow> publish entry s | None \<Rightarrow> s)"

definition Recorder_Record ::
  "'s Recorder \<Rightarrow> string \<Rightarrow> string \<Rightarrow> string \<Rightarrow> string \<Rightarrow> string \<Rightarrow> string \<Rightarrow> duration \<Rightarrow> go_time \<Rightarrow>
   's \<Rightarrow> 's" where
  "Recorder_Record r identity tenantName tool decision reason traceID latency now s =
     RecordWithEffect r identity tenantName tool decision reason traceID latency now '''' None
       EffectStatusEmpty [] s"

text \<open>A member of a \<open>MultiSink\<close> is skipped when it is a nil interface.\<close>

fun MultiSink_Publish :: "(Entry \<Rightarrow> 's \<Rightarrow> 's) option list \<Rightarrow> Entry \<Rightarrow> 's \<Rightarrow> 's" where
  "MultiSink_Publish [] e s = s"
| "MultiSink_Publish (sink # m) e s =
     (case sink of None \<Rightarrow> MultiSink_Publish m e s
      | Some publish \<Rightarrow> MultiSink_Publish m e (publish e s))"

section \<open>Lemmas\<close>

lemma MultiSink_Publish_append:
  "MultiSink_Publish (xs @ ys) e s = MultiSink_Publish ys e (MultiSink_Publish xs e s)"
  by (induction xs arbitrary: s) (auto split: option.split)

text \<open>What every sink of a fan-out leaves alone, the fan-out leaves alone.\<close>

lemma MultiSink_Publish_frame:
  "(\<And>publish s. Some publish \<in> set m \<Longrightarrow> f (publish e s) = f s) \<Longrightarrow>
     f (MultiSink_Publish m e s) = f s"
  by (induction m arbitrary: s) (auto split: option.split)

end
