(* ===== verification/Keys.thy ===== *)
theory Keys
  imports Wardline_Prelude
begin

text \<open>
  The composite keys and session identifiers every stateful feature shares:
  \<open>internal/platform/tenant\<close> (\<open>Key\<close>), \<open>internal/platform/session\<close> (\<open>SessionID\<close>) and the
  per-feature compositions of them (\<open>jobKey\<close>, \<open>costKey\<close>, \<open>taintKey\<close>, \<open>grantKey\<close>).

  The locale \<open>injective_key\<close> is the contract a keyed store relies on: distinct callers have
  distinct keys, so writing one caller's entry leaves every other caller's entry alone. Each
  composition of the code interprets it.
\<close>

section \<open>Definitions\<close>

definition tenant_Default :: string where
  "tenant_Default = ''default''"

definition tenant_Key :: "string \<Rightarrow> string \<Rightarrow> string" where
  "tenant_Key tenantName identity = itoa (int (length tenantName)) @ '':'' @ tenantName @ identity"

definition SessionID :: "string \<Rightarrow> string \<Rightarrow> string \<Rightarrow> go_time \<Rightarrow> int \<Rightarrow> string" where
  "SessionID headerVal tenant identity now windowSeconds =
     (if headerVal \<noteq> '''' then headerVal
      else let windowSeconds = (if windowSeconds \<le> 0 then 1 else windowSeconds)
           in identity @ ''|'' @ itoa (unix_seconds now sdiv windowSeconds))"

definition jobKey :: "string \<Rightarrow> string \<Rightarrow> string \<Rightarrow> string" where
  "jobKey tenantName identity session =
     (let base = tenant_Key tenantName identity
      in itoa (int (length base)) @ '':'' @ base @ session)"

definition costKey :: "string \<Rightarrow> string \<Rightarrow> string \<Rightarrow> string" where
  "costKey tenantName identity session =
     (let base = tenant_Key tenantName identity
      in itoa (int (length base)) @ '':'' @ base @ session)"

definition taintKey :: "string \<Rightarrow> string \<Rightarrow> string \<Rightarrow> string" where
  "taintKey tenantName identity session =
     (let base = tenant_Key tenantName identity
      in itoa (int (length base)) @ '':'' @ base @ session)"

definition grantKey :: "string \<Rightarrow> string \<Rightarrow> string \<Rightarrow> string \<Rightarrow> string" where
  "grantKey tenantName identity session tool =
     (let base = tenant_Key tenantName identity
      in itoa (int (length base)) @ '':'' @ base @
         itoa (int (length session)) @ '':'' @ session @ tool)"

section \<open>The contract of a composite key\<close>

locale injective_key =
  fixes key :: "'a \<Rightarrow> string"
  assumes key_inj: "key a = key b \<Longrightarrow> a = b"
begin

lemma key_eq_iff: "key a = key b \<longleftrightarrow> a = b"
  using key_inj by blast

lemma key_upd: "(m(key a := v)) (key b) = (if b = a then v else m (key b))"
  by (simp add: key_eq_iff)

lemma key_upd_other: "b \<noteq> a \<Longrightarrow> (m(key a := v)) (key b) = m (key b)"
  by (simp add: key_eq_iff)

end

section \<open>Length prefixes\<close>

lemma length_prefix_inj:
  "itoa (int (length s)) @ CHR '':'' # s @ r = itoa (int (length s')) @ CHR '':'' # s' @ r'
     \<longleftrightarrow> s = s' \<and> r = r'"
proof
  assume eq: "itoa (int (length s)) @ CHR '':'' # s @ r
    = itoa (int (length s')) @ CHR '':'' # s' @ r'"
  then have "itoa (int (length s)) = itoa (int (length s'))" and rest: "s @ r = s' @ r'"
    using split_at_separator [OF eq] by (simp_all add: itoa_nat colon_notin_digits10)
  then have "length s = length s'" by (auto dest: itoa_inj)
  with rest show "s = s' \<and> r = r'" by simp
qed simp

text \<open>
  Two (tenant, identity) pairs have the same composite key only if they are the same pair,
  whatever bytes the tenant and the identity hold: no choice of separator-like characters lets
  one tenant's identity take another's key.
\<close>
theorem tenant_Key_injective:
  "tenant_Key t i = tenant_Key t' i' \<longleftrightarrow> t = t' \<and> i = i'"
  by (simp add: tenant_Key_def length_prefix_inj)

lemma tenant_Key_eq_iff [wardline_keys]: "tenant_Key t i = tenant_Key t' i' \<longleftrightarrow> t = t' \<and> i = i'"
  by (simp add: tenant_Key_def length_prefix_inj)

lemma jobKey_eq_iff [wardline_keys]:
  "jobKey t i s = jobKey t' i' s' \<longleftrightarrow> t = t' \<and> i = i' \<and> s = s'"
  by (simp add: jobKey_def Let_def length_prefix_inj tenant_Key_eq_iff)

lemma costKey_eq_iff [wardline_keys]:
  "costKey t i s = costKey t' i' s' \<longleftrightarrow> t = t' \<and> i = i' \<and> s = s'"
  by (simp add: costKey_def Let_def length_prefix_inj tenant_Key_eq_iff)

lemma taintKey_eq_iff [wardline_keys]:
  "taintKey t i s = taintKey t' i' s' \<longleftrightarrow> t = t' \<and> i = i' \<and> s = s'"
  by (simp add: taintKey_def Let_def length_prefix_inj tenant_Key_eq_iff)

lemma grantKey_eq_iff [wardline_keys]:
  "grantKey t i s u = grantKey t' i' s' u' \<longleftrightarrow> t = t' \<and> i = i' \<and> s = s' \<and> u = u'"
  by (simp add: grantKey_def Let_def length_prefix_inj tenant_Key_eq_iff)

interpretation tenant_key: injective_key "\<lambda>(t, i). tenant_Key t i"
  by unfold_locales (auto simp: wardline_keys)

interpretation job_key: injective_key "\<lambda>(t, i, s). jobKey t i s"
  by unfold_locales (auto simp: wardline_keys)

interpretation cost_key: injective_key "\<lambda>(t, i, s). costKey t i s"
  by unfold_locales (auto simp: wardline_keys)

interpretation taint_key: injective_key "\<lambda>(t, i, s). taintKey t i s"
  by unfold_locales (auto simp: wardline_keys)

interpretation grant_key: injective_key "\<lambda>(t, i, s, u). grantKey t i s u"
  by unfold_locales (auto simp: wardline_keys)

text \<open>
  The key of an approval grant determines the tenant, the identity, the session and the tool
  it was minted for.
\<close>
theorem grantKey_injective:
  "grantKey t i s u = grantKey t' i' s' u' \<longleftrightarrow> (t, i, s, u) = (t', i', s', u')"
  using grant_key.key_eq_iff [of "(t, i, s, u)" "(t', i', s', u')"] by simp

section \<open>Session identifiers\<close>

lemma SessionID_header [simp]: "h \<noteq> '''' \<Longrightarrow> SessionID h t i now w = h"
  by (simp add: SessionID_def)

lemma SessionID_fallback:
  "SessionID '''' t i now w = SessionID '''' t i now' w \<longleftrightarrow>
     unix_seconds now sdiv (if w \<le> 0 then 1 else w) = unix_seconds now' sdiv (if w \<le> 0 then 1 else w)"
  by (auto simp: SessionID_def Let_def dest: itoa_inj)

end
