(* ===== verification/Proxy_Request.thy ===== *)
theory Proxy_Request
  imports Json Policy Audit_Log Keys
begin

text \<open>
  The request side of the proxy: HTTP headers, caller identification
  (\<open>internal/features/proxy/adapter/identity.go\<close>), the parsed tool call
  (\<open>internal/features/proxy/domain/toolcall.go\<close>), JSON-RPC parsing (\<open>usecase/parse.go\<close>), the policy
  decision (\<open>usecase/decider.go\<close>) and the effect record of a call with its redaction
  (\<open>usecase/effect.go\<close>).

  Bodies are byte strings and go through the JSON model of the development. Texts of JSON errors are
  not modelled; a parse failure is a value of \<open>parse_error\<close>. The map a \<open>range\<close> loop fills pointwise is
  given pointwise.
\<close>

section \<open>Headers\<close>

text \<open>Header values by canonical name, as \<open>net/http\<close> stores them.\<close>

type_synonym headers = "string \<Rightarrow> string list"

definition is_lower :: "char \<Rightarrow> bool" where
  "is_lower c \<longleftrightarrow> 97 \<le> byte c \<and> byte c \<le> 122"

definition is_upper :: "char \<Rightarrow> bool" where
  "is_upper c \<longleftrightarrow> 65 \<le> byte c \<and> byte c \<le> 90"

definition token_char :: "char \<Rightarrow> bool" where
  "token_char c \<longleftrightarrow> is_lower c \<or> is_upper c \<or> is_digit c \<or> byte c \<in> {33, 35, 36, 37, 38, 39, 42, 43, 45, 46, 94, 95, 96, 124, 126}"

fun canonical_letters :: "bool \<Rightarrow> string \<Rightarrow> string" where
  "canonical_letters up [] = []"
| "canonical_letters up (c # cs) =
     (if up \<and> is_lower c then char_of (byte c - 32) else if \<not> up \<and> is_upper c then char_of (byte c + 32) else c)
     # canonical_letters (c = CHR ''-'') cs"

definition CanonicalMIMEHeaderKey :: "string \<Rightarrow> string" where
  "CanonicalMIMEHeaderKey k = (if list_all token_char k then canonical_letters True k else k)"

definition Header_Get :: "headers \<Rightarrow> string \<Rightarrow> string" where
  "Header_Get h k = (case h (CanonicalMIMEHeaderKey k) of [] \<Rightarrow> '''' | v # _ \<Rightarrow> v)"

definition Header_Del :: "string \<Rightarrow> headers \<Rightarrow> headers" where
  "Header_Del k h = h(CanonicalMIMEHeaderKey k := [])"

record http_request =
  rq_RemoteAddr :: string
  rq_Header :: headers
  rq_Body :: string
  rq_BodyBroken :: bool \<comment> \<open>reading the body fails\<close>

section \<open>White space\<close>

text \<open>\<open>unicode.IsSpace\<close>: the encodings of the white space characters.\<close>

definition space_chars :: "string list" where
  "space_chars = map (\<lambda>b. [char_of b]) [9, 10, 11, 12, 13, 32 :: nat] @
     map utf8_encode ([133, 160, 5760] @ [8192..<8203] @ [8232, 8233, 8239, 8287, 12288])"

function trim_prefixes :: "string list \<Rightarrow> string \<Rightarrow> string" where
  "trim_prefixes ws s =
     (case find (\<lambda>w. w \<noteq> [] \<and> prefix w s) ws of None \<Rightarrow> s | Some w \<Rightarrow> trim_prefixes ws (drop (length w) s))"
  by pat_completeness auto
termination
  by (relation "measure (\<lambda>(ws, s). length s)") (auto simp: find_Some_iff prefix_def)

declare trim_prefixes.simps [simp del]

text \<open>\<open>strings.TrimSpace\<close>: the encodings are valid and start with a byte that does not continue another, so
  trimming a suffix that is one of them is trimming the last character.\<close>

definition TrimSpace :: "string \<Rightarrow> string" where
  "TrimSpace s = rev (trim_prefixes (map rev space_chars) (rev (trim_prefixes space_chars s)))"


section \<open>Caller identification\<close>

definition SessionCookieName :: string where
  "SessionCookieName = ''wardline_session''"

definition HeaderIdentity_Authenticate :: "http_request \<Rightarrow> string \<times> string" where
  "HeaderIdentity_Authenticate r =
     (let t = Header_Get (rq_Header r) ''X-Wardline-Tenant'';
          t = (if t = '''' then tenant_Default else t)
      in (Header_Get (rq_Header r) ''X-Wardline-Identity'', t))"

datatype 'e identity_error =
    MissingBearerToken
  | AuthenticatorError 'e

definition CutPrefix :: "string \<Rightarrow> string \<Rightarrow> string option" where
  "CutPrefix p s = (if prefix p s then Some (drop (length p) s) else None)"

text \<open>
  \<open>cookie\<close> is what \<open>net/http\<close> reads out of the Cookie header lines for a name. \<open>authenticate\<close> is the
  credential feature's token check.
\<close>

definition bearerIdentity_Authenticate ::
  "(string list \<Rightarrow> string \<Rightarrow> string option) \<Rightarrow> (string \<Rightarrow> 's \<Rightarrow> ('e + string \<times> string) \<times> 's) \<Rightarrow>
   http_request \<Rightarrow> 's \<Rightarrow> ('e identity_error + string \<times> string) \<times> 's" where
  "bearerIdentity_Authenticate cookie authenticate r s =
     (let wrap = (\<lambda>(res, s). (case res of Inl e \<Rightarrow> Inl (AuthenticatorError e) | Inr it \<Rightarrow> Inr it, s))
      in case CutPrefix ''Bearer '' (Header_Get (rq_Header r) ''Authorization'') of
           Some token \<Rightarrow> wrap (authenticate token s)
         | None \<Rightarrow>
             (case cookie (rq_Header r ''Cookie'') SessionCookieName of
                Some v \<Rightarrow> if v \<noteq> '''' then wrap (authenticate v s) else (Inl MissingBearerToken, s)
              | None \<Rightarrow> (Inl MissingBearerToken, s)))"

section \<open>Tool calls and verdicts\<close>

record ToolCall =
  tcl_Identity :: string
  tcl_Tenant :: string
  tcl_Tool :: string
  tcl_Method :: string
  tcl_Params :: string
  tcl_Timestamp :: go_time
  tcl_RemoteAddr :: string
  tcl_UserAgent :: string
  tcl_SessionID :: string

definition zero_ToolCall :: ToolCall where
  "zero_ToolCall = \<lparr>tcl_Identity = '''', tcl_Tenant = '''', tcl_Tool = '''', tcl_Method = '''',
     tcl_Params = '''', tcl_Timestamp = 0, tcl_RemoteAddr = '''', tcl_UserAgent = '''', tcl_SessionID = ''''\<rparr>"

datatype Outcome = OutcomeAllow | OutcomeDeny | OutcomeNeedsApproval

record Verdict =
  vd_Allow :: bool
  vd_Outcome :: Outcome
  vd_Reason :: string
  vd_TaintSources :: "string list"

record TaintSignal =
  sig_Tainted :: bool
  sig_Sources :: "string list"

record ParsedRequest =
  pr_Call :: ToolCall
  pr_Method :: string
  pr_ID :: string
  pr_IsToolCall :: bool
  pr_IsGated :: bool

section \<open>Parsing a JSON-RPC body\<close>

definition nullID :: string where
  "nullID = ''null''"

definition methodToolsCall :: string where
  "methodToolsCall = ''tools/call''"

datatype parse_error =
    ParseBody
  | MissingMethod
  | ParseParams
  | MissingToolName

record jsonRPCEnvelope =
  env_ID :: string
  env_Method :: string
  env_Params :: string

definition decode_envelope :: "string \<Rightarrow> jsonRPCEnvelope option" where
  "decode_envelope body =
     (case struct_members body of
        None \<Rightarrow> None
      | Some ms \<Rightarrow> map_option (\<lambda>m. \<lparr>env_ID = raw_field ''id'' ms, env_Method = m, env_Params = raw_field ''params'' ms\<rparr>)
                    (string_field ''method'' ms))"

text \<open>The target parameters: the fields \<open>name\<close> and \<open>uri\<close>.\<close>

definition decode_target :: "string \<Rightarrow> (string \<times> string) option" where
  "decode_target params =
     (case struct_members params of
        None \<Rightarrow> None
      | Some ms \<Rightarrow>
          (case (string_field ''name'' ms, string_field ''uri'' ms) of
             (Some name, Some uri) \<Rightarrow> Some (name, uri)
           | _ \<Rightarrow> None))"

definition isGatedMethod :: "string \<Rightarrow> bool" where
  "isGatedMethod m \<longleftrightarrow> m = methodToolsCall \<or> prefix ''resources/'' m \<or> prefix ''prompts/'' m"

definition failed_request :: "string \<Rightarrow> ParsedRequest" where
  "failed_request i = \<lparr>pr_Call = zero_ToolCall, pr_Method = '''', pr_ID = i, pr_IsToolCall = False, pr_IsGated = False\<rparr>"

definition gated_request ::
  "string \<Rightarrow> string \<Rightarrow> string \<Rightarrow> jsonRPCEnvelope \<Rightarrow> string \<Rightarrow> bool \<Rightarrow> ParsedRequest" where
  "gated_request identity tenantName target env i isToolCall =
     \<lparr>pr_Call = zero_ToolCall\<lparr>tcl_Identity := identity, tcl_Tenant := tenantName, tcl_Tool := target,
        tcl_Method := env_Method env, tcl_Params := env_Params env\<rparr>,
      pr_Method = env_Method env, pr_ID = i, pr_IsToolCall = isToolCall, pr_IsGated = True\<rparr>"

definition ParseRequest :: "string \<Rightarrow> string \<Rightarrow> string \<Rightarrow> ParsedRequest \<times> parse_error option" where
  "ParseRequest identity tenantName body =
     (case decode_envelope body of
        None \<Rightarrow> (failed_request nullID, Some ParseBody)
      | Some env \<Rightarrow>
          let i = (if env_ID env = '''' then nullID else env_ID env)
          in if env_Method env = '''' then (failed_request i, Some MissingMethod)
             else if \<not> isGatedMethod (env_Method env)
             then (\<lparr>pr_Call = zero_ToolCall, pr_Method = env_Method env, pr_ID = i, pr_IsToolCall = False,
                    pr_IsGated = False\<rparr>, None)
             else
               case (if env_Params env = '''' then Some ('''', '''') else decode_target (env_Params env)) of
                 None \<Rightarrow> (failed_request i, Some ParseParams)
               | Some (name, uri) \<Rightarrow>
                   if env_Method env = methodToolsCall then
                     if name = '''' then (failed_request i, Some MissingToolName)
                     else (gated_request identity tenantName name env i True, None)
                   else (gated_request identity tenantName (if name = '''' then uri else name) env i False, None))"

section \<open>The decider\<close>

record 's Decider =
  dc_policy :: "string Context \<Rightarrow> Decision"
  dc_taint :: "(ToolCall \<Rightarrow> 's \<Rightarrow> TaintSignal) option"
  dc_jobBudget :: "(ToolCall \<Rightarrow> 's \<Rightarrow> bool) option"
  dc_costBudget :: "(ToolCall \<Rightarrow> 's \<Rightarrow> bool) option"

definition policy_context :: "ToolCall \<Rightarrow> bool \<Rightarrow> bool \<Rightarrow> bool \<Rightarrow> string Context" where
  "policy_context call tainted jobOver costOver =
     \<lparr>ctx_Identity = tcl_Identity call, ctx_Tool = tcl_Tool call, ctx_Params = tcl_Params call,
      ctx_Timestamp = tcl_Timestamp call, ctx_RemoteAddr = tcl_RemoteAddr call,
      ctx_UserAgent = tcl_UserAgent call, ctx_Tenant = tcl_Tenant call, ctx_Method = tcl_Method call,
      ctx_Tainted = tainted, ctx_JobOverBudget = jobOver, ctx_CostOverBudget = costOver\<rparr>"

definition Decide :: "'s Decider \<Rightarrow> ToolCall \<Rightarrow> 's \<Rightarrow> Verdict" where
  "Decide d call s =
     (let taint = (case dc_taint d of None \<Rightarrow> \<lparr>sig_Tainted = False, sig_Sources = []\<rparr> | Some f \<Rightarrow> f call s);
          pc = policy_context call (sig_Tainted taint)
                 (case dc_jobBudget d of None \<Rightarrow> False | Some f \<Rightarrow> f call s)
                 (case dc_costBudget d of None \<Rightarrow> False | Some f \<Rightarrow> f call s);
          decision = dc_policy d pc;
          outcome = (case dec_Effect decision of
                       EffectAllow \<Rightarrow> OutcomeAllow
                     | EffectNeedsApproval \<Rightarrow> OutcomeNeedsApproval
                     | _ \<Rightarrow> OutcomeDeny)
      in \<lparr>vd_Allow = (outcome = OutcomeAllow), vd_Outcome = outcome, vd_Reason = dec_Reason decision,
          vd_TaintSources = (if sig_Tainted taint then sig_Sources taint else [])\<rparr>)"

section \<open>The recorded effect of a call\<close>

definition secretKeyHints :: "string list" where
  "secretKeyHints = [''password'', ''passwd'', ''secret'', ''token'', ''apikey'', ''api_key'', ''authorization'',
     ''auth'', ''credential'', ''private_key'', ''access_key'']"

text \<open>
  \<open>strings.ToLower\<close>, as far as a search for ASCII text can tell: ASCII letters, and the two other
  letters whose lower case is ASCII (the Kelvin sign and the dotted capital I). Any other
  multi-byte letter stays outside ASCII.
\<close>

fun ToLower :: "string \<Rightarrow> string" where
  "ToLower [] = []"
| "ToLower (c # cs) =
     (if is_upper c then char_of (byte c + 32) # ToLower cs
      else if byte c = 226 \<and> (case cs of d # e # _ \<Rightarrow> byte d = 132 \<and> byte e = 170 | _ \<Rightarrow> False)
      then CHR ''k'' # ToLower (drop 2 cs)
      else if byte c = 196 \<and> (case cs of d # _ \<Rightarrow> byte d = 176 | [] \<Rightarrow> False) then CHR ''i'' # ToLower (drop 1 cs)
      else c # ToLower cs)"

definition sensitive_key :: "string \<Rightarrow> bool" where
  "sensitive_key k = list_ex (\<lambda>hint. sublist hint (ToLower k)) secretKeyHints"

definition RedactSecrets :: "(string \<rightharpoonup> string) \<Rightarrow> (string \<rightharpoonup> string)" where
  "RedactSecrets args =
     (\<lambda>k. case args k of None \<Rightarrow> None | Some v \<Rightarrow> Some (if sensitive_key k then ''[REDACTED]'' else v))"

definition shallow_value :: "string \<Rightarrow> string" where
  "shallow_value text =
     (if 2 \<le> length text \<and> hd text = CHR 0x22 \<and> last text = CHR 0x22
      then case json_scan text of Some (_, JString unq) \<Rightarrow> unq | _ \<Rightarrow> text
      else text)"

definition shallowParams :: "string \<Rightarrow> (string \<rightharpoonup> string)" where
  "shallowParams raw =
     (if raw = '''' then Map.empty
      else case struct_members raw of
             None \<Rightarrow> Map.empty
           | Some ms \<Rightarrow> map_of (rev (map (\<lambda>(k, text, _). (k, shallow_value text)) ms)))"

record EffectSignal =
  es_ResponseStatus :: int
  es_RPCError :: bool
  es_NoOpSignal :: bool

definition opName :: "ParsedRequest \<Rightarrow> string" where
  "opName req = (if tcl_Method (pr_Call req) \<noteq> '''' then tcl_Method (pr_Call req) else pr_Method req)"

definition ExtractEffect ::
  "ParsedRequest \<Rightarrow> EffectSignal \<Rightarrow> ((string \<rightharpoonup> string) \<Rightarrow> (string \<rightharpoonup> string)) option \<Rightarrow>
   audit_Effect option \<times> EffectStatus" where
  "ExtractEffect req sig redact =
     (if \<not> pr_IsToolCall req then (None, EffectStatusNotAWrite)
      else
        let args = shallowParams (tcl_Params (pr_Call req));
            args = (case redact of None \<Rightarrow> args | Some f \<Rightarrow> f args);
            eff = \<lparr>eff_Target = tcl_Tool (pr_Call req), eff_ClaimedOp = opName req, eff_ClaimedArgs = args,
                   eff_ResponseStatus = es_ResponseStatus sig, eff_RPCError = es_RPCError sig,
                   eff_NoOpSignal = es_NoOpSignal sig\<rparr>
        in (Some eff,
            if es_RPCError sig \<or> es_NoOpSignal sig \<or> 400 \<le> es_ResponseStatus sig
            then EffectStatusContradicted else EffectStatusUnconfirmed))"

section \<open>Lemmas on parsing\<close>

lemma ParseRequest_ok:
  assumes "ParseRequest i t body = (p, None)"
  obtains env where "decode_envelope body = Some env" and "pr_Method p = env_Method env"
    and "env_Method env \<noteq> ''''" and "pr_IsGated p = isGatedMethod (env_Method env)"
    and "pr_IsToolCall p = (env_Method env = methodToolsCall)"
  using assms
  by (auto simp: ParseRequest_def gated_request_def isGatedMethod_def
      split: option.splits if_splits)

lemma ParseRequest_gated_call:
  assumes "ParseRequest i t body = (p, None)" and "pr_IsGated p"
  shows "tcl_Identity (pr_Call p) = i" "tcl_Tenant (pr_Call p) = t" "tcl_Method (pr_Call p) = pr_Method p"
    "pr_IsToolCall p \<Longrightarrow> tcl_Tool (pr_Call p) \<noteq> ''''" "tcl_SessionID (pr_Call p) = ''''"
  using assms by (auto simp: ParseRequest_def gated_request_def zero_ToolCall_def split: option.splits if_splits)

lemma ParseRequest_toolcall_gated: "ParseRequest i t body = (p, None) \<Longrightarrow> pr_IsToolCall p \<Longrightarrow> pr_IsGated p"
  by (auto simp: ParseRequest_def gated_request_def split: option.splits if_splits)

section \<open>Lemmas on effects\<close>

lemma RedactSecrets_dom: "dom (RedactSecrets args) = dom args"
  by (auto simp: RedactSecrets_def dom_def split: option.splits)

text \<open>An effect in which the value under every sensitive key is masked.\<close>

definition effect_redacted :: "audit_Effect option \<Rightarrow> bool" where
  "effect_redacted oe \<longleftrightarrow>
     (\<forall>eff k v. oe = Some eff \<longrightarrow> sensitive_key k \<longrightarrow> eff_ClaimedArgs eff k = Some v \<longrightarrow> v = ''[REDACTED]'')"

lemma effect_redacted_None [simp]: "effect_redacted None"
  by (simp add: effect_redacted_def)

lemma ExtractEffect_redacted: "effect_redacted (fst (ExtractEffect req sig (Some RedactSecrets)))"
  by (auto simp: effect_redacted_def ExtractEffect_def RedactSecrets_def split: option.splits if_splits)

lemma ExtractEffect_not_confirmed: "snd (ExtractEffect req sig redact) \<noteq> EffectStatusConfirmed"
  by (simp add: ExtractEffect_def)

end
