(* ===== verification/Approval.thy ===== *)
theory Approval
  imports Keys
begin

text \<open>
  The approval workflow: requests, grants and the store interface
  (\<open>internal/features/approval/domain\<close>), the manager (\<open>usecase/manager.go\<close>), the in-memory store
  (\<open>adapter/inmemory_store.go\<close>) and the operator's HTTP surface (\<open>adapter/http_handler.go\<close>).

  The clock reading and the fresh id of a manager operation are its arguments. The locale
  \<open>approval_store\<close> is the store's contract; the manager's sequential behaviour is proved in it.
  Approving is two store calls, each under the store's own mutex, so the last part models the
  manager's threads as a step relation that interleaves them.
\<close>

section \<open>Requests, grants and configuration\<close>

datatype approval_Status = StatusPending | StatusApproved | StatusDenied

record approval_Request =
  ar_ID :: string
  ar_Identity :: string
  ar_Tenant :: string
  ar_Tool :: string
  ar_Method :: string
  ar_Params :: "string \<rightharpoonup> string"
  ar_Session :: string
  ar_CreatedAt :: go_time
  ar_Status :: approval_Status
  ar_DecidedAt :: go_time
  ar_DecidedBy :: string

record Grant =
  g_Key :: string
  g_ExpiresAt :: go_time

definition DefaultGrantTTLSeconds :: int where
  "DefaultGrantTTLSeconds = 300"

definition Config_GrantTTL :: "int \<Rightarrow> int" where
  "Config_GrantTTL grantTTLSeconds =
     (if grantTTLSeconds \<le> 0 then DefaultGrantTTLSeconds else grantTTLSeconds)"

datatype store_error =
    RequestAlreadyExists string
  | RequestNotFound string
  | RequestAlready string approval_Status

datatype manager_error =
    EnqueueFailed store_error
  | ApproveFailed string store_error
  | DenyFailed string store_error

section \<open>The store\<close>

record 's approval_Store =
  as_CreateRequest :: "approval_Request \<Rightarrow> 's \<Rightarrow> store_error option \<times> 's"
  as_GetRequest :: "'s \<Rightarrow> string \<Rightarrow> approval_Request option"
  as_ListPending :: "string \<Rightarrow> 's \<Rightarrow> approval_Request list"
  as_DecideRequest ::
    "string \<Rightarrow> approval_Status \<Rightarrow> string \<Rightarrow> go_time \<Rightarrow> 's \<Rightarrow> (store_error + approval_Request) \<times> 's"
  as_PutGrant :: "Grant \<Rightarrow> 's \<Rightarrow> 's"
  as_ConsumeGrant :: "string \<Rightarrow> go_time \<Rightarrow> 's \<Rightarrow> Grant option \<times> 's"

record approval_InMemoryStore =
  am_requests :: "string \<rightharpoonup> approval_Request"
  am_grants :: "string \<rightharpoonup> Grant"

definition approval_NewInMemoryStore :: approval_InMemoryStore where
  "approval_NewInMemoryStore = \<lparr>am_requests = Map.empty, am_grants = Map.empty\<rparr>"

definition CreateRequest ::
  "approval_Request \<Rightarrow> approval_InMemoryStore \<Rightarrow> store_error option \<times> approval_InMemoryStore" where
  "CreateRequest r s =
     (case am_requests s (ar_ID r) of
        Some _ \<Rightarrow> (Some (RequestAlreadyExists (ar_ID r)), s)
      | None \<Rightarrow> (None, s\<lparr>am_requests := (am_requests s)(ar_ID r \<mapsto> r)\<rparr>))"

definition GetRequest :: "approval_InMemoryStore \<Rightarrow> string \<Rightarrow> approval_Request option" where
  "GetRequest s i = am_requests s i"

text \<open>The loop over the request map visits its keys in the order \<open>ks\<close>.\<close>

definition store_ListPending ::
  "string list \<Rightarrow> string \<Rightarrow> approval_InMemoryStore \<Rightarrow> approval_Request list" where
  "store_ListPending ks tenant s =
     filter (\<lambda>r. ar_Status r = StatusPending \<and> (tenant = '''' \<or> ar_Tenant r = tenant))
       (map snd (range_entries ks (am_requests s)))"

definition DecideRequest ::
  "string \<Rightarrow> approval_Status \<Rightarrow> string \<Rightarrow> go_time \<Rightarrow> approval_InMemoryStore \<Rightarrow>
   (store_error + approval_Request) \<times> approval_InMemoryStore" where
  "DecideRequest i status decidedBy now s =
     (case am_requests s i of
        None \<Rightarrow> (Inl (RequestNotFound i), s)
      | Some r \<Rightarrow>
          if ar_Status r \<noteq> StatusPending then (Inl (RequestAlready i (ar_Status r)), s)
          else let r = r\<lparr>ar_Status := status, ar_DecidedBy := decidedBy, ar_DecidedAt := now\<rparr>
               in (Inr r, s\<lparr>am_requests := (am_requests s)(i \<mapsto> r)\<rparr>))"

definition PutGrant :: "Grant \<Rightarrow> approval_InMemoryStore \<Rightarrow> approval_InMemoryStore" where
  "PutGrant g s = s\<lparr>am_grants := (am_grants s)(g_Key g \<mapsto> g)\<rparr>"

definition ConsumeGrant ::
  "string \<Rightarrow> go_time \<Rightarrow> approval_InMemoryStore \<Rightarrow> Grant option \<times> approval_InMemoryStore" where
  "ConsumeGrant key now s =
     (case am_grants s key of
        None \<Rightarrow> (None, s)
      | Some g \<Rightarrow>
          let s = s\<lparr>am_grants := (am_grants s)(key := None)\<rparr>
          in if time_after now (g_ExpiresAt g) then (None, s) else (Some g, s))"

definition inmemory_approval_Store :: "string list \<Rightarrow> approval_InMemoryStore approval_Store" where
  "inmemory_approval_Store ks = \<lparr>as_CreateRequest = CreateRequest, as_GetRequest = GetRequest,
     as_ListPending = store_ListPending ks, as_DecideRequest = DecideRequest,
     as_PutGrant = PutGrant, as_ConsumeGrant = ConsumeGrant\<rparr>"

section \<open>The manager\<close>

record approval_Result =
  res_Approved :: bool
  res_PendingID :: string

record 's Manager =
  mg_store :: "'s approval_Store"
  mg_grantTTL :: duration

definition NewManager :: "'s approval_Store \<Rightarrow> duration \<Rightarrow> 's Manager" where
  "NewManager store grantTTL = \<lparr>mg_store = store, mg_grantTTL = grantTTL\<rparr>"

definition new_request ::
  "string \<Rightarrow> string \<Rightarrow> string \<Rightarrow> string \<Rightarrow> string \<Rightarrow> string \<Rightarrow> (string \<rightharpoonup> string) \<Rightarrow> go_time \<Rightarrow> approval_Request" where
  "new_request i tenant identity tool method session params now =
     \<lparr>ar_ID = i, ar_Identity = identity, ar_Tenant = tenant, ar_Tool = tool, ar_Method = method,
      ar_Params = params, ar_Session = session, ar_CreatedAt = now, ar_Status = StatusPending,
      ar_DecidedAt = 0, ar_DecidedBy = ''''\<rparr>"

definition OnNeedsApproval ::
  "'s Manager \<Rightarrow> string \<Rightarrow> string \<Rightarrow> string \<Rightarrow> string \<Rightarrow> string \<Rightarrow> (string \<rightharpoonup> string) \<Rightarrow> go_time \<Rightarrow> string \<Rightarrow>
   's \<Rightarrow> (manager_error + approval_Result) \<times> 's" where
  "OnNeedsApproval m tenant identity tool method session params now newID s =
     (let key = grantKey tenant identity session tool;
          (g, s) = as_ConsumeGrant (mg_store m) key now s
      in case g of
           Some _ \<Rightarrow> (Inr \<lparr>res_Approved = True, res_PendingID = ''''\<rparr>, s)
         | None \<Rightarrow>
             let req = new_request newID tenant identity tool method session params now;
                 (err, s) = as_CreateRequest (mg_store m) req s
             in case err of
                  Some e \<Rightarrow> (Inl (EnqueueFailed e), s)
                | None \<Rightarrow> (Inr \<lparr>res_Approved = False, res_PendingID = newID\<rparr>, s))"

definition granted :: "duration \<Rightarrow> approval_Request \<Rightarrow> go_time \<Rightarrow> Grant" where
  "granted grantTTL req now =
     \<lparr>g_Key = grantKey (ar_Tenant req) (ar_Identity req) (ar_Session req) (ar_Tool req),
      g_ExpiresAt = now + grantTTL\<rparr>"

definition Approve ::
  "'s Manager \<Rightarrow> string \<Rightarrow> string \<Rightarrow> go_time \<Rightarrow> 's \<Rightarrow> manager_error option \<times> 's" where
  "Approve m i decidedBy now s =
     (case as_DecideRequest (mg_store m) i StatusApproved decidedBy now s of
        (Inl err, s) \<Rightarrow> (Some (ApproveFailed i err), s)
      | (Inr req, s) \<Rightarrow> (None, as_PutGrant (mg_store m) (granted (mg_grantTTL m) req now) s))"

definition Deny ::
  "'s Manager \<Rightarrow> string \<Rightarrow> string \<Rightarrow> go_time \<Rightarrow> 's \<Rightarrow> manager_error option \<times> 's" where
  "Deny m i decidedBy now s =
     (case as_DecideRequest (mg_store m) i StatusDenied decidedBy now s of
        (Inl err, s) \<Rightarrow> (Some (DenyFailed i err), s)
      | (Inr _, s) \<Rightarrow> (None, s))"

definition Manager_ListPending :: "'s Manager \<Rightarrow> string \<Rightarrow> 's \<Rightarrow> approval_Request list" where
  "Manager_ListPending m tenant s = as_ListPending (mg_store m) tenant s"

section \<open>The operator surface\<close>

text \<open>
  The three registered routes, and every other request, which the mux answers without calling a
  handler. The loopback test on the remote address and the optional authorizer are arguments.
\<close>

datatype approval_route =
    GetPending
  | PostApprove string
  | PostDeny string
  | NoApprovalRoute

datatype approval_response =
    PendingList "approval_Request list"
  | NoContent
  | ErrorJSON int string
  | MuxNotFound

definition approval_guard ::
  "('r \<Rightarrow> bool) \<Rightarrow> ('r \<Rightarrow> bool) option \<Rightarrow> 'r \<Rightarrow> ('s \<Rightarrow> approval_response \<times> 's) \<Rightarrow> 's \<Rightarrow> approval_response \<times> 's"
where
  "approval_guard isLoopback authorizer r nxt s =
     (if \<not> isLoopback r \<and> (case authorizer of None \<Rightarrow> True | Some f \<Rightarrow> \<not> f r)
      then (ErrorJSON 403 ''forbidden'', s)
      else nxt s)"

definition approval_NewHTTPHandler ::
  "'s Manager \<Rightarrow> ('r \<Rightarrow> bool) \<Rightarrow> ('r \<Rightarrow> bool) option \<Rightarrow> ('r \<Rightarrow> approval_route) \<Rightarrow> 'r \<Rightarrow> go_time \<Rightarrow> 's \<Rightarrow>
   approval_response \<times> 's" where
  "approval_NewHTTPHandler m isLoopback authorizer route r now s =
     (case route r of
        GetPending \<Rightarrow>
          approval_guard isLoopback authorizer r (\<lambda>s. (PendingList (Manager_ListPending m '''' s), s)) s
      | PostApprove i \<Rightarrow>
          approval_guard isLoopback authorizer r
            (\<lambda>s. case Approve m i ''loopback'' now s of
                   (Some _, s) \<Rightarrow> (ErrorJSON 404 ''unknown or already-decided approval'', s)
                 | (None, s) \<Rightarrow> (NoContent, s)) s
      | PostDeny i \<Rightarrow>
          approval_guard isLoopback authorizer r
            (\<lambda>s. case Deny m i ''loopback'' now s of
                   (Some _, s) \<Rightarrow> (ErrorJSON 404 ''unknown or already-decided approval'', s)
                 | (None, s) \<Rightarrow> (NoContent, s)) s
      | NoApprovalRoute \<Rightarrow> (MuxNotFound, s))"

section \<open>The contract of an approval store\<close>

text \<open>
  \<open>grant_of\<close> is the store's view of its live grants. A consumed grant is gone whether or not it was
  still valid, a decision is final, and requests and grants do not disturb each other.
\<close>

definition live_grant :: "Grant option \<Rightarrow> go_time \<Rightarrow> Grant option" where
  "live_grant g now = (case g of Some g \<Rightarrow> if g_ExpiresAt g < now then None else Some g | None \<Rightarrow> None)"

definition decided :: "approval_Status \<Rightarrow> string \<Rightarrow> go_time \<Rightarrow> approval_Request \<Rightarrow> approval_Request" where
  "decided status decidedBy now r =
     r\<lparr>ar_Status := status, ar_DecidedBy := decidedBy, ar_DecidedAt := now\<rparr>"

locale approval_store =
  fixes store :: "'s approval_Store"
    and grant_of :: "'s \<Rightarrow> string \<Rightarrow> Grant option"
  assumes consume_result: "fst (as_ConsumeGrant store k now s) = live_grant (grant_of s k) now"
    and consume_grants: "grant_of (snd (as_ConsumeGrant store k now s)) = (grant_of s)(k := None)"
    and consume_requests: "as_GetRequest store (snd (as_ConsumeGrant store k now s)) = as_GetRequest store s"
    and put_grants: "grant_of (as_PutGrant store g s) = (grant_of s)(g_Key g \<mapsto> g)"
    and put_requests: "as_GetRequest store (as_PutGrant store g s) = as_GetRequest store s"
    and create_result: "fst (as_CreateRequest store r s) =
          (if as_GetRequest store s (ar_ID r) = None then None else Some (RequestAlreadyExists (ar_ID r)))"
    and create_requests: "as_GetRequest store (snd (as_CreateRequest store r s)) =
          (if as_GetRequest store s (ar_ID r) = None then (as_GetRequest store s)(ar_ID r \<mapsto> r)
           else as_GetRequest store s)"
    and create_grants: "grant_of (snd (as_CreateRequest store r s)) = grant_of s"
    and decide_pending: "as_GetRequest store s i = Some r \<Longrightarrow> ar_Status r = StatusPending \<Longrightarrow>
          fst (as_DecideRequest store i status who now s) = Inr (decided status who now r) \<and>
          as_GetRequest store (snd (as_DecideRequest store i status who now s)) =
            (as_GetRequest store s)(i \<mapsto> decided status who now r)"
    and decide_refused: "(\<And>r. as_GetRequest store s i = Some r \<Longrightarrow> ar_Status r \<noteq> StatusPending) \<Longrightarrow>
          \<exists>e. as_DecideRequest store i status who now s = (Inl e, s)"
    and decide_grants: "grant_of (snd (as_DecideRequest store i status who now s)) = grant_of s"
begin

abbreviation mgr :: "duration \<Rightarrow> 's Manager" where
  "mgr \<equiv> NewManager store"

lemma needs_approval_grants:
  "grant_of (snd (OnNeedsApproval (mgr ttl) t i tool meth u ps now newID s)) =
     (grant_of s)(grantKey t i u tool := None)"
  by (simp add: OnNeedsApproval_def NewManager_def case_prod_beta consume_grants create_grants
      split: option.split)

lemma admitted_iff:
  "fst (OnNeedsApproval (mgr ttl) t i tool meth u ps now newID s) = Inr \<lparr>res_Approved = True, res_PendingID = p\<rparr>
   \<longleftrightarrow> p = '''' \<and> live_grant (grant_of s (grantKey t i u tool)) now \<noteq> None"
  using consume_result [of "grantKey t i u tool" now s]
  by (auto simp: OnNeedsApproval_def NewManager_def case_prod_beta split: option.splits)

text \<open>Without a live grant, the call is held: its request is stored as pending, under a fresh id.\<close>

lemma held_result:
  assumes "live_grant (grant_of s (grantKey t i u tool)) now = None"
    and "as_GetRequest store s newID = None"
  shows "fst (OnNeedsApproval (mgr ttl) t i tool meth u ps now newID s) =
           Inr \<lparr>res_Approved = False, res_PendingID = newID\<rparr>"
    and "as_GetRequest store (snd (OnNeedsApproval (mgr ttl) t i tool meth u ps now newID s)) =
           (as_GetRequest store s)(newID \<mapsto> new_request newID t i tool meth u ps now)"
  using assms consume_result [of "grantKey t i u tool" now s]
  by (simp_all add: OnNeedsApproval_def NewManager_def case_prod_beta create_result create_requests
      consume_requests new_request_def)

lemma approve_pending:
  assumes "as_GetRequest store s i = Some r" and "ar_Status r = StatusPending"
  shows "fst (Approve (mgr ttl) i who now s) = None"
    and "grant_of (snd (Approve (mgr ttl) i who now s)) =
           (grant_of s)(g_Key (granted ttl r now) \<mapsto> granted ttl r now)"
    and "as_GetRequest store (snd (Approve (mgr ttl) i who now s)) =
           (as_GetRequest store s)(i \<mapsto> decided StatusApproved who now r)"
  using decide_pending [OF assms, where status = StatusApproved and who = who and now = now]
    decide_grants [where i = i and status = StatusApproved and who = who and now = now and s = s]
  by (auto simp: Approve_def NewManager_def put_grants put_requests granted_def decided_def
      split: prod.splits sum.splits)

lemma approve_refused:
  assumes "\<And>r. as_GetRequest store s i = Some r \<Longrightarrow> ar_Status r \<noteq> StatusPending"
  shows "\<exists>e. Approve (mgr ttl) i who now s = (Some (ApproveFailed i e), s)"
  using decide_refused [where s = s and i = i and status = StatusApproved and who = who and now = now] assms
  by (auto simp: Approve_def NewManager_def)

lemma deny_grants: "grant_of (snd (Deny (mgr ttl) i who now s)) = grant_of s"
  using decide_grants [where i = i and status = StatusDenied and who = who and now = now and s = s]
  by (auto simp: Deny_def NewManager_def split: prod.splits sum.splits)

text \<open>The approval round trip: held, approved, admitted once, held again.\<close>

lemma approval_roundtrip:
  assumes fresh: "as_GetRequest store s newID = None"
    and none: "live_grant (grant_of s (grantKey t i u tool)) now0 = None"
    and s1: "s1 = snd (OnNeedsApproval (mgr ttl) t i tool meth u ps now0 newID s)"
    and s2: "s2 = snd (Approve (mgr ttl) newID who now1 s1)"
    and s3: "s3 = snd (OnNeedsApproval (mgr ttl) t i tool meth' u ps' now2 newID' s2)"
    and in_time: "now2 \<le> now1 + ttl"
  shows "fst (OnNeedsApproval (mgr ttl) t i tool meth' u ps' now2 newID' s2) =
           Inr \<lparr>res_Approved = True, res_PendingID = ''''\<rparr>"
    and "fst (OnNeedsApproval (mgr ttl) t i tool meth'' u ps'' now3 newID'' s3) \<noteq>
           Inr \<lparr>res_Approved = True, res_PendingID = p\<rparr>"
proof -
  have req: "as_GetRequest store s1 newID = Some (new_request newID t i tool meth u ps now0)"
    using held_result(2) [OF none fresh] by (simp add: s1)
  have "grant_of s2 (grantKey t i u tool) =
      Some (granted ttl (new_request newID t i tool meth u ps now0) now1)"
    using approve_pending(2) [OF req] by (simp add: s2 new_request_def granted_def)
  then show "fst (OnNeedsApproval (mgr ttl) t i tool meth' u ps' now2 newID' s2) =
      Inr \<lparr>res_Approved = True, res_PendingID = ''''\<rparr>"
    using in_time by (simp add: admitted_iff live_grant_def granted_def)
  show "fst (OnNeedsApproval (mgr ttl) t i tool meth'' u ps'' now3 newID'' s3) \<noteq>
      Inr \<lparr>res_Approved = True, res_PendingID = p\<rparr>"
    by (simp add: admitted_iff s3 needs_approval_grants live_grant_def)
qed

end

interpretation inmemory_approval: approval_store "inmemory_approval_Store ks" am_grants
  by unfold_locales
    (auto simp: inmemory_approval_Store_def ConsumeGrant_def GetRequest_def PutGrant_def CreateRequest_def
      DecideRequest_def live_grant_def decided_def time_after_def split: option.splits)

section \<open>Interleaved managers\<close>

text \<open>
  Several goroutines run manager operations on one store. Each store call is atomic (it holds the
  store's mutex), so a step is one store call: a request handler consumes a grant or, having found
  none, creates its request later; an operator's approval decides the request and stores the grant
  later. \<open>sy_admitted\<close> logs who was let through and when. \<open>sy_origin\<close> is an auxiliary variable: the
  request whose approval stored the grant now under a key.
\<close>

record approval_system =
  sy_store :: approval_InMemoryStore
  sy_creating :: "approval_Request list"
  sy_granting :: "(string \<times> Grant) list"
  sy_admitted :: "((string \<times> string \<times> string \<times> string) \<times> go_time \<times> string) list"
  sy_origin :: "string \<Rightarrow> string"

definition approval_init :: "approval_system \<Rightarrow> bool" where
  "approval_init S \<longleftrightarrow> sy_store S = approval_NewInMemoryStore \<and> sy_creating S = [] \<and>
     sy_granting S = [] \<and> sy_admitted S = []"

inductive approval_step :: "duration \<Rightarrow> approval_system \<Rightarrow> approval_system \<Rightarrow> bool" for ttl where
  admit:
    "ConsumeGrant (grantKey t i u tool) now (sy_store S) = (Some g, s) \<Longrightarrow>
     approval_step ttl S (S\<lparr>sy_store := s,
       sy_admitted := ((t, i, u, tool), now, sy_origin S (grantKey t i u tool)) # sy_admitted S\<rparr>)"
| hold:
    "ConsumeGrant (grantKey t i u tool) now (sy_store S) = (None, s) \<Longrightarrow>
     approval_step ttl S (S\<lparr>sy_store := s,
       sy_creating := new_request newID t i tool meth u ps now # sy_creating S\<rparr>)"
| create:
    "sy_creating S = xs @ req # ys \<Longrightarrow> CreateRequest req (sy_store S) = (err, s) \<Longrightarrow>
     approval_step ttl S (S\<lparr>sy_store := s, sy_creating := xs @ ys\<rparr>)"
| approve:
    "DecideRequest rid StatusApproved who now (sy_store S) = (Inr req, s) \<Longrightarrow>
     approval_step ttl S (S\<lparr>sy_store := s, sy_granting := (rid, granted ttl req now) # sy_granting S\<rparr>)"
| put_grant:
    "sy_granting S = xs @ (rid, g) # ys \<Longrightarrow>
     approval_step ttl S (S\<lparr>sy_store := PutGrant g (sy_store S), sy_granting := xs @ ys,
       sy_origin := (sy_origin S)(g_Key g := rid)\<rparr>)"
| deny:
    "DecideRequest rid StatusDenied who now (sy_store S) = (Inr req, s) \<Longrightarrow>
     approval_step ttl S (S\<lparr>sy_store := s\<rparr>)"
| refuse:
    "DecideRequest rid status who now (sy_store S) = (Inl err, s) \<Longrightarrow>
     approval_step ttl S (S\<lparr>sy_store := s\<rparr>)"

inductive approval_reachable :: "duration \<Rightarrow> approval_system \<Rightarrow> bool" for ttl where
  start: "approval_init S \<Longrightarrow> approval_reachable ttl S"
| step: "approval_reachable ttl S \<Longrightarrow> approval_step ttl S S' \<Longrightarrow> approval_reachable ttl S'"

inductive_cases approval_stepE: "approval_step ttl S S'"

text \<open>The request \<open>rid\<close> was approved and its approval is what \<open>g\<close> carries.\<close>

definition backed_by :: "duration \<Rightarrow> approval_system \<Rightarrow> string \<Rightarrow> Grant \<Rightarrow> bool" where
  "backed_by ttl S rid g \<longleftrightarrow>
     (\<exists>r. am_requests (sy_store S) rid = Some r \<and> ar_Status r = StatusApproved \<and>
          g = granted ttl r (ar_DecidedAt r))"

definition granting_ok :: "duration \<Rightarrow> approval_system \<Rightarrow> bool" where
  "granting_ok ttl S \<longleftrightarrow> (\<forall>rid g. (rid, g) \<in> set (sy_granting S) \<longrightarrow> backed_by ttl S rid g)"

definition grants_ok :: "duration \<Rightarrow> approval_system \<Rightarrow> bool" where
  "grants_ok ttl S \<longleftrightarrow> (\<forall>k g. am_grants (sy_store S) k = Some g \<longrightarrow>
     g_Key g = k \<and> backed_by ttl S (sy_origin S k) g)"

definition admitted_ok :: "duration \<Rightarrow> approval_system \<Rightarrow> bool" where
  "admitted_ok ttl S \<longleftrightarrow> (\<forall>t i u tool now rid. ((t, i, u, tool), now, rid) \<in> set (sy_admitted S) \<longrightarrow>
     (\<exists>g. backed_by ttl S rid g \<and> g_Key g = grantKey t i u tool \<and> now \<le> g_ExpiresAt g))"

text \<open>The approvals already spent: on an admission, or on a grant about to be stored.\<close>

definition spent_ids :: "approval_system \<Rightarrow> string list" where
  "spent_ids S = map fst (sy_granting S) @ map (\<lambda>(c, now, rid). rid) (sy_admitted S)"

definition spent_once :: "approval_system \<Rightarrow> bool" where
  "spent_once S \<longleftrightarrow> distinct (spent_ids S) \<and>
     (\<forall>k g. am_grants (sy_store S) k = Some g \<longrightarrow> sy_origin S k \<notin> set (spent_ids S))"

definition approval_inv :: "duration \<Rightarrow> approval_system \<Rightarrow> bool" where
  "approval_inv ttl S \<longleftrightarrow> granting_ok ttl S \<and> grants_ok ttl S \<and> admitted_ok ttl S \<and> spent_once S"

lemmas approval_inv_parts = approval_inv_def granting_ok_def grants_ok_def admitted_ok_def spent_once_def

lemma approved_stays:
  "approval_step ttl S S' \<Longrightarrow> am_requests (sy_store S) rid = Some r \<Longrightarrow> ar_Status r \<noteq> StatusPending \<Longrightarrow>
     am_requests (sy_store S') rid = Some r"
  by (erule approval_stepE)
    (auto simp: ConsumeGrant_def CreateRequest_def DecideRequest_def PutGrant_def
      split: option.splits if_splits)

lemma backed_by_step: "approval_step ttl S S' \<Longrightarrow> backed_by ttl S rid g \<Longrightarrow> backed_by ttl S' rid g"
  unfolding backed_by_def using approved_stays by fastforce

lemma ConsumeGrant_Some:
  "ConsumeGrant k now s = (Some g, s') \<Longrightarrow>
     am_grants s k = Some g \<and> now \<le> g_ExpiresAt g \<and> s' = s\<lparr>am_grants := (am_grants s)(k := None)\<rparr>"
  by (auto simp: ConsumeGrant_def time_after_def split: option.splits if_splits)

lemma ConsumeGrant_None:
  "ConsumeGrant k now s = (None, s') \<Longrightarrow>
     am_grants s' = (am_grants s)(k := None) \<and> am_requests s' = am_requests s"
  by (auto simp: ConsumeGrant_def fun_upd_idem split: option.splits if_splits)

lemma DecideRequest_Inr:
  "DecideRequest rid status who now s = (Inr req, s') \<Longrightarrow>
     (\<exists>r. am_requests s rid = Some r \<and> ar_Status r = StatusPending \<and> req = decided status who now r) \<and>
     am_requests s' = (am_requests s)(rid \<mapsto> req) \<and> am_grants s' = am_grants s"
  by (auto simp: DecideRequest_def decided_def split: option.splits if_splits)

lemma DecideRequest_Inl: "DecideRequest rid status who now s = (Inl err, s') \<Longrightarrow> s' = s"
  by (auto simp: DecideRequest_def split: option.splits if_splits)

lemma CreateRequest_grants: "CreateRequest r s = (err, s') \<Longrightarrow> am_grants s' = am_grants s"
  by (auto simp: CreateRequest_def split: option.splits)

lemma backed_by_unique: "backed_by ttl S rid g \<Longrightarrow> backed_by ttl S rid g' \<Longrightarrow> g = g'"
  by (auto simp: backed_by_def)

lemma spent_backed: "approval_inv ttl S \<Longrightarrow> rid \<in> set (spent_ids S) \<Longrightarrow> \<exists>g. backed_by ttl S rid g"
  by (fastforce simp: approval_inv_parts spent_ids_def)

lemma pending_not_backed:
  "am_requests (sy_store S) rid = Some r \<Longrightarrow> ar_Status r = StatusPending \<Longrightarrow> \<not> backed_by ttl S rid g"
  by (simp add: backed_by_def)

lemma origin_inj:
  assumes "approval_inv ttl S" "am_grants (sy_store S) k = Some g" "am_grants (sy_store S) k' = Some g'"
    and "sy_origin S k = sy_origin S k'"
  shows "k = k'"
  using assms backed_by_unique by (metis approval_inv_def grants_ok_def)

lemma granting_ok_step:
  assumes step: "approval_step ttl S S'" and inv: "approval_inv ttl S"
  shows "granting_ok ttl S'"
proof -
  have old: "(rid, g) \<in> set (sy_granting S) \<Longrightarrow> backed_by ttl S' rid g" for rid g
    using inv backed_by_step [OF step] by (simp add: approval_inv_parts)
  from step show ?thesis
  proof cases
    case (approve rid who now req s)
    then have "backed_by ttl S' rid (granted ttl req now)"
      using DecideRequest_Inr [OF approve(2)] by (auto simp: backed_by_def decided_def)
    with old approve(1) show ?thesis by (auto simp: granting_ok_def)
  qed (use old in \<open>auto simp: granting_ok_def\<close>)
qed

lemma grants_ok_step:
  assumes step: "approval_step ttl S S'" and inv: "approval_inv ttl S"
  shows "grants_ok ttl S'"
proof -
  have old: "g_Key g = k \<and> backed_by ttl S' (sy_origin S k) g" if "am_grants (sy_store S) k = Some g" for k g
    using inv that backed_by_step [OF step] by (simp add: approval_inv_parts)
  from step show ?thesis
  proof cases
    case (put_grant xs rid g ys)
    then have "backed_by ttl S' rid g"
      using inv backed_by_step [OF step] by (simp add: approval_inv_parts)
    with old put_grant(1) show ?thesis by (auto simp: grants_ok_def PutGrant_def)
  qed (use old in \<open>auto simp: grants_ok_def split: if_splits dest: ConsumeGrant_Some ConsumeGrant_None
      DecideRequest_Inr DecideRequest_Inl CreateRequest_grants\<close>)
qed

lemma admitted_ok_step:
  assumes step: "approval_step ttl S S'" and inv: "approval_inv ttl S"
  shows "admitted_ok ttl S'"
proof -
  have old: "\<exists>g. backed_by ttl S' rid g \<and> g_Key g = grantKey t i u tool \<and> now \<le> g_ExpiresAt g"
    if "((t, i, u, tool), now, rid) \<in> set (sy_admitted S)" for t i u tool now rid
    using inv that backed_by_step [OF step] unfolding approval_inv_parts by blast
  from step show ?thesis
  proof cases
    case (admit t i u tool now g s)
    then have "backed_by ttl S' (sy_origin S (grantKey t i u tool)) g \<and> g_Key g = grantKey t i u tool"
      using inv backed_by_step [OF step] ConsumeGrant_Some [OF admit(2)] by (simp add: approval_inv_parts)
    with old admit(1) ConsumeGrant_Some [OF admit(2)] show ?thesis by (auto simp: admitted_ok_def)
  qed (use old in \<open>auto simp: admitted_ok_def\<close>)
qed

lemma spent_once_step:
  assumes step: "approval_step ttl S S'" and inv: "approval_inv ttl S"
  shows "spent_once S'"
proof -
  have once: "distinct (spent_ids S)"
    and unspent: "\<And>k g. am_grants (sy_store S) k = Some g \<Longrightarrow> sy_origin S k \<notin> set (spent_ids S)"
    using inv by (auto simp: approval_inv_def spent_once_def)
  from step show ?thesis
  proof cases
    case (admit t i u tool now g s)
    let ?k = "grantKey t i u tool"
    from ConsumeGrant_Some [OF admit(2)] have g: "am_grants (sy_store S) ?k = Some g"
      and s: "s = (sy_store S)\<lparr>am_grants := (am_grants (sy_store S))(?k := None)\<rparr>" by auto
    have "sy_origin S k \<noteq> sy_origin S ?k" if "am_grants (sy_store S) k = Some h" "k \<noteq> ?k" for k h
      using origin_inj [OF inv that(1) g] that(2) by auto
    moreover have "set (spent_ids S') = insert (sy_origin S ?k) (set (spent_ids S))"
      and "distinct (spent_ids S')"
      using admit(1) once unspent [OF g] by (auto simp: spent_ids_def)
    ultimately show ?thesis using admit(1) s unspent by (auto simp: spent_once_def)
  next
    case (approve rid who now req s)
    from DecideRequest_Inr [OF approve(2)] obtain r where
      r: "am_requests (sy_store S) rid = Some r" "ar_Status r = StatusPending"
      and s: "am_grants s = am_grants (sy_store S)" by auto
    have "rid \<notin> set (spent_ids S)" using spent_backed [OF inv] pending_not_backed [OF r] by blast
    moreover have "sy_origin S k \<noteq> rid" if "am_grants (sy_store S) k = Some g" for k g
      using inv that pending_not_backed [OF r] unfolding approval_inv_parts by metis
    moreover have "spent_ids S' = rid # spent_ids S" using approve(1) by (simp add: spent_ids_def)
    ultimately show ?thesis using approve(1) s once unspent by (auto simp: spent_once_def)
  next
    case (put_grant xs rid g ys)
    then show ?thesis using once unspent by (fastforce simp: spent_once_def spent_ids_def PutGrant_def)
  next
    case (hold t i u tool now s newID meth ps)
    then have "spent_ids S' = spent_ids S" by (simp add: spent_ids_def)
    then show ?thesis using once unspent ConsumeGrant_None [OF hold(2)] hold(1)
      by (auto simp: spent_once_def split: if_splits)
  next
    case (create xs req ys err s)
    then have "spent_ids S' = spent_ids S" by (simp add: spent_ids_def)
    then show ?thesis using once unspent CreateRequest_grants [OF create(3)] create(1)
      by (auto simp: spent_once_def split: if_splits)
  next
    case (deny rid who now req s)
    then have "spent_ids S' = spent_ids S" by (simp add: spent_ids_def)
    then show ?thesis using once unspent DecideRequest_Inr [OF deny(2)] deny(1)
      by (auto simp: spent_once_def split: if_splits)
  next
    case (refuse rid status who now err s)
    then have "spent_ids S' = spent_ids S" by (simp add: spent_ids_def)
    then show ?thesis using once unspent DecideRequest_Inl [OF refuse(2)] refuse(1)
      by (auto simp: spent_once_def split: if_splits)
  qed
qed

lemma reachable_approval_inv: "approval_reachable ttl S \<Longrightarrow> approval_inv ttl S"
proof (induction rule: approval_reachable.induct)
  case (start S)
  then show ?case
    by (simp add: approval_inv_parts approval_init_def approval_NewInMemoryStore_def spent_ids_def)
next
  case (step S S')
  then show ?case
    unfolding approval_inv_def
    by (metis granting_ok_step grants_ok_step admitted_ok_step spent_once_step approval_inv_def)
qed

section \<open>Properties of the approval workflow\<close>

text \<open>
  C4. However the manager's operations interleave, every call let through on a grant is backed
  by an approved request of its own: there is a list of distinct request ids, one for each
  admission, such that the request was made by the same tenant and identity, in the same session, for
  the same tool, was approved, and the admission came no later than the grant's time to live after
  the approval. One approval never admits two calls.
\<close>

theorem admissions_backed_by_approvals:
  assumes "approval_reachable ttl S"
  shows "\<exists>ids. distinct ids \<and>
    list_all2 (\<lambda>((t, i, u, tool), now, _) rid. \<exists>r. am_requests (sy_store S) rid = Some r \<and>
       ar_Status r = StatusApproved \<and> ar_Tenant r = t \<and> ar_Identity r = i \<and> ar_Session r = u \<and>
       ar_Tool r = tool \<and> now \<le> ar_DecidedAt r + ttl) (sy_admitted S) ids"
proof (intro exI conjI)
  let ?ids = "map (\<lambda>(c, now, rid). rid) (sy_admitted S)"
  have inv: "approval_inv ttl S" by (rule reachable_approval_inv [OF assms])
  then show "distinct ?ids" by (simp add: approval_inv_def spent_once_def spent_ids_def)
  have "\<exists>r. am_requests (sy_store S) rid = Some r \<and> ar_Status r = StatusApproved \<and> ar_Tenant r = t \<and>
       ar_Identity r = i \<and> ar_Session r = u \<and> ar_Tool r = tool \<and> now \<le> ar_DecidedAt r + ttl"
    if "((t, i, u, tool), now, rid) \<in> set (sy_admitted S)" for t i u tool now rid
    using inv that by (fastforce simp: approval_inv_def admitted_ok_def backed_by_def granted_def wardline_keys)
  then show "list_all2 (\<lambda>((t, i, u, tool), now, _) rid. \<exists>r. am_requests (sy_store S) rid = Some r \<and>
       ar_Status r = StatusApproved \<and> ar_Tenant r = t \<and> ar_Identity r = i \<and> ar_Session r = u \<and>
       ar_Tool r = tool \<and> now \<le> ar_DecidedAt r + ttl) (sy_admitted S) ?ids"
    by (fastforce simp: list_all2_map2 list.rel_refl_strong list_all2_same)
qed

lemma example_admission:
  "\<exists>S. approval_reachable 300 S \<and>
       sy_admitted S = [((''acme'', ''alice'', ''s1'', ''deploy''), 7, ''r1'')]"
proof -
  let ?k = "grantKey ''acme'' ''alice'' ''s1'' ''deploy''"
  let ?r = "new_request ''r1'' ''acme'' ''alice'' ''deploy'' ''tools/call'' ''s1'' Map.empty 1"
  let ?d = "decided StatusApproved ''loopback'' 5 ?r"
  let ?g = "granted 300 ?d 5"
  define S0 where "S0 = \<lparr>sy_store = approval_NewInMemoryStore, sy_creating = [], sy_granting = [],
    sy_admitted = [], sy_origin = (\<lambda>_. '''')\<rparr>"
  define S1 where "S1 = S0\<lparr>sy_creating := [?r]\<rparr>"
  define S2 where "S2 = S0\<lparr>sy_store := \<lparr>am_requests = [''r1'' \<mapsto> ?r], am_grants = Map.empty\<rparr>\<rparr>"
  define S3 where "S3 = S0\<lparr>sy_store := \<lparr>am_requests = [''r1'' \<mapsto> ?d], am_grants = Map.empty\<rparr>,
    sy_granting := [(''r1'', ?g)]\<rparr>"
  define S4 where "S4 = S0\<lparr>sy_store := \<lparr>am_requests = [''r1'' \<mapsto> ?d], am_grants = [?k \<mapsto> ?g]\<rparr>,
    sy_origin := (\<lambda>_. '''')(?k := ''r1'')\<rparr>"
  define S5 where "S5 = S4\<lparr>sy_store := \<lparr>am_requests = [''r1'' \<mapsto> ?d], am_grants = Map.empty\<rparr>,
    sy_admitted := [((''acme'', ''alice'', ''s1'', ''deploy''), 7, ''r1'')]\<rparr>"
  note S = S0_def S1_def S2_def S3_def S4_def S5_def approval_NewInMemoryStore_def
  have "approval_step 300 S0 S1"
    using approval_step.hold [of "''acme''" "''alice''" "''s1''" "''deploy''" 1 S0 "sy_store S0" 300 "''r1''" "''tools/call''" Map.empty]
    by (simp add: S ConsumeGrant_def)
  moreover have "approval_step 300 S1 S2"
    using approval_step.create [of S1 "[]" ?r "[]" None "sy_store S2" 300]
    by (simp add: S CreateRequest_def new_request_def)
  moreover have "approval_step 300 S2 S3"
    using approval_step.approve [of "''r1''" "''loopback''" 5 S2 ?d "sy_store S3" 300]
    by (simp add: S DecideRequest_def new_request_def decided_def)
  moreover have "approval_step 300 S3 S4"
    using approval_step.put_grant [of S3 "[]" "''r1''" ?g "[]" 300]
    by (simp add: S PutGrant_def granted_def decided_def new_request_def)
  moreover have "approval_step 300 S4 S5"
    using approval_step.admit [of "''acme''" "''alice''" "''s1''" "''deploy''" 7 S4 ?g "sy_store S5" 300]
    by (simp add: S ConsumeGrant_def time_after_def granted_def)
  moreover have "approval_reachable 300 S0"
    by (rule approval_reachable.start) (simp add: S approval_init_def)
  ultimately have "approval_reachable 300 S5" by (meson approval_reachable.step)
  then show ?thesis by (auto simp: S5_def)
qed

theorem admissions_backed_by_approvals_witness:
  "\<exists>S ids. approval_reachable 300 S \<and>
     sy_admitted S = [((''acme'', ''alice'', ''s1'', ''deploy''), 7, ''r1'')] \<and> distinct ids \<and>
     list_all2 (\<lambda>((t, i, u, tool), now, _) rid. \<exists>r. am_requests (sy_store S) rid = Some r \<and>
       ar_Status r = StatusApproved \<and> ar_Tenant r = t \<and> ar_Identity r = i \<and> ar_Session r = u \<and>
       ar_Tool r = tool \<and> now \<le> ar_DecidedAt r + 300) (sy_admitted S) ids"
  using example_admission admissions_backed_by_approvals by blast

text \<open>
  The round trip of an approval: a call held for approval under a fresh id, then approved,
  is admitted when it is retried within the grant's time to live, and the retry after that is not
  admitted.
\<close>

theorem approval_admits_exactly_once:
  fixes ks ttl
  defines "m \<equiv> NewManager (inmemory_approval_Store ks) ttl"
  assumes "am_requests s newID = None"
    and "live_grant (am_grants s (grantKey t i u tool)) now0 = None"
    and "s1 = snd (OnNeedsApproval m t i tool meth u ps now0 newID s)"
    and "s2 = snd (Approve m newID who now1 s1)"
    and "s3 = snd (OnNeedsApproval m t i tool meth' u ps' now2 newID' s2)"
    and "now2 \<le> now1 + ttl"
  shows "fst (OnNeedsApproval m t i tool meth' u ps' now2 newID' s2) =
           Inr \<lparr>res_Approved = True, res_PendingID = ''''\<rparr> \<and>
         fst (OnNeedsApproval m t i tool meth'' u ps'' now3 newID'' s3) \<noteq>
           Inr \<lparr>res_Approved = True, res_PendingID = p\<rparr>"
  using inmemory_approval.approval_roundtrip [where ks = ks and s = s and newID = newID] assms
  by (simp add: inmemory_approval_Store_def GetRequest_def)

theorem approval_admits_exactly_once_witness:
  "let m = NewManager (inmemory_approval_Store []) 300;
       s1 = snd (OnNeedsApproval m ''acme'' ''alice'' ''deploy'' ''tools/call'' ''s1'' Map.empty 1 ''r1''
                   approval_NewInMemoryStore);
       s2 = snd (Approve m ''r1'' ''loopback'' 5 s1);
       s3 = snd (OnNeedsApproval m ''acme'' ''alice'' ''deploy'' ''tools/call'' ''s1'' Map.empty 7 ''r2'' s2)
   in fst (OnNeedsApproval m ''acme'' ''alice'' ''deploy'' ''tools/call'' ''s1'' Map.empty 7 ''r2'' s2) =
        Inr \<lparr>res_Approved = True, res_PendingID = ''''\<rparr> \<and>
      fst (OnNeedsApproval m ''acme'' ''alice'' ''deploy'' ''tools/call'' ''s1'' Map.empty 8 ''r3'' s3) \<noteq>
        Inr \<lparr>res_Approved = True, res_PendingID = ''''\<rparr>"
  unfolding Let_def
  by (rule approval_admits_exactly_once [OF _ _ refl refl refl])
    (simp_all add: approval_NewInMemoryStore_def live_grant_def)

text \<open>
  The operator surface is closed to a remote caller no authorizer admits: whatever the route, the
  store is unchanged and nothing pending is disclosed.
\<close>

lemma approval_surface_closed:
  assumes "\<not> isLoopback r" and "authorizer = None \<or> (\<exists>f. authorizer = Some f \<and> \<not> f r)"
  shows "approval_NewHTTPHandler m isLoopback authorizer route r now s =
     (if route r = NoApprovalRoute then MuxNotFound else ErrorJSON 403 ''forbidden'', s)"
  using assms by (auto simp: approval_NewHTTPHandler_def approval_guard_def split: approval_route.split)

end
