(* ===== verification/Budget.thy ===== *)
theory Budget
  imports Keys "HOL-Library.Multiset" "HOL-Library.List_Lexorder" "HOL-Library.Char_ord"
begin

text \<open>
  Budget enforcement: \<open>internal/features/budget/domain/budget.go\<close> (verdicts and limits),
  \<open>internal/features/budget/adapter/inmemory.go\<close> (the fixed-window limiter with its identity,
  tenant and tool tiers and its eviction sweep) and
  \<open>internal/features/budget/usecase/checker.go\<close> (the feature flag around it).

  The limiter's methods run under one mutex, so each is one atomic step on the record
  \<open>InMemoryLimiter\<close>. A history is a list of calls; \<open>limiter_run\<close> gives the verdicts in order.
\<close>

section \<open>Verdicts and limits\<close>

record budget_Verdict =
  bv_Allowed :: bool
  bv_Reason :: string
  bv_RetryAfter :: duration
  bv_FailedOpen :: bool

record LimitInfo =
  li_RequestsPerWindow :: int
  li_Window :: duration

record OverrideInfo =
  ov_Scope :: string
  ov_Name :: string
  ov_Limit :: LimitInfo

section \<open>The in-memory limiter\<close>

record bucket =
  b_windowStart :: go_time
  b_count :: int

definition zero_bucket :: bucket where
  "zero_bucket = \<lparr>b_windowStart = 0, b_count = 0\<rparr>"

record tenantLimit =
  tl_requestsPerWindow :: int
  tl_window :: duration

record InMemoryLimiter =
  lim_requestsPerWindow :: int
  lim_window :: duration
  lim_buckets :: "string \<rightharpoonup> bucket"
  lim_calls :: "64 word"
  lim_tenantLimits :: "string \<rightharpoonup> tenantLimit"
  lim_tenantBuckets :: "string \<rightharpoonup> bucket"
  lim_toolLimits :: "string \<rightharpoonup> tenantLimit"
  lim_toolBuckets :: "string \<rightharpoonup> bucket"

definition evictionSweepInterval :: "64 word" where
  "evictionSweepInterval = 1000"

definition NewInMemoryLimiter :: "int \<Rightarrow> duration \<Rightarrow> InMemoryLimiter" where
  "NewInMemoryLimiter requestsPerWindow window =
     \<lparr>lim_requestsPerWindow = requestsPerWindow, lim_window = window, lim_buckets = Map.empty,
      lim_calls = 0, lim_tenantLimits = Map.empty, lim_tenantBuckets = Map.empty,
      lim_toolLimits = Map.empty, lim_toolBuckets = Map.empty\<rparr>"

definition SetTenantLimit :: "string \<Rightarrow> int \<Rightarrow> duration \<Rightarrow> InMemoryLimiter \<Rightarrow> InMemoryLimiter" where
  "SetTenantLimit tenantName rpw window l =
     l\<lparr>lim_tenantLimits := (lim_tenantLimits l)(tenantName \<mapsto>
         \<lparr>tl_requestsPerWindow = rpw, tl_window = window\<rparr>)\<rparr>"

definition SetToolLimit :: "string \<Rightarrow> int \<Rightarrow> duration \<Rightarrow> InMemoryLimiter \<Rightarrow> InMemoryLimiter" where
  "SetToolLimit toolName rpw window l =
     l\<lparr>lim_toolLimits := (lim_toolLimits l)(toolName \<mapsto>
         \<lparr>tl_requestsPerWindow = rpw, tl_window = window\<rparr>)\<rparr>"

definition DefaultLimit :: "InMemoryLimiter \<Rightarrow> LimitInfo" where
  "DefaultLimit l = \<lparr>li_RequestsPerWindow = lim_requestsPerWindow l, li_Window = lim_window l\<rparr>"

text \<open>\<open>ks\<close> is the order in which the runtime ranges over the map.\<close>

definition TenantOverrides :: "string list \<Rightarrow> InMemoryLimiter \<Rightarrow> OverrideInfo list" where
  "TenantOverrides ks l =
     sort_key ov_Name
       (map (\<lambda>(name, lim). \<lparr>ov_Scope = ''tenant'', ov_Name = name,
                ov_Limit = \<lparr>li_RequestsPerWindow = tl_requestsPerWindow lim, li_Window = tl_window lim\<rparr>\<rparr>)
            (range_entries ks (lim_tenantLimits l)))"

definition ToolOverrides :: "string list \<Rightarrow> InMemoryLimiter \<Rightarrow> OverrideInfo list" where
  "ToolOverrides ks l =
     sort_key ov_Name
       (map (\<lambda>(name, lim). \<lparr>ov_Scope = ''tool'', ov_Name = name,
                ov_Limit = \<lparr>li_RequestsPerWindow = tl_requestsPerWindow lim, li_Window = tl_window lim\<rparr>\<rparr>)
            (range_entries ks (lim_toolLimits l)))"

definition SetDefaultLimit :: "int \<Rightarrow> duration \<Rightarrow> InMemoryLimiter \<Rightarrow> InMemoryLimiter" where
  "SetDefaultLimit rpw window l = l\<lparr>lim_requestsPerWindow := rpw, lim_window := window\<rparr>"

definition ClearTenantLimit :: "string \<Rightarrow> InMemoryLimiter \<Rightarrow> InMemoryLimiter" where
  "ClearTenantLimit tenantName l =
     l\<lparr>lim_tenantLimits := (lim_tenantLimits l)(tenantName := None),
       lim_tenantBuckets := (lim_tenantBuckets l)(tenantName := None)\<rparr>"

definition ClearToolLimit :: "string \<Rightarrow> InMemoryLimiter \<Rightarrow> InMemoryLimiter" where
  "ClearToolLimit toolName l =
     l\<lparr>lim_toolLimits := (lim_toolLimits l)(toolName := None),
       lim_toolBuckets := (lim_toolBuckets l)(toolName := None)\<rparr>"

text \<open>
  The check-and-increment on one bucket. The count stays below \<open>requestsPerWindow\<close>, a Go \<open>int\<close>,
  when it is incremented, so the addition cannot overflow.
\<close>

definition checkAndAdvance ::
  "bucket \<Rightarrow> int \<Rightarrow> duration \<Rightarrow> go_time \<Rightarrow> budget_Verdict \<times> bucket" where
  "checkAndAdvance b requestsPerWindow window now =
     (let b = (if time_is_zero (b_windowStart b) \<or> window \<le> time_sub now (b_windowStart b)
               then \<lparr>b_windowStart = now, b_count = 0\<rparr> else b)
      in if requestsPerWindow \<le> b_count b
         then (\<lparr>bv_Allowed = False,
                bv_Reason = ''rate limit exceeded: '' @ itoa requestsPerWindow @ '' requests per '' @
                  duration_String window @ '' window'',
                bv_RetryAfter = time_sub (b_windowStart b + window) now, bv_FailedOpen = False\<rparr>, b)
         else (\<lparr>bv_Allowed = True, bv_Reason = ''within budget'', bv_RetryAfter = 0,
                bv_FailedOpen = False\<rparr>, b\<lparr>b_count := b_count b + 1\<rparr>))"

text \<open>The window of a limit that is not configured reads as the zero duration.\<close>

definition limit_window :: "(string \<rightharpoonup> tenantLimit) \<Rightarrow> string \<Rightarrow> duration" where
  "limit_window limits name = (case limits name of None \<Rightarrow> 0 | Some lim \<Rightarrow> tl_window lim)"

definition evictExpired :: "InMemoryLimiter \<Rightarrow> go_time \<Rightarrow> InMemoryLimiter" where
  "evictExpired l now =
     l\<lparr>lim_buckets := map_keep (\<lambda>id b. \<not> lim_window l \<le> time_sub now (b_windowStart b)) (lim_buckets l),
       lim_tenantBuckets :=
         map_keep (\<lambda>name b. \<not> limit_window (lim_tenantLimits l) name \<le> time_sub now (b_windowStart b))
           (lim_tenantBuckets l),
       lim_toolBuckets :=
         map_keep (\<lambda>name b. \<not> limit_window (lim_toolLimits l) name \<le> time_sub now (b_windowStart b))
           (lim_toolBuckets l)\<rparr>"

definition bucket_or_zero :: "bucket option \<Rightarrow> bucket" where
  "bucket_or_zero ob = (case ob of None \<Rightarrow> zero_bucket | Some b \<Rightarrow> b)"

text \<open>
  \<open>Allow\<close> in the code's order: count the call, sweep every 1000th call, then the tool, the tenant
  and the identity tier; a tier that refuses ends the call before the later tiers are touched.
\<close>

definition allow_identity ::
  "InMemoryLimiter \<Rightarrow> string \<Rightarrow> string \<Rightarrow> go_time \<Rightarrow> budget_Verdict \<times> InMemoryLimiter" where
  "allow_identity l identity tenantName now =
     (let key = tenant_Key tenantName identity;
          (v, ib) = checkAndAdvance (bucket_or_zero (lim_buckets l key)) (lim_requestsPerWindow l)
                      (lim_window l) now
      in (v, l\<lparr>lim_buckets := (lim_buckets l)(key \<mapsto> ib)\<rparr>))"

definition allow_tenant ::
  "InMemoryLimiter \<Rightarrow> string \<Rightarrow> string \<Rightarrow> go_time \<Rightarrow> budget_Verdict \<times> InMemoryLimiter" where
  "allow_tenant l identity tenantName now =
     (case lim_tenantLimits l tenantName of
        None \<Rightarrow> allow_identity l identity tenantName now
      | Some limit \<Rightarrow>
          let (v, tb) = checkAndAdvance (bucket_or_zero (lim_tenantBuckets l tenantName))
                          (tl_requestsPerWindow limit) (tl_window limit) now;
              l = l\<lparr>lim_tenantBuckets := (lim_tenantBuckets l)(tenantName \<mapsto> tb)\<rparr>
          in if \<not> bv_Allowed v then (v, l) else allow_identity l identity tenantName now)"

definition allow_tool ::
  "InMemoryLimiter \<Rightarrow> string \<Rightarrow> string \<Rightarrow> string \<Rightarrow> go_time \<Rightarrow> budget_Verdict \<times> InMemoryLimiter" where
  "allow_tool l identity tenantName toolName now =
     (case lim_toolLimits l toolName of
        None \<Rightarrow> allow_tenant l identity tenantName now
      | Some limit \<Rightarrow>
          let (v, tb) = checkAndAdvance (bucket_or_zero (lim_toolBuckets l toolName))
                          (tl_requestsPerWindow limit) (tl_window limit) now;
              l = l\<lparr>lim_toolBuckets := (lim_toolBuckets l)(toolName \<mapsto> tb)\<rparr>
          in if \<not> bv_Allowed v then (v, l) else allow_tenant l identity tenantName now)"

definition count_and_sweep :: "InMemoryLimiter \<Rightarrow> go_time \<Rightarrow> InMemoryLimiter" where
  "count_and_sweep l now =
     (let l = l\<lparr>lim_calls := lim_calls l + 1\<rparr>
      in if lim_calls l mod evictionSweepInterval = 0 then evictExpired l now else l)"

definition Limiter_Allow ::
  "InMemoryLimiter \<Rightarrow> string \<Rightarrow> string \<Rightarrow> string \<Rightarrow> go_time \<Rightarrow> budget_Verdict \<times> InMemoryLimiter" where
  "Limiter_Allow l identity tenantName toolName now =
     allow_tool (count_and_sweep l now) identity tenantName toolName now"

section \<open>The flag-gated checker\<close>

definition budgetFeatureFlag :: string where
  "budgetFeatureFlag = ''budget_enforcement''"

text \<open>\<open>flags\<close> is the provider's \<open>Enabled\<close>; the limiter is any implementation of its interface.\<close>

definition budget_Check ::
  "(string \<Rightarrow> bool) \<Rightarrow> ('l \<Rightarrow> string \<Rightarrow> string \<Rightarrow> string \<Rightarrow> go_time \<Rightarrow> budget_Verdict \<times> 'l) \<Rightarrow>
   string \<Rightarrow> string \<Rightarrow> string \<Rightarrow> go_time \<Rightarrow> 'l \<Rightarrow> budget_Verdict \<times> 'l" where
  "budget_Check flags allow identity tenant tool now l =
     (if \<not> flags budgetFeatureFlag
      then (\<lparr>bv_Allowed = True, bv_Reason = ''budget enforcement disabled'', bv_RetryAfter = 0,
             bv_FailedOpen = False\<rparr>, l)
      else allow l identity tenant tool now)"

section \<open>Histories\<close>

record call =
  c_identity :: string
  c_tenant :: string
  c_tool :: string
  c_time :: go_time

fun limiter_run :: "InMemoryLimiter \<Rightarrow> call list \<Rightarrow> budget_Verdict list" where
  "limiter_run l [] = []"
| "limiter_run l (c # cs) =
     (let (v, l') = Limiter_Allow l (c_identity c) (c_tenant c) (c_tool c) (c_time c)
      in v # limiter_run l' cs)"

section \<open>What one call does to the buckets\<close>

lemma Allow_config [simp]:
  "lim_requestsPerWindow (snd (Limiter_Allow l i t u now)) = lim_requestsPerWindow l"
  "lim_window (snd (Limiter_Allow l i t u now)) = lim_window l"
  "lim_tenantLimits (snd (Limiter_Allow l i t u now)) = lim_tenantLimits l"
  "lim_toolLimits (snd (Limiter_Allow l i t u now)) = lim_toolLimits l"
  by (simp_all add: Limiter_Allow_def allow_tool_def allow_tenant_def allow_identity_def
      count_and_sweep_def evictExpired_def Let_def split: option.split prod.split)

lemma sweep_config [simp]:
  "lim_requestsPerWindow (count_and_sweep l now) = lim_requestsPerWindow l"
  "lim_window (count_and_sweep l now) = lim_window l"
  "lim_tenantLimits (count_and_sweep l now) = lim_tenantLimits l"
  "lim_toolLimits (count_and_sweep l now) = lim_toolLimits l"
  by (simp_all add: count_and_sweep_def evictExpired_def Let_def)

text \<open>
  A bucket that is absent, unused or expired at \<open>now\<close> is dead: the next check resets it. The sweep
  only ever removes dead buckets.
\<close>

definition dead :: "duration \<Rightarrow> go_time \<Rightarrow> bucket option \<Rightarrow> bool" where
  "dead window now ob \<longleftrightarrow>
     (case ob of None \<Rightarrow> True
      | Some b \<Rightarrow> b_windowStart b = 0 \<or> window \<le> time_sub now (b_windowStart b))"

lemma time_sub_mono: "now \<le> now' \<Longrightarrow> time_sub now t \<le> time_sub now' t"
  by (simp add: time_sub_def min_def max_def)

lemma dead_mono: "dead window now ob \<Longrightarrow> now \<le> now' \<Longrightarrow> dead window now' ob"
  using time_sub_mono [of now now'] by (auto simp: dead_def split: option.splits intro: order_trans)

lemma dead_None [simp]: "dead window now None"
  by (simp add: dead_def)

lemma sweep_buckets:
  "lim_buckets (count_and_sweep l now) k = lim_buckets l k \<or>
   lim_buckets (count_and_sweep l now) k = None \<and> dead (lim_window l) now (lim_buckets l k)"
  by (cases "lim_buckets l k")
    (auto simp: count_and_sweep_def evictExpired_def Let_def map_keep_def dead_def)

lemma sweep_tenantBuckets:
  "lim_tenantBuckets (count_and_sweep l now) t = lim_tenantBuckets l t \<or>
   lim_tenantBuckets (count_and_sweep l now) t = None \<and>
     dead (limit_window (lim_tenantLimits l) t) now (lim_tenantBuckets l t)"
  by (cases "lim_tenantBuckets l t")
    (auto simp: count_and_sweep_def evictExpired_def Let_def map_keep_def dead_def)

lemma checkAndAdvance_dead:
  "dead window now ob \<Longrightarrow> dead window now ob' \<Longrightarrow>
     checkAndAdvance (bucket_or_zero ob) rpw window now =
     checkAndAdvance (bucket_or_zero ob') rpw window now"
  by (auto simp: dead_def checkAndAdvance_def bucket_or_zero_def zero_bucket_def time_is_zero_def
      split: option.splits)

text \<open>A call either is refused before the identity tier or gets that tier's verdict.\<close>

lemma allow_tenant_identity:
  "\<not> bv_Allowed (fst (allow_tenant l i t now)) \<and>
     lim_buckets (snd (allow_tenant l i t now)) = lim_buckets l \<or>
   fst (allow_tenant l i t now) = fst (allow_identity l i t now) \<and>
     lim_buckets (snd (allow_tenant l i t now)) = lim_buckets (snd (allow_identity l i t now))"
  by (auto simp: allow_tenant_def allow_identity_def Let_def split: option.split prod.split)

lemma allow_tool_identity:
  "\<not> bv_Allowed (fst (allow_tool l i t u now)) \<and>
     lim_buckets (snd (allow_tool l i t u now)) = lim_buckets l \<or>
   fst (allow_tool l i t u now) = fst (allow_identity l i t now) \<and>
     lim_buckets (snd (allow_tool l i t u now)) = lim_buckets (snd (allow_identity l i t now))"
proof (cases "lim_toolLimits l u")
  case None
  then show ?thesis using allow_tenant_identity [of l i t now] by (simp add: allow_tool_def)
next
  case (Some limit)
  obtain v tb where vtb: "checkAndAdvance (bucket_or_zero (lim_toolBuckets l u))
      (tl_requestsPerWindow limit) (tl_window limit) now = (v, tb)"
    by fastforce
  let ?l = "l\<lparr>lim_toolBuckets := (lim_toolBuckets l)(u \<mapsto> tb)\<rparr>"
  have "fst (allow_identity ?l i t now) = fst (allow_identity l i t now)"
    "lim_buckets (snd (allow_identity ?l i t now)) = lim_buckets (snd (allow_identity l i t now))"
    by (simp_all add: allow_identity_def split: prod.split)
  with Some vtb show ?thesis
    using allow_tenant_identity [of ?l i t now] by (auto simp: allow_tool_def)
qed

lemma Allow_identity_tier:
  obtains (early) "\<not> bv_Allowed (fst (Limiter_Allow l i t u now))"
      "lim_buckets (snd (Limiter_Allow l i t u now)) = lim_buckets (count_and_sweep l now)"
  | (reached) v b where
      "checkAndAdvance (bucket_or_zero (lim_buckets (count_and_sweep l now) (tenant_Key t i)))
         (lim_requestsPerWindow l) (lim_window l) now = (v, b)"
      "fst (Limiter_Allow l i t u now) = v"
      "lim_buckets (snd (Limiter_Allow l i t u now)) =
         (lim_buckets (count_and_sweep l now))(tenant_Key t i \<mapsto> b)"
proof -
  obtain v b where vb:
    "checkAndAdvance (bucket_or_zero (lim_buckets (count_and_sweep l now) (tenant_Key t i)))
       (lim_requestsPerWindow l) (lim_window l) now = (v, b)"
    by fastforce
  with allow_tool_identity [of "count_and_sweep l now" i t u now] early reached [OF vb]
  show thesis by (auto simp: Limiter_Allow_def allow_identity_def)
qed

section \<open>The fixed-window bound\<close>

text \<open>
  \<open>admissions xs a b\<close> counts the times of \<open>xs\<close> in \<open>[a, b)\<close>. The history of one bucket is a list of epochs, newest first:
  an epoch is the start of a window and the times admitted in it. The time of a call is that of the request's start, so calls
  may reach the limiter late; \<open>late\<close> bounds by how much a call's time lies before one that arrived earlier. The invariant: an
  epoch admits at most \<open>r\<close> times, none more than \<open>late\<close> before its start or a window after it, and successive epochs start at
  least a window less \<open>late\<close> apart (a reset needs an expired window; a sweep removes only those, at some time already seen).
\<close>

definition admissions :: "go_time list \<Rightarrow> go_time \<Rightarrow> go_time \<Rightarrow> int" where
  "admissions xs a b = int (length (filter (\<lambda>x. a \<le> x \<and> x < b) xs))"

definition epoch_ok :: "duration \<Rightarrow> duration \<Rightarrow> int \<Rightarrow> go_time \<Rightarrow> go_time \<times> go_time list \<Rightarrow> bool" where
  "epoch_ok w late r seen e \<longleftrightarrow> int (length (snd e)) \<le> r \<and> fst e \<noteq> 0 \<and> fst e \<le> seen \<and>
     (\<forall>x \<in> set (snd e). fst e - late \<le> x \<and> x < fst e + w)"

definition spaced :: "duration \<Rightarrow> (go_time \<times> 'b) list \<Rightarrow> bool" where
  "spaced g es \<longleftrightarrow> sorted_wrt (\<lambda>e e'. fst e' + g \<le> fst e) es"

definition bucket_inv ::
  "duration \<Rightarrow> duration \<Rightarrow> int \<Rightarrow> bucket option \<Rightarrow> go_time \<Rightarrow> (go_time \<times> go_time list) list \<Rightarrow> bool" where
  "bucket_inv w late r ob seen es \<longleftrightarrow>
     (\<forall>e \<in> set es. epoch_ok w late r seen e) \<and> spaced (w - late) es \<and>
     (case es of [] \<Rightarrow> ob = None
      | e # _ \<Rightarrow> ob = Some \<lparr>b_windowStart = fst e, b_count = int (length (snd e))\<rparr> \<or> ob = None \<and> fst e + w \<le> seen)"

definition epoch_admissions :: "(go_time \<times> go_time list) list \<Rightarrow> go_time \<Rightarrow> go_time \<Rightarrow> int" where
  "epoch_admissions es a b = (\<Sum>e\<leftarrow>es. admissions (snd e) a b)"

lemma admissions_Cons: "admissions (x # xs) a b = (if a \<le> x \<and> x < b then 1 else 0) + admissions xs a b"
  by (simp add: admissions_def)

lemma admissions_le: "admissions xs a b \<le> int (length xs)"
  by (simp add: admissions_def)

lemma spaced_length:
  assumes "spaced g es" and "\<forall>e \<in> set es. lo < fst e \<and> fst e < hi" and "0 < g" and "hi - lo \<le> int k * g" and "lo \<le> hi"
  shows "length es \<le> k"
  using assms
proof (induction es arbitrary: hi k)
  case Nil
  then show ?case by simp
next
  case (Cons e es)
  then have e: "lo < fst e" "fst e < hi" and rest: "\<forall>e' \<in> set es. fst e' + g \<le> fst e" "spaced g es"
    by (auto simp: spaced_def)
  from e Cons.prems(4) have "0 < int k * g" by linarith
  then obtain k' where k: "k = Suc k'" using Cons.prems(3) by (cases k) auto
  show ?case
  proof (cases es)
    case Nil
    with k show ?thesis by simp
  next
    case (Cons e' es')
    with rest Cons.prems(2) have "lo \<le> hi - g" using e by fastforce
    moreover have "\<forall>e' \<in> set es. lo < fst e' \<and> fst e' < hi - g" using rest e Cons.prems(2) by fastforce
    moreover have "hi - g - lo \<le> int k' * g" using Cons.prems(4) k by (simp add: algebra_simps)
    ultimately have "length es \<le> k'" using rest Cons.prems(3) by (intro Cons.IH [of "hi - g"]) auto
    with k show ?thesis by simp
  qed
qed

lemma spaced_Cons:
  assumes "spaced g es" and "0 \<le> g" and "\<And>e es'. es = e # es' \<Longrightarrow> fst e + g \<le> s"
  shows "spaced g ((s, x) # es)"
proof (cases es)
  case (Cons e es')
  with assms(1) have "fst e' + g \<le> fst e" if "e' \<in> set es'" for e' using that by (simp add: spaced_def)
  with Cons assms(1) assms(2) assms(3) [OF Cons] show ?thesis by (fastforce simp: spaced_def)
qed (simp add: spaced_def)

lemma epoch_admissions_le:
  assumes "\<forall>e \<in> set es. epoch_ok w late r seen e" and "0 \<le> r"
  shows "epoch_admissions es a (a + w) \<le> r * int (length (filter (\<lambda>e. a - w < fst e \<and> fst e < a + w + late) es))"
  using assms
proof (induction es)
  case Nil
  then show ?case by (simp add: epoch_admissions_def)
next
  case (Cons e es)
  have "admissions (snd e) a (a + w) = 0" if "\<not> (a - w < fst e \<and> fst e < a + w + late)"
    using that Cons.prems by (auto simp: admissions_def epoch_ok_def filter_empty_conv)
  moreover have "admissions (snd e) a (a + w) \<le> r"
    using admissions_le [of "snd e" a "a + w"] Cons.prems by (auto simp: epoch_ok_def)
  ultimately show ?case using Cons by (auto simp: epoch_admissions_def algebra_simps)
qed

lemma bucket_inv_bound:
  assumes inv: "bucket_inv w late r ob seen es" and r: "0 \<le> r" and late: "0 \<le> late" "late < w"
    and k: "2 * w + late \<le> int k * (w - late)"
  shows "epoch_admissions es a (a + w) \<le> int k * r"
proof -
  let ?es = "filter (\<lambda>e. a - w < fst e \<and> fst e < a + w + late) es"
  have "spaced (w - late) ?es" using inv by (simp add: bucket_inv_def spaced_def sorted_wrt_filter)
  then have "length ?es \<le> k"
    using late k by (intro spaced_length [of "w - late" _ "a - w" "a + w + late"]) auto
  then have "r * int (length ?es) \<le> int k * r" using r by (simp add: mult.commute [of "int k"] mult_left_mono)
  with epoch_admissions_le [of es w late r seen a] inv r show ?thesis by (auto simp: bucket_inv_def)
qed

lemma epoch_ok_later: "epoch_ok w late r seen e \<Longrightarrow> seen \<le> seen' \<Longrightarrow> epoch_ok w late r seen' e"
  by (simp add: epoch_ok_def)

lemma window_expired_iff:
  "0 < w \<Longrightarrow> w \<le> max_duration \<Longrightarrow> w \<le> time_sub now t \<longleftrightarrow> t + w \<le> now"
  using time_sub_ge_iff [of w now t] by (auto simp: min_duration_def)

lemma bucket_inv_swept:
  assumes inv: "bucket_inv w late r ob seen es" and ob': "ob' = ob \<or> ob' = None \<and> dead w now ob"
    and w: "0 < w" "w \<le> max_duration"
  shows "bucket_inv w late r ob' (max seen now) es"
proof (cases es)
  case Nil
  with inv ob' show ?thesis by (auto simp: bucket_inv_def)
next
  case (Cons e es')
  from Cons inv have "fst e \<noteq> 0" by (simp add: bucket_inv_def epoch_ok_def)
  with Cons inv ob' w show ?thesis
    by (auto simp: bucket_inv_def dead_def window_expired_iff intro: epoch_ok_later)
qed

text \<open>The bucket the check works on, after it has reset an unused or expired one.\<close>

definition current_bucket :: "bucket option \<Rightarrow> duration \<Rightarrow> go_time \<Rightarrow> bucket" where
  "current_bucket ob w now =
     (let b = bucket_or_zero ob
      in if b_windowStart b = 0 \<or> w \<le> time_sub now (b_windowStart b)
         then \<lparr>b_windowStart = now, b_count = 0\<rparr> else b)"

lemma checkAndAdvance_current:
  "checkAndAdvance (bucket_or_zero ob) r w now = (v, b) \<Longrightarrow>
     bv_Allowed v = (b_count (current_bucket ob w now) < r) \<and>
     b = (current_bucket ob w now)\<lparr>b_count := b_count (current_bucket ob w now) + (if bv_Allowed v then 1 else 0)\<rparr>"
  by (auto simp: checkAndAdvance_def current_bucket_def time_is_zero_def split: if_splits)

text \<open>The reset opens an epoch; the others stay.\<close>

lemma current_bucket_inv:
  assumes inv: "bucket_inv w late r ob seen es" and w: "0 < w" "w \<le> max_duration" and r: "0 \<le> r"
    and now: "now \<le> seen" "seen - late \<le> now" "0 < now" and late: "0 \<le> late" "late < w"
  obtains s xs es' where "current_bucket ob w now = \<lparr>b_windowStart = s, b_count = int (length xs)\<rparr>"
    "bucket_inv w late r (Some (current_bucket ob w now)) seen ((s, xs) # es')" "s - late \<le> now" "now < s + w"
    "\<And>a b. epoch_admissions ((s, xs) # es') a b = epoch_admissions es a b"
proof -
  note result = that
  have fresh: thesis if cur: "current_bucket ob w now = \<lparr>b_windowStart = now, b_count = 0\<rparr>"
    and apart: "\<And>e es'. es = e # es' \<Longrightarrow> fst e + (w - late) \<le> now"
  proof (rule result [of now "[]" es])
    have "spaced (w - late) ((now, []) # es)"
      using inv late apart by (intro spaced_Cons) (simp_all add: bucket_inv_def)
    then show "bucket_inv w late r (Some (current_bucket ob w now)) seen ((now, []) # es)"
      using inv cur now r by (simp add: bucket_inv_def epoch_ok_def)
  qed (use cur w late in \<open>simp_all add: epoch_admissions_def admissions_def\<close>)
  show thesis
  proof (cases es)
    case Nil
    with inv show ?thesis
      by (intro fresh) (simp_all add: bucket_inv_def current_bucket_def bucket_or_zero_def zero_bucket_def)
  next
    case (Cons e es')
    from Cons inv have e: "fst e \<noteq> 0" "fst e \<le> seen" by (simp_all add: bucket_inv_def epoch_ok_def)
    consider (live) "ob = Some \<lparr>b_windowStart = fst e, b_count = int (length (snd e))\<rparr>" "now < fst e + w"
      | (expired) "ob = Some \<lparr>b_windowStart = fst e, b_count = int (length (snd e))\<rparr>" "fst e + w \<le> now"
      | (evicted) "ob = None" "fst e + w \<le> seen"
      using inv Cons by (auto simp: bucket_inv_def not_le [symmetric])
    then show ?thesis
    proof cases
      case live
      then have "current_bucket ob w now = \<lparr>b_windowStart = fst e, b_count = int (length (snd e))\<rparr>"
        using e w by (simp add: current_bucket_def bucket_or_zero_def window_expired_iff)
      then show ?thesis using live inv Cons e now by (intro result [of "fst e" "snd e" es']) auto
    next
      case expired
      then show ?thesis using e w late Cons
        by (intro fresh) (auto simp: current_bucket_def bucket_or_zero_def window_expired_iff)
    next
      case evicted
      then show ?thesis using now Cons
        by (intro fresh) (auto simp: current_bucket_def bucket_or_zero_def zero_bucket_def)
    qed
  qed
qed

lemma bucket_inv_check:
  assumes inv: "bucket_inv w late r ob seen es" and chk: "checkAndAdvance (bucket_or_zero ob) r w now = (v, b)"
    and w: "0 < w" "w \<le> max_duration" and r: "0 \<le> r" and now: "now \<le> seen" "seen - late \<le> now" "0 < now" and late: "0 \<le> late" "late < w"
  obtains es' where "bucket_inv w late r (Some b) seen es'"
    "\<And>a b. epoch_admissions es' a b = epoch_admissions es a b + (if bv_Allowed v then admissions [now] a b else 0)"
proof -
  obtain s xs es' where cur: "current_bucket ob w now = \<lparr>b_windowStart = s, b_count = int (length xs)\<rparr>"
    and inv': "bucket_inv w late r (Some (current_bucket ob w now)) seen ((s, xs) # es')"
    and s: "s - late \<le> now" "now < s + w"
    and adm: "\<And>a b. epoch_admissions ((s, xs) # es') a b = epoch_admissions es a b"
    using inv w r now late by (rule current_bucket_inv) blast
  from checkAndAdvance_current [OF chk] cur have v: "bv_Allowed v \<longleftrightarrow> int (length xs) < r"
      and b: "b = \<lparr>b_windowStart = s, b_count = int (length xs) + (if bv_Allowed v then 1 else 0)\<rparr>"
    by auto
  show thesis
  proof (cases "bv_Allowed v")
    case False
    with inv' b cur adm show ?thesis by (intro that [of "(s, xs) # es'"]) auto
  next
    case True
    with v b inv' s have "bucket_inv w late r (Some b) seen ((s, now # xs) # es')"
      by (auto simp: bucket_inv_def epoch_ok_def spaced_def)
    moreover have "epoch_admissions ((s, now # xs) # es') c d = epoch_admissions es c d + admissions [now] c d" for c d
      using adm [of c d] by (simp add: epoch_admissions_def admissions_def)
    ultimately show ?thesis using True by (intro that [of "(s, now # xs) # es'"]) auto
  qed
qed

text \<open>The times at which a history admits the identity \<open>i\<close> of tenant \<open>t\<close>.\<close>

definition admitted_times :: "string \<Rightarrow> string \<Rightarrow> (call \<times> budget_Verdict) list \<Rightarrow> go_time list" where
  "admitted_times t i cvs =
     map (c_time \<circ> fst)
       (filter (\<lambda>(c, v). bv_Allowed v \<and> c_tenant c = t \<and> c_identity c = i) cvs)"

lemma admitted_times_simps [simp]:
  "admitted_times t i [] = []"
  "admitted_times t i ((c, v) # cvs) =
     (if bv_Allowed v \<and> c_tenant c = t \<and> c_identity c = i then [c_time c] else []) @
     admitted_times t i cvs"
  by (simp_all add: admitted_times_def)

lemma Allow_bucket_inv:
  assumes inv: "bucket_inv (lim_window l) late (lim_requestsPerWindow l) (lim_buckets l (tenant_Key t i)) seen es"
    and w: "0 < lim_window l" "lim_window l \<le> max_duration" and r: "0 \<le> lim_requestsPerWindow l"
    and now: "seen - late \<le> now" "0 < now" and late: "0 \<le> late" "late < lim_window l"
    and allow: "Limiter_Allow l i' t' u now = (v, l')"
  obtains es' where
    "bucket_inv (lim_window l) late (lim_requestsPerWindow l) (lim_buckets l' (tenant_Key t i)) (max seen now) es'"
    "\<And>a b. epoch_admissions es' a b =
       epoch_admissions es a b + (if bv_Allowed v \<and> t' = t \<and> i' = i then admissions [now] a b else 0)"
proof -
  note result = that
  have swept: "bucket_inv (lim_window l) late (lim_requestsPerWindow l)
      (lim_buckets (count_and_sweep l now) (tenant_Key t i)) (max seen now) es"
    using inv sweep_buckets w by (rule bucket_inv_swept)
  show thesis
  proof (rule Allow_identity_tier [of l i' t' u now])
    assume "\<not> bv_Allowed (fst (Limiter_Allow l i' t' u now))"
      "lim_buckets (snd (Limiter_Allow l i' t' u now)) = lim_buckets (count_and_sweep l now)"
    with swept allow show thesis by (intro result [of es]) auto
  next
    fix v' b
    assume chk: "checkAndAdvance (bucket_or_zero (lim_buckets (count_and_sweep l now) (tenant_Key t' i')))
        (lim_requestsPerWindow l) (lim_window l) now = (v', b)"
      and v': "fst (Limiter_Allow l i' t' u now) = v'"
      and bs: "lim_buckets (snd (Limiter_Allow l i' t' u now)) =
        (lim_buckets (count_and_sweep l now))(tenant_Key t' i' \<mapsto> b)"
    show thesis
    proof (cases "t' = t \<and> i' = i")
      case True
      from chk True have chk': "checkAndAdvance (bucket_or_zero (lim_buckets (count_and_sweep l now) (tenant_Key t i)))
          (lim_requestsPerWindow l) (lim_window l) now = (v', b)" by simp
      have late': "now \<le> max seen now" "max seen now - late \<le> now" using now late by auto
      obtain es' where "bucket_inv (lim_window l) late (lim_requestsPerWindow l) (Some b) (max seen now) es'"
        "\<And>a b. epoch_admissions es' a b = epoch_admissions es a b + (if bv_Allowed v' then admissions [now] a b else 0)"
        using swept chk' w r late' now(2) late by (rule bucket_inv_check) blast
      with True allow v' bs show ?thesis by (intro result [of es']) auto
    next
      case False
      with swept allow bs show ?thesis by (intro result [of es]) (auto simp: wardline_keys)
    qed
  qed
qed

text \<open>\<open>late_by d cs\<close>: no call lies more than \<open>d\<close> before one that reached the limiter earlier. Calls in order are late by nothing.\<close>

definition late_by :: "duration \<Rightarrow> call list \<Rightarrow> bool" where
  "late_by d cs \<longleftrightarrow> sorted_wrt (\<lambda>c c'. c_time c - d \<le> c_time c') cs"

lemma late_by_0: "late_by 0 cs \<longleftrightarrow> sorted (map c_time cs)"
  by (simp add: late_by_def sorted_map)

lemma limiter_run_epochs:
  assumes "bucket_inv (lim_window l) late (lim_requestsPerWindow l) (lim_buckets l (tenant_Key t i)) seen es"
    and "0 < lim_window l" "lim_window l \<le> max_duration" "0 \<le> lim_requestsPerWindow l" "0 \<le> late" "late < lim_window l"
    and "2 * lim_window l + late \<le> int k * (lim_window l - late)"
    and "late_by late cs" "\<forall>c \<in> set cs. seen - late \<le> c_time c \<and> 0 < c_time c"
  shows "epoch_admissions es a (a + lim_window l) + admissions (admitted_times t i (zip cs (limiter_run l cs))) a (a + lim_window l)
    \<le> int k * lim_requestsPerWindow l"
  using assms
proof (induction cs arbitrary: l seen es)
  case Nil
  then show ?case using bucket_inv_bound [OF Nil.prems(1,4,5,6,7)] by (simp add: admissions_def)
next
  case (Cons c cs)
  obtain v l' where allow: "Limiter_Allow l (c_identity c) (c_tenant c) (c_tool c) (c_time c) = (v, l')"
    by fastforce
  then have cfg: "lim_window l' = lim_window l" "lim_requestsPerWindow l' = lim_requestsPerWindow l"
    using Allow_config [of l "c_identity c" "c_tenant c" "c_tool c" "c_time c"] by auto
  from Cons.prems have now: "seen - late \<le> c_time c" "0 < c_time c"
    and rest: "late_by late cs" "\<forall>c' \<in> set cs. max seen (c_time c) - late \<le> c_time c' \<and> 0 < c_time c'"
    by (auto simp: late_by_def max_def)
  obtain es' where inv: "bucket_inv (lim_window l) late (lim_requestsPerWindow l) (lim_buckets l' (tenant_Key t i)) (max seen (c_time c)) es'"
    and adm: "\<And>a b. epoch_admissions es' a b = epoch_admissions es a b +
      (if bv_Allowed v \<and> c_tenant c = t \<and> c_identity c = i then admissions [c_time c] a b else 0)"
    using Cons.prems(1-4) now Cons.prems(5,6) allow by (rule Allow_bucket_inv) blast
  have "epoch_admissions es' a (a + lim_window l') + admissions (admitted_times t i (zip cs (limiter_run l' cs))) a (a + lim_window l')
      \<le> int k * lim_requestsPerWindow l'"
    using inv Cons.prems(2-7) rest by (intro Cons.IH [where seen = "max seen (c_time c)"]) (simp_all add: cfg del: max_diff_distrib_left)
  then show ?case using allow by (auto simp: cfg adm admissions_def split: if_splits)
qed

lemma limiter_run_bound:
  assumes "lim_buckets l = Map.empty"
    and "0 < lim_window l" "lim_window l \<le> max_duration" "0 \<le> lim_requestsPerWindow l" "0 \<le> late" "late < lim_window l"
    and "2 * lim_window l + late \<le> int k * (lim_window l - late)"
    and "late_by late cs" "\<forall>c \<in> set cs. 0 < c_time c"
  shows "admissions (admitted_times t i (zip cs (limiter_run l cs))) a (a + lim_window l) \<le> int k * lim_requestsPerWindow l"
proof -
  have "bucket_inv (lim_window l) late (lim_requestsPerWindow l) (lim_buckets l (tenant_Key t i)) 0 []"
    using assms(1) by (simp add: bucket_inv_def spaced_def)
  from limiter_run_epochs [OF this assms(2-8)] assms(5,9) show ?thesis by (fastforce simp: epoch_admissions_def)
qed

section \<open>Tenant isolation\<close>

text \<open>
  Two limiters agree for tenant \<open>t\<close> at time \<open>now\<close> when each of its buckets is the same in both, or
  dead in both: what the sweep removed cannot be told from what it left.
\<close>

definition same_bucket :: "duration \<Rightarrow> go_time \<Rightarrow> bucket option \<Rightarrow> bucket option \<Rightarrow> bool" where
  "same_bucket w now ob ob' \<longleftrightarrow> ob = ob' \<or> dead w now ob \<and> dead w now ob'"

definition agree_for :: "string \<Rightarrow> go_time \<Rightarrow> InMemoryLimiter \<Rightarrow> InMemoryLimiter \<Rightarrow> bool" where
  "agree_for t now l l' \<longleftrightarrow>
     lim_requestsPerWindow l = lim_requestsPerWindow l' \<and> lim_window l = lim_window l' \<and>
     lim_tenantLimits l = lim_tenantLimits l' \<and>
     lim_toolLimits l = Map.empty \<and> lim_toolLimits l' = Map.empty \<and>
     (\<forall>i. same_bucket (lim_window l) now (lim_buckets l (tenant_Key t i)) (lim_buckets l' (tenant_Key t i))) \<and>
     same_bucket (limit_window (lim_tenantLimits l) t) now (lim_tenantBuckets l t) (lim_tenantBuckets l' t)"

lemma same_bucket_later: "same_bucket w now ob ob' \<Longrightarrow> now \<le> now' \<Longrightarrow> same_bucket w now' ob ob'"
  by (auto simp: same_bucket_def dest: dead_mono)

lemma same_bucket_swept:
  "same_bucket w now ob ob' \<Longrightarrow> ob1 = ob \<or> ob1 = None \<and> dead w now ob \<Longrightarrow> same_bucket w now ob1 ob'"
  by (auto simp: same_bucket_def)

lemma same_bucket_sym: "same_bucket w now ob ob' = same_bucket w now ob' ob"
  by (auto simp: same_bucket_def)

lemma same_bucket_check:
  "same_bucket w now ob ob' \<Longrightarrow>
     checkAndAdvance (bucket_or_zero ob) r w now = checkAndAdvance (bucket_or_zero ob') r w now"
  by (auto simp: same_bucket_def intro: checkAndAdvance_dead)

lemma agree_for_later: "agree_for t now l l' \<Longrightarrow> now \<le> now' \<Longrightarrow> agree_for t now' l l'"
  unfolding agree_for_def using same_bucket_later by metis

lemma agree_for_sym: "agree_for t now l l' = agree_for t now l' l"
  unfolding agree_for_def using same_bucket_sym by metis

lemma agree_for_swept:
  assumes agree: "agree_for t seen l l'" and now: "now \<le> seen"
  shows "agree_for t seen (count_and_sweep l now) l'"
proof -
  have "lim_buckets (count_and_sweep l now) k = lim_buckets l k \<or>
      lim_buckets (count_and_sweep l now) k = None \<and> dead (lim_window l) seen (lim_buckets l k)" for k
    using sweep_buckets [of l now k] now by (auto dest: dead_mono)
  moreover have "lim_tenantBuckets (count_and_sweep l now) t = lim_tenantBuckets l t \<or>
      lim_tenantBuckets (count_and_sweep l now) t = None \<and> dead (limit_window (lim_tenantLimits l) t) seen (lim_tenantBuckets l t)"
    using sweep_tenantBuckets [of l now t] now by (auto dest: dead_mono)
  ultimately show ?thesis using agree by (simp add: agree_for_def) (metis same_bucket_swept)
qed

lemma agree_for_swept_both:
  "agree_for t now l l' \<Longrightarrow> agree_for t now (count_and_sweep l now) (count_and_sweep l' now)"
  using agree_for_swept agree_for_sym by blast

lemma allow_identity_agree:
  assumes "agree_for t now l l'"
  shows "fst (allow_identity l i t now) = fst (allow_identity l' i t now)"
    and "agree_for t now (snd (allow_identity l i t now)) (snd (allow_identity l' i t now))"
proof -
  have eq: "checkAndAdvance (bucket_or_zero (lim_buckets l (tenant_Key t i))) (lim_requestsPerWindow l)
        (lim_window l) now
      = checkAndAdvance (bucket_or_zero (lim_buckets l' (tenant_Key t i))) (lim_requestsPerWindow l')
        (lim_window l') now"
    using assms by (auto simp: agree_for_def intro: same_bucket_check)
  then show "fst (allow_identity l i t now) = fst (allow_identity l' i t now)"
    by (simp add: allow_identity_def split: prod.split)
  from assms eq show "agree_for t now (snd (allow_identity l i t now)) (snd (allow_identity l' i t now))"
    by (auto simp: allow_identity_def agree_for_def wardline_keys same_bucket_def split: prod.split)
qed

lemma allow_tenant_agree:
  assumes "agree_for t now l l'"
  shows "fst (allow_tenant l i t now) = fst (allow_tenant l' i t now) \<and>
    agree_for t now (snd (allow_tenant l i t now)) (snd (allow_tenant l' i t now))"
proof (cases "lim_tenantLimits l t")
  case None
  with assms have "lim_tenantLimits l' t = None" by (simp add: agree_for_def)
  with None allow_identity_agree [OF assms] show ?thesis by (simp add: allow_tenant_def)
next
  case (Some limit)
  with assms have some': "lim_tenantLimits l' t = Some limit"
    and same: "same_bucket (tl_window limit) now (lim_tenantBuckets l t) (lim_tenantBuckets l' t)"
    by (auto simp: agree_for_def limit_window_def)
  obtain v tb where vtb: "checkAndAdvance (bucket_or_zero (lim_tenantBuckets l t))
      (tl_requestsPerWindow limit) (tl_window limit) now = (v, tb)" by fastforce
  note vtb' = vtb [unfolded same_bucket_check [OF same]]
  have agree: "agree_for t now (l\<lparr>lim_tenantBuckets := (lim_tenantBuckets l)(t \<mapsto> tb)\<rparr>)
      (l'\<lparr>lim_tenantBuckets := (lim_tenantBuckets l')(t \<mapsto> tb)\<rparr>)"
    using assms by (auto simp: agree_for_def same_bucket_def)
  from Some some' vtb vtb' agree allow_identity_agree [OF agree] show ?thesis
    by (simp add: allow_tenant_def)
qed

lemma Allow_agree:
  assumes "agree_for t now l l'"
  shows "fst (Limiter_Allow l i t u now) = fst (Limiter_Allow l' i t u' now) \<and>
    agree_for t now (snd (Limiter_Allow l i t u now)) (snd (Limiter_Allow l' i t u' now))"
proof -
  have agree: "agree_for t now (count_and_sweep l now) (count_and_sweep l' now)"
    using assms by (rule agree_for_swept_both)
  then have "lim_toolLimits l = Map.empty" "lim_toolLimits l' = Map.empty"
    by (simp_all add: agree_for_def)
  with allow_tenant_agree [OF agree] show ?thesis by (simp add: Limiter_Allow_def allow_tool_def)
qed

text \<open>Another tenant's call changes nothing tenant \<open>t\<close> can see.\<close>

lemma Allow_other_tenant:
  assumes agree: "agree_for t seen l l'" and other: "t' \<noteq> t" and now: "now \<le> seen"
  shows "agree_for t seen (snd (Limiter_Allow l i t' u now)) l'"
proof -
  have "agree_for t seen (count_and_sweep l now) l'" using agree now by (rule agree_for_swept)
  moreover have "lim_toolLimits (count_and_sweep l now) = Map.empty"
    using calculation by (simp add: agree_for_def)
  ultimately show ?thesis
    using other
    by (auto simp: Limiter_Allow_def allow_tool_def allow_tenant_def allow_identity_def agree_for_def
        wardline_keys split: option.split prod.split)
qed

lemma limiter_run_isolated:
  assumes "agree_for t seen l l'" and "sorted_wrt (\<lambda>c c'. c_tenant c' = t \<longrightarrow> c_time c \<le> c_time c') cs"
    and "\<forall>c \<in> set cs. c_tenant c = t \<longrightarrow> seen \<le> c_time c"
  shows "map snd (filter (\<lambda>(c, v). c_tenant c = t) (zip cs (limiter_run l cs)))
     = limiter_run l' (filter (\<lambda>c. c_tenant c = t) cs)"
  using assms
proof (induction cs arbitrary: l l' seen)
  case Nil
  then show ?case by simp
next
  case (Cons c cs)
  let ?now = "c_time c" and ?seen = "max seen (c_time c)"
  have agree: "agree_for t ?seen l l'" using Cons.prems(1) by (rule agree_for_later) simp
  have rest: "sorted_wrt (\<lambda>c c'. c_tenant c' = t \<longrightarrow> c_time c \<le> c_time c') cs" "\<forall>c \<in> set cs. c_tenant c = t \<longrightarrow> ?seen \<le> c_time c"
    using Cons.prems by auto
  obtain v l1 where allow: "Limiter_Allow l (c_identity c) (c_tenant c) (c_tool c) ?now = (v, l1)"
    by fastforce
  show ?case
  proof (cases "c_tenant c = t")
    case True
    then have now: "?seen = ?now" using Cons.prems(3) by simp
    obtain v' l1' where allow': "Limiter_Allow l' (c_identity c) t (c_tool c) ?now = (v', l1')"
      by fastforce
    from Allow_agree [OF agree [unfolded now], of "c_identity c" "c_tool c" "c_tool c"] True allow allow'
    have "v = v'" and "agree_for t ?seen l1 l1'" by (auto simp: now)
    with True allow allow' Cons.IH [OF _ rest] show ?thesis by simp
  next
    case False
    from Allow_other_tenant [OF agree False, of ?now "c_identity c" "c_tool c"] allow
    have "agree_for t ?seen l1 l'" by simp
    with False allow Cons.IH [OF _ rest] show ?thesis by simp
  qed
qed

section \<open>Properties\<close>

lemma admissions_admitted:
  "admissions (admitted_times t i cvs) a b =
     int (length (filter (\<lambda>(c, v). bv_Allowed v \<and> c_tenant c = t \<and> c_identity c = i \<and>
            a \<le> c_time c \<and> c_time c < b) cvs))"
  by (induction cvs) (auto simp: admissions_def split: if_splits)

text \<open>
  C5. Whatever tenant and tool overrides are configured, and however calls of all identities, tenants and tools interleave and
  sweeps fall: if no call reaches the limiter with a time more than \<open>late\<close> before that of a call that reached it earlier, then
  in any interval as long as the window no identity of a tenant is admitted more than \<open>k\<close> times its configured number of
  requests, for each \<open>k\<close> with \<open>2 * w + late \<le> k * (w - late)\<close>. For calls in order of their times (\<open>late = 0\<close>) this is twice
  the limit, the bound of a fixed-window counter, reached by a burst on both sides of a window boundary; it is three times
  the limit while calls are late by at most a quarter of the window. (The time of a call is when its request started, before
  its body was read, so that calls can be late.)
\<close>
theorem fixed_window_bound:
  assumes "late_by late cs" and "0 \<le> late" and "late < w" and "2 * w + late \<le> int k * (w - late)"
    and "\<forall>c \<in> set cs. 0 < c_time c"
    and "lim_buckets l = Map.empty" and "lim_requestsPerWindow l = r" and "lim_window l = w"
    and "0 < w" and "w \<le> max_duration" and "0 \<le> r"
  shows "int (length (filter (\<lambda>(c, v). bv_Allowed v \<and> c_tenant c = t \<and> c_identity c = i \<and>
            a \<le> c_time c \<and> c_time c < a + w) (zip cs (limiter_run l cs)))) \<le> int k * r"
  using assms limiter_run_bound [of l late k cs t i a] by (simp add: admissions_admitted)

definition example_call :: "string \<Rightarrow> go_time \<Rightarrow> call" where
  "example_call t now = \<lparr>c_identity = ''alice'', c_tenant = t, c_tool = ''read'', c_time = now\<rparr>"

text \<open>Calls late by up to 2 in windows of 10 (so \<open>k = 3\<close>).\<close>

theorem fixed_window_bound_witness:
  "int (length (filter (\<lambda>(c, v). bv_Allowed v \<and> c_tenant c = ''acme'' \<and> c_identity c = ''alice'' \<and>
      5 \<le> c_time c \<and> c_time c < 5 + 10)
      (zip [example_call ''acme'' 5, example_call ''acme'' 14, example_call ''acme'' 12]
        (limiter_run (NewInMemoryLimiter 1 10)
          [example_call ''acme'' 5, example_call ''acme'' 14, example_call ''acme'' 12])))) \<le> int 3 * 1"
  by (rule fixed_window_bound [where late = 2])
    (simp_all add: late_by_def example_call_def NewInMemoryLimiter_def max_duration_def)

text \<open>Twice the limit is not a bound for late calls: here seven calls pass within ten nanoseconds where the limit is three.\<close>

lemma late_calls_pass_twice_the_limit:
  "length (filter (\<lambda>(c, v). bv_Allowed v \<and> 108 \<le> c_time c \<and> c_time c < 118)
     (let cs = map (example_call ''acme'') [100, 108, 109, 110, 111, 112, 120, 113, 114]
      in zip cs (limiter_run (NewInMemoryLimiter 3 10) cs))) = 7"
  by code_simp

text \<open>
  C23. With no tool override configured (tool buckets are shared by design), tenants cannot interfere: if the calls of a tenant
  reach the limiter no earlier in time than the calls that reached it before them (those of other tenants may come in any
  order among themselves), the verdicts they get in any interleaving with other tenants' calls are those they would get if the
  other tenants made no calls at all.
\<close>
theorem tenant_isolation:
  assumes "sorted_wrt (\<lambda>c c'. c_tenant c' = t \<longrightarrow> c_time c \<le> c_time c') cs" and "lim_toolLimits l = Map.empty"
  shows "map snd (filter (\<lambda>(c, v). c_tenant c = t) (zip cs (limiter_run l cs)))
    = limiter_run l (filter (\<lambda>c. c_tenant c = t) cs)"
proof (rule limiter_run_isolated)
  show "agree_for t (Min (c_time ` set cs)) l l" using assms by (simp add: agree_for_def same_bucket_def)
qed (use assms in auto)

text \<open>
  A tenant's late call is not isolated: the call of another tenant that makes the limiter sweep removes its full bucket, and the
  call is admitted where without the other tenant it would be throttled.
\<close>

lemma late_call_not_isolated:
  "let l = (NewInMemoryLimiter 1 10)\<lparr>lim_calls := 998\<rparr>; cs = [example_call ''acme'' 1, example_call ''widgets'' 11, example_call ''acme'' 2]
   in map bv_Allowed (limiter_run l cs) = [True, True, True] \<and>
      map bv_Allowed (limiter_run l (filter (\<lambda>c. c_tenant c = ''acme'') cs)) = [True, False]"
  by code_simp

theorem tenant_isolation_witness:
  "map snd (filter (\<lambda>(c, v). c_tenant c = ''acme'')
       (zip [example_call ''widgets'' 2, example_call ''widgets'' 1, example_call ''acme'' 2]
         (limiter_run (NewInMemoryLimiter 1 10) [example_call ''widgets'' 2, example_call ''widgets'' 1, example_call ''acme'' 2])))
   = limiter_run (NewInMemoryLimiter 1 10) [example_call ''acme'' 2]"
  using tenant_isolation [of "''acme''" "[example_call ''widgets'' 2, example_call ''widgets'' 1, example_call ''acme'' 2]"
      "NewInMemoryLimiter 1 10"]
  by (simp add: example_call_def NewInMemoryLimiter_def)

text \<open>
  The retry hint of a refused call is honest: it is positive and at most one window, a retry
  any earlier is refused again, and a retry exactly then is admitted.
\<close>
theorem retry_after_honest:
  assumes "checkAndAdvance b r w now = (v, b')" and "\<not> bv_Allowed v"
    and "0 < w" and "w \<le> max_duration" and "0 < r" and "0 < now" and "b_windowStart b \<le> now"
  shows "0 < bv_RetryAfter v \<and> bv_RetryAfter v \<le> w \<and>
    bv_Allowed (fst (checkAndAdvance b' r w (now + bv_RetryAfter v))) \<and>
    (\<forall>d. 0 \<le> d \<and> d < bv_RetryAfter v \<longrightarrow> \<not> bv_Allowed (fst (checkAndAdvance b' r w (now + d))))"
proof -
  let ?ws = "b_windowStart b"
  have live: "?ws \<noteq> 0" "now < ?ws + w" "b' = b" "r \<le> b_count b"
    and retry: "bv_RetryAfter v = time_sub (?ws + w) now"
    using assms by (auto simp: checkAndAdvance_def time_is_zero_def window_expired_iff split: if_splits)
  have exact: "bv_RetryAfter v = ?ws + w - now"
    unfolding retry using live assms by (intro time_sub_exact) (auto simp: min_duration_def)
  then show ?thesis
    using live assms by (auto simp: checkAndAdvance_def time_is_zero_def window_expired_iff)
qed

theorem retry_after_honest_witness:
  "let (v, b') = checkAndAdvance \<lparr>b_windowStart = 5, b_count = 1\<rparr> 1 10 8
   in \<not> bv_Allowed v \<and> bv_RetryAfter v \<le> 10 \<and>
      bv_Allowed (fst (checkAndAdvance b' 1 10 (8 + bv_RetryAfter v)))"
proof -
  obtain v b' where eq: "checkAndAdvance \<lparr>b_windowStart = 5, b_count = 1\<rparr> 1 10 8 = (v, b')"
    by fastforce
  then have "\<not> bv_Allowed v"
    by (auto simp: checkAndAdvance_def time_is_zero_def time_sub_def max_duration_def min_duration_def)
  with eq retry_after_honest [OF eq] show ?thesis by (simp add: max_duration_def)
qed

lemma overrides_order_irrelevant:
  assumes "range_order ks (lim_tenantLimits l)" "range_order ks' (lim_tenantLimits l)"
  shows "TenantOverrides ks l = TenantOverrides ks' l"
proof -
  let ?f = "\<lambda>(name, lim). \<lparr>ov_Scope = ''tenant'', ov_Name = name,
    ov_Limit = \<lparr>li_RequestsPerWindow = tl_requestsPerWindow lim, li_Window = tl_window lim\<rparr>\<rparr>"
  let ?es = "\<lambda>ks. range_entries ks (lim_tenantLimits l)"
  have keys: "map fst (?es ks) = ks" if "range_order ks (lim_tenantLimits l)" for ks
  proof -
    have "set ks \<subseteq> dom (lim_tenantLimits l)" using that by (simp add: range_order_def)
    then show ?thesis by (induction ks) (auto simp: range_entries_def List.map_filter_simps)
  qed
  have dist: "distinct (?es ks)" "distinct (?es ks')"
    using assms keys by (metis distinct_map range_order_def)+
  have sets: "set (?es ks) = set (?es ks')" using assms by (simp add: set_range_entries)
  from dist sets have "mset (?es ks) = mset (?es ks')" by (simp add: set_eq_iff_mset_eq_distinct)
  then have "mset (map ?f (?es ks)) = mset (map ?f (?es ks'))" by simp
  moreover have "inj_on ov_Name (set (map ?f (?es ks)))"
    using assms by (auto simp: set_range_entries inj_on_def)
  ultimately show ?thesis
    unfolding TenantOverrides_def by (intro sort_key_inj_key_eq) simp_all
qed

end
