(* ===== verification/Meter.thy ===== *)
theory Meter
  imports Keys
begin

text \<open>
  The meter interfaces of the per-job budgets: \<open>internal/features/jobbudget/domain/jobbudget.go\<close>
  (\<open>Meter\<close>, one unit per call) and \<open>internal/features/costbudget/domain/costbudget.go\<close> (\<open>Meter\<close>, an
  amount per call), as locales. \<open>total\<close> is the running count a meter stands for. A meter may fail
  (a database behind it); what it promises when it succeeds is the contract the checkers use. A
  meter that never fails is a \<open>reliable\<close> one; the in-memory meters are.
\<close>

locale call_meter =
  fixes increment :: "'m \<Rightarrow> string \<Rightarrow> go_time \<Rightarrow> int result \<times> 'm"
    and current :: "'m \<Rightarrow> string \<Rightarrow> go_time \<Rightarrow> int result"
    and total :: "'m \<Rightarrow> string \<Rightarrow> int"
  assumes increment_result: "increment m k now = (Inr v, m') \<Longrightarrow> v = wrap64 (total m k + 1) \<and> total m' k = v"
    and increment_frame: "increment m k now = (res, m') \<Longrightarrow> k' \<noteq> k \<Longrightarrow> total m' k' = total m k'"
    and current_result: "current m k now = Inr v \<Longrightarrow> v = total m k"

locale reliable_call_meter = call_meter +
  assumes increment_reliable: "\<exists>v m'. increment m k now = (Inr v, m')"
    and current_reliable: "\<exists>v. current m k now = Inr v"
begin

lemma increment_eq: "\<exists>m'. increment m k now = (Inr (wrap64 (total m k + 1)), m')"
  using increment_reliable [of m k now] by (fastforce dest: increment_result)

lemma current_eq: "current m k now = Inr (total m k)"
  using current_reliable [of m k now] by (fastforce dest: current_result)

end

locale amount_meter =
  fixes add :: "'m \<Rightarrow> string \<Rightarrow> int \<Rightarrow> go_time \<Rightarrow> int result \<times> 'm"
    and current :: "'m \<Rightarrow> string \<Rightarrow> go_time \<Rightarrow> int result"
    and total :: "'m \<Rightarrow> string \<Rightarrow> int"
  assumes add_result: "add m k n now = (Inr v, m') \<Longrightarrow> v = wrap64 (total m k + n) \<and> total m' k = v"
    and add_frame: "add m k n now = (res, m') \<Longrightarrow> k' \<noteq> k \<Longrightarrow> total m' k' = total m k'"
    and amount_current: "current m k now = Inr v \<Longrightarrow> v = total m k"

locale reliable_amount_meter = amount_meter +
  assumes add_reliable: "\<exists>v m'. add m k n now = (Inr v, m')"
    and amount_current_reliable: "\<exists>v. current m k now = Inr v"
begin

lemma add_eq: "\<exists>m'. add m k n now = (Inr (wrap64 (total m k + n)), m')"
  using add_reliable [of m k n now] by (fastforce dest: add_result)

lemma amount_current_eq: "current m k now = Inr (total m k)"
  using amount_current_reliable [of m k now] by (fastforce dest: amount_current)

end

text \<open>An amount meter charged one unit per call is a call meter.\<close>

sublocale amount_meter \<subseteq> unit_calls: call_meter "\<lambda>m k now. add m k 1 now" current total
  by unfold_locales (auto dest: add_result add_frame amount_current)

end
