(* ===== verification/Job_Budget.thy ===== *)
theory Job_Budget
  imports Meter
begin

text \<open>
  The per-job request ceiling: \<open>internal/features/jobbudget/domain\<close> (\<open>Config\<close>, \<open>Verdict\<close>, \<open>Entry\<close>),
  \<open>internal/features/jobbudget/usecase/checker.go\<close> (the incrementing gate \<open>Check\<close> and the peek
  \<open>IsOverBudget\<close>) and \<open>internal/features/jobbudget/adapter/inmemory_meter.go\<close>. A job is a
  (tenant, identity, session) triple with the session resolved by \<open>SessionID\<close>.

  The checker takes the meter's operations as arguments; its lemmas are proved over the meter
  contract and hold for the in-memory meter by interpretation.
\<close>

section \<open>Configuration and verdicts\<close>

record JobConfig =
  jc_RequestsPerJob :: int
  jc_SessionWindowSeconds :: int

definition DefaultRequestsPerJob :: int where
  "DefaultRequestsPerJob = 500"

definition job_DefaultSessionWindowSeconds :: int where
  "job_DefaultSessionWindowSeconds = 300"

definition JobConfig_Limit :: "JobConfig \<Rightarrow> int" where
  "JobConfig_Limit c = (if jc_RequestsPerJob c \<le> 0 then DefaultRequestsPerJob else jc_RequestsPerJob c)"

definition JobConfig_Window :: "JobConfig \<Rightarrow> int" where
  "JobConfig_Window c =
     (if jc_SessionWindowSeconds c \<le> 0 then job_DefaultSessionWindowSeconds else jc_SessionWindowSeconds c)"

record job_Verdict =
  jv_Allowed :: bool
  jv_Reason :: string
  jv_Count :: int
  jv_FailedOpen :: bool

record job_Entry =
  je_Key :: string
  je_Count :: int

section \<open>The in-memory meter\<close>

record job_InMemoryMeter =
  jm_counts :: "string \<rightharpoonup> int"

definition job_NewInMemoryMeter :: job_InMemoryMeter where
  "job_NewInMemoryMeter = \<lparr>jm_counts = Map.empty\<rparr>"

definition job_Increment ::
  "job_InMemoryMeter \<Rightarrow> string \<Rightarrow> go_time \<Rightarrow> int result \<times> job_InMemoryMeter" where
  "job_Increment m key now =
     (let m = m\<lparr>jm_counts := (jm_counts m)(key \<mapsto> wrap64 (lookup0 (jm_counts m) key + 1))\<rparr>
      in (Inr (lookup0 (jm_counts m) key), m))"

definition job_Current :: "job_InMemoryMeter \<Rightarrow> string \<Rightarrow> go_time \<Rightarrow> int result" where
  "job_Current m key now = Inr (lookup0 (jm_counts m) key)"

text \<open>
  \<open>ks\<close> is the map's iteration order. \<open>sort.Slice\<close> may order entries of equal count either way;
  as \<open>ks\<close> is arbitrary, a stable sort reaches each such order.
\<close>

definition job_ListNearCeiling :: "string list \<Rightarrow> job_InMemoryMeter \<Rightarrow> int \<Rightarrow> job_Entry list" where
  "job_ListNearCeiling ks m limit =
     (let entries = map (\<lambda>(k, c). \<lparr>je_Key = k, je_Count = c\<rparr>) (range_entries ks (jm_counts m));
          entries = sort_key (\<lambda>e. - je_Count e) entries
      in if limit \<le> 0 then []
         else if limit < int (length entries) then take (nat limit) entries
         else entries)"

section \<open>The checker\<close>

definition jobBudgetFeatureFlag :: string where
  "jobBudgetFeatureFlag = ''job_budget''"

definition jobbudget_Check ::
  "(string \<Rightarrow> bool) \<Rightarrow> ('m \<Rightarrow> string \<Rightarrow> go_time \<Rightarrow> int result \<times> 'm) \<Rightarrow> JobConfig \<Rightarrow>
   string \<Rightarrow> string \<Rightarrow> string \<Rightarrow> go_time \<Rightarrow> 'm \<Rightarrow> job_Verdict \<times> 'm" where
  "jobbudget_Check flags increment cfg tenantName identity session now m =
     (if \<not> flags jobBudgetFeatureFlag
      then (\<lparr>jv_Allowed = True, jv_Reason = ''job budget disabled'', jv_Count = 0, jv_FailedOpen = False\<rparr>, m)
      else
        let session = SessionID session tenantName identity now (JobConfig_Window cfg);
            (res, m) = increment m (jobKey tenantName identity session) now
        in case res of
             Inl err \<Rightarrow>
               (\<lparr>jv_Allowed = True, jv_Reason = ''job budget check failed open: '' @ err, jv_Count = 0,
                 jv_FailedOpen = True\<rparr>, m)
           | Inr count \<Rightarrow>
               let limit = JobConfig_Limit cfg
               in if limit < count
                  then (\<lparr>jv_Allowed = False, jv_Reason = ''job budget ceiling '' @ itoa limit @ '' reached'',
                         jv_Count = count, jv_FailedOpen = False\<rparr>, m)
                  else (\<lparr>jv_Allowed = True, jv_Reason = '''', jv_Count = count, jv_FailedOpen = False\<rparr>, m))"

definition jobbudget_IsOverBudget ::
  "(string \<Rightarrow> bool) \<Rightarrow> ('m \<Rightarrow> string \<Rightarrow> go_time \<Rightarrow> int result) \<Rightarrow> JobConfig \<Rightarrow>
   string \<Rightarrow> string \<Rightarrow> string \<Rightarrow> go_time \<Rightarrow> 'm \<Rightarrow> bool" where
  "jobbudget_IsOverBudget flags current cfg tenantName identity session now m =
     (if \<not> flags jobBudgetFeatureFlag then False
      else
        let session = SessionID session tenantName identity now (JobConfig_Window cfg)
        in case current m (jobKey tenantName identity session) now of
             Inl err \<Rightarrow> False
           | Inr count \<Rightarrow> JobConfig_Limit cfg \<le> count)"

section \<open>Histories of gate checks\<close>

record job_call =
  jcl_tenant :: string
  jcl_identity :: string
  jcl_session :: string
  jcl_time :: go_time

definition job_of :: "JobConfig \<Rightarrow> job_call \<Rightarrow> string" where
  "job_of cfg c = jobKey (jcl_tenant c) (jcl_identity c)
     (SessionID (jcl_session c) (jcl_tenant c) (jcl_identity c) (jcl_time c) (JobConfig_Window cfg))"

fun job_run ::
  "(string \<Rightarrow> bool) \<Rightarrow> ('m \<Rightarrow> string \<Rightarrow> go_time \<Rightarrow> int result \<times> 'm) \<Rightarrow> JobConfig \<Rightarrow> 'm \<Rightarrow>
   job_call list \<Rightarrow> job_Verdict list" where
  "job_run flags increment cfg m [] = []"
| "job_run flags increment cfg m (c # cs) =
     (let (v, m) = jobbudget_Check flags increment cfg (jcl_tenant c) (jcl_identity c) (jcl_session c)
                     (jcl_time c) m
      in v # job_run flags increment cfg m cs)"

section \<open>Lemmas over the meter contract\<close>

lemma JobConfig_Limit_pos: "0 < JobConfig_Limit cfg"
  by (simp add: JobConfig_Limit_def DefaultRequestsPerJob_def)

context call_meter
begin

lemma check_failed_open:
  "jv_FailedOpen (fst (jobbudget_Check flags increment cfg t i s now m)) \<Longrightarrow>
     jv_Allowed (fst (jobbudget_Check flags increment cfg t i s now m))"
  by (auto simp: jobbudget_Check_def split: prod.splits sum.splits if_splits)

lemma check_frame:
  "jobbudget_Check flags increment cfg t i s now m = (v, m') \<Longrightarrow>
     k \<noteq> jobKey t i (SessionID s t i now (JobConfig_Window cfg)) \<Longrightarrow> total m' k = total m k"
  by (auto simp: jobbudget_Check_def dest: increment_frame split: prod.splits sum.splits if_splits)

end

context reliable_call_meter
begin

lemma check_eq:
  assumes "flags jobBudgetFeatureFlag"
  shows "\<exists>m'. jobbudget_Check flags increment cfg t i s now m =
      (let n = wrap64 (total m (jobKey t i (SessionID s t i now (JobConfig_Window cfg))) + 1)
       in \<lparr>jv_Allowed = n \<le> JobConfig_Limit cfg,
           jv_Reason = (if n \<le> JobConfig_Limit cfg then ''''
             else ''job budget ceiling '' @ itoa (JobConfig_Limit cfg) @ '' reached''),
           jv_Count = n, jv_FailedOpen = False\<rparr>, m')
     \<and> total m' = (total m)(jobKey t i (SessionID s t i now (JobConfig_Window cfg)) :=
         wrap64 (total m (jobKey t i (SessionID s t i now (JobConfig_Window cfg))) + 1))"
proof -
  let ?k = "jobKey t i (SessionID s t i now (JobConfig_Window cfg))"
  obtain m' where inc: "increment m ?k now = (Inr (wrap64 (total m ?k + 1)), m')"
    using increment_eq by blast
  then have "total m' = (total m)(?k := wrap64 (total m ?k + 1))"
    using increment_result [OF inc] increment_frame [OF inc] by (auto simp: fun_eq_iff)
  with inc assms show ?thesis by (auto simp: jobbudget_Check_def)
qed

lemma peek_predicts_gate:
  "flags jobBudgetFeatureFlag \<Longrightarrow>
     total m (jobKey t i (SessionID s t i now (JobConfig_Window cfg))) + 1 < 2 ^ 63 \<Longrightarrow>
     0 \<le> total m (jobKey t i (SessionID s t i now (JobConfig_Window cfg))) \<Longrightarrow>
     jobbudget_IsOverBudget flags current cfg t i s now m \<longleftrightarrow>
     \<not> jv_Allowed (fst (jobbudget_Check flags increment cfg t i s now m))"
  using check_eq [of flags cfg t i s now m]
  by (auto simp: jobbudget_IsOverBudget_def current_eq wrap64_id)

lemma run_counts:
  assumes "flags jobBudgetFeatureFlag"
    and "\<And>k. total m k = int (count_list (map (job_of cfg) done) k)"
    and "length done + length cs < 2 ^ 63"
  shows "map jv_Allowed (job_run flags increment cfg m cs) =
    map (\<lambda>n. int (count_list (map (job_of cfg) (done @ take (Suc n) cs)) (job_of cfg (cs ! n)))
            \<le> JobConfig_Limit cfg) [0..<length cs]"
  using assms(2,3)
proof (induction cs arbitrary: m "done")
  case Nil
  then show ?case by simp
next
  case (Cons c cs)
  obtain v m' where chk: "jobbudget_Check flags increment cfg (jcl_tenant c) (jcl_identity c)
      (jcl_session c) (jcl_time c) m = (v, m')"
    by fastforce
  let ?k = "job_of cfg c"
  have small: "int (count_list (map (job_of cfg) done) ?k) + 1 < 2 ^ 63"
    using count_le_length [of "map (job_of cfg) done" ?k] Cons.prems(2) by auto
  from check_eq [of flags cfg "jcl_tenant c" "jcl_identity c" "jcl_session c" "jcl_time c" m, OF assms(1)]
    chk small Cons.prems(1) [of ?k]
  have v: "jv_Allowed v = (int (count_list (map (job_of cfg) (done @ [c])) ?k) \<le> JobConfig_Limit cfg)"
    and m': "total m' = (total m)(?k := int (count_list (map (job_of cfg) (done @ [c])) ?k))"
    by (auto simp: job_of_def [symmetric] wrap64_id)
  have "map jv_Allowed (job_run flags increment cfg m' cs) =
    map (\<lambda>n. int (count_list (map (job_of cfg) ((done @ [c]) @ take (Suc n) cs)) (job_of cfg (cs ! n)))
            \<le> JobConfig_Limit cfg) [0..<length cs]"
    using Cons.prems m' by (intro Cons.IH) auto
  with v chk show ?case
    by (simp add: upt_conv_Cons map_Suc_upt [symmetric] comp_def add.commute del: upt_Suc)
qed

end

section \<open>The in-memory meter keeps the contract\<close>

interpretation job_meter: reliable_call_meter job_Increment job_Current "\<lambda>m. lookup0 (jm_counts m)"
  by unfold_locales (auto simp: job_Increment_def job_Current_def lookup0_upd)

section \<open>Properties\<close>

text \<open>
  The ceiling is exact and per job: over any history of gate checks, whatever jobs, tenants
  and sessions they interleave, a call is let through if and only if it is among the first
  \<open>Limit()\<close> calls of its own job.
\<close>
theorem job_ceiling_exact:
  assumes "flags jobBudgetFeatureFlag" and "length cs < 2 ^ 63"
  shows "map jv_Allowed (job_run flags job_Increment cfg job_NewInMemoryMeter cs) =
    map (\<lambda>n. int (count_list (map (job_of cfg) (take (Suc n) cs)) (job_of cfg (cs ! n)))
            \<le> JobConfig_Limit cfg) [0..<length cs]"
  using job_meter.run_counts [of flags job_NewInMemoryMeter cfg "[]" cs] assms
  by (simp add: job_NewInMemoryMeter_def lookup0_def)

definition example_job_call :: job_call where
  "example_job_call = \<lparr>jcl_tenant = ''acme'', jcl_identity = ''bot'', jcl_session = ''s1'', jcl_time = 7\<rparr>"

theorem job_ceiling_exact_witness:
  "map jv_Allowed (job_run (\<lambda>_. True) job_Increment
       \<lparr>jc_RequestsPerJob = 2, jc_SessionWindowSeconds = 0\<rparr> job_NewInMemoryMeter
       [example_job_call, example_job_call, example_job_call]) = [True, True, False]"
  using job_ceiling_exact [of "\<lambda>_. True" "[example_job_call, example_job_call, example_job_call]"
      "\<lparr>jc_RequestsPerJob = 2, jc_SessionWindowSeconds = 0\<rparr>"]
  by (simp add: JobConfig_Limit_def upt_conv_Cons)

text \<open>
  The side-effect-free peek that policy sees as \<open>job_over_budget\<close> is true exactly when the
  hard gate would refuse the same call: what policy is told and what the gate enforces agree.
\<close>
theorem job_peek_predicts_gate:
  assumes "flags jobBudgetFeatureFlag"
    and "0 \<le> lookup0 (jm_counts m) (jobKey t i (SessionID s t i now (JobConfig_Window cfg)))"
    and "lookup0 (jm_counts m) (jobKey t i (SessionID s t i now (JobConfig_Window cfg))) + 1 < 2 ^ 63"
  shows "jobbudget_IsOverBudget flags job_Current cfg t i s now m \<longleftrightarrow>
    \<not> jv_Allowed (fst (jobbudget_Check flags job_Increment cfg t i s now m))"
  using assms by (intro job_meter.peek_predicts_gate) auto

theorem job_peek_predicts_gate_witness:
  "jobbudget_IsOverBudget (\<lambda>_. True) job_Current \<lparr>jc_RequestsPerJob = 1, jc_SessionWindowSeconds = 0\<rparr>
     ''acme'' ''bot'' ''s1'' 7 \<lparr>jm_counts = [jobKey ''acme'' ''bot'' ''s1'' \<mapsto> 1]\<rparr>
   \<and> \<not> jv_Allowed (fst (jobbudget_Check (\<lambda>_. True) job_Increment
        \<lparr>jc_RequestsPerJob = 1, jc_SessionWindowSeconds = 0\<rparr> ''acme'' ''bot'' ''s1'' 7
        \<lparr>jm_counts = [jobKey ''acme'' ''bot'' ''s1'' \<mapsto> 1]\<rparr>))"
  using job_peek_predicts_gate [of "\<lambda>_. True" "\<lparr>jm_counts = [jobKey ''acme'' ''bot'' ''s1'' \<mapsto> 1]\<rparr>"
      "''acme''" "''bot''" "''s1''" 7 "\<lparr>jc_RequestsPerJob = 1, jc_SessionWindowSeconds = 0\<rparr>"]
  by (simp add: lookup0_def jobbudget_IsOverBudget_def job_Current_def JobConfig_Limit_def)

end
