(* ===== verification/Cost_Budget.thy ===== *)
theory Cost_Budget
  imports Meter
begin

text \<open>
  The per-job cost ceiling: \<open>internal/features/costbudget/domain\<close> (\<open>Config\<close> with the declared tool
  costs, \<open>Verdict\<close>, \<open>Entry\<close>), \<open>internal/features/costbudget/usecase/checker.go\<close> and
  \<open>internal/features/costbudget/adapter/inmemory_meter.go\<close>. Built like the request ceiling, over
  the amount-meter contract.
\<close>

section \<open>Configuration and verdicts\<close>

record CostConfig =
  cc_Ceiling :: int
  cc_ToolCosts :: "string \<rightharpoonup> int"
  cc_DefaultCost :: int
  cc_SessionWindowSeconds :: int

definition DefaultCeiling :: int where
  "DefaultCeiling = 1000"

definition DefaultToolCost :: int where
  "DefaultToolCost = 1"

definition cost_DefaultSessionWindowSeconds :: int where
  "cost_DefaultSessionWindowSeconds = 300"

definition CostConfig_Limit :: "CostConfig \<Rightarrow> int" where
  "CostConfig_Limit c = (if cc_Ceiling c \<le> 0 then DefaultCeiling else cc_Ceiling c)"

definition CostConfig_Window :: "CostConfig \<Rightarrow> int" where
  "CostConfig_Window c =
     (if cc_SessionWindowSeconds c \<le> 0 then cost_DefaultSessionWindowSeconds else cc_SessionWindowSeconds c)"

definition CostOf :: "CostConfig \<Rightarrow> string \<Rightarrow> int" where
  "CostOf c tool =
     (case cc_ToolCosts c tool of
        Some cost \<Rightarrow> cost
      | None \<Rightarrow> if 0 < cc_DefaultCost c then cc_DefaultCost c else DefaultToolCost)"

record cost_Verdict =
  cv_Allowed :: bool
  cv_Reason :: string
  cv_Total :: int
  cv_FailedOpen :: bool

record cost_Entry =
  ce_Key :: string
  ce_Total :: int

section \<open>The in-memory meter\<close>

record cost_InMemoryMeter =
  cm_totals :: "string \<rightharpoonup> int"

definition cost_NewInMemoryMeter :: cost_InMemoryMeter where
  "cost_NewInMemoryMeter = \<lparr>cm_totals = Map.empty\<rparr>"

definition cost_Add ::
  "cost_InMemoryMeter \<Rightarrow> string \<Rightarrow> int \<Rightarrow> go_time \<Rightarrow> int result \<times> cost_InMemoryMeter" where
  "cost_Add m key amount now =
     (let m = m\<lparr>cm_totals := (cm_totals m)(key \<mapsto> wrap64 (lookup0 (cm_totals m) key + amount))\<rparr>
      in (Inr (lookup0 (cm_totals m) key), m))"

definition cost_Current :: "cost_InMemoryMeter \<Rightarrow> string \<Rightarrow> go_time \<Rightarrow> int result" where
  "cost_Current m key now = Inr (lookup0 (cm_totals m) key)"

definition cost_ListNearCeiling :: "string list \<Rightarrow> cost_InMemoryMeter \<Rightarrow> int \<Rightarrow> cost_Entry list" where
  "cost_ListNearCeiling ks m limit =
     (let entries = map (\<lambda>(k, t). \<lparr>ce_Key = k, ce_Total = t\<rparr>) (range_entries ks (cm_totals m));
          entries = sort_key (\<lambda>e. - ce_Total e) entries
      in if limit \<le> 0 then []
         else if limit < int (length entries) then take (nat limit) entries
         else entries)"

section \<open>The checker\<close>

definition costBudgetFeatureFlag :: string where
  "costBudgetFeatureFlag = ''job_cost_budget''"

definition costbudget_Check ::
  "(string \<Rightarrow> bool) \<Rightarrow> ('m \<Rightarrow> string \<Rightarrow> int \<Rightarrow> go_time \<Rightarrow> int result \<times> 'm) \<Rightarrow> CostConfig \<Rightarrow>
   string \<Rightarrow> string \<Rightarrow> string \<Rightarrow> string \<Rightarrow> go_time \<Rightarrow> 'm \<Rightarrow> cost_Verdict \<times> 'm" where
  "costbudget_Check flags add cfg tenantName identity session tool now m =
     (if \<not> flags costBudgetFeatureFlag
      then (\<lparr>cv_Allowed = True, cv_Reason = ''cost budget disabled'', cv_Total = 0, cv_FailedOpen = False\<rparr>, m)
      else
        let amount = CostOf cfg tool;
            session = SessionID session tenantName identity now (CostConfig_Window cfg);
            (res, m) = add m (costKey tenantName identity session) amount now
        in case res of
             Inl err \<Rightarrow>
               (\<lparr>cv_Allowed = True, cv_Reason = ''cost budget check failed open: '' @ err, cv_Total = 0,
                 cv_FailedOpen = True\<rparr>, m)
           | Inr tot \<Rightarrow>
               let limit = CostConfig_Limit cfg
               in if limit < tot
                  then (\<lparr>cv_Allowed = False, cv_Reason = ''cost budget ceiling '' @ itoa limit @ '' reached'',
                         cv_Total = tot, cv_FailedOpen = False\<rparr>, m)
                  else (\<lparr>cv_Allowed = True, cv_Reason = '''', cv_Total = tot, cv_FailedOpen = False\<rparr>, m))"

definition costbudget_IsOverBudget ::
  "(string \<Rightarrow> bool) \<Rightarrow> ('m \<Rightarrow> string \<Rightarrow> go_time \<Rightarrow> int result) \<Rightarrow> CostConfig \<Rightarrow>
   string \<Rightarrow> string \<Rightarrow> string \<Rightarrow> go_time \<Rightarrow> 'm \<Rightarrow> bool" where
  "costbudget_IsOverBudget flags current cfg tenantName identity session now m =
     (if \<not> flags costBudgetFeatureFlag then False
      else
        let session = SessionID session tenantName identity now (CostConfig_Window cfg)
        in case current m (costKey tenantName identity session) now of
             Inl err \<Rightarrow> False
           | Inr tot \<Rightarrow> CostConfig_Limit cfg \<le> tot)"

section \<open>Histories of gate checks\<close>

record cost_call =
  ccl_tenant :: string
  ccl_identity :: string
  ccl_session :: string
  ccl_tool :: string
  ccl_time :: go_time

definition cost_job_of :: "CostConfig \<Rightarrow> cost_call \<Rightarrow> string" where
  "cost_job_of cfg c = costKey (ccl_tenant c) (ccl_identity c)
     (SessionID (ccl_session c) (ccl_tenant c) (ccl_identity c) (ccl_time c) (CostConfig_Window cfg))"

fun cost_run ::
  "(string \<Rightarrow> bool) \<Rightarrow> ('m \<Rightarrow> string \<Rightarrow> int \<Rightarrow> go_time \<Rightarrow> int result \<times> 'm) \<Rightarrow> CostConfig \<Rightarrow> 'm \<Rightarrow>
   cost_call list \<Rightarrow> cost_Verdict list" where
  "cost_run flags add cfg m [] = []"
| "cost_run flags add cfg m (c # cs) =
     (let (v, m) = costbudget_Check flags add cfg (ccl_tenant c) (ccl_identity c) (ccl_session c)
                     (ccl_tool c) (ccl_time c) m
      in v # cost_run flags add cfg m cs)"

text \<open>What the calls of one job spend, and what those of them that were let through spend.\<close>

definition spent :: "CostConfig \<Rightarrow> string \<Rightarrow> cost_call list \<Rightarrow> int" where
  "spent cfg k cs = (\<Sum>c \<leftarrow> filter (\<lambda>c. cost_job_of cfg c = k) cs. CostOf cfg (ccl_tool c))"

definition admitted_spend :: "CostConfig \<Rightarrow> string \<Rightarrow> (cost_call \<times> cost_Verdict) list \<Rightarrow> int" where
  "admitted_spend cfg k cvs =
     (\<Sum>(c, v) \<leftarrow> filter (\<lambda>(c, v). cv_Allowed v \<and> cost_job_of cfg c = k) cvs. CostOf cfg (ccl_tool c))"

section \<open>Lemmas over the meter contract\<close>

lemma CostConfig_Limit_pos: "0 < CostConfig_Limit cfg"
  by (simp add: CostConfig_Limit_def DefaultCeiling_def)

context reliable_amount_meter
begin

lemma cost_check:
  assumes "flags costBudgetFeatureFlag"
    and k: "k = costKey t i (SessionID s t i now (CostConfig_Window cfg))"
    and n: "n = wrap64 (total m k + CostOf cfg u)"
  shows "cv_Allowed (fst (costbudget_Check flags add cfg t i s u now m)) = (n \<le> CostConfig_Limit cfg)"
    and "cv_Total (fst (costbudget_Check flags add cfg t i s u now m)) = n"
    and "total (snd (costbudget_Check flags add cfg t i s u now m)) = (total m)(k := n)"
proof -
  obtain m' where inc: "add m k (CostOf cfg u) now = (Inr n, m')" using add_eq n by blast
  then have m': "total m' = (total m)(k := n)"
    using add_result [OF inc] add_frame [OF inc] by (auto simp: fun_eq_iff)
  note inc' = inc [unfolded k]
  from inc' assms(1) show
    "cv_Allowed (fst (costbudget_Check flags add cfg t i s u now m)) = (n \<le> CostConfig_Limit cfg)"
    "cv_Total (fst (costbudget_Check flags add cfg t i s u now m)) = n"
    by (auto simp: costbudget_Check_def)
  from inc' m' assms(1) show "total (snd (costbudget_Check flags add cfg t i s u now m)) = (total m)(k := n)"
    by (auto simp: costbudget_Check_def)
qed

text \<open>
  Once a job is at its ceiling, the peek reports it and the gate refuses every further call that
  costs anything.
\<close>

lemma cost_peek_refuses:
  assumes "flags costBudgetFeatureFlag" and over: "costbudget_IsOverBudget flags current cfg t i s now m"
    and "0 < CostOf cfg u"
    and "total m (costKey t i (SessionID s t i now (CostConfig_Window cfg))) + CostOf cfg u < 2 ^ 63"
  shows "\<not> cv_Allowed (fst (costbudget_Check flags add cfg t i s u now m))"
proof -
  let ?k = "costKey t i (SessionID s t i now (CostConfig_Window cfg))"
  have ge: "CostConfig_Limit cfg \<le> total m ?k"
    using over assms(1) by (simp add: costbudget_IsOverBudget_def amount_current_eq)
  with CostConfig_Limit_pos [of cfg] assms
  have n: "total m ?k + CostOf cfg u = wrap64 (total m ?k + CostOf cfg u)"
    by (intro wrap64_id [symmetric]) auto
  from cost_check(1) [of flags, OF assms(1) refl n] ge assms(3) show ?thesis by simp
qed

lemma run_spend:
  assumes flag: "flags costBudgetFeatureFlag" and nonneg: "\<And>u. 0 \<le> CostOf cfg u"
    and "\<And>k. total m k = spent cfg k done" and "a \<le> spent cfg k done" and "a \<le> CostConfig_Limit cfg"
    and "\<And>k. spent cfg k (done @ cs) < 2 ^ 63"
  shows "a + admitted_spend cfg k (zip cs (cost_run flags add cfg m cs)) \<le> CostConfig_Limit cfg"
  using assms(3-6)
proof (induction cs arbitrary: m "done" a)
  case Nil
  then show ?case by (simp add: admitted_spend_def)
next
  case (Cons c cs)
  let ?chk = "costbudget_Check flags add cfg (ccl_tenant c) (ccl_identity c) (ccl_session c)
      (ccl_tool c) (ccl_time c) m"
  let ?k = "cost_job_of cfg c"
  obtain v m' where chk: "?chk = (v, m')" by fastforce
  have pos: "0 \<le> spent cfg k' xs" for k' xs
    by (induction xs) (auto simp: spent_def nonneg intro: add_nonneg_nonneg)
  have split: "spent cfg k' (xs @ ys) = spent cfg k' xs + spent cfg k' ys" for k' xs ys
    by (simp add: spent_def)
  have one: "spent cfg ?k [c] = CostOf cfg (ccl_tool c)" by (simp add: spent_def)
  have "spent cfg ?k (done @ [c]) < 2 ^ 63"
    using Cons.prems(4) [of ?k] pos [of ?k cs] split [of ?k "done @ [c]" cs] by simp
  then have n: "spent cfg ?k (done @ [c]) = wrap64 (total m ?k + CostOf cfg (ccl_tool c))"
    using Cons.prems(1) [of ?k] pos [of ?k "done"] nonneg [of "ccl_tool c"] one split [of ?k "done" "[c]"]
    by (simp add: wrap64_id)
  note step = cost_check [of flags, OF flag cost_job_of_def n]
  have v: "cv_Allowed v = (spent cfg ?k (done @ [c]) \<le> CostConfig_Limit cfg)" using step(1) chk by simp
  have m': "total m' k' = spent cfg k' (done @ [c])" for k'
    using step(3) chk Cons.prems(1) split [of k' "done" "[c]"] by (auto simp: spent_def)
  define b where "b = (if cv_Allowed v \<and> ?k = k then CostOf cfg (ccl_tool c) else 0)"
  have "a + b \<le> spent cfg k (done @ [c])" "a + b \<le> CostConfig_Limit cfg"
    using Cons.prems(2,3) v nonneg [of "ccl_tool c"] split [of k "done" "[c]"] one
    by (auto simp: b_def spent_def)
  with m' Cons.prems(4) have "a + b + admitted_spend cfg k (zip cs (cost_run flags add cfg m' cs)) \<le>
      CostConfig_Limit cfg"
    by (intro Cons.IH [of m' "done @ [c]"]) auto
  with chk show ?case by (auto simp: admitted_spend_def b_def split: if_splits)
qed

end

section \<open>The in-memory meter keeps the contract\<close>

interpretation cost_meter: reliable_amount_meter cost_Add cost_Current "\<lambda>m. lookup0 (cm_totals m)"
  by unfold_locales (auto simp: cost_Add_def cost_Current_def lookup0_upd)

section \<open>Properties\<close>

text \<open>
  C22. With non-negative declared costs, the calls of a job that the cost gate lets through never
  spend more than the job's ceiling in total, whatever other jobs' calls come in between (and
  however often refused calls keep adding to the meter).
\<close>
theorem cost_ceiling_respected:
  assumes "flags costBudgetFeatureFlag" and "\<forall>u. 0 \<le> CostOf cfg u" and "\<forall>k. spent cfg k cs < 2 ^ 63"
  shows "admitted_spend cfg k (zip cs (cost_run flags cost_Add cfg cost_NewInMemoryMeter cs))
    \<le> CostConfig_Limit cfg"
  using cost_meter.run_spend [of flags cfg cost_NewInMemoryMeter "[]" 0 k cs] assms CostConfig_Limit_pos
  by (simp add: cost_NewInMemoryMeter_def lookup0_def spent_def less_imp_le)

definition example_cost_config :: CostConfig where
  "example_cost_config = \<lparr>cc_Ceiling = 10, cc_ToolCosts = [''big'' \<mapsto> 7], cc_DefaultCost = 0,
     cc_SessionWindowSeconds = 0\<rparr>"

definition example_cost_call :: cost_call where
  "example_cost_call = \<lparr>ccl_tenant = ''acme'', ccl_identity = ''bot'', ccl_session = ''s1'',
     ccl_tool = ''big'', ccl_time = 7\<rparr>"

theorem cost_ceiling_respected_witness:
  "admitted_spend example_cost_config (cost_job_of example_cost_config example_cost_call)
     (zip [example_cost_call, example_cost_call]
       (cost_run (\<lambda>_. True) cost_Add example_cost_config cost_NewInMemoryMeter
         [example_cost_call, example_cost_call])) \<le> 10"
  using cost_ceiling_respected [of "\<lambda>_. True" example_cost_config "[example_cost_call, example_cost_call]"]
  by (simp add: example_cost_config_def CostOf_def DefaultToolCost_def CostConfig_Limit_def spent_def
      example_cost_call_def split: option.split)

end
