(* ===== verification/Auto_Block.thy ===== *)
theory Auto_Block
  imports Keys
begin

text \<open>
  Automatic blocks: \<open>internal/features/anomaly/domain/block.go\<close> and the in-memory checker
  \<open>internal/features/anomaly/usecase/auto_block.go\<close> with its garbage collection
  (\<open>auto_block_gc.go\<close>). A block holds for a (tenant, identity) pair until its expiry; collecting
  expired blocks only reclaims memory. The clock readings are arguments.
\<close>

section \<open>The checker\<close>

record BlockVerdict =
  bk_Allowed :: bool
  bk_RetryAfter :: duration
  bk_Reason :: string

record BlockedEntry =
  be_Identity :: string
  be_Tenant :: string
  be_BlockedSince :: go_time
  be_BlockedUntil :: go_time
  be_Reason :: string

record blockEntry =
  bl_since :: go_time
  bl_until :: go_time
  bl_reason :: string
  bl_tenant :: string
  bl_identity :: string

record BlockChecker =
  bc_BlockDurationSeconds :: int
  bc_blocked :: "string \<rightharpoonup> blockEntry"

definition NewBlockChecker :: "int \<Rightarrow> BlockChecker" where
  "NewBlockChecker blockDurationSeconds = \<lparr>bc_BlockDurationSeconds = blockDurationSeconds, bc_blocked = Map.empty\<rparr>"

definition tenantIdentityKey :: "string \<Rightarrow> string \<Rightarrow> string" where
  "tenantIdentityKey tenantName identity = tenant_Key tenantName identity"

definition block_expired :: "go_time \<Rightarrow> blockEntry \<Rightarrow> bool" where
  "block_expired now e = (\<not> now < bl_until e)"

definition Block :: "string \<Rightarrow> string \<Rightarrow> string \<Rightarrow> go_time \<Rightarrow> BlockChecker \<Rightarrow> BlockChecker" where
  "Block identity tenantName reason now b =
     (let since = now;
          until = since + wrap64 (bc_BlockDurationSeconds b * second)
      in b\<lparr>bc_blocked := (bc_blocked b)(tenantIdentityKey tenantName identity \<mapsto>
           \<lparr>bl_since = since, bl_until = until, bl_reason = reason, bl_tenant = tenantName, bl_identity = identity\<rparr>)\<rparr>)"

definition BlockChecker_Check :: "BlockChecker \<Rightarrow> string \<Rightarrow> string \<Rightarrow> go_time \<Rightarrow> BlockVerdict" where
  "BlockChecker_Check b identity tenantName now =
     (case bc_blocked b (tenantIdentityKey tenantName identity) of
        None \<Rightarrow> \<lparr>bk_Allowed = True, bk_RetryAfter = 0, bk_Reason = ''''\<rparr>
      | Some entry \<Rightarrow>
          if block_expired now entry then \<lparr>bk_Allowed = True, bk_RetryAfter = 0, bk_Reason = ''''\<rparr>
          else \<lparr>bk_Allowed = False, bk_RetryAfter = time_sub (bl_until entry) now, bk_Reason = bl_reason entry\<rparr>)"

definition Unblock :: "string \<Rightarrow> string \<Rightarrow> go_time \<Rightarrow> BlockChecker \<Rightarrow> bool \<times> BlockChecker" where
  "Unblock identity tenantName now b =
     (let key = tenantIdentityKey tenantName identity;
          e = bc_blocked b key;
          b = b\<lparr>bc_blocked := (bc_blocked b)(key := None)\<rparr>
      in (case e of None \<Rightarrow> False | Some e \<Rightarrow> \<not> block_expired now e, b))"

definition block_List :: "string list \<Rightarrow> string \<Rightarrow> go_time \<Rightarrow> BlockChecker \<Rightarrow> BlockedEntry list" where
  "block_List ks tenantFilter now b =
     map (\<lambda>(k, e). \<lparr>be_Identity = bl_identity e, be_Tenant = bl_tenant e, be_BlockedSince = bl_since e,
            be_BlockedUntil = bl_until e, be_Reason = bl_reason e\<rparr>)
       (filter (\<lambda>(k, e). \<not> block_expired now e \<and> \<not> (tenantFilter \<noteq> '''' \<and> bl_tenant e \<noteq> tenantFilter))
          (range_entries ks (bc_blocked b)))"

definition GCBlocksOnce :: "go_time \<Rightarrow> BlockChecker \<Rightarrow> BlockChecker" where
  "GCBlocksOnce now b = b\<lparr>bc_blocked := map_keep (\<lambda>_ e. \<not> block_expired now e) (bc_blocked b)\<rparr>"

section \<open>Lemmas\<close>

text \<open>Each entry is stored under the key of its own tenant and identity.\<close>

definition block_inv :: "BlockChecker \<Rightarrow> bool" where
  "block_inv b \<longleftrightarrow> (\<forall>k e. bc_blocked b k = Some e \<longrightarrow> k = tenantIdentityKey (bl_tenant e) (bl_identity e))"

lemma block_inv_ops:
  "block_inv (NewBlockChecker d)"
  "block_inv b \<Longrightarrow> block_inv (Block i t reason now b)"
  "block_inv b \<Longrightarrow> block_inv (snd (Unblock i t now b))"
  "block_inv b \<Longrightarrow> block_inv (GCBlocksOnce now b)"
  by (auto simp: block_inv_def NewBlockChecker_def Block_def Unblock_def GCBlocksOnce_def map_keep_eq_Some)

lemma block_key_eq: "tenantIdentityKey t i = tenantIdentityKey t' i' \<longleftrightarrow> t = t' \<and> i = i'"
  by (simp add: tenantIdentityKey_def wardline_keys)

text \<open>Garbage collection never changes an answer at or after its own time.\<close>

lemma gc_invisible: "now \<le> later \<Longrightarrow> BlockChecker_Check (GCBlocksOnce now b) i t later = BlockChecker_Check b i t later"
  by (auto simp: BlockChecker_Check_def GCBlocksOnce_def map_keep_def block_expired_def split: option.split)

lemma check_after_block:
  "BlockChecker_Check (Block i t reason now b) i' t' later =
     (if (t', i') = (t, i) then
        if later < now + wrap64 (bc_BlockDurationSeconds b * second)
        then \<lparr>bk_Allowed = False, bk_RetryAfter = time_sub (now + wrap64 (bc_BlockDurationSeconds b * second)) later,
              bk_Reason = reason\<rparr>
        else \<lparr>bk_Allowed = True, bk_RetryAfter = 0, bk_Reason = ''''\<rparr>
      else BlockChecker_Check b i' t' later)"
  by (auto simp: BlockChecker_Check_def Block_def block_key_eq block_expired_def)

lemma check_after_unblock:
  "BlockChecker_Check (snd (Unblock i t now b)) i' t' later =
     (if (t', i') = (t, i) then \<lparr>bk_Allowed = True, bk_RetryAfter = 0, bk_Reason = ''''\<rparr>
      else BlockChecker_Check b i' t' later)"
  by (auto simp: BlockChecker_Check_def Unblock_def block_key_eq)

section \<open>Histories of blocks\<close>

datatype block_op =
    OpBlock string string string go_time
  | OpUnblock string string go_time
  | OpGC go_time

fun block_step :: "block_op \<Rightarrow> BlockChecker \<Rightarrow> BlockChecker" where
  "block_step (OpBlock i t reason now) b = Block i t reason now b"
| "block_step (OpUnblock i t now) b = snd (Unblock i t now b)"
| "block_step (OpGC now) b = GCBlocksOnce now b"

fun op_time :: "block_op \<Rightarrow> go_time" where
  "op_time (OpBlock i t reason now) = now"
| "op_time (OpUnblock i t now) = now"
| "op_time (OpGC now) = now"

fun concerns :: "string \<Rightarrow> string \<Rightarrow> block_op \<Rightarrow> bool" where
  "concerns i t (OpBlock i' t' reason now) = (i' = i \<and> t' = t)"
| "concerns i t (OpUnblock i' t' now) = (i' = i \<and> t' = t)"
| "concerns i t (OpGC now) = False"

text \<open>What the last block or unblock of the pair says at a time.\<close>

definition block_spec :: "int \<Rightarrow> string \<Rightarrow> string \<Rightarrow> go_time \<Rightarrow> block_op list \<Rightarrow> bool" where
  "block_spec dur i t now ops =
     (case find (concerns i t) (rev ops) of
        Some (OpBlock _ _ _ since) \<Rightarrow> now < since + wrap64 (dur * second)
      | _ \<Rightarrow> False)"

lemma block_duration_fold [simp]: "bc_BlockDurationSeconds (fold block_step ops b) = bc_BlockDurationSeconds b"
proof (induction ops arbitrary: b)
  case (Cons op ops)
  then show ?case by (cases op) (auto simp: Block_def Unblock_def GCBlocksOnce_def)
qed simp

lemma blocks_refine_history:
  "\<forall>op \<in> set ops. op_time op \<le> now \<Longrightarrow>
     (\<not> bk_Allowed (BlockChecker_Check (fold block_step ops (NewBlockChecker dur)) i t now)) = block_spec dur i t now ops"
proof (induction ops rule: rev_induct)
  case (snoc op ops)
  have dur: "bc_BlockDurationSeconds (NewBlockChecker dur) = dur" by (simp add: NewBlockChecker_def)
  from snoc show ?case
    by (cases op) (auto simp: check_after_block check_after_unblock gc_invisible dur block_spec_def)
qed (simp add: BlockChecker_Check_def NewBlockChecker_def block_spec_def)

section \<open>Properties of automatic blocks\<close>

text \<open>
  Blocks are exact: whatever blocks, unblocks and collections of expired blocks have happened up
  to now, a (tenant, identity) pair is refused if and only if the last of them that concerns that
  pair was a block whose duration has not passed. Operations on other pairs and garbage collection
  never show.
\<close>

theorem block_follows_history:
  assumes "\<forall>op \<in> set ops. op_time op \<le> now"
  shows "(\<not> bk_Allowed (BlockChecker_Check (fold block_step ops (NewBlockChecker dur)) i t now)) = block_spec dur i t now ops"
  using blocks_refine_history [OF assms] .

theorem block_follows_history_witness:
  "\<not> bk_Allowed (BlockChecker_Check (fold block_step [OpBlock ''alice'' ''acme'' ''spike'' 5, OpBlock ''bob'' ''acme'' ''spike'' 6,
      OpUnblock ''bob'' ''acme'' 7, OpGC 8] (NewBlockChecker 60)) ''alice'' ''acme'' 9)"
  using block_follows_history [of "[OpBlock ''alice'' ''acme'' ''spike'' 5, OpBlock ''bob'' ''acme'' ''spike'' 6,
      OpUnblock ''bob'' ''acme'' 7, OpGC 8]" 9 60 "''alice''" "''acme''"]
  by (simp add: block_spec_def wrap64_id second_def)

end
