(* ===== verification/Proxy.thy ===== *)
theory Proxy
  imports Proxy_Request Approval Budget Job_Budget Cost_Budget Auto_Block
begin

text \<open>
  The HTTP entry point, \<open>internal/features/proxy/adapter/handler.go\<close>: authenticate, read and parse the
  body, check the automatic block, pass protocol methods through, ask the policy, consume or
  request an approval, check the three budgets, forward upstream, and record what happened.

  A \<open>Handler\<close> holds its ports as functions on a state \<open>'s\<close>; an optional port of the code is an \<open>option\<close>.
  \<open>ServeHTTP\<close> is the composition of \<open>gate\<close>, the code up to one of the calls of \<open>forward\<close>, and \<open>forward\<close>:
  every path through the gate either answers the caller itself or reaches exactly one such call.
  The reverse proxy of the standard library calls back \<open>ErrorHandler\<close> or \<open>ModifyResponse\<close>; when the
  upstream answers 101 and the upgrade is then rejected it calls both, in the other order.

  \<open>retryAfterSeconds\<close> is given in exact arithmetic; the code's double-precision division agrees with
  it for durations below \<open>2 ^ 23\<close> seconds (97 days). Logging and span attributes are not modelled.
\<close>

section \<open>Requests upstream and answers\<close>

record http_response =
  rsp_Status :: int
  rsp_ContentType :: string
  rsp_Body :: "string option"
  rsp_BodyBroken :: bool

datatype upstream_outcome =
    UpstreamError
  | UpstreamResponse http_response
  | UpstreamUpgradeRejected http_response

record rpc_error =
  er_Status :: int
  er_Code :: int
  er_ID :: string
  er_Message :: string
  er_RetryAfter :: "int option"

datatype client_response =
    RPCErrorResponse rpc_error
  | Relayed http_response

definition rpcCodeParseError :: int where
  "rpcCodeParseError = - 32700"

definition rpcCodeUnauthorized :: int where
  "rpcCodeUnauthorized = - 32001"

definition rpcCodeServerErr :: int where
  "rpcCodeServerErr = - 32000"

definition maxRequestBodyBytes :: nat where
  "maxRequestBodyBytes = 2 ^ 20"

definition writeJSONRPCError :: "int \<Rightarrow> int \<Rightarrow> string \<Rightarrow> string \<Rightarrow> client_response" where
  "writeJSONRPCError status code i message =
     RPCErrorResponse \<lparr>er_Status = status, er_Code = code, er_ID = (if i = '''' then ''null'' else i),
       er_Message = message, er_RetryAfter = None\<rparr>"

definition retryAfterSeconds :: "duration \<Rightarrow> int" where
  "retryAfterSeconds d = (let s = - ((- d) div second) in if s < 1 then 1 else s)"

text \<open>An error response with the Retry-After header set before it is written.\<close>

definition with_RetryAfter :: "duration \<Rightarrow> client_response \<Rightarrow> client_response" where
  "with_RetryAfter d resp =
     (case resp of
        RPCErrorResponse e \<Rightarrow> RPCErrorResponse (e\<lparr>er_RetryAfter := Some (retryAfterSeconds d)\<rparr>)
      | Relayed x \<Rightarrow> Relayed x)"

section \<open>The handler and its ports\<close>

record 's Handler =
  h_authenticate :: "http_request \<Rightarrow> 's \<Rightarrow> (unit + string \<times> string) \<times> 's"
  h_decider :: "'s Decider"
  h_recorder :: "'s Recorder"
  h_upstream :: "http_request \<Rightarrow> 's \<Rightarrow> upstream_outcome \<times> 's"
  h_budgetCheck :: "string \<Rightarrow> string \<Rightarrow> string \<Rightarrow> go_time \<Rightarrow> 's \<Rightarrow> budget_Verdict \<times> 's"
  h_autoBlock :: "(string \<Rightarrow> string \<Rightarrow> go_time \<Rightarrow> 's \<Rightarrow> BlockVerdict \<times> 's) option"
  h_approval :: "(string \<Rightarrow> string \<Rightarrow> string \<Rightarrow> string \<Rightarrow> string \<Rightarrow> (string \<rightharpoonup> string) \<Rightarrow> 's \<Rightarrow>
                   (string + approval_Result) \<times> 's) option"
  h_jobBudget :: "(string \<Rightarrow> string \<Rightarrow> string \<Rightarrow> go_time \<Rightarrow> 's \<Rightarrow> job_Verdict \<times> 's) option"
  h_costBudget :: "(string \<Rightarrow> string \<Rightarrow> string \<Rightarrow> string \<Rightarrow> go_time \<Rightarrow> 's \<Rightarrow> cost_Verdict \<times> 's) option"
  h_metrics :: "(string \<Rightarrow> duration \<Rightarrow> 's \<Rightarrow> 's) option"
  h_now :: "'s \<Rightarrow> go_time \<times> 's"
  h_traceID :: "http_request \<Rightarrow> string"
  h_inject :: "http_request \<Rightarrow> headers \<Rightarrow> headers"
  h_parseErrorText :: "parse_error \<Rightarrow> string"
  h_trustedIdentityHeader :: string
  h_sessionHeader :: string

definition finish ::
  "'s Handler \<Rightarrow> http_request \<Rightarrow> string \<Rightarrow> string \<Rightarrow> string \<Rightarrow> string \<Rightarrow> string \<Rightarrow> string \<Rightarrow> go_time \<Rightarrow>
   audit_Effect option \<Rightarrow> EffectStatus \<Rightarrow> string list \<Rightarrow> 's \<Rightarrow> 's" where
  "finish h r identity tenant tool decision reason sessionID start effect status taintSources s =
     (let s = (case h_metrics h of
                 None \<Rightarrow> s
               | Some observe \<Rightarrow> let (now, s) = h_now h s in observe decision (time_sub now start) s);
          (now, s) = h_now h s
      in RecordWithEffect (h_recorder h) identity tenant tool decision reason (h_traceID h r)
           (time_sub now start) start sessionID effect status taintSources s)"

section \<open>The upstream response\<close>

definition responsePrefixCap :: nat where
  "responsePrefixCap = 8192"

text \<open>A \<open>*bool\<close> field: absent or null stays nil; a value that is not a boolean is an error.\<close>

fun decode_bools :: "raw_value list \<Rightarrow> bool option \<Rightarrow> bool option option" where
  "decode_bools [] cur = Some cur"
| "decode_bools ((_, v) # vs) cur =
     (case v of JBool b \<Rightarrow> decode_bools vs (Some b) | JNull \<Rightarrow> decode_bools vs None | _ \<Rightarrow> None)"

definition bool_field :: "string \<Rightarrow> (string \<times> raw_value) list \<Rightarrow> bool option option" where
  "bool_field name ms = decode_bools (field_values name ms) None"

definition resultIsNoOp :: "string \<Rightarrow> bool" where
  "resultIsNoOp result =
     (let s = TrimSpace result
      in if s \<in> {'''', ''null'', [CHR 0x7B, CHR 0x7D], ''[]''} then True
         else case struct_members result of
                None \<Rightarrow> False
              | Some ms \<Rightarrow>
                  (case (bool_field ''isError'' ms, bool_field ''success'' ms) of
                     (Some isError, Some success) \<Rightarrow> isError = Some True \<or> success = Some False
                   | _ \<Rightarrow> False))"

definition readResponseSignal :: "http_response \<Rightarrow> EffectSignal" where
  "readResponseSignal resp =
     (let sig = \<lparr>es_ResponseStatus = rsp_Status resp, es_RPCError = False, es_NoOpSignal = False\<rparr>
      in case rsp_Body resp of
           None \<Rightarrow> sig
         | Some body \<Rightarrow>
             if prefix ''text/event-stream'' (rsp_ContentType resp) then sig
             else if rsp_BodyBroken resp then sig
             else case struct_members (take responsePrefixCap body) of
                    None \<Rightarrow> sig
                  | Some ms \<Rightarrow>
                      let err = raw_field ''error'' ms
                      in sig\<lparr>es_RPCError := (err \<noteq> '''' \<and> err \<noteq> ''null''),
                             es_NoOpSignal := resultIsNoOp (raw_field ''result'' ms)\<rparr>)"

section \<open>Forwarding\<close>

record forward_call =
  fw_parsed :: ParsedRequest
  fw_identity :: string
  fw_tenant :: string
  fw_tool :: string
  fw_start :: go_time
  fw_decision :: string
  fw_reason :: string
  fw_taintSources :: "string list"

text \<open>
  The request as it is handed to the reverse proxy: without the caller's credentials. The reverse proxy is part of the
  upstream port: it drops hop-by-hop headers and adds the forwarding ones before it sends, or fails before it does.
\<close>

definition outgoing :: "'s Handler \<Rightarrow> http_request \<Rightarrow> http_request" where
  "outgoing h r =
     (let hd = Header_Del ''Authorization'' (rq_Header r);
          hd = (if h_trustedIdentityHeader h \<noteq> '''' then Header_Del (h_trustedIdentityHeader h) hd else hd)
      in r\<lparr>rq_Header := h_inject h r hd\<rparr>)"

definition forward_error :: "'s Handler \<Rightarrow> http_request \<Rightarrow> forward_call \<Rightarrow> 's \<Rightarrow> client_response \<times> 's" where
  "forward_error h r c s =
     (let (eff, st) = ExtractEffect (fw_parsed c)
            \<lparr>es_ResponseStatus = 502, es_RPCError = False, es_NoOpSignal = False\<rparr> (Some RedactSecrets);
          s = finish h r (fw_identity c) (fw_tenant c) (fw_tool c) ''error'' ''''
                (tcl_SessionID (pr_Call (fw_parsed c))) (fw_start c) eff st (fw_taintSources c) s
      in (writeJSONRPCError 502 rpcCodeServerErr (pr_ID (fw_parsed c)) ''upstream unreachable'', s))"

definition forward_response :: "'s Handler \<Rightarrow> http_request \<Rightarrow> forward_call \<Rightarrow> http_response \<Rightarrow> 's \<Rightarrow> 's" where
  "forward_response h r c resp s =
     (let (eff, st) = ExtractEffect (fw_parsed c) (readResponseSignal resp) (Some RedactSecrets)
      in finish h r (fw_identity c) (fw_tenant c) (fw_tool c) (fw_decision c) (fw_reason c)
           (tcl_SessionID (pr_Call (fw_parsed c))) (fw_start c) eff st (fw_taintSources c) s)"

definition forward :: "'s Handler \<Rightarrow> http_request \<Rightarrow> forward_call \<Rightarrow> 's \<Rightarrow> client_response \<times> 's" where
  "forward h r c s =
     (let (out, s) = h_upstream h (outgoing h r) s
      in case out of
           UpstreamError \<Rightarrow> forward_error h r c s
         | UpstreamResponse resp \<Rightarrow> (Relayed resp, forward_response h r c resp s)
         | UpstreamUpgradeRejected resp \<Rightarrow> forward_error h r c (forward_response h r c resp s))"

section \<open>The gate\<close>

datatype gate_result =
    Refused client_response
  | Forward forward_call

text \<open>What every branch of a gated call shares.\<close>

record gated_call =
  gc_parsed :: ParsedRequest
  gc_identity :: string
  gc_tenant :: string
  gc_auditTool :: string
  gc_start :: go_time
  gc_verdict :: Verdict

definition refuse ::
  "'s Handler \<Rightarrow> http_request \<Rightarrow> gated_call \<Rightarrow> string \<Rightarrow> string \<Rightarrow> int \<Rightarrow> string \<Rightarrow> 's \<Rightarrow> gate_result \<times> 's" where
  "refuse h r g decision reason status message s =
     (let s = finish h r (gc_identity g) (gc_tenant g) (gc_auditTool g) decision reason
            (tcl_SessionID (pr_Call (gc_parsed g))) (gc_start g) None EffectStatusEmpty
            (vd_TaintSources (gc_verdict g)) s
      in (Refused (writeJSONRPCError status rpcCodeServerErr (pr_ID (gc_parsed g)) message), s))"

definition allow_forward :: "gated_call \<Rightarrow> string \<Rightarrow> gate_result" where
  "allow_forward g successReason =
     Forward \<lparr>fw_parsed = gc_parsed g, fw_identity = gc_identity g, fw_tenant = gc_tenant g,
       fw_tool = gc_auditTool g, fw_start = gc_start g, fw_decision = ''allow'', fw_reason = successReason,
       fw_taintSources = vd_TaintSources (gc_verdict g)\<rparr>"

definition add_reason :: "string \<Rightarrow> string \<Rightarrow> string" where
  "add_reason successReason note = (if successReason \<noteq> '''' then successReason @ ''; '' @ note else note)"

text \<open>The cost ceiling, the last gate before the call is forwarded.\<close>

definition gate_cost ::
  "'s Handler \<Rightarrow> http_request \<Rightarrow> gated_call \<Rightarrow> string \<Rightarrow> bool \<Rightarrow> 's \<Rightarrow> gate_result \<times> 's" where
  "gate_cost h r g successReason admittedViaGrant s =
     (case h_costBudget h of
        None \<Rightarrow> (allow_forward g successReason, s)
      | Some check \<Rightarrow>
          let (v, s) = check (gc_tenant g) (gc_identity g) (tcl_SessionID (pr_Call (gc_parsed g)))
                 (tcl_Tool (pr_Call (gc_parsed g))) (gc_start g) s
          in if \<not> cv_Allowed v \<and> \<not> admittedViaGrant
             then refuse h r g ''cost_budget_exceeded'' (cv_Reason v) 429 ''cost budget ceiling exceeded'' s
             else
               let successReason = (if \<not> cv_Allowed v \<and> admittedViaGrant
                      then add_reason successReason ''cost budget ceiling exceeded but call was pre-approved via grant''
                      else successReason);
                   successReason = (if cv_Allowed v \<and> cv_FailedOpen v
                      then add_reason successReason (cv_Reason v) else successReason)
               in (allow_forward g successReason, s))"

definition gate_job ::
  "'s Handler \<Rightarrow> http_request \<Rightarrow> gated_call \<Rightarrow> string \<Rightarrow> bool \<Rightarrow> 's \<Rightarrow> gate_result \<times> 's" where
  "gate_job h r g successReason admittedViaGrant s =
     (case h_jobBudget h of
        None \<Rightarrow> gate_cost h r g successReason admittedViaGrant s
      | Some check \<Rightarrow>
          let (v, s) = check (gc_tenant g) (gc_identity g) (tcl_SessionID (pr_Call (gc_parsed g))) (gc_start g) s
          in if \<not> jv_Allowed v \<and> \<not> admittedViaGrant
             then refuse h r g ''job_budget_exceeded'' (jv_Reason v) 429 ''job budget ceiling exceeded'' s
             else
               let successReason = (if \<not> jv_Allowed v \<and> admittedViaGrant
                      then add_reason successReason ''job budget ceiling exceeded but call was pre-approved via grant''
                      else successReason);
                   successReason = (if jv_Allowed v \<and> jv_FailedOpen v
                      then add_reason successReason (jv_Reason v) else successReason)
               in gate_cost h r g successReason admittedViaGrant s)"

definition gate_budget ::
  "'s Handler \<Rightarrow> http_request \<Rightarrow> gated_call \<Rightarrow> string \<Rightarrow> bool \<Rightarrow> 's \<Rightarrow> gate_result \<times> 's" where
  "gate_budget h r g successReason admittedViaGrant s =
     (if \<not> pr_IsToolCall (gc_parsed g) then (allow_forward g successReason, s)
      else
        let (v, s) = h_budgetCheck h (gc_identity g) (gc_tenant g) (tcl_Tool (pr_Call (gc_parsed g))) (gc_start g) s
        in if \<not> bv_Allowed v
           then (case refuse h r g ''throttled'' (bv_Reason v) 429 ''throttled by budget'' s of
                   (Refused resp, s) \<Rightarrow> (Refused (with_RetryAfter (bv_RetryAfter v) resp), s)
                 | other \<Rightarrow> other)
           else gate_job h r g
                  (if bv_FailedOpen v then add_reason successReason (bv_Reason v) else successReason)
                  admittedViaGrant s)"

definition gate_policy :: "'s Handler \<Rightarrow> http_request \<Rightarrow> gated_call \<Rightarrow> 's \<Rightarrow> gate_result \<times> 's" where
  "gate_policy h r g s =
     (let verdict = gc_verdict g; parsed = gc_parsed g
      in case vd_Outcome verdict of
           OutcomeNeedsApproval \<Rightarrow>
             (case h_approval h of
                None \<Rightarrow> refuse h r g ''deny'' (vd_Reason verdict) 403 ''denied by policy'' s
              | Some onNeedsApproval \<Rightarrow>
                  let redacted = RedactSecrets (shallowParams (tcl_Params (pr_Call parsed)));
                      (res, s) = onNeedsApproval (gc_tenant g) (gc_identity g) (gc_auditTool g)
                        (pr_Method parsed) (tcl_SessionID (pr_Call parsed)) redacted s
                  in case res of
                       Inl err \<Rightarrow> refuse h r g ''deny'' err 403 ''denied by policy'' s
                     | Inr res \<Rightarrow>
                         if \<not> res_Approved res
                         then refuse h r g ''needs_approval'' (vd_Reason verdict) 202
                                (''awaiting operator approval; retry after approval (pending id: '' @
                                 res_PendingID res @ '')'') s
                         else gate_budget h r g ''approved via grant (pending id consumed)'' True s)
         | OutcomeDeny \<Rightarrow> refuse h r g ''deny'' (vd_Reason verdict) 403 ''denied by policy'' s
         | OutcomeAllow \<Rightarrow> gate_budget h r g '''' False s)"

text \<open>From a request whose caller is known and whose body was read.\<close>

definition gate_parsed ::
  "'s Handler \<Rightarrow> http_request \<Rightarrow> string \<Rightarrow> string \<Rightarrow> go_time \<Rightarrow> ParsedRequest \<Rightarrow> 's \<Rightarrow> gate_result \<times> 's" where
  "gate_parsed h r identity tenant start parsed s =
     (if \<not> pr_IsGated parsed
      then (Forward \<lparr>fw_parsed = parsed, fw_identity = identity, fw_tenant = tenant, fw_tool = pr_Method parsed,
              fw_start = start, fw_decision = ''passthrough'', fw_reason = '''', fw_taintSources = []\<rparr>, s)
      else
        let call = (pr_Call parsed)\<lparr>tcl_Timestamp := start, tcl_RemoteAddr := rq_RemoteAddr r,
              tcl_UserAgent := Header_Get (rq_Header r) ''User-Agent''\<rparr>;
            auditTool = (if tcl_Tool call = '''' then tcl_Method call else tcl_Tool call);
            verdict = Decide (h_decider h) call s
        in gate_policy h r \<lparr>gc_parsed = parsed, gc_identity = identity, gc_tenant = tenant,
             gc_auditTool = auditTool, gc_start = start, gc_verdict = verdict\<rparr> s)"

definition gate :: "'s Handler \<Rightarrow> http_request \<Rightarrow> 's \<Rightarrow> gate_result \<times> 's" where
  "gate h r s =
     (let (start, s) = h_now h s;
          (auth, s) = h_authenticate h r s
      in case auth of
           Inl _ \<Rightarrow> (Refused (writeJSONRPCError 401 rpcCodeUnauthorized '''' ''unauthorized''), s)
         | Inr (identity, tenant) \<Rightarrow>
             if rq_BodyBroken r \<or> maxRequestBodyBytes < length (rq_Body r)
             then let s = finish h r identity tenant '''' ''error'' '''' '''' start None EffectStatusEmpty [] s
                  in (Refused (writeJSONRPCError 400 rpcCodeParseError '''' ''cannot read body''), s)
             else
               case ParseRequest identity tenant (rq_Body r) of
                 (parsed, Some err) \<Rightarrow>
                   let s = finish h r identity tenant '''' ''error'' '''' '''' start None EffectStatusEmpty [] s
                   in (Refused (writeJSONRPCError 400 rpcCodeParseError (pr_ID parsed) (h_parseErrorText h err)), s)
               | (parsed, None) \<Rightarrow>
                   let parsed = parsed\<lparr>pr_Call := (pr_Call parsed)\<lparr>tcl_SessionID :=
                         Header_Get (rq_Header r) (h_sessionHeader h)\<rparr>\<rparr>
                   in case h_autoBlock h of
                        None \<Rightarrow> gate_parsed h r identity tenant start parsed s
                      | Some check \<Rightarrow>
                          let (v, s) = check identity tenant start s
                          in if \<not> bk_Allowed v
                             then let s = finish h r identity tenant '''' ''blocked'' (bk_Reason v)
                                        (tcl_SessionID (pr_Call parsed)) start None EffectStatusEmpty [] s
                                  in (Refused (with_RetryAfter (bk_RetryAfter v)
                                        (writeJSONRPCError 403 rpcCodeServerErr (pr_ID parsed)
                                           ''blocked due to anomalous behavior'')), s)
                             else gate_parsed h r identity tenant start parsed s)"

definition ServeHTTP :: "'s Handler \<Rightarrow> http_request \<Rightarrow> 's \<Rightarrow> client_response \<times> 's" where
  "ServeHTTP h r s =
     (case gate h r s of
        (Refused resp, s) \<Rightarrow> (resp, s)
      | (Forward c, s) \<Rightarrow> forward h r c s)"

section \<open>Who is let through\<close>

text \<open>
  The conditions under which a gated call is forwarded, each at the state in which its port was asked:
  the policy allowed it, or the policy asked for approval and a grant was consumed; and, for a
  tool call, the rate limiter allowed it and each ceiling did, unless the call holds a grant.
\<close>

definition ceilings_passed :: "'s Handler \<Rightarrow> gated_call \<Rightarrow> bool \<Rightarrow> 's \<Rightarrow> bool" where
  "ceilings_passed h g grant s \<longleftrightarrow>
     (let u = tcl_SessionID (pr_Call (gc_parsed g));
          (jobOK, s) = (case h_jobBudget h of
              None \<Rightarrow> (True, s)
            | Some check \<Rightarrow> let (v, s) = check (gc_tenant g) (gc_identity g) u (gc_start g) s in (jv_Allowed v, s));
          costOK = (case h_costBudget h of
              None \<Rightarrow> True
            | Some check \<Rightarrow> cv_Allowed (fst (check (gc_tenant g) (gc_identity g) u
                (tcl_Tool (pr_Call (gc_parsed g))) (gc_start g) s)))
      in grant \<or> (jobOK \<and> costOK))"

definition budget_passed :: "'s Handler \<Rightarrow> gated_call \<Rightarrow> bool \<Rightarrow> 's \<Rightarrow> bool" where
  "budget_passed h g grant s \<longleftrightarrow>
     (pr_IsToolCall (gc_parsed g) \<longrightarrow>
        (let (v, s) = h_budgetCheck h (gc_identity g) (gc_tenant g) (tcl_Tool (pr_Call (gc_parsed g))) (gc_start g) s
         in bv_Allowed v \<and> ceilings_passed h g grant s))"

definition grant_consumed :: "'s Handler \<Rightarrow> gated_call \<Rightarrow> 's \<Rightarrow> 's \<Rightarrow> bool" where
  "grant_consumed h g s s' \<longleftrightarrow>
     (\<exists>port res. h_approval h = Some port \<and>
        port (gc_tenant g) (gc_identity g) (gc_auditTool g) (pr_Method (gc_parsed g))
          (tcl_SessionID (pr_Call (gc_parsed g))) (RedactSecrets (shallowParams (tcl_Params (pr_Call (gc_parsed g))))) s
        = (Inr res, s') \<and> res_Approved res)"

definition call_admitted :: "'s Handler \<Rightarrow> gated_call \<Rightarrow> 's \<Rightarrow> bool" where
  "call_admitted h g s \<longleftrightarrow>
     (case vd_Outcome (gc_verdict g) of
        OutcomeAllow \<Rightarrow> budget_passed h g False s
      | OutcomeNeedsApproval \<Rightarrow> \<exists>s'. grant_consumed h g s s' \<and> budget_passed h g True s'
      | OutcomeDeny \<Rightarrow> False)"

fun forwards :: "gate_result \<Rightarrow> bool" where
  "forwards (Forward c) = True"
| "forwards (Refused resp) = False"

lemma refuse_not_forwards [simp]: "\<not> forwards (fst (refuse h r g d reason st m s))"
  by (simp add: refuse_def)

lemma allow_forward_forwards [simp]: "forwards (allow_forward g reason)"
  by (simp add: allow_forward_def)

lemma gate_cost_forwards:
  "forwards (fst (gate_cost h r g reason grant s)) \<longleftrightarrow>
     grant \<or> (case h_costBudget h of None \<Rightarrow> True | Some check \<Rightarrow> cv_Allowed (fst (check (gc_tenant g) (gc_identity g)
        (tcl_SessionID (pr_Call (gc_parsed g))) (tcl_Tool (pr_Call (gc_parsed g))) (gc_start g) s)))"
  by (auto simp: gate_cost_def case_prod_beta split: option.splits)

lemma gate_job_forwards: "forwards (fst (gate_job h r g reason grant s)) \<longleftrightarrow> ceilings_passed h g grant s"
  by (auto simp: gate_job_def ceilings_passed_def case_prod_beta gate_cost_forwards split: option.splits)

lemma gate_budget_forwards: "forwards (fst (gate_budget h r g reason grant s)) \<longleftrightarrow> budget_passed h g grant s"
  by (simp add: gate_budget_def budget_passed_def case_prod_beta gate_job_forwards refuse_def)

lemma gate_policy_forwards: "forwards (fst (gate_policy h r g s)) \<longleftrightarrow> call_admitted h g s"
  by (auto simp: gate_policy_def call_admitted_def grant_consumed_def case_prod_beta gate_budget_forwards prod_eq_iff
      split: Outcome.splits option.splits sum.splits)

text \<open>What a request has to satisfy to reach the upstream, port by port.\<close>

definition request_admitted :: "'s Handler \<Rightarrow> http_request \<Rightarrow> 's \<Rightarrow> bool" where
  "request_admitted h r s \<longleftrightarrow>
     (let (start, s) = h_now h s;
          (auth, s) = h_authenticate h r s
      in case auth of
           Inl _ \<Rightarrow> False
         | Inr (identity, tenant) \<Rightarrow>
             \<not> rq_BodyBroken r \<and> length (rq_Body r) \<le> maxRequestBodyBytes \<and>
             (let (parsed, err) = ParseRequest identity tenant (rq_Body r);
                  parsed = parsed\<lparr>pr_Call := (pr_Call parsed)\<lparr>tcl_SessionID :=
                    Header_Get (rq_Header r) (h_sessionHeader h)\<rparr>\<rparr>;
                  (blocked, s) = (case h_autoBlock h of
                      None \<Rightarrow> (False, s)
                    | Some check \<Rightarrow> let (v, s) = check identity tenant start s in (\<not> bk_Allowed v, s));
                  call = (pr_Call parsed)\<lparr>tcl_Timestamp := start, tcl_RemoteAddr := rq_RemoteAddr r,
                    tcl_UserAgent := Header_Get (rq_Header r) ''User-Agent''\<rparr>
              in err = None \<and> \<not> blocked \<and>
                 (pr_IsGated parsed \<longrightarrow>
                    call_admitted h \<lparr>gc_parsed = parsed, gc_identity = identity, gc_tenant = tenant,
                      gc_auditTool = (if tcl_Tool call = '''' then tcl_Method call else tcl_Tool call),
                      gc_start = start, gc_verdict = Decide (h_decider h) call s\<rparr> s)))"

lemma gate_parsed_forwards:
  "forwards (fst (gate_parsed h r i t start parsed s)) \<longleftrightarrow>
     (pr_IsGated parsed \<longrightarrow>
        (let call = (pr_Call parsed)\<lparr>tcl_Timestamp := start, tcl_RemoteAddr := rq_RemoteAddr r,
               tcl_UserAgent := Header_Get (rq_Header r) ''User-Agent''\<rparr>
         in call_admitted h \<lparr>gc_parsed = parsed, gc_identity = i, gc_tenant = t,
              gc_auditTool = (if tcl_Tool call = '''' then tcl_Method call else tcl_Tool call),
              gc_start = start, gc_verdict = Decide (h_decider h) call s\<rparr> s))"
  by (simp add: gate_parsed_def gate_policy_forwards)

lemma gate_forwards: "forwards (fst (gate h r s)) \<longleftrightarrow> request_admitted h r s"
  by (auto simp: gate_def request_admitted_def case_prod_beta gate_parsed_forwards
      split: option.splits sum.splits prod.splits)

section \<open>What a request leaves behind\<close>

text \<open>
  \<open>obs\<close> observes what leaves the proxy: entries handed to the audit writer and requests sent upstream,
  latest first (\<open>Opened\<close> is a stream opened by the gRPC transport, which shares the log). The contract of the ports:
  the writer and the upstream add their event, and every
  other port leaves both logs alone.
\<close>

datatype proxy_event =
    Audited Entry
  | Sent http_request
  | Opened string headers

locale observed_ports =
  fixes h :: "'s Handler" and obs :: "'s \<Rightarrow> proxy_event list"
  assumes obs_writer: "obs (snd (rec_writer (h_recorder h) e s)) = Audited e # obs s"
    and obs_sink: "rec_sink (h_recorder h) = Some publish \<Longrightarrow> obs (publish e s) = obs s"
    and obs_onError: "rec_onError (h_recorder h) = Some onError \<Longrightarrow> obs (onError msg s) = obs s"
    and obs_upstream: "obs (snd (h_upstream h q s)) = Sent q # obs s"
    and obs_now: "obs (snd (h_now h s)) = obs s"
    and obs_authenticate: "obs (snd (h_authenticate h r s)) = obs s"
    and obs_budget: "obs (snd (h_budgetCheck h i t tool now s)) = obs s"
    and obs_block: "h_autoBlock h = Some check \<Longrightarrow> obs (snd (check i t now s)) = obs s"
    and obs_approval: "h_approval h = Some port \<Longrightarrow> obs (snd (port t i tool meth u ps s)) = obs s"
    and obs_job: "h_jobBudget h = Some jcheck \<Longrightarrow> obs (snd (jcheck t i u now s)) = obs s"
    and obs_cost: "h_costBudget h = Some ccheck \<Longrightarrow> obs (snd (ccheck t i u tool now s)) = obs s"
    and obs_metrics: "h_metrics h = Some observe \<Longrightarrow> obs (observe d dur s) = obs s"
begin

lemma obs_record:
  "\<exists>e. obs (RecordWithEffect (h_recorder h) i t tool d reason tr lat now u eff st src s) = Audited e # obs s \<and>
       e_Identity e = i \<and> e_Tenant e = t \<and> e_Tool e = tool \<and> e_Decision e = d \<and> e_Timestamp e = now \<and>
       e_SessionID e = u \<and> e_Effect e = eff"
  by (auto simp: RecordWithEffect_def case_prod_beta obs_sink obs_onError obs_writer split: option.split)

lemma obs_finish:
  "\<exists>e. obs (finish h r i t tool d reason u start eff st src s) = Audited e # obs s \<and>
       e_Identity e = i \<and> e_Tenant e = t \<and> e_Tool e = tool \<and> e_Decision e = d \<and> e_Timestamp e = start \<and>
       e_SessionID e = u \<and> e_Effect e = eff"
proof -
  let ?s = "snd (h_now h (case h_metrics h of None \<Rightarrow> s
    | Some observe \<Rightarrow> let (now, s) = h_now h s in observe d (time_sub now start) s))"
  have "obs ?s = obs s" by (simp add: obs_now obs_metrics case_prod_beta split: option.split)
  then show ?thesis
    using obs_record [of i t tool d reason "h_traceID h r" _ start u eff st src ?s]
    by (simp add: finish_def case_prod_beta)
qed

text \<open>A refused gated call leaves one entry with the given decision; an admitted one leaves none yet.\<close>

definition gate_obs :: "string \<Rightarrow> string \<Rightarrow> gate_result \<times> 's \<Rightarrow> 's \<Rightarrow> bool" where
  "gate_obs i t res s \<longleftrightarrow>
     (case fst res of
        Forward c \<Rightarrow> obs (snd res) = obs s \<and> fw_identity c = i \<and> fw_tenant c = t \<and> fw_decision c \<in> {''allow'', ''passthrough''}
      | Refused _ \<Rightarrow> \<exists>e. obs (snd res) = Audited e # obs s \<and> e_Identity e = i \<and> e_Tenant e = t \<and>
          e_Decision e \<notin> {''allow'', ''passthrough''} \<and> e_Effect e = None)"

lemma gate_obs_refuse:
  "d \<notin> {''allow'', ''passthrough''} \<Longrightarrow> obs s' = obs s \<Longrightarrow>
     gate_obs (gc_identity g) (gc_tenant g) (refuse h r g d reason st m s') s"
  using obs_finish [of r "gc_identity g" "gc_tenant g" "gc_auditTool g" d reason
      "tcl_SessionID (pr_Call (gc_parsed g))" "gc_start g" None EffectStatusEmpty "vd_TaintSources (gc_verdict g)" s']
  by (auto simp: gate_obs_def refuse_def)

lemma gate_obs_allow: "obs s' = obs s \<Longrightarrow> gate_obs (gc_identity g) (gc_tenant g) (allow_forward g reason, s') s"
  by (simp add: gate_obs_def allow_forward_def)

lemma gate_obs_frame: "gate_obs i t res s' \<Longrightarrow> obs s' = obs s \<Longrightarrow> gate_obs i t res s"
  by (simp add: gate_obs_def split: gate_result.splits)

lemma gate_obs_cost: "gate_obs (gc_identity g) (gc_tenant g) (gate_cost h r g reason grant s) s"
  by (auto simp: gate_cost_def case_prod_beta split: option.split
      intro!: gate_obs_refuse gate_obs_allow obs_cost)

lemma gate_obs_job: "gate_obs (gc_identity g) (gc_tenant g) (gate_job h r g reason grant s) s"
  by (auto simp: gate_job_def case_prod_beta split: option.split
      intro!: gate_obs_refuse obs_job gate_obs_frame [OF gate_obs_cost])

lemma gate_obs_retry:
  assumes "gate_obs i t res s" and "\<not> forwards (fst res)"
  shows "gate_obs i t (case res of (Refused resp, s) \<Rightarrow> (Refused (with_RetryAfter d resp), s) | other \<Rightarrow> other) s"
  using assms by (cases "fst res") (auto simp: gate_obs_def case_prod_beta split: prod.splits gate_result.splits)

lemma gate_obs_budget: "gate_obs (gc_identity g) (gc_tenant g) (gate_budget h r g reason grant s) s"
proof -
  let ?s = "snd (h_budgetCheck h (gc_identity g) (gc_tenant g) (tcl_Tool (pr_Call (gc_parsed g))) (gc_start g) s)"
  have "gate_obs (gc_identity g) (gc_tenant g) (gate_job h r g rs grant ?s) s" for rs
    by (rule gate_obs_frame [OF gate_obs_job]) (rule obs_budget)
  moreover have "gate_obs (gc_identity g) (gc_tenant g)
      (case refuse h r g ''throttled'' rs 429 m ?s of
         (Refused resp, s) \<Rightarrow> (Refused (with_RetryAfter d resp), s) | other \<Rightarrow> other) s" for rs m d
    by (rule gate_obs_retry) (auto intro!: gate_obs_refuse obs_budget)
  ultimately show ?thesis
    by (simp add: gate_budget_def case_prod_beta gate_obs_allow)
qed

lemma gate_obs_policy: "gate_obs (gc_identity g) (gc_tenant g) (gate_policy h r g s) s"
  by (auto simp: gate_policy_def case_prod_beta split: Outcome.split option.split sum.split
      intro!: gate_obs_refuse gate_obs_budget obs_approval gate_obs_frame [OF gate_obs_budget])

lemma gate_obs_parsed: "gate_obs i t (gate_parsed h r i t start parsed s) s"
proof (cases "pr_IsGated parsed")
  case True
  let ?call = "(pr_Call parsed)\<lparr>tcl_Timestamp := start, tcl_RemoteAddr := rq_RemoteAddr r,
    tcl_UserAgent := Header_Get (rq_Header r) ''User-Agent''\<rparr>"
  show ?thesis
    using gate_obs_policy [of "\<lparr>gc_parsed = parsed, gc_identity = i, gc_tenant = t,
      gc_auditTool = (if tcl_Tool ?call = '''' then tcl_Method ?call else tcl_Tool ?call),
      gc_start = start, gc_verdict = Decide (h_decider h) ?call s\<rparr>" r s] True
    by (simp add: gate_parsed_def)
qed (simp add: gate_parsed_def gate_obs_def)

end

section \<open>The events of one request\<close>

text \<open>The caller as the handler resolves it, if it does.\<close>

definition caller :: "'s Handler \<Rightarrow> http_request \<Rightarrow> 's \<Rightarrow> (string \<times> string) option" where
  "caller h r s = (case fst (h_authenticate h r (snd (h_now h s))) of Inl _ \<Rightarrow> None | Inr it \<Rightarrow> Some it)"

definition upgrade_rejected :: "'s Handler \<Rightarrow> http_request \<Rightarrow> 's \<Rightarrow> bool" where
  "upgrade_rejected h r s \<longleftrightarrow>
     (\<exists>c s0 resp. gate h r s = (Forward c, s0) \<and> fst (h_upstream h (outgoing h r) s0) = UpstreamUpgradeRejected resp)"

definition audits :: "proxy_event list \<Rightarrow> Entry list" where
  "audits evs = List.map_filter (\<lambda>ev. case ev of Audited e \<Rightarrow> Some e | _ \<Rightarrow> None) evs"

definition sends :: "proxy_event list \<Rightarrow> http_request list" where
  "sends evs = List.map_filter (\<lambda>ev. case ev of Sent q \<Rightarrow> Some q | _ \<Rightarrow> None) evs"

lemma audits_simps [simp]:
  "audits [] = []" "audits (Audited e # evs) = e # audits evs" "audits (Sent q # evs) = audits evs"
  "audits (Opened m md # evs) = audits evs"
  by (simp_all add: audits_def List.map_filter_def)

lemma sends_simps [simp]:
  "sends [] = []" "sends (Sent q # evs) = q # sends evs" "sends (Audited e # evs) = sends evs"
  "sends (Opened m md # evs) = sends evs"
  by (simp_all add: sends_def List.map_filter_def)

lemma audits_sent [simp]:
  "audits (map Audited es @ evs) = es @ audits evs" "sends (map Audited es @ evs) = sends evs"
  by (induction es) simp_all

context observed_ports
begin

lemma gate_unauthenticated:
  "caller h r s = None \<Longrightarrow>
     gate h r s = (Refused (writeJSONRPCError 401 rpcCodeUnauthorized '''' ''unauthorized''),
       snd (h_authenticate h r (snd (h_now h s))))"
  by (auto simp: gate_def caller_def case_prod_beta split: sum.splits)

lemma gate_obs_audited:
  assumes "d \<notin> {''allow'', ''passthrough''}" and "obs s' = obs s"
  shows "gate_obs i t (Refused resp, finish h r i t tool d reason u start None st src s') s"
  using obs_finish [of r i t tool d reason u start None st src s'] assms by (auto simp: gate_obs_def)

lemma gate_obs_gate:
  assumes "caller h r s = Some (i, t)"
  shows "gate_obs i t (gate h r s) s"
proof -
  let ?s1 = "snd (h_authenticate h r (snd (h_now h s)))"
  have s1: "obs ?s1 = obs s" by (simp add: obs_authenticate obs_now)
  have auth: "fst (h_authenticate h r (snd (h_now h s))) = Inr (i, t)"
    using assms by (simp add: caller_def split: sum.splits)
  have block: "obs (snd (check i t now ?s1)) = obs s" if "h_autoBlock h = Some check" for check now
    using obs_block [OF that] s1 by simp
  have parsed: "gate_obs i t (gate_parsed h r i t start p s') s" if "obs s' = obs s" for start p s'
    by (rule gate_obs_frame [OF gate_obs_parsed that])
  show ?thesis
    unfolding gate_def by (auto simp: case_prod_beta auth s1 split: option.split prod.split
        intro!: gate_obs_audited parsed block)
qed

text \<open>
  The log of a whole request: nothing for an unauthenticated caller, one entry and nothing sent for a
  refused one, and for an admitted one what was sent and one entry, or two after a rejected upgrade.
\<close>

lemma serve_refused:
  assumes "caller h r s = Some (i, t)" and "\<not> request_admitted h r s"
  shows "\<exists>e. obs (snd (ServeHTTP h r s)) = Audited e # obs s \<and> e_Identity e = i \<and> e_Tenant e = t \<and>
     e_Decision e \<notin> {''allow'', ''passthrough''} \<and> e_Effect e = None"
proof -
  obtain resp s' where g: "gate h r s = (Refused resp, s')"
    using assms(2) unfolding gate_forwards [symmetric] by (metis forwards.elims(3) prod.collapse)
  then show ?thesis using gate_obs_gate [OF assms(1)] by (simp add: gate_obs_def ServeHTTP_def)
qed

lemma obs_forward_response:
  "\<exists>e. obs (forward_response h r c resp s) = Audited e # obs s \<and> e_Identity e = fw_identity c \<and>
     e_Tenant e = fw_tenant c \<and> e_Decision e = fw_decision c \<and> effect_redacted (e_Effect e)"
  unfolding forward_response_def case_prod_beta Let_def using obs_finish ExtractEffect_redacted by metis

lemma obs_forward_error:
  "\<exists>e. obs (snd (forward_error h r c s)) = Audited e # obs s \<and> e_Identity e = fw_identity c \<and>
     e_Tenant e = fw_tenant c \<and> e_Decision e = ''error'' \<and> effect_redacted (e_Effect e)"
  unfolding forward_error_def case_prod_beta Let_def snd_conv using obs_finish ExtractEffect_redacted by metis

lemma serve_admitted:
  assumes "caller h r s = Some (i, t)" and "request_admitted h r s"
  shows "\<exists>es. obs (snd (ServeHTTP h r s)) = map Audited es @ Sent (outgoing h r) # obs s \<and>
     length es = (if upgrade_rejected h r s then 2 else 1) \<and>
     (\<forall>e \<in> set es. e_Identity e = i \<and> e_Tenant e = t \<and> e_Decision e \<in> {''allow'', ''passthrough'', ''error''} \<and>
        effect_redacted (e_Effect e))"
proof -
  obtain c s0 where g: "gate h r s = (Forward c, s0)"
    using assms(2) unfolding gate_forwards [symmetric] by (metis forwards.elims(2) prod.collapse)
  have c: "obs s0 = obs s" "fw_identity c = i" "fw_tenant c = t" "fw_decision c \<in> {''allow'', ''passthrough''}"
    using gate_obs_gate [OF assms(1)] by (simp_all add: gate_obs_def g)
  obtain out s1 where up: "h_upstream h (outgoing h r) s0 = (out, s1)" by (cases "h_upstream h (outgoing h r) s0")
  have s1: "obs s1 = Sent (outgoing h r) # obs s" using obs_upstream [of "outgoing h r" s0] up c(1) by simp
  have rej: "upgrade_rejected h r s \<longleftrightarrow> (\<exists>resp. out = UpstreamUpgradeRejected resp)"
    using g up by (auto simp: upgrade_rejected_def)
  have serve: "ServeHTTP h r s = (case out of
      UpstreamError \<Rightarrow> forward_error h r c s1
    | UpstreamResponse resp \<Rightarrow> (Relayed resp, forward_response h r c resp s1)
    | UpstreamUpgradeRejected resp \<Rightarrow> forward_error h r c (forward_response h r c resp s1))"
    using g up by (simp add: ServeHTTP_def forward_def)
  show ?thesis
  proof (cases out)
    case UpstreamError
    obtain e where "obs (snd (ServeHTTP h r s)) = map Audited [e] @ Sent (outgoing h r) # obs s"
        "e_Identity e = i \<and> e_Tenant e = t \<and> e_Decision e = ''error'' \<and> effect_redacted (e_Effect e)"
      using obs_forward_error [of r c s1] UpstreamError serve s1 c by auto
    moreover have "\<not> upgrade_rejected h r s" using UpstreamError rej by simp
    ultimately show ?thesis by (intro exI [of _ "[e]"]) simp
  next
    case (UpstreamResponse resp)
    obtain e where "obs (snd (ServeHTTP h r s)) = map Audited [e] @ Sent (outgoing h r) # obs s"
        "e_Identity e = i \<and> e_Tenant e = t \<and> e_Decision e = fw_decision c \<and> effect_redacted (e_Effect e)"
      using obs_forward_response [of r c resp s1] UpstreamResponse serve s1 c by auto
    moreover have "\<not> upgrade_rejected h r s" using UpstreamResponse rej by simp
    ultimately show ?thesis using c(4) by (intro exI [of _ "[e]"]) auto
  next
    case (UpstreamUpgradeRejected resp)
    obtain e1 where e1: "obs (forward_response h r c resp s1) = Audited e1 # obs s1"
        "e_Identity e1 = i \<and> e_Tenant e1 = t \<and> e_Decision e1 = fw_decision c \<and>
          effect_redacted (e_Effect e1)"
      using obs_forward_response [of r c resp s1] c by auto
    obtain e2 where "obs (snd (ServeHTTP h r s)) = map Audited [e2, e1] @ Sent (outgoing h r) # obs s"
        "e_Identity e2 = i \<and> e_Tenant e2 = t \<and> e_Decision e2 = ''error'' \<and>
          effect_redacted (e_Effect e2)"
      using obs_forward_error [of r c "forward_response h r c resp s1"] UpstreamUpgradeRejected serve s1 c e1 by auto
    moreover have "upgrade_rejected h r s" using UpstreamUpgradeRejected rej by simp
    ultimately show ?thesis using c(4) e1(2) by (intro exI [of _ "[e2, e1]"]) auto
  qed
qed

lemma serve_unauthenticated:
  "caller h r s = None \<Longrightarrow>
     ServeHTTP h r s = (writeJSONRPCError 401 rpcCodeUnauthorized '''' ''unauthorized'', snd (ServeHTTP h r s)) \<and>
     obs (snd (ServeHTTP h r s)) = obs s"
  by (simp add: ServeHTTP_def gate_unauthenticated obs_authenticate obs_now)

end

section \<open>Properties of the handler\<close>

text \<open>
  C2. A request reaches the upstream exactly when every gate that applies to it let it through:
  the caller authenticated, the body was readable and well formed, the identity was not blocked, and
  for a policy-evaluated method the policy allowed the call, or asked for approval and a grant was
  consumed, and a tool call was within its rate limit and within both ceilings unless it holds
  a grant. In particular a denied, blocked, throttled or pending call is never forwarded.
\<close>

theorem forwarded_iff_admitted:
  "(\<exists>c s'. gate h r s = (Forward c, s') \<and> ServeHTTP h r s = forward h r c s') = request_admitted h r s"
proof -
  have "(\<exists>c s'. gate h r s = (Forward c, s') \<and> ServeHTTP h r s = forward h r c s') \<longleftrightarrow> forwards (fst (gate h r s))"
    by (cases "gate h r s"; cases "fst (gate h r s)") (auto simp: ServeHTTP_def)
  then show ?thesis by (simp add: gate_forwards)
qed

text \<open>
  The caller's credentials do not reach the upstream: the forwarded request has no Authorization
  header, and none under the trusted identity header's name when one is configured. The trace
  propagator is only assumed not to write those headers.
\<close>

theorem credentials_stripped:
  assumes "\<And>q hd. h_inject h q hd ''Authorization'' = hd ''Authorization''"
    and "\<And>q hd. h_inject h q hd (CanonicalMIMEHeaderKey (h_trustedIdentityHeader h)) =
           hd (CanonicalMIMEHeaderKey (h_trustedIdentityHeader h))"
  shows "rq_Header (outgoing h r) ''Authorization'' = [] \<and>
     (h_trustedIdentityHeader h = '''' \<or>
      rq_Header (outgoing h r) (CanonicalMIMEHeaderKey (h_trustedIdentityHeader h)) = []) \<and>
     rq_Body (outgoing h r) = rq_Body r"
proof -
  have "CanonicalMIMEHeaderKey ''Authorization'' = ''Authorization''" by code_simp
  then show ?thesis using assms by (simp add: outgoing_def Header_Del_def)
qed

text \<open>A minimal handler for the concrete instances: no optional port, a state that logs nothing.\<close>

definition plain_handler :: "unit Handler" where
  "plain_handler = \<lparr>h_authenticate = (\<lambda>r s. (Inr (HeaderIdentity_Authenticate r), s)),
     h_decider = \<lparr>dc_policy = Matcher_Evaluate (NewMatcher [] EffectDeny), dc_taint = None, dc_jobBudget = None,
       dc_costBudget = None\<rparr>,
     h_recorder = NewRecorder (\<lambda>e s. (None, s)) None None,
     h_upstream = (\<lambda>q s. (UpstreamError, s)),
     h_budgetCheck = (\<lambda>i t tool now s. (\<lparr>bv_Allowed = True, bv_Reason = '''', bv_RetryAfter = 0, bv_FailedOpen = False\<rparr>, s)),
     h_autoBlock = None, h_approval = None, h_jobBudget = None, h_costBudget = None, h_metrics = None,
     h_now = (\<lambda>s. (0, s)), h_traceID = (\<lambda>r. ''''), h_inject = (\<lambda>r hd. hd), h_parseErrorText = (\<lambda>e. ''''),
     h_trustedIdentityHeader = ''X-Spiffe-Id'', h_sessionHeader = ''X-Wardline-Session''\<rparr>"

definition example_headers :: headers where
  "example_headers = (\<lambda>_. [])(''Authorization'' := [''Bearer t''], ''X-Spiffe-Id'' := [''spiffe://a/b''],
     ''Cookie'' := [''wardline_session=t''])"

definition example_request :: "string \<Rightarrow> http_request" where
  "example_request body = \<lparr>rq_RemoteAddr = ''10.0.0.1:1'', rq_Header = example_headers, rq_Body = body, rq_BodyBroken = False\<rparr>"

theorem credentials_stripped_witness:
  "rq_Header (example_request ''x'') ''Authorization'' = [''Bearer t''] \<and>
   rq_Header (outgoing plain_handler (example_request ''x'')) ''Authorization'' = [] \<and>
   rq_Header (outgoing plain_handler (example_request ''x'')) ''X-Spiffe-Id'' = []"
proof -
  have k: "CanonicalMIMEHeaderKey ''X-Spiffe-Id'' = ''X-Spiffe-Id''" by code_simp
  have "h_inject plain_handler q hd = hd" "h_trustedIdentityHeader plain_handler = ''X-Spiffe-Id''" for q hd
    by (simp_all add: plain_handler_def)
  then show ?thesis
    using credentials_stripped [of plain_handler "example_request ''x''"]
    by (simp add: k example_request_def example_headers_def)
qed

text \<open>
  C35. A session cookie does reach the upstream: when the caller presents its token as the session
  cookie instead of an Authorization header, the handler authenticates it from there, and the
  forwarded request still carries the same cookie, so the upstream reads a live token out of it.
\<close>

theorem session_cookie_forwarded:
  assumes "\<And>q hd. h_inject h q hd ''Cookie'' = hd ''Cookie''"
    and "CanonicalMIMEHeaderKey (h_trustedIdentityHeader h) \<noteq> ''Cookie''"
    and "CutPrefix ''Bearer '' (Header_Get (rq_Header r) ''Authorization'') = None"
    and "cookie (rq_Header r ''Cookie'') SessionCookieName = Some token" and "token \<noteq> ''''"
    and "authenticate token s = (Inr (identity, tenant), s')"
  shows "bearerIdentity_Authenticate cookie authenticate r s = (Inr (identity, tenant), s') \<and>
     cookie (rq_Header (outgoing h r) ''Cookie'') SessionCookieName = Some token"
proof -
  have "CanonicalMIMEHeaderKey ''Authorization'' = ''Authorization''" by code_simp
  then show ?thesis using assms by (simp add: bearerIdentity_Authenticate_def outgoing_def Header_Del_def)
qed

theorem session_cookie_forwarded_witness:
  "let r = (example_request ''x'')\<lparr>rq_Header := (\<lambda>_. [])(''Cookie'' := [''wardline_session=t''])\<rparr>;
       cookie = (\<lambda>lines name. case lines of [l] \<Rightarrow> CutPrefix (name @ ''='') l | _ \<Rightarrow> None);
       authenticate = (\<lambda>token s. (if token = ''t'' then Inr (''alice'', ''acme'') else Inl (), s))
   in bearerIdentity_Authenticate cookie authenticate r () = (Inr (''alice'', ''acme''), ()) \<and>
      cookie (rq_Header (outgoing plain_handler r) ''Cookie'') SessionCookieName = Some ''t''"
proof -
  have "CanonicalMIMEHeaderKey ''X-Spiffe-Id'' \<noteq> ''Cookie''" "CanonicalMIMEHeaderKey ''Authorization'' = ''Authorization''"
    by code_simp+
  then show ?thesis
    unfolding Let_def
    by (intro session_cookie_forwarded)
      (simp_all add: plain_handler_def CutPrefix_def Header_Get_def SessionCookieName_def)
qed

definition json_quoted :: "string \<Rightarrow> string" where
  "json_quoted s = CHR 0x22 # s @ [CHR 0x22]"

definition smuggled_body :: string where
  "smuggled_body = ''{'' @ json_quoted ''method'' @ '':'' @ json_quoted ''tools/call'' @ '','' @
     json_quoted ''params'' @ '':{'' @ json_quoted ''name'' @ '':'' @ json_quoted ''drop_table'' @ ''},'' @
     json_quoted ''Method'' @ '':'' @ json_quoted ''ping'' @ ''}''"

lemma smuggled_parse:
  "ParseRequest i t smuggled_body =
     (\<lparr>pr_Call = zero_ToolCall, pr_Method = ''ping'', pr_ID = nullID, pr_IsToolCall = False, pr_IsGated = False\<rparr>, None)"
proof -
  have "map_option env_Method (decode_envelope smuggled_body) = Some ''ping''"
    "map_option env_ID (decode_envelope smuggled_body) = Some ''''" by code_simp+
  then obtain env where "decode_envelope smuggled_body = Some env" "env_Method env = ''ping''" "env_ID env = ''''"
    by auto
  moreover have "\<not> isGatedMethod ''ping''" by code_simp
  ultimately show ?thesis by (simp add: ParseRequest_def)
qed

text \<open>
  C36. Two readings of one body: a member \<open>Method\<close> after \<open>method\<close> wins in the proxy's case-insensitive
  decoding, so a body that a case-sensitive reader takes for a tool call is classified as a
  protocol method and forwarded without the policy, the approval or any budget being asked, whatever
  they would have said.
\<close>

theorem case_variant_skips_policy:
  assumes "rq_Body r = smuggled_body" and "\<not> rq_BodyBroken r" and "caller h r s = Some (i, t)"
    and "h_autoBlock h = None"
  shows "map_option (\<lambda>ms. snd (the (map_of (rev ms) ''method''))) (struct_members (rq_Body r)) = Some (JString ''tools/call'') \<and>
     (\<exists>c s'. gate h r s = (Forward c, s') \<and> fw_decision c = ''passthrough'' \<and>
        ServeHTTP h r s = forward h r c s' \<and> rq_Body (outgoing h r) = smuggled_body)"
proof -
  have len: "length smuggled_body \<le> maxRequestBodyBytes" by (simp add: smuggled_body_def json_quoted_def maxRequestBodyBytes_def)
  have exact: "map_option (\<lambda>ms. snd (the (map_of (rev ms) ''method''))) (struct_members smuggled_body) = Some (JString ''tools/call'')"
    by code_simp
  have "fst (h_authenticate h r (snd (h_now h s))) = Inr (i, t)"
    using assms(3) by (simp add: caller_def split: sum.splits)
  then obtain c s' where "gate h r s = (Forward c, s')" "fw_decision c = ''passthrough''"
    using assms(1,2,4) len by (simp add: gate_def gate_parsed_def case_prod_beta smuggled_parse)
  then show ?thesis using assms(1) exact by (simp add: ServeHTTP_def outgoing_def)
qed

theorem case_variant_skips_policy_witness:
  "(\<forall>pc :: string Context. dec_Effect (Matcher_Evaluate (NewMatcher [] EffectDeny) pc) = EffectDeny) \<and>
   dc_policy (h_decider plain_handler) = Matcher_Evaluate (NewMatcher [] EffectDeny) \<and>
   (\<exists>c s'. gate plain_handler (example_request smuggled_body) () = (Forward c, s') \<and> fw_decision c = ''passthrough'')"
proof -
  obtain i t where c: "caller plain_handler (example_request smuggled_body) () = Some (i, t)"
    by (cases "HeaderIdentity_Authenticate (example_request smuggled_body)") (simp add: caller_def plain_handler_def)
  have r: "rq_Body (example_request smuggled_body) = smuggled_body" "\<not> rq_BodyBroken (example_request smuggled_body)"
    "h_autoBlock plain_handler = None"
    by (simp_all add: example_request_def plain_handler_def)
  have "\<exists>c s'. gate plain_handler (example_request smuggled_body) () = (Forward c, s') \<and> fw_decision c = ''passthrough''"
    using case_variant_skips_policy [OF r(1,2) c r(3)] by blast
  then show ?thesis by (simp add: Matcher_Evaluate_def NewMatcher_def plain_handler_def)
qed

text \<open>
  Redaction sees only the top level of the parameters: the arguments of a tool call, an object
  under the key \<open>arguments\<close>, are recorded verbatim in the audit entry's effect, secrets inside them
  included.
\<close>

theorem nested_arguments_recorded_verbatim:
  assumes "ParseRequest i t body = (p, None)" and "pr_IsToolCall p"
    and "struct_members (tcl_Params (pr_Call p)) = Some ms" and "tcl_Params (pr_Call p) \<noteq> ''''"
    and "map_of (rev ms) ''arguments'' = Some (text, JObject xs)" and "hd text = CHR 0x7B"
  shows "\<exists>eff st. ExtractEffect p sig (Some RedactSecrets) = (Some eff, st) \<and>
     eff_ClaimedArgs eff ''arguments'' = Some text"
proof -
  have "map_of (rev (map (\<lambda>(k, text, _). (k, shallow_value text)) ms)) k =
      map_option (\<lambda>(text, _). shallow_value text) (map_of (rev ms) k)" for k
  proof -
    have "rev (map (\<lambda>(k, text, _). (k, shallow_value text)) ms) =
        map (\<lambda>(k, v). (k, (\<lambda>(text, _). shallow_value text) v)) (rev ms)"
      by (simp add: rev_map case_prod_beta)
    then show ?thesis by (simp only: map_of_map [unfolded comp_def] comp_def)
  qed
  moreover have "shallow_value text = text" using assms(6) by (simp add: shallow_value_def)
  ultimately have "shallowParams (tcl_Params (pr_Call p)) ''arguments'' = Some text"
    using assms(3,4,5) by (simp add: shallowParams_def)
  moreover have "\<not> sensitive_key ''arguments''" by code_simp
  ultimately show ?thesis using assms(2) by (simp add: ExtractEffect_def RedactSecrets_def)
qed

definition login_body :: string where
  "login_body = ''{'' @ json_quoted ''method'' @ '':'' @ json_quoted ''tools/call'' @ '','' @
     json_quoted ''params'' @ '':{'' @ json_quoted ''name'' @ '':'' @ json_quoted ''login'' @ '','' @
     json_quoted ''arguments'' @ '':{'' @ json_quoted ''password'' @ '':'' @ json_quoted ''hunter2'' @ ''}}}''"

theorem nested_arguments_recorded_verbatim_witness:
  "\<exists>eff st. ExtractEffect (fst (ParseRequest ''alice'' ''acme'' login_body))
       \<lparr>es_ResponseStatus = 200, es_RPCError = False, es_NoOpSignal = False\<rparr> (Some RedactSecrets) = (Some eff, st) \<and>
     eff_ClaimedArgs eff ''arguments'' = Some (''{'' @ json_quoted ''password'' @ '':'' @ json_quoted ''hunter2'' @ ''}'')"
proof -
  define p where "p = fst (ParseRequest ''alice'' ''acme'' login_body)"
  define obj where "obj = ''{'' @ json_quoted ''password'' @ '':'' @ json_quoted ''hunter2'' @ ''}''"
  have "snd (ParseRequest ''alice'' ''acme'' login_body) = None" by code_simp
  then have p: "ParseRequest ''alice'' ''acme'' login_body = (p, None)" by (simp add: p_def prod_eq_iff)
  have tool: "pr_IsToolCall p" "tcl_Params (pr_Call p) \<noteq> ''''" unfolding p_def by code_simp+
  have "map_option (\<lambda>ms. map_of (rev ms) ''arguments'') (struct_members (tcl_Params (pr_Call p))) =
      Some (Some (obj, JObject [(''password'', json_quoted ''hunter2'', JString ''hunter2'')]))"
    unfolding p_def obj_def by code_simp
  then obtain ms where ms: "struct_members (tcl_Params (pr_Call p)) = Some ms"
    "map_of (rev ms) ''arguments'' = Some (obj, JObject [(''password'', json_quoted ''hunter2'', JString ''hunter2'')])"
    by blast
  have "hd obj = CHR 0x7B" by (simp add: obj_def)
  from nested_arguments_recorded_verbatim [OF p tool(1) ms(1) tool(2) ms(2) this]
  show ?thesis unfolding p_def obj_def .
qed


text \<open>
  The advertised retry delay is never too early and never a second too late: it is at least one
  second, covers the verdict's delay, and one second less would not, unless it is the minimum of one.
\<close>

theorem retry_after_header_bounds:
  "1 \<le> retryAfterSeconds d \<and> d \<le> retryAfterSeconds d * second \<and>
   (retryAfterSeconds d = 1 \<or> (retryAfterSeconds d - 1) * second < d)"
proof -
  define q where "q = (- d) div second"
  have "q * second \<le> - d" "- d < (q + 1) * second"
    unfolding q_def second_def by (simp_all add: div_times_less_eq_dividend algebra_simps)
  then show ?thesis by (auto simp: retryAfterSeconds_def q_def [symmetric] second_def algebra_simps)
qed

section \<open>Invariants of a handler's state\<close>

text \<open>
  What every port preserves, serving a request preserves. Recording an entry is one step here: a
  property may relate the audit log to what the sinks did with its entries.
\<close>

locale invariant_ports =
  fixes h :: "'s Handler" and I :: "'s \<Rightarrow> bool"
  assumes inv_record: "I s \<Longrightarrow> I (RecordWithEffect (h_recorder h) i t tool d reason tr lat now u eff st src s)"
    and inv_upstream: "I s \<Longrightarrow> I (snd (h_upstream h q s))"
    and inv_now: "I s \<Longrightarrow> I (snd (h_now h s))"
    and inv_authenticate: "I s \<Longrightarrow> I (snd (h_authenticate h r s))"
    and inv_budget: "I s \<Longrightarrow> I (snd (h_budgetCheck h i t tool now s))"
    and inv_block: "h_autoBlock h = Some check \<Longrightarrow> I s \<Longrightarrow> I (snd (check i t now s))"
    and inv_approval: "h_approval h = Some port \<Longrightarrow> I s \<Longrightarrow> I (snd (port t i tool meth u ps s))"
    and inv_job: "h_jobBudget h = Some jcheck \<Longrightarrow> I s \<Longrightarrow> I (snd (jcheck t i u now s))"
    and inv_cost: "h_costBudget h = Some ccheck \<Longrightarrow> I s \<Longrightarrow> I (snd (ccheck t i u tool now s))"
    and inv_metrics: "h_metrics h = Some observe \<Longrightarrow> I s \<Longrightarrow> I (observe d dur s)"
begin

lemma inv_finish: "I s \<Longrightarrow> I (finish h r i t tool d reason u start eff st src s)"
proof (cases "h_metrics h")
  case None
  then show "I s \<Longrightarrow> ?thesis"
    by (simp add: finish_def case_prod_beta inv_record inv_now)
next
  case (Some observe)
  then show "I s \<Longrightarrow> ?thesis"
    by (simp add: finish_def case_prod_beta inv_record inv_now inv_metrics [OF Some])
qed

lemma inv_refuse: "I s \<Longrightarrow> I (snd (refuse h r g d reason st m s))"
  by (simp add: refuse_def inv_finish)

lemma inv_gate_cost: "I s \<Longrightarrow> I (snd (gate_cost h r g reason grant s))"
proof (cases "h_costBudget h")
  case (Some check)
  then show "I s \<Longrightarrow> ?thesis"
    by (simp add: gate_cost_def case_prod_beta inv_refuse inv_cost [OF Some])
qed (simp add: gate_cost_def)

lemma inv_gate_job: "I s \<Longrightarrow> I (snd (gate_job h r g reason grant s))"
proof (cases "h_jobBudget h")
  case (Some check)
  then show "I s \<Longrightarrow> ?thesis"
    by (simp add: gate_job_def case_prod_beta inv_refuse inv_gate_cost inv_job [OF Some])
qed (simp add: gate_job_def inv_gate_cost)

lemma inv_gate_budget: "I s \<Longrightarrow> I (snd (gate_budget h r g reason grant s))"
  by (simp add: gate_budget_def case_prod_beta refuse_def inv_finish inv_gate_job inv_budget)

lemma inv_needs_approval:
  assumes "I s" and port: "h_approval h = Some port" and outcome: "vd_Outcome (gc_verdict g) = OutcomeNeedsApproval"
  shows "I (snd (gate_policy h r g s))"
proof -
  let ?call = "pr_Call (gc_parsed g)"
  let ?res = "port (gc_tenant g) (gc_identity g) (gc_auditTool g) (pr_Method (gc_parsed g))
    (tcl_SessionID ?call) (RedactSecrets (shallowParams (tcl_Params ?call))) s"
  have "I (snd ?res)"
    by (rule inv_approval [OF port \<open>I s\<close>])
  then show ?thesis
    by (cases "fst ?res") (simp_all add: gate_policy_def outcome port case_prod_beta inv_refuse inv_gate_budget)
qed

lemma inv_gate_policy: "I s \<Longrightarrow> I (snd (gate_policy h r g s))"
proof (cases "vd_Outcome (gc_verdict g)")
  case OutcomeNeedsApproval
  then show "I s \<Longrightarrow> ?thesis"
    by (cases "h_approval h") (simp_all add: inv_needs_approval, simp add: gate_policy_def inv_refuse)
qed (simp_all add: gate_policy_def inv_refuse inv_gate_budget)

lemma inv_gate_parsed: "I s \<Longrightarrow> I (snd (gate_parsed h r i t start parsed s))"
  by (simp add: gate_parsed_def inv_gate_policy)

lemma inv_gate:
  assumes "I s"
  shows "I (snd (gate h r s))"
proof -
  let ?auth = "h_authenticate h r (snd (h_now h s))"
  have auth: "I (snd ?auth)"
    by (intro inv_authenticate inv_now assms)
  show ?thesis
  proof (cases "fst ?auth")
    case (Inl e)
    then show ?thesis
      using auth by (simp add: gate_def case_prod_beta)
  next
    case (Inr p)
    obtain i t where p: "p = (i, t)"
      by (cases p)
    obtain parsed err where pr: "ParseRequest i t (rq_Body r) = (parsed, err)"
      by (cases "ParseRequest i t (rq_Body r)")
    show ?thesis
    proof (cases "h_autoBlock h")
      case None
      then show ?thesis
        using auth by (cases err) (simp_all add: gate_def case_prod_beta Inr p pr inv_finish inv_gate_parsed)
    next
      case (Some check)
      then show ?thesis
        using auth by (cases err)
          (simp_all add: gate_def case_prod_beta Inr p pr inv_finish inv_gate_parsed inv_block [OF Some])
    qed
  qed
qed


lemma inv_forward: "I s \<Longrightarrow> I (snd (forward h r c s))"
  by (simp add: forward_def forward_error_def forward_response_def case_prod_beta inv_finish inv_upstream
      split: upstream_outcome.split)


lemma serve_invariant: "I s \<Longrightarrow> I (snd (ServeHTTP h r s))"
  using inv_gate [of s r] by (auto simp: ServeHTTP_def split: prod.split gate_result.split intro!: inv_forward)

end

end
