(* ===== verification/Grpc_Proxy.thy ===== *)
theory Grpc_Proxy
  imports Proxy
begin

text \<open>
  The gRPC transport, \<open>internal/features/grpcproxy/adapter\<close>: identity from metadata (\<open>identity.go\<close>), the
  passthrough codec (\<open>codec.go\<close>), and the handler that runs the gates once at the start of an RPC and then relays
  messages both ways (\<open>proxy.go\<close>).

  The two pumps of a relay and the loop that waits for them run concurrently. A relay is a machine whose
  actions are the single steps of the two goroutines and of the waiting loop, each carrying what the gRPC library
  answered; a run is any sequence of actions. The library itself (streams, metadata transport) is not modelled:
  its answers are arbitrary.
\<close>

section \<open>Identity from metadata\<close>

text \<open>The library lower-cases metadata keys, and the keys used here are lower case.\<close>

type_synonym MD = "string \<Rightarrow> string list"

definition metaIdentity :: string where
  "metaIdentity = ''x-wardline-identity''"

definition metaTenant :: string where
  "metaTenant = ''x-wardline-tenant''"

definition metaAuth :: string where
  "metaAuth = ''authorization''"

definition grpcMethod :: string where
  "grpcMethod = ''grpc''"

definition first :: "MD \<Rightarrow> string \<Rightarrow> string" where
  "first md key = (case md key of v # _ \<Rightarrow> v | [] \<Rightarrow> '''')"

definition MetadataIdentity_Resolve :: "MD \<Rightarrow> string \<times> string" where
  "MetadataIdentity_Resolve md =
     (let t = first md metaTenant;
          t = (if t = '''' then tenant_Default else t)
      in (first md metaIdentity, t))"

definition bearerMetadataIdentity_Resolve ::
  "(string \<Rightarrow> 's \<Rightarrow> ('e + string \<times> string) \<times> 's) \<Rightarrow> MD \<Rightarrow> 's \<Rightarrow> ('e identity_error + string \<times> string) \<times> 's" where
  "bearerMetadataIdentity_Resolve authenticate md s =
     (case CutPrefix ''Bearer '' (first md metaAuth) of
        None \<Rightarrow> (Inl MissingBearerToken, s)
      | Some token \<Rightarrow>
          let (res, s) = authenticate token s
          in (case res of Inl e \<Rightarrow> Inl (AuthenticatorError e) | Inr it \<Rightarrow> Inr it, s))"

section \<open>The relay\<close>

datatype stream_error = EOF | StreamError string

fun stream_error_text :: "stream_error \<Rightarrow> string" where
  "stream_error_text EOF = ''EOF''"
| "stream_error_text (StreamError msg) = msg"

datatype grpc_code = Internal | Unauthenticated | PermissionDenied | ResourceExhausted | Unavailable

datatype grpc_result =
    RPC_OK
  | RPC_Status grpc_code string
  | RPC_Error stream_error \<comment> \<open>the upstream's status, returned as it is\<close>

text \<open>Where the goroutine of \<open>forwardServerToClient\<close> is in its loop, with the frame it holds.\<close>

datatype up_pump = UpRecv | UpSend string | UpDone

text \<open>Where the goroutine of \<open>forwardClientToServer\<close> is in its loop.\<close>

datatype down_pump = DownRecv | DownHeader string | DownSendHeader string MD | DownSend string | DownDone

datatype caller_event = CallerHeader MD | CallerMessage string | CallerTrailer

record relay =
  rl_up :: up_pump
  rl_s2c :: "stream_error option"
  rl_fromCaller :: "string list"
  rl_toUpstream :: "string list"
  rl_down :: down_pump
  rl_headerSent :: bool
  rl_c2s :: "stream_error option"
  rl_fromUpstream :: "string list"
  rl_toCaller :: "caller_event list"
  rl_i :: nat
  rl_halfClosed :: bool
  rl_cancelled :: bool
  rl_outcome :: "((string \<times> string) option \<times> grpc_result) option"

definition relay_start :: relay where
  "relay_start = \<lparr>rl_up = UpRecv, rl_s2c = None, rl_fromCaller = [], rl_toUpstream = [], rl_down = DownRecv,
     rl_headerSent = False, rl_c2s = None, rl_fromUpstream = [], rl_toCaller = [], rl_i = 0, rl_halfClosed = False,
     rl_cancelled = False, rl_outcome = None\<rparr>"

datatype relay_action =
    CallerRecv "stream_error + string"
  | UpstreamSend "stream_error option"
  | UpstreamRecv "stream_error + string"
  | UpstreamHeader "stream_error + MD"
  | CallerSendHeader "stream_error option"
  | CallerSend "stream_error option"
  | SelectS2C
  | SelectC2S
  | LoopEnd

text \<open>One iteration step of the goroutine that \<open>forwardServerToClient\<close> starts.\<close>

fun forwardServerToClient :: "relay_action \<Rightarrow> relay \<Rightarrow> relay option" where
  "forwardServerToClient (CallerRecv res) r =
     (if rl_up r \<noteq> UpRecv then None
      else case res of
             Inl err \<Rightarrow> Some (r\<lparr>rl_s2c := Some err, rl_up := UpDone\<rparr>)
           | Inr f \<Rightarrow> Some (r\<lparr>rl_fromCaller := rl_fromCaller r @ [f], rl_up := UpSend f\<rparr>))"
| "forwardServerToClient (UpstreamSend res) r =
     (case rl_up r of
        UpSend f \<Rightarrow>
          (case res of
             Some err \<Rightarrow> Some (r\<lparr>rl_s2c := Some err, rl_up := UpDone\<rparr>)
           | None \<Rightarrow> Some (r\<lparr>rl_toUpstream := rl_toUpstream r @ [f], rl_up := UpRecv\<rparr>))
      | _ \<Rightarrow> None)"
| "forwardServerToClient _ r = None"

text \<open>One iteration step of the goroutine that \<open>forwardClientToServer\<close> starts.\<close>

fun forwardClientToServer :: "relay_action \<Rightarrow> relay \<Rightarrow> relay option" where
  "forwardClientToServer (UpstreamRecv res) r =
     (if rl_down r \<noteq> DownRecv then None
      else case res of
             Inl err \<Rightarrow> Some (r\<lparr>rl_c2s := Some err, rl_down := DownDone\<rparr>)
           | Inr f \<Rightarrow>
               let r = r\<lparr>rl_fromUpstream := rl_fromUpstream r @ [f]\<rparr>
               in if rl_headerSent r then Some (r\<lparr>rl_down := DownSend f\<rparr>)
                  else Some (r\<lparr>rl_headerSent := True, rl_down := DownHeader f\<rparr>))"
| "forwardClientToServer (UpstreamHeader res) r =
     (case rl_down r of
        DownHeader f \<Rightarrow>
          (case res of
             Inl err \<Rightarrow> Some (r\<lparr>rl_c2s := Some err, rl_down := DownDone\<rparr>)
           | Inr h \<Rightarrow> Some (r\<lparr>rl_down := DownSendHeader f h\<rparr>))
      | _ \<Rightarrow> None)"
| "forwardClientToServer (CallerSendHeader res) r =
     (case rl_down r of
        DownSendHeader f h \<Rightarrow>
          (case res of
             Some err \<Rightarrow> Some (r\<lparr>rl_c2s := Some err, rl_down := DownDone\<rparr>)
           | None \<Rightarrow> Some (r\<lparr>rl_toCaller := rl_toCaller r @ [CallerHeader h], rl_down := DownSend f\<rparr>))
      | _ \<Rightarrow> None)"
| "forwardClientToServer (CallerSend res) r =
     (case rl_down r of
        DownSend f \<Rightarrow>
          (case res of
             Some err \<Rightarrow> Some (r\<lparr>rl_c2s := Some err, rl_down := DownDone\<rparr>)
           | None \<Rightarrow> Some (r\<lparr>rl_toCaller := rl_toCaller r @ [CallerMessage f], rl_down := DownRecv\<rparr>))
      | _ \<Rightarrow> None)"
| "forwardClientToServer _ r = None"

text \<open>
  One iteration of the loop of \<open>forward\<close>: it receives from one of the channels that has a result, or ends after
  two iterations. The outcome is what it records, if anything, and what it returns.
\<close>

definition relay_select :: "relay_action \<Rightarrow> relay \<Rightarrow> relay option" where
  "relay_select a r =
     (if rl_outcome r \<noteq> None then None
      else if rl_i r < 2 then
        (case a of
           SelectS2C \<Rightarrow>
             (case rl_s2c r of
                None \<Rightarrow> None
              | Some EOF \<Rightarrow> Some (r\<lparr>rl_s2c := None, rl_halfClosed := True, rl_i := rl_i r + 1\<rparr>)
              | Some err \<Rightarrow>
                  Some (r\<lparr>rl_s2c := None, rl_cancelled := True,
                    rl_outcome := Some (Some (''error'', stream_error_text err),
                      RPC_Status Internal (''stream relay failed: '' @ stream_error_text err))\<rparr>))
         | SelectC2S \<Rightarrow>
             (case rl_c2s r of
                None \<Rightarrow> None
              | Some EOF \<Rightarrow>
                  Some (r\<lparr>rl_c2s := None, rl_toCaller := rl_toCaller r @ [CallerTrailer],
                    rl_outcome := Some (Some (''allow'', ''''), RPC_OK)\<rparr>)
              | Some err \<Rightarrow>
                  Some (r\<lparr>rl_c2s := None, rl_toCaller := rl_toCaller r @ [CallerTrailer],
                    rl_outcome := Some (Some (''error'', stream_error_text err), RPC_Error err)\<rparr>))
         | _ \<Rightarrow> None)
      else if a = LoopEnd
      then Some (r\<lparr>rl_outcome := Some (None, RPC_Status Internal ''stream relay ended unexpectedly'')\<rparr>)
      else None)"

definition relay_step :: "relay_action \<Rightarrow> relay \<Rightarrow> relay option" where
  "relay_step a r =
     (case a of
        CallerRecv _ \<Rightarrow> forwardServerToClient a r
      | UpstreamSend _ \<Rightarrow> forwardServerToClient a r
      | SelectS2C \<Rightarrow> relay_select a r
      | SelectC2S \<Rightarrow> relay_select a r
      | LoopEnd \<Rightarrow> relay_select a r
      | _ \<Rightarrow> forwardClientToServer a r)"

text \<open>A run: actions that are not enabled when their turn comes are skipped.\<close>

fun relay_run :: "relay_action list \<Rightarrow> relay \<Rightarrow> relay" where
  "relay_run [] r = r"
| "relay_run (a # as) r = relay_run as (case relay_step a r of None \<Rightarrow> r | Some r' \<Rightarrow> r')"

section \<open>The handler\<close>

record server_stream =
  st_method :: "string option"
  st_md :: MD
  st_remoteAddr :: string

record 's grpc_Proxy =
  gp_decider :: "'s Decider"
  gp_budget :: "string \<Rightarrow> string \<Rightarrow> string \<Rightarrow> go_time \<Rightarrow> 's \<Rightarrow> budget_Verdict \<times> 's"
  gp_autoBlock :: "(string \<Rightarrow> string \<Rightarrow> go_time \<Rightarrow> 's \<Rightarrow> BlockVerdict \<times> 's) option"
  gp_recorder :: "'s Recorder"
  gp_identity :: "MD \<Rightarrow> 's \<Rightarrow> (unit + string \<times> string) \<times> 's"
  gp_NewStream :: "string \<Rightarrow> MD \<Rightarrow> 's \<Rightarrow> string option \<times> 's"
  gp_relay :: "string \<Rightarrow> 's \<Rightarrow> relay_action list \<times> 's"
  gp_now :: "'s \<Rightarrow> go_time \<times> 's"

definition grpc_record ::
  "'s grpc_Proxy \<Rightarrow> string \<Rightarrow> string \<Rightarrow> string \<Rightarrow> string \<Rightarrow> string \<Rightarrow> go_time \<Rightarrow> 's \<Rightarrow> 's" where
  "grpc_record p identity tenant tool decision reason start s =
     (let (now, s) = gp_now p s
      in Recorder_Record (gp_recorder p) identity tenant tool decision reason '''' (time_sub now start) start s)"

definition outMD :: "MD \<Rightarrow> MD" where
  "outMD md = md(metaAuth := [], metaIdentity := [], metaTenant := [])"

text \<open>
  \<open>None\<close> as a result: the relay has not ended. While it runs, other requests may change the state; \<open>gp_relay\<close>
  answers the actions of the relay and that state.
\<close>

definition grpc_forward ::
  "'s grpc_Proxy \<Rightarrow> string \<Rightarrow> MD \<Rightarrow> string \<Rightarrow> string \<Rightarrow> go_time \<Rightarrow> 's \<Rightarrow> grpc_result option \<times> 's" where
  "grpc_forward p fullMethod md identity tenant start s =
     (let (err, s) = gp_NewStream p fullMethod (outMD md) s
      in case err of
           Some e \<Rightarrow> (Some (RPC_Status Unavailable ''upstream unreachable''),
                      grpc_record p identity tenant fullMethod ''error'' e start s)
         | None \<Rightarrow>
             let (acts, s) = gp_relay p fullMethod s
             in case rl_outcome (relay_run acts relay_start) of
                  None \<Rightarrow> (None, s)
                | Some (None, res) \<Rightarrow> (Some res, s)
                | Some (Some (decision, reason), res) \<Rightarrow>
                    (Some res, grpc_record p identity tenant fullMethod decision reason start s))"

definition grpc_call :: "string \<Rightarrow> string \<Rightarrow> string \<Rightarrow> string \<Rightarrow> go_time \<Rightarrow> ToolCall" where
  "grpc_call identity tenant fullMethod remote start =
     zero_ToolCall\<lparr>tcl_Identity := identity, tcl_Tenant := tenant, tcl_Tool := fullMethod, tcl_Method := grpcMethod,
       tcl_Timestamp := start, tcl_RemoteAddr := remote\<rparr>"

definition grpc_policy ::
  "'s grpc_Proxy \<Rightarrow> server_stream \<Rightarrow> string \<Rightarrow> string \<Rightarrow> string \<Rightarrow> go_time \<Rightarrow> 's \<Rightarrow> grpc_result option \<times> 's" where
  "grpc_policy p st fullMethod identity tenant start s =
     (let verdict = Decide (gp_decider p) (grpc_call identity tenant fullMethod (st_remoteAddr st) start) s
      in if \<not> vd_Allow verdict
         then (Some (RPC_Status PermissionDenied ''denied by policy''),
               grpc_record p identity tenant fullMethod ''deny'' (vd_Reason verdict) start s)
         else let (bv, s) = gp_budget p identity tenant fullMethod start s
              in if \<not> bv_Allowed bv
                 then (Some (RPC_Status ResourceExhausted ''throttled by budget''),
                       grpc_record p identity tenant fullMethod ''throttled'' (bv_Reason bv) start s)
                 else grpc_forward p fullMethod (st_md st) identity tenant start s)"

definition grpc_Handler :: "'s grpc_Proxy \<Rightarrow> server_stream \<Rightarrow> 's \<Rightarrow> grpc_result option \<times> 's" where
  "grpc_Handler p st s =
     (let (start, s) = gp_now p s
      in case st_method st of
           None \<Rightarrow> (Some (RPC_Status Internal ''cannot determine method''), s)
         | Some fullMethod \<Rightarrow>
             let (auth, s) = gp_identity p (st_md st) s
             in case auth of
                  Inl _ \<Rightarrow> (Some (RPC_Status Unauthenticated ''unauthenticated''), s)
                | Inr (identity, tenant) \<Rightarrow>
                    (case gp_autoBlock p of
                       None \<Rightarrow> grpc_policy p st fullMethod identity tenant start s
                     | Some check \<Rightarrow>
                         let (v, s) = check identity tenant start s
                         in if \<not> bk_Allowed v
                            then (Some (RPC_Status PermissionDenied ''blocked due to anomalous behavior''),
                                  grpc_record p identity tenant fullMethod ''blocked'' (bk_Reason v) start s)
                            else grpc_policy p st fullMethod identity tenant start s))"

section \<open>Steps of the pumps\<close>

text \<open>
  The library reports a failed send or a missing header with a status; the end-of-stream value is what a
  receive answers.
\<close>

definition reports_status :: "relay_action \<Rightarrow> bool" where
  "reports_status a \<longleftrightarrow> a \<notin> {UpstreamHeader (Inl EOF), CallerSendHeader (Some EOF), CallerSend (Some EOF)}"

text \<open>The steps of each goroutine, one case per place it can leave.\<close>

lemma up_step_cases:
  assumes "forwardServerToClient a r = Some r'"
  obtains (failed) err where "r' = r\<lparr>rl_s2c := Some err, rl_up := UpDone\<rparr>" "rl_up r \<noteq> UpDone"
  | (received) f where "rl_up r = UpRecv" "r' = r\<lparr>rl_fromCaller := rl_fromCaller r @ [f], rl_up := UpSend f\<rparr>"
  | (sent) f where "rl_up r = UpSend f" "r' = r\<lparr>rl_toUpstream := rl_toUpstream r @ [f], rl_up := UpRecv\<rparr>"
  using assms by (cases "(a, r)" rule: forwardServerToClient.cases)
    (auto split: sum.splits option.splits up_pump.splits if_splits)

lemma down_step_cases:
  assumes step: "forwardClientToServer a r = Some r'"
  obtains (failed) err where "r' = r\<lparr>rl_c2s := Some err, rl_down := DownDone\<rparr>" "rl_down r \<noteq> DownDone"
      "err = EOF \<Longrightarrow> rl_down r = DownRecv \<or> \<not> reports_status a"
  | (received) f where "rl_down r = DownRecv" "rl_headerSent r"
      "r' = r\<lparr>rl_fromUpstream := rl_fromUpstream r @ [f], rl_down := DownSend f\<rparr>"
  | (starting) f where "rl_down r = DownRecv" "\<not> rl_headerSent r"
      "r' = r\<lparr>rl_fromUpstream := rl_fromUpstream r @ [f], rl_headerSent := True, rl_down := DownHeader f\<rparr>"
  | (header) f h where "rl_down r = DownHeader f" "r' = r\<lparr>rl_down := DownSendHeader f h\<rparr>"
  | (opened) f h where "rl_down r = DownSendHeader f h"
      "r' = r\<lparr>rl_toCaller := rl_toCaller r @ [CallerHeader h], rl_down := DownSend f\<rparr>"
  | (sent) f where "rl_down r = DownSend f"
      "r' = r\<lparr>rl_toCaller := rl_toCaller r @ [CallerMessage f], rl_down := DownRecv\<rparr>"
proof (cases a)
  case (UpstreamRecv res)
  then have down: "rl_down r = DownRecv"
    using step by (simp split: if_splits)
  show thesis
  proof (cases res)
    case (Inl err)
    then have "r' = r\<lparr>rl_c2s := Some err, rl_down := DownDone\<rparr>"
      using step UpstreamRecv down by simp
    then show thesis
      using down failed by simp
  next
    case (Inr f)
    show thesis
    proof (cases "rl_headerSent r")
      case True
      then have "r' = r\<lparr>rl_fromUpstream := rl_fromUpstream r @ [f], rl_down := DownSend f\<rparr>"
        using step UpstreamRecv down Inr by simp
      then show thesis
        using down True received by blast
    next
      case False
      then have "r' = r\<lparr>rl_fromUpstream := rl_fromUpstream r @ [f], rl_headerSent := True, rl_down := DownHeader f\<rparr>"
        using step UpstreamRecv down Inr by simp
      then show thesis
        using down False starting by blast
    qed
  qed
next
  case (UpstreamHeader res)
  then obtain f where "rl_down r = DownHeader f"
    using step by (cases "rl_down r") simp_all
  then show thesis
    using step UpstreamHeader failed [of "projl res"] header [of f "projr res"]
    by (cases res) (simp_all add: reports_status_def)
next
  case (CallerSendHeader res)
  then obtain f h where "rl_down r = DownSendHeader f h"
    using step by (cases "rl_down r") simp_all
  then show thesis
    using step CallerSendHeader failed [of "the res"] opened [of f h] by (cases res) (simp_all add: reports_status_def)
next
  case (CallerSend res)
  then obtain f where "rl_down r = DownSend f"
    using step by (cases "rl_down r") simp_all
  then show thesis
    using step CallerSend failed [of "the res"] sent [of f] by (cases res) (simp_all add: reports_status_def)
next
  case (CallerRecv x)
  with step show thesis by simp
next
  case (UpstreamSend x)
  with step show thesis by simp
next
  case SelectS2C
  with step show thesis by simp
next
  case SelectC2S
  with step show thesis by simp
next
  case LoopEnd
  with step show thesis by simp
qed

section \<open>Invariant of a relay\<close>

text \<open>What a pump holds, and what it lost when it stopped on a failed send: at most one frame.\<close>

fun up_held :: "up_pump \<Rightarrow> string list \<Rightarrow> bool" where
  "up_held UpRecv fs \<longleftrightarrow> fs = []"
| "up_held (UpSend f) fs \<longleftrightarrow> fs = [f]"
| "up_held UpDone fs \<longleftrightarrow> length fs \<le> 1"

fun down_held :: "down_pump \<Rightarrow> string list \<Rightarrow> bool" where
  "down_held DownRecv fs \<longleftrightarrow> fs = []"
| "down_held (DownHeader f) fs \<longleftrightarrow> fs = [f]"
| "down_held (DownSendHeader f h) fs \<longleftrightarrow> fs = [f]"
| "down_held (DownSend f) fs \<longleftrightarrow> fs = [f]"
| "down_held DownDone fs \<longleftrightarrow> length fs \<le> 1"

definition messages :: "caller_event list \<Rightarrow> string list" where
  "messages evs = List.map_filter (\<lambda>ev. case ev of CallerMessage f \<Rightarrow> Some f | _ \<Rightarrow> None) evs"

lemma messages_append [simp]:
  "messages [] = []" "messages (evs @ [CallerMessage f]) = messages evs @ [f]"
  "messages (evs @ [CallerHeader h]) = messages evs" "messages (evs @ [CallerTrailer]) = messages evs"
  by (simp_all add: messages_def List.map_filter_def)

definition up_inv :: "relay \<Rightarrow> bool" where
  "up_inv r \<longleftrightarrow>
     (\<exists>held. rl_fromCaller r = rl_toUpstream r @ held \<and> up_held (rl_up r) held) \<and>
     (rl_up r = UpDone \<or> rl_s2c r = None \<and> rl_i r = 0) \<and>
     (rl_i r = 0 \<or> rl_i r = 1 \<and> rl_s2c r = None) \<and>
     (rl_up r = UpDone \<and> rl_outcome r = None \<and> rl_i r = 0 \<longrightarrow> rl_s2c r \<noteq> None)"

definition down_inv :: "relay \<Rightarrow> bool" where
  "down_inv r \<longleftrightarrow>
     (\<exists>held. rl_fromUpstream r = messages (rl_toCaller r) @ held \<and> down_held (rl_down r) held) \<and>
     (rl_down r = DownDone \<or> rl_c2s r = None) \<and>
     (rl_down r = DownDone \<and> rl_outcome r = None \<longrightarrow> rl_c2s r \<noteq> None)"

definition outcome_inv :: "((string \<times> string) option \<times> grpc_result) option \<Rightarrow> bool" where
  "outcome_inv oc \<longleftrightarrow>
     (case oc of
        None \<Rightarrow> True
      | Some (None, res) \<Rightarrow> False
      | Some (Some (d, reason), res) \<Rightarrow> d \<in> {''allow'', ''error''} \<and> (d = ''allow'' \<longleftrightarrow> res = RPC_OK))"

definition relay_inv :: "relay \<Rightarrow> bool" where
  "relay_inv r \<longleftrightarrow> up_inv r \<and> down_inv r \<and> outcome_inv (rl_outcome r)"

lemma relay_inv_start: "relay_inv relay_start"
  by (simp add: relay_inv_def up_inv_def down_inv_def outcome_inv_def relay_start_def)

lemma relay_inv_up: "relay_inv r \<Longrightarrow> forwardServerToClient a r = Some r' \<Longrightarrow> relay_inv r'"
  by (erule up_step_cases) (cases "rl_up r"; auto simp: relay_inv_def up_inv_def down_inv_def)+

lemma relay_inv_down: "relay_inv r \<Longrightarrow> forwardClientToServer a r = Some r' \<Longrightarrow> relay_inv r'"
  by (erule down_step_cases) (cases "rl_down r"; auto simp: relay_inv_def up_inv_def down_inv_def)+

lemma select_select: "rl_i r < 2 \<Longrightarrow> a \<notin> {SelectS2C, SelectC2S} \<Longrightarrow> relay_select a r = None"
  by (cases a) (simp_all add: relay_select_def)

lemma select_cases:
  assumes step: "relay_select a r = Some r'"
  obtains (half_close) "rl_s2c r = Some EOF" "rl_outcome r = None" "a = SelectS2C"
      "r' = r\<lparr>rl_s2c := None, rl_halfClosed := True, rl_i := rl_i r + 1\<rparr>"
  | (caller_failed) msg where "rl_s2c r = Some (StreamError msg)" "rl_outcome r = None"
      "r' = r\<lparr>rl_s2c := None, rl_cancelled := True, rl_outcome :=
        Some (Some (''error'', msg), RPC_Status Internal (''stream relay failed: '' @ msg))\<rparr>"
  | (completed) err where "rl_c2s r = Some err" "rl_outcome r = None"
      "r' = r\<lparr>rl_c2s := None, rl_toCaller := rl_toCaller r @ [CallerTrailer], rl_outcome :=
        Some (if err = EOF then (Some (''allow'', ''''), RPC_OK)
              else (Some (''error'', stream_error_text err), RPC_Error err))\<rparr>"
  | (unexpected) "\<not> rl_i r < 2"
proof (cases "rl_i r < 2")
  case True
  have oc: "rl_outcome r = None"
    using step by (cases "rl_outcome r") (simp_all add: relay_select_def)
  show thesis
  proof (cases a)
    case SelectS2C
    note * = step [unfolded relay_select_def SelectS2C] True oc
    show thesis
    proof (cases "rl_s2c r")
      case (Some err)
      then show thesis
      proof (cases err)
        case EOF
        show thesis
          by (rule half_close) (use * Some EOF SelectS2C in simp_all)
      next
        case (StreamError msg)
        show thesis
          by (rule caller_failed) (use * Some StreamError in auto)
      qed
    qed (use * in simp)
  next
    case SelectC2S
    note * = step [unfolded relay_select_def SelectC2S] True oc
    show thesis
    proof (cases "rl_c2s r")
      case (Some err)
      show thesis
        by (rule completed [OF Some oc]) (use * Some in \<open>simp split: stream_error.splits\<close>)
    qed (use * in simp)
  qed (use select_select [OF True, of a] step in simp_all)
qed

lemma relay_inv_select: "relay_inv r \<Longrightarrow> relay_select a r = Some r' \<Longrightarrow> relay_inv r'"
  by (erule select_cases) (auto simp: relay_inv_def up_inv_def down_inv_def outcome_inv_def)

lemma relay_step_cases:
  "relay_step a r = Some r' \<Longrightarrow>
     forwardServerToClient a r = Some r' \<or> forwardClientToServer a r = Some r' \<or> relay_select a r = Some r'"
  by (cases a) (simp_all only: relay_step_def relay_action.case simp_thms)

lemma relay_inv_step: "relay_inv r \<Longrightarrow> relay_step a r = Some r' \<Longrightarrow> relay_inv r'"
  by (drule relay_step_cases) (blast intro: relay_inv_up relay_inv_down relay_inv_select)

lemma relay_inv_run: "relay_inv r \<Longrightarrow> relay_inv (relay_run as r)"
  by (induction as arbitrary: r) (auto split: option.split intro: relay_inv_step)

section \<open>What a relay that ends has delivered\<close>

text \<open>What the caller has been sent so far, before the trailer, for each place the response pump can be at.\<close>

definition started :: "caller_event list \<Rightarrow> bool" where
  "started evs \<longleftrightarrow> (\<exists>h fs. evs = CallerHeader h # map CallerMessage fs)"

fun shape :: "down_pump \<Rightarrow> bool \<Rightarrow> caller_event list \<Rightarrow> bool" where
  "shape DownRecv headerSent evs \<longleftrightarrow> (if headerSent then started evs else evs = [])"
| "shape (DownHeader f) headerSent evs \<longleftrightarrow> headerSent \<and> evs = []"
| "shape (DownSendHeader f h) headerSent evs \<longleftrightarrow> headerSent \<and> evs = []"
| "shape (DownSend f) headerSent evs \<longleftrightarrow> headerSent \<and> started evs"
| "shape DownDone headerSent evs \<longleftrightarrow> evs = [] \<or> started evs"

definition caller_inv :: "relay \<Rightarrow> bool" where
  "caller_inv r \<longleftrightarrow>
     (\<exists>evs trailer. rl_toCaller r = evs @ trailer \<and> shape (rl_down r) (rl_headerSent r) evs \<and>
        (trailer = [] \<or> trailer = [CallerTrailer] \<and> rl_down r = DownDone \<and> rl_outcome r \<noteq> None) \<and>
        (\<forall>rec. rl_outcome r = Some (rec, RPC_OK) \<longrightarrow> trailer \<noteq> [])) \<and>
     (rl_c2s r \<noteq> None \<longrightarrow> rl_down r = DownDone) \<and>
     (rl_c2s r = Some EOF \<or> (\<exists>rec. rl_outcome r = Some (rec, RPC_OK)) \<longrightarrow>
        rl_fromUpstream r = messages (rl_toCaller r) \<and> rl_down r = DownDone)"

lemma started_intros [intro]:
  "started [CallerHeader h]" "started evs \<Longrightarrow> started (evs @ [CallerMessage f])"
proof -
  show "started [CallerHeader h]" by (auto simp: started_def intro: exI [of _ "[]"])
next
  assume "started evs"
  then obtain h fs where "evs = CallerHeader h # map CallerMessage fs" by (auto simp: started_def)
  then have "evs @ [CallerMessage f] = CallerHeader h # map CallerMessage (fs @ [f])" by simp
  then show "started (evs @ [CallerMessage f])" unfolding started_def by blast
qed

lemma caller_inv_start: "caller_inv relay_start"
  by (simp add: caller_inv_def relay_start_def)

lemma caller_inv_up: "caller_inv r \<Longrightarrow> forwardServerToClient a r = Some r' \<Longrightarrow> caller_inv r'"
  by (erule up_step_cases) (simp_all add: caller_inv_def)

text \<open>The part of the invariant that does not depend on what has been sent, and the part that does.\<close>

lemma caller_invI:
  assumes "rl_toCaller r = evs" "shape (rl_down r) (rl_headerSent r) evs" "\<And>rec. rl_outcome r \<noteq> Some (rec, RPC_OK)"
    and "rl_c2s r \<noteq> None \<Longrightarrow> rl_down r = DownDone"
    and "rl_c2s r = Some EOF \<Longrightarrow> rl_fromUpstream r = messages (rl_toCaller r) \<and> rl_down r = DownDone"
  shows "caller_inv r"
  unfolding caller_inv_def using assms by (metis append_Nil2)

lemma caller_inv_running:
  assumes "caller_inv r" and "rl_down r \<noteq> DownDone"
  shows "shape (rl_down r) (rl_headerSent r) (rl_toCaller r)" "\<And>rec. rl_outcome r \<noteq> Some (rec, RPC_OK)" "rl_c2s r = None"
  using assms by (auto simp: caller_inv_def)

lemma caller_inv_down:
  assumes inv: "caller_inv r" "relay_inv r" and a: "reports_status a" and step: "forwardClientToServer a r = Some r'"
  shows "caller_inv r'"
proof -
  have run: "rl_down r \<noteq> DownDone"
    using step by (rule down_step_cases) auto
  note r = caller_inv_running [OF inv(1) run]
  from step show ?thesis
  proof (cases rule: down_step_cases)
    case (failed err)
    have "evs = [] \<or> started evs" if "shape d hs evs" for d hs evs
      using that by (cases d) (auto split: if_splits)
    moreover have "rl_fromUpstream r = messages (rl_toCaller r)" if "err = EOF"
      using failed(3) [OF that] a inv(2) by (auto simp: relay_inv_def down_inv_def)
    ultimately show ?thesis
      using failed r by (intro caller_invI [OF refl]) auto
  qed (use r in \<open>auto intro!: caller_invI [OF refl]\<close>)
qed

lemma caller_inv_select:
  assumes inv: "caller_inv r" "relay_inv r" and step: "relay_select a r = Some r'"
  shows "caller_inv r'"
  using step
proof (cases rule: select_cases)
  case (completed err)
  then obtain evs where evs: "rl_toCaller r = evs" "shape DownDone (rl_headerSent r) evs" "rl_down r = DownDone"
    "err = EOF \<Longrightarrow> rl_fromUpstream r = messages evs"
    using inv(1) by (auto simp: caller_inv_def)
  then show ?thesis
    using completed unfolding caller_inv_def by (intro conjI exI [of _ evs] exI [of _ "[CallerTrailer]"]) auto
next
  case unexpected
  then show ?thesis using inv(2) by (auto simp: relay_inv_def up_inv_def)
qed (use inv in \<open>auto simp: caller_inv_def\<close>)

lemma caller_inv_run:
  "caller_inv r \<Longrightarrow> relay_inv r \<Longrightarrow> list_all reports_status as \<Longrightarrow> caller_inv (relay_run as r)"
proof (induction as arbitrary: r)
  case (Cons a as)
  have "caller_inv r' \<and> relay_inv r'" if "relay_step a r = Some r'" for r'
    using relay_step_cases [OF that] Cons.prems relay_inv_step [OF _ that]
    by (auto intro: caller_inv_up caller_inv_down caller_inv_select)
  then show ?case
    using Cons by (auto split: option.split)
qed simp

section \<open>Properties of the relay\<close>

lemma relay_frames:
  "\<exists>held. length held \<le> 1 \<and> rl_fromCaller (relay_run as relay_start) = rl_toUpstream (relay_run as relay_start) @ held"
  "\<exists>held. length held \<le> 1 \<and>
     rl_fromUpstream (relay_run as relay_start) = messages (rl_toCaller (relay_run as relay_start)) @ held"
proof -
  let ?r = "relay_run as relay_start"
  have inv: "up_inv ?r" "down_inv ?r"
    using relay_inv_run [OF relay_inv_start] by (simp_all add: relay_inv_def)
  have "length held \<le> 1" if "up_held p held" for p held
    using that by (cases p) auto
  then show "\<exists>held. length held \<le> 1 \<and> rl_fromCaller ?r = rl_toUpstream ?r @ held"
    using inv(1) unfolding up_inv_def by blast
  have "length held \<le> 1" if "down_held p held" for p held
    using that by (cases p) auto
  then show "\<exists>held. length held \<le> 1 \<and> rl_fromUpstream ?r = messages (rl_toCaller ?r) @ held"
    using inv(2) unfolding down_inv_def by blast
qed

lemma messages_started: "messages (CallerHeader h # map CallerMessage fs) = fs"
  by (induction fs) (simp_all add: messages_def List.map_filter_def)

lemma relay_complete:
  assumes "list_all reports_status as" and "rl_outcome (relay_run as relay_start) = Some (rec, RPC_OK)"
  shows "(\<exists>h. rl_toCaller (relay_run as relay_start) =
            CallerHeader h # map CallerMessage (rl_fromUpstream (relay_run as relay_start)) @ [CallerTrailer]) \<or>
         rl_fromUpstream (relay_run as relay_start) = [] \<and> rl_toCaller (relay_run as relay_start) = [CallerTrailer]"
proof -
  let ?r = "relay_run as relay_start"
  have "caller_inv ?r"
    by (rule caller_inv_run [OF caller_inv_start relay_inv_start assms(1)])
  then obtain evs where evs: "rl_toCaller ?r = evs @ [CallerTrailer]" "evs = [] \<or> started evs"
    and all: "rl_fromUpstream ?r = messages (rl_toCaller ?r)"
    using assms(2) by (auto simp: caller_inv_def)
  then show ?thesis
    by (auto simp: started_def messages_started)
qed

section \<open>The codec and the buffer it reuses\<close>

text \<open>
  A \<open>rawFrame\<close> holds a byte slice. \<open>rawCodec.Marshal\<close> hands out that slice itself, and \<open>rawCodec.Unmarshal\<close>
  appends to its empty prefix, which overwrites the same backing array when it is large enough. Each pump
  uses one frame for all its messages. Backing arrays are numbered; a slice is an array and a length.

  The library documents of \<open>SendMsg\<close> that it is not safe to modify the message after the call: it may keep the
  bytes and write them later. \<open>Written\<close> is the moment the library has put the oldest kept message on the wire.
  The capacity of a fresh array is a parameter: the runtime chooses it, at least the length needed.
\<close>

record codec_state =
  cd_arrays :: "string list"
  cd_payload :: "nat \<times> nat" \<comment> \<open>the array and the length of the frame's slice\<close>
  cd_kept :: "(nat \<times> nat) list"
  cd_wire :: "string list"

definition codec_start :: codec_state where
  "codec_start = \<lparr>cd_arrays = [''''], cd_payload = (0, 0), cd_kept = [], cd_wire = []\<rparr>"

definition slice_bytes :: "codec_state \<Rightarrow> nat \<times> nat \<Rightarrow> string" where
  "slice_bytes s sl = take (snd sl) (cd_arrays s ! fst sl)"

definition rawCodec_Marshal :: "codec_state \<Rightarrow> nat \<times> nat" where
  "rawCodec_Marshal s = cd_payload s"

definition rawCodec_Unmarshal :: "nat \<Rightarrow> string \<Rightarrow> codec_state \<Rightarrow> codec_state" where
  "rawCodec_Unmarshal extra msg s =
     (let (a, n) = cd_payload s; arr = cd_arrays s ! a
      in if length msg \<le> length arr
         then s\<lparr>cd_arrays := (cd_arrays s)[a := msg @ drop (length msg) arr], cd_payload := (a, length msg)\<rparr>
         else s\<lparr>cd_arrays := cd_arrays s @ [msg @ replicate extra (CHR 0x00)],
                cd_payload := (length (cd_arrays s), length msg)\<rparr>)"

datatype codec_action = RecvMsg nat string | SendMsg | Written

fun codec_step :: "codec_action \<Rightarrow> codec_state \<Rightarrow> codec_state" where
  "codec_step (RecvMsg extra msg) s = rawCodec_Unmarshal extra msg s"
| "codec_step SendMsg s = s\<lparr>cd_kept := cd_kept s @ [rawCodec_Marshal s]\<rparr>"
| "codec_step Written s =
     (case cd_kept s of [] \<Rightarrow> s | sl # sls \<Rightarrow> s\<lparr>cd_kept := sls, cd_wire := cd_wire s @ [slice_bytes s sl]\<rparr>)"

text \<open>The pump: one frame, received and sent again and again.\<close>

definition pump_actions :: "(nat \<times> string) \<Rightarrow> codec_action list" where
  "pump_actions m = [RecvMsg (fst m) (snd m), SendMsg]"

definition codec_ok :: "codec_state \<Rightarrow> bool" where
  "codec_ok s \<longleftrightarrow> fst (cd_payload s) < length (cd_arrays s)"

lemma Unmarshal_payload:
  assumes "codec_ok s"
  shows "slice_bytes (rawCodec_Unmarshal extra msg s) (cd_payload (rawCodec_Unmarshal extra msg s)) = msg"
    "codec_ok (rawCodec_Unmarshal extra msg s)"
    "cd_kept (rawCodec_Unmarshal extra msg s) = cd_kept s" "cd_wire (rawCodec_Unmarshal extra msg s) = cd_wire s"
  using assms by (auto simp: codec_ok_def slice_bytes_def rawCodec_Unmarshal_def Let_def nth_append split: prod.split)

lemma written_through_run:
  assumes "codec_ok s" "cd_kept s = []"
  shows "cd_wire (fold codec_step (concat (map (\<lambda>m. pump_actions m @ [Written]) ms)) s) = cd_wire s @ map snd ms"
  using assms
proof (induction ms arbitrary: s)
  case (Cons m ms)
  let ?s = "codec_step Written (codec_step SendMsg (rawCodec_Unmarshal (fst m) (snd m) s))"
  have "codec_ok ?s" "cd_kept ?s = []" "cd_wire ?s = cd_wire s @ [snd m]"
    using Unmarshal_payload [OF Cons.prems(1), of "fst m" "snd m"] Cons.prems(2)
    by (simp_all add: codec_ok_def rawCodec_Marshal_def slice_bytes_def)
  then show ?case
    using Cons.IH [of ?s] by (simp add: pump_actions_def)
qed simp

lemma kept_frame_overwritten:
  assumes "length b \<le> length a" and "codec_ok s" "cd_kept s = []"
  shows "cd_wire (fold codec_step (pump_actions (x, a) @ pump_actions (y, b) @ [Written, Written]) s) =
    cd_wire s @ [b @ drop (length b) a, b]"
proof -
  let ?s = "rawCodec_Unmarshal x a s"
  obtain i n where p: "cd_payload ?s = (i, n)" by (cases "cd_payload ?s")
  have s: "take n (cd_arrays ?s ! i) = a" "i < length (cd_arrays ?s)" "n = length a"
    "length a \<le> length (cd_arrays ?s ! i)"
    using Unmarshal_payload [OF assms(2), of x a] p assms(2)
    by (auto simp: codec_ok_def slice_bytes_def rawCodec_Unmarshal_def Let_def nth_append split: prod.splits if_splits)
  have "take (length a - length b) (drop (length b) (cd_arrays ?s ! i)) = drop (length b) a"
    using s(1,3) by (metis drop_take)
  then show ?thesis
    using s assms Unmarshal_payload(3,4) [OF assms(2), of x a]
    by (simp add: pump_actions_def rawCodec_Marshal_def p rawCodec_Unmarshal_def [of y b "?s\<lparr>cd_kept := [(i, length a)]\<rparr>"] slice_bytes_def)
qed

text \<open>
  The relay can corrupt a message. If the library writes each message before \<open>SendMsg\<close> returns, the wire carries
  exactly the received messages. If it keeps the bytes and writes them later, as it documents, a
  second message that is no longer than the first overwrites it: the first goes out with its beginning replaced by
  the second.
\<close>

theorem kept_message_corrupted:
  assumes "length b \<le> length a" and "take (length b) a \<noteq> b"
  shows "cd_wire (fold codec_step (concat (map (\<lambda>m. pump_actions m @ [Written]) [(x, a), (y, b)])) codec_start) = [a, b] \<and>
    (\<exists>w. cd_wire (fold codec_step (pump_actions (x, a) @ pump_actions (y, b) @ [Written, Written]) codec_start) = [w, b] \<and>
       w = b @ drop (length b) a \<and> w \<noteq> a)"
proof -
  have s: "codec_ok codec_start" "cd_kept codec_start = []" "cd_wire codec_start = []"
    by (simp_all add: codec_ok_def codec_start_def)
  have "b @ drop (length b) a \<noteq> a"
    using assms(2) by (metis append_eq_conv_conj)
  then show ?thesis
    using written_through_run [OF s(1,2), of "[(x, a), (y, b)]"] kept_frame_overwritten [OF assms(1) s(1,2), of x y]
    by (simp add: s(3))
qed

theorem kept_message_corrupted_witness:
  "\<exists>w. cd_wire (fold codec_step (pump_actions (0, ''debit 100'') @ pump_actions (0, ''ping'') @ [Written, Written]) codec_start) =
     [w, ''ping''] \<and> w = ''pingt 100''"
  using kept_message_corrupted [of "''ping''" "''debit 100''" 0 0] by simp

section \<open>The relay on the wire\<close>

text \<open>
  Each pump has one frame for all its messages. A receive that succeeds unmarshals into it and a send marshals it: what is handed
  to the library is the frame's slice, and what goes on the wire is what that slice holds when the library writes it. A run
  interleaves the steps of the relay with the library's writes; \<open>Pump extra a\<close> is a step of the relay with the capacity
  the runtime adds when the frame has to grow.
\<close>

datatype wire_action = Pump nat relay_action | WriteUpstream | WriteCaller

type_synonym wired_relay = "relay \<times> codec_state \<times> codec_state"

definition up_codec :: "nat \<Rightarrow> relay_action \<Rightarrow> codec_action list" where
  "up_codec extra a = (case a of CallerRecv (Inr f) \<Rightarrow> [RecvMsg extra f] | UpstreamSend None \<Rightarrow> [SendMsg] | _ \<Rightarrow> [])"

definition down_codec :: "nat \<Rightarrow> relay_action \<Rightarrow> codec_action list" where
  "down_codec extra a = (case a of UpstreamRecv (Inr f) \<Rightarrow> [RecvMsg extra f] | CallerSend None \<Rightarrow> [SendMsg] | _ \<Rightarrow> [])"

fun wire_step :: "wire_action \<Rightarrow> wired_relay \<Rightarrow> wired_relay" where
  "wire_step (Pump extra a) (r, u, d) =
     (case relay_step a r of
        None \<Rightarrow> (r, u, d)
      | Some r' \<Rightarrow> (r', fold codec_step (up_codec extra a) u, fold codec_step (down_codec extra a) d))"
| "wire_step WriteUpstream (r, u, d) = (r, codec_step Written u, d)"
| "wire_step WriteCaller (r, u, d) = (r, u, codec_step Written d)"

definition wire_start :: wired_relay where
  "wire_start = (relay_start, codec_start, codec_start)"

text \<open>The library is prompt in a run when it has written what a pump sent before that pump receives its next message.\<close>

fun prompt :: "wire_action list \<Rightarrow> wired_relay \<Rightarrow> bool" where
  "prompt [] s = True"
| "prompt (w # ws) s =
     ((case w of
         Pump extra (CallerRecv (Inr f)) \<Rightarrow> cd_kept (fst (snd s)) = []
       | Pump extra (UpstreamRecv (Inr f)) \<Rightarrow> cd_kept (snd (snd s)) = []
       | _ \<Rightarrow> True) \<and> prompt ws (wire_step w s))"

text \<open>A pump that has sent \<open>sent\<close> and may hold a frame: the lengths on the wire are right, and with a prompt library the bytes.\<close>

definition codec_rel :: "string list \<Rightarrow> string option \<Rightarrow> codec_state \<Rightarrow> bool" where
  "codec_rel sent hold s \<longleftrightarrow> codec_ok s \<and>
     (\<forall>sl \<in> set (cd_kept s). fst sl < length (cd_arrays s) \<and> snd sl \<le> length (cd_arrays s ! fst sl)) \<and>
     map length sent = map length (cd_wire s) @ map snd (cd_kept s) \<and>
     (\<forall>f. hold = Some f \<longrightarrow> slice_bytes s (cd_payload s) = f \<and> snd (cd_payload s) = length f)"

definition codec_exact :: "string list \<Rightarrow> codec_state \<Rightarrow> bool" where
  "codec_exact sent s \<longleftrightarrow> sent = cd_wire s @ map (slice_bytes s) (cd_kept s)"

lemma codec_rel_start: "codec_rel [] None codec_start" "codec_exact [] codec_start"
  by (simp_all add: codec_rel_def codec_exact_def codec_ok_def codec_start_def)

lemma codec_rel_hold: "codec_rel sent hold s \<Longrightarrow> hold' = None \<or> hold' = hold \<Longrightarrow> codec_rel sent hold' s"
  by (auto simp: codec_rel_def)

lemma Unmarshal_arrays:
  assumes "codec_ok s" and "a < length (cd_arrays s)"
  shows "a < length (cd_arrays (rawCodec_Unmarshal extra f s)) \<and>
    length (cd_arrays (rawCodec_Unmarshal extra f s) ! a) = length (cd_arrays s ! a)"
  using assms by (auto simp: rawCodec_Unmarshal_def Let_def nth_append nth_list_update codec_ok_def split: prod.split)

lemma codec_recv:
  assumes "codec_rel sent hold s"
  shows "codec_rel sent (Some f) (codec_step (RecvMsg extra f) s)"
    and "codec_exact sent s \<Longrightarrow> cd_kept s = [] \<Longrightarrow> codec_exact sent (codec_step (RecvMsg extra f) s)"
proof -
  have ok: "codec_ok s" using assms by (simp add: codec_rel_def)
  have "snd (cd_payload (rawCodec_Unmarshal extra f s)) = length f"
    by (simp add: rawCodec_Unmarshal_def Let_def split: prod.split)
  then show "codec_rel sent (Some f) (codec_step (RecvMsg extra f) s)"
    using assms Unmarshal_payload [OF ok, of extra f] Unmarshal_arrays [OF ok, of _ extra f] by (auto simp: codec_rel_def)
  show "codec_exact sent s \<Longrightarrow> cd_kept s = [] \<Longrightarrow> codec_exact sent (codec_step (RecvMsg extra f) s)"
    using Unmarshal_payload [OF ok, of extra f] by (simp add: codec_exact_def)
qed

lemma codec_send:
  assumes "codec_rel sent (Some f) s"
  shows "codec_rel (sent @ [f]) None (codec_step SendMsg s)"
    and "codec_exact sent s \<Longrightarrow> codec_exact (sent @ [f]) (codec_step SendMsg s)"
proof -
  have "length f \<le> length (cd_arrays s ! fst (cd_payload s))" "slice_bytes s (cd_payload s) = f" "snd (cd_payload s) = length f"
    using assms by (auto simp: codec_rel_def slice_bytes_def)
  then show "codec_rel (sent @ [f]) None (codec_step SendMsg s)"
    using assms by (auto simp: codec_rel_def rawCodec_Marshal_def codec_ok_def)
  show "codec_exact sent s \<Longrightarrow> codec_exact (sent @ [f]) (codec_step SendMsg s)"
    using \<open>slice_bytes s (cd_payload s) = f\<close> by (simp add: codec_exact_def rawCodec_Marshal_def slice_bytes_def)
qed

lemma codec_written:
  assumes "codec_rel sent hold s"
  shows "codec_rel sent hold (codec_step Written s)" and "codec_exact sent s \<Longrightarrow> codec_exact sent (codec_step Written s)"
  using assms by (auto simp: codec_rel_def codec_exact_def codec_ok_def slice_bytes_def split: list.split)

fun up_hold :: "up_pump \<Rightarrow> string option" where
  "up_hold (UpSend f) = Some f"
| "up_hold _ = None"

fun down_hold :: "down_pump \<Rightarrow> string option" where
  "down_hold (DownHeader f) = Some f"
| "down_hold (DownSendHeader f h) = Some f"
| "down_hold (DownSend f) = Some f"
| "down_hold _ = None"

text \<open>What a step of the relay does to what has been sent upstream and to what the request pump holds, and likewise back.\<close>

lemma up_view:
  assumes "relay_step a r = Some r'"
  shows "case a of
      CallerRecv (Inr f) \<Rightarrow> rl_toUpstream r' = rl_toUpstream r \<and> up_hold (rl_up r') = Some f
    | UpstreamSend None \<Rightarrow> (\<exists>f. up_hold (rl_up r) = Some f \<and> rl_toUpstream r' = rl_toUpstream r @ [f] \<and> up_hold (rl_up r') = None)
    | _ \<Rightarrow> rl_toUpstream r' = rl_toUpstream r \<and> (up_hold (rl_up r') = None \<or> up_hold (rl_up r') = up_hold (rl_up r))"
proof (cases "(\<exists>res. a = CallerRecv res) \<or> (\<exists>res. a = UpstreamSend res)")
  case False
  then have "forwardClientToServer a r = Some r' \<or> relay_select a r = Some r'"
    using assms by (cases a) (simp_all add: relay_step_def)
  then have "rl_toUpstream r' = rl_toUpstream r \<and> rl_up r' = rl_up r"
  proof
    assume "forwardClientToServer a r = Some r'"
    then show ?thesis by (rule down_step_cases) simp_all
  next
    assume "relay_select a r = Some r'"
    then show ?thesis
      by (auto simp: relay_select_def split: if_splits relay_action.splits option.splits stream_error.splits)
  qed
  with False show ?thesis by (auto split: relay_action.split)
next
  case True
  then show ?thesis
    using assms by (auto simp: relay_step_def split: if_splits sum.splits option.splits up_pump.splits)
qed

lemma down_view:
  assumes "relay_step a r = Some r'"
  shows "case a of
      UpstreamRecv (Inr f) \<Rightarrow> messages (rl_toCaller r') = messages (rl_toCaller r) \<and> down_hold (rl_down r') = Some f
    | CallerSend None \<Rightarrow> (\<exists>f. down_hold (rl_down r) = Some f \<and> messages (rl_toCaller r') = messages (rl_toCaller r) @ [f] \<and> down_hold (rl_down r') = None)
    | _ \<Rightarrow> messages (rl_toCaller r') = messages (rl_toCaller r) \<and> (down_hold (rl_down r') = None \<or> down_hold (rl_down r') = down_hold (rl_down r))"
proof (cases "forwardClientToServer a r = Some r'")
  case False
  then have "forwardServerToClient a r = Some r' \<or> relay_select a r = Some r'"
    using relay_step_cases [OF assms] by blast
  then have "messages (rl_toCaller r') = messages (rl_toCaller r) \<and> rl_down r' = rl_down r"
  proof
    assume "forwardServerToClient a r = Some r'"
    then show ?thesis by (rule up_step_cases) simp_all
  next
    assume "relay_select a r = Some r'"
    then show ?thesis
      by (auto simp: relay_select_def split: if_splits relay_action.splits option.splits stream_error.splits)
  qed
  moreover from False have "\<nexists>f. a = UpstreamRecv (Inr f)" "a \<noteq> CallerSend None"
    using assms by (auto simp: relay_step_def)
  ultimately show ?thesis by (auto split: relay_action.split sum.split option.split)
next
  case True
  then show ?thesis
    by (cases a) (auto split: if_splits sum.splits option.splits down_pump.splits simp: Let_def)
qed

definition wire_inv :: "wired_relay \<Rightarrow> bool" where
  "wire_inv s \<longleftrightarrow> (case s of (r, u, d) \<Rightarrow>
     codec_rel (rl_toUpstream r) (up_hold (rl_up r)) u \<and> codec_rel (messages (rl_toCaller r)) (down_hold (rl_down r)) d)"

definition wire_exact :: "wired_relay \<Rightarrow> bool" where
  "wire_exact s \<longleftrightarrow> (case s of (r, u, d) \<Rightarrow> codec_exact (rl_toUpstream r) u \<and> codec_exact (messages (rl_toCaller r)) d)"

lemma up_codec_step:
  assumes "relay_step a r = Some r'" and "codec_rel (rl_toUpstream r) (up_hold (rl_up r)) u"
  shows "codec_rel (rl_toUpstream r') (up_hold (rl_up r')) (fold codec_step (up_codec extra a) u)"
    and "codec_exact (rl_toUpstream r) u \<Longrightarrow> (\<And>f. a = CallerRecv (Inr f) \<Longrightarrow> cd_kept u = []) \<Longrightarrow>
      codec_exact (rl_toUpstream r') (fold codec_step (up_codec extra a) u)"
  using up_view [OF assms(1)] assms(2)
  by (auto simp: up_codec_def simp del: codec_step.simps intro: codec_recv codec_send codec_rel_hold split: relay_action.splits sum.splits option.splits)

lemma down_codec_step:
  assumes "relay_step a r = Some r'" and "codec_rel (messages (rl_toCaller r)) (down_hold (rl_down r)) d"
  shows "codec_rel (messages (rl_toCaller r')) (down_hold (rl_down r')) (fold codec_step (down_codec extra a) d)"
    and "codec_exact (messages (rl_toCaller r)) d \<Longrightarrow> (\<And>f. a = UpstreamRecv (Inr f) \<Longrightarrow> cd_kept d = []) \<Longrightarrow>
      codec_exact (messages (rl_toCaller r')) (fold codec_step (down_codec extra a) d)"
  using down_view [OF assms(1)] assms(2)
  by (auto simp: down_codec_def simp del: codec_step.simps intro: codec_recv codec_send codec_rel_hold split: relay_action.splits sum.splits option.splits)

lemma wire_step_inv:
  assumes "wire_inv s"
  shows "wire_inv (wire_step w s)" and "wire_exact s \<Longrightarrow> prompt [w] s \<Longrightarrow> wire_exact (wire_step w s)"
proof -
  obtain r u d where s: "s = (r, u, d)" by (cases s)
  have inv: "codec_rel (rl_toUpstream r) (up_hold (rl_up r)) u" "codec_rel (messages (rl_toCaller r)) (down_hold (rl_down r)) d"
    using assms by (simp_all add: s wire_inv_def)
  have "wire_inv (wire_step w s) \<and> (wire_exact s \<longrightarrow> prompt [w] s \<longrightarrow> wire_exact (wire_step w s))"
  proof (cases w)
    case (Pump extra a)
    show ?thesis
    proof (cases "relay_step a r")
      case None
      with Pump assms show ?thesis by (simp add: s)
    next
      case (Some r')
      note up = up_codec_step [OF Some inv(1)] and down = down_codec_step [OF Some inv(2)]
      show ?thesis
      proof (intro conjI impI)
        show "wire_inv (wire_step w s)" using up(1) down(1) by (simp add: Pump s Some wire_inv_def)
        assume exact: "wire_exact s" and "prompt [w] s"
        then have "\<And>f. a = CallerRecv (Inr f) \<Longrightarrow> cd_kept u = []" "\<And>f. a = UpstreamRecv (Inr f) \<Longrightarrow> cd_kept d = []"
          by (auto simp: Pump s)
        with exact up(2) [of extra] down(2) [of extra] show "wire_exact (wire_step w s)" by (simp add: Pump s Some wire_exact_def)
      qed
    qed
  qed (use inv codec_written [OF inv(1)] codec_written [OF inv(2)] in \<open>auto simp: s wire_inv_def wire_exact_def simp del: codec_step.simps\<close>)
  then show "wire_inv (wire_step w s)" "wire_exact s \<Longrightarrow> prompt [w] s \<Longrightarrow> wire_exact (wire_step w s)" by blast+
qed

lemma wire_run_inv:
  "wire_inv s \<Longrightarrow> wire_inv (fold wire_step ws s) \<and> (wire_exact s \<longrightarrow> prompt ws s \<longrightarrow> wire_exact (fold wire_step ws s))"
proof (induction ws arbitrary: s)
  case (Cons w ws)
  have "prompt [w] s" "prompt ws (wire_step w s)" if "prompt (w # ws) s" using that by simp_all
  with Cons.IH [OF wire_step_inv(1) [OF Cons.prems]] wire_step_inv(2) [OF Cons.prems] show ?case by auto
qed simp

lemma wire_start_inv: "wire_inv wire_start" "wire_exact wire_start"
  using codec_rel_start by (simp_all add: wire_inv_def wire_exact_def wire_start_def relay_start_def)

text \<open>The relay steps of a run.\<close>

definition pumped :: "wire_action list \<Rightarrow> relay_action list" where
  "pumped ws = List.map_filter (\<lambda>w. case w of Pump extra a \<Rightarrow> Some a | _ \<Rightarrow> None) ws"

lemma wire_run_relay: "fst (fold wire_step ws (r, u, d)) = relay_run (pumped ws) r"
proof (induction ws arbitrary: r u d)
  case (Cons w ws)
  then show ?case by (cases w) (auto simp: pumped_def List.map_filter_simps split: option.split)
qed (simp add: pumped_def List.map_filter_simps)


definition example_relay :: "relay_action list" where
  "example_relay = [CallerRecv (Inr ''q1''), UpstreamRecv (Inr ''a1''), UpstreamSend None, UpstreamHeader (Inr (\<lambda>_. [])),
     CallerRecv (Inl EOF), SelectS2C, CallerSendHeader None, CallerSend None, UpstreamRecv (Inr ''a2''), CallerSend None,
     UpstreamRecv (Inl EOF), SelectC2S]"

lemma example_relay_run:
  "relay_run example_relay relay_start =
     \<lparr>rl_up = UpDone, rl_s2c = None, rl_fromCaller = [''q1''], rl_toUpstream = [''q1''], rl_down = DownDone,
      rl_headerSent = True, rl_c2s = None, rl_fromUpstream = [''a1'', ''a2''],
      rl_toCaller = [CallerHeader (\<lambda>_. []), CallerMessage ''a1'', CallerMessage ''a2'', CallerTrailer], rl_i = 1,
      rl_halfClosed = True, rl_cancelled = False, rl_outcome = Some (Some (''allow'', ''''), RPC_OK)\<rparr>"
  by (simp add: example_relay_def relay_start_def relay_step_def relay_select_def)

definition example_wire :: "wire_action list" where
  "example_wire = concat (map (\<lambda>a. [Pump 0 a, WriteUpstream, WriteCaller]) example_relay)"


text \<open>
  A relay ends and is recorded: the waiting loop never leaves through its unexpected exit, an outcome is always
  recorded, as allowed exactly when the RPC succeeds, and as soon as the upstream has ended the RPC or the response
  pump has failed, the next turn of the loop on that channel returns.
\<close>

theorem relay_ends_recorded:
  "(case rl_outcome (relay_run as relay_start) of
      None \<Rightarrow> rl_down (relay_run as relay_start) = DownDone \<longrightarrow> rl_outcome (relay_run (as @ [SelectC2S]) relay_start) \<noteq> None
    | Some (rec, res) \<Rightarrow>
        (\<exists>d reason. rec = Some (d, reason) \<and> d \<in> {''allow'', ''error''} \<and> (d = ''allow'' \<longleftrightarrow> res = RPC_OK)))"
proof -
  let ?r = "relay_run as relay_start"
  have run: "relay_run (xs @ ys) r = relay_run ys (relay_run xs r)" for xs ys r
    by (induction xs arbitrary: r) simp_all
  have inv: "relay_inv ?r" by (rule relay_inv_run [OF relay_inv_start])
  show ?thesis
  proof (cases "rl_outcome ?r")
    case None
    then show ?thesis
      using inv by (auto simp: run relay_step_def relay_select_def relay_inv_def up_inv_def down_inv_def split: stream_error.split)
  next
    case (Some oc)
    then show ?thesis
      using inv by (auto simp: relay_inv_def outcome_inv_def split: option.splits)
  qed
qed

theorem relay_ends_recorded_witness:
  "rl_outcome (relay_run (butlast example_relay @ [SelectC2S]) relay_start) \<noteq> None"
proof -
  have "rl_outcome (relay_run (butlast example_relay) relay_start) = None"
    "rl_down (relay_run (butlast example_relay) relay_start) = DownDone"
    by (simp_all add: example_relay_def relay_start_def relay_step_def relay_select_def)
  then show ?thesis
    using relay_ends_recorded [of "butlast example_relay"] by simp
qed

section \<open>What an RPC leaves behind\<close>

definition rpc_caller :: "'s grpc_Proxy \<Rightarrow> server_stream \<Rightarrow> 's \<Rightarrow> (string \<times> string \<times> string) option" where
  "rpc_caller p st s =
     (case st_method st of
        None \<Rightarrow> None
      | Some fullMethod \<Rightarrow>
          (case fst (gp_identity p (st_md st) (snd (gp_now p s))) of
             Inl _ \<Rightarrow> None
           | Inr (identity, tenant) \<Rightarrow> Some (identity, tenant, fullMethod)))"

text \<open>The gates an RPC passes, in the order of the code, on the state each one finds.\<close>

definition rpc_admitted :: "'s grpc_Proxy \<Rightarrow> server_stream \<Rightarrow> 's \<Rightarrow> bool" where
  "rpc_admitted p st s \<longleftrightarrow>
     (case rpc_caller p st s of
        None \<Rightarrow> False
      | Some (identity, tenant, fullMethod) \<Rightarrow>
          let start = fst (gp_now p s);
              s = snd (gp_identity p (st_md st) (snd (gp_now p s)));
              (blocked, s) = (case gp_autoBlock p of None \<Rightarrow> (False, s)
                              | Some check \<Rightarrow> (\<not> bk_Allowed (fst (check identity tenant start s)), snd (check identity tenant start s)))
          in \<not> blocked \<and> vd_Allow (Decide (gp_decider p) (grpc_call identity tenant fullMethod (st_remoteAddr st) start) s) \<and>
             bv_Allowed (fst (gp_budget p identity tenant fullMethod start s)))"

locale observed_grpc =
  fixes p :: "'s grpc_Proxy" and obs :: "'s \<Rightarrow> proxy_event list"
  assumes obs_writer: "obs (snd (rec_writer (gp_recorder p) e s)) = Audited e # obs s"
    and obs_sink: "rec_sink (gp_recorder p) = Some publish \<Longrightarrow> obs (publish e s) = obs s"
    and obs_onError: "rec_onError (gp_recorder p) = Some onError \<Longrightarrow> obs (onError msg s) = obs s"
    and obs_NewStream: "obs (snd (gp_NewStream p fullMethod md s)) = Opened fullMethod md # obs s"
    and obs_relay: "obs (snd (gp_relay p fullMethod s)) = obs s"
    and obs_now: "obs (snd (gp_now p s)) = obs s"
    and obs_identity: "obs (snd (gp_identity p md s)) = obs s"
    and obs_budget: "obs (snd (gp_budget p i t tool now s)) = obs s"
    and obs_block: "gp_autoBlock p = Some check \<Longrightarrow> obs (snd (check i t now s)) = obs s"
begin

lemma obs_grpc_record:
  "\<exists>e. obs (grpc_record p i t tool d reason start s) = Audited e # obs s \<and> e_Identity e = i \<and> e_Tenant e = t \<and>
     e_Tool e = tool \<and> e_Decision e = d"
  by (auto simp: grpc_record_def Recorder_Record_def RecordWithEffect_def case_prod_beta obs_sink obs_onError obs_writer
      obs_now split: option.split)

text \<open>What forwarding leaves: the opened stream and, once it has returned, one entry with the decision its result has.\<close>

lemma obs_forward:
  "case fst (grpc_forward p m md i t start s) of
     None \<Rightarrow> obs (snd (grpc_forward p m md i t start s)) = Opened m (outMD md) # obs s
   | Some res \<Rightarrow> \<exists>e. obs (snd (grpc_forward p m md i t start s)) = Audited e # Opened m (outMD md) # obs s \<and>
       e_Identity e = i \<and> e_Tenant e = t \<and> e_Tool e = m \<and> e_Decision e = (if res = RPC_OK then ''allow'' else ''error'')"
proof -
  obtain err s1 where new: "gp_NewStream p m (outMD md) s = (err, s1)"
    by (cases "gp_NewStream p m (outMD md) s")
  have s1: "obs s1 = Opened m (outMD md) # obs s"
    using obs_NewStream [of m "outMD md" s] new by simp
  show ?thesis
  proof (cases err)
    case (Some e)
    then show ?thesis
      using obs_grpc_record [of i t m "''error''" e start s1] s1 by (auto simp: grpc_forward_def new)
  next
    case None
    obtain acts s2 where relay: "gp_relay p m s1 = (acts, s2)"
      by (cases "gp_relay p m s1")
    have s2: "obs s2 = Opened m (outMD md) # obs s"
      using obs_relay [of m s1] relay s1 by simp
    have inv: "outcome_inv (rl_outcome (relay_run acts relay_start))"
      using relay_inv_run [OF relay_inv_start] by (simp add: relay_inv_def)
    show ?thesis
    proof (cases "rl_outcome (relay_run acts relay_start)")
      case running: None
      then show ?thesis
        using s2 by (simp add: grpc_forward_def new None relay)
    next
      case (Some oc)
      then obtain d reason res where oc: "oc = (Some (d, reason), res)" "d = (if res = RPC_OK then ''allow'' else ''error'')"
        using inv by (auto simp: outcome_inv_def split: option.splits prod.splits)
      then show ?thesis
        using obs_grpc_record [of i t m d reason start s2] s2 Some by (simp add: grpc_forward_def new None relay)
    qed
  qed
qed

text \<open>What a call leaves once its caller is known, on the state the gates find.\<close>

definition accounted :: "bool \<Rightarrow> string \<Rightarrow> string \<Rightarrow> string \<Rightarrow> MD \<Rightarrow> grpc_result option \<times> 's \<Rightarrow> 's \<Rightarrow> bool" where
  "accounted admitted i t m md res s \<longleftrightarrow>
     (if admitted then
        (case fst res of
           None \<Rightarrow> obs (snd res) = Opened m (outMD md) # obs s
         | Some r \<Rightarrow> \<exists>e. obs (snd res) = Audited e # Opened m (outMD md) # obs s \<and> e_Identity e = i \<and> e_Tenant e = t \<and>
             e_Tool e = m \<and> e_Decision e = (if r = RPC_OK then ''allow'' else ''error''))
      else
        (\<exists>code msg e. fst res = Some (RPC_Status code msg) \<and> obs (snd res) = Audited e # obs s \<and> e_Identity e = i \<and>
           e_Tenant e = t \<and> e_Tool e = m \<and> e_Decision e \<in> {''blocked'', ''deny'', ''throttled''}))"

lemma accounted_frame: "accounted b i t m md res s' \<Longrightarrow> obs s' = obs s \<Longrightarrow> accounted b i t m md res s"
  unfolding accounted_def by (simp only:)

lemma accounted_refused:
  "d \<in> {''blocked'', ''deny'', ''throttled''} \<Longrightarrow> obs s' = obs s \<Longrightarrow>
     accounted False i t m md (Some (RPC_Status code msg), grpc_record p i t m d reason start s') s"
  using obs_grpc_record [of i t m d reason start s'] by (auto simp: accounted_def)

lemma accounted_policy:
  "accounted (vd_Allow (Decide (gp_decider p) (grpc_call i t m (st_remoteAddr st) start) s) \<and>
       bv_Allowed (fst (gp_budget p i t m start s))) i t m (st_md st) (grpc_policy p st m i t start s) s"
proof -
  let ?s = "snd (gp_budget p i t m start s)"
  have "accounted True i t m (st_md st) (grpc_forward p m (st_md st) i t start ?s) ?s"
    using obs_forward [of m "st_md st" i t start ?s] by (simp add: accounted_def)
  then have "accounted True i t m (st_md st) (grpc_forward p m (st_md st) i t start ?s) s"
    by (rule accounted_frame) (rule obs_budget)
  then show ?thesis
    by (auto simp: grpc_policy_def Let_def case_prod_beta obs_budget intro: accounted_refused)
qed

lemma rpc_accounts:
  "case rpc_caller p st s of
     None \<Rightarrow> obs (snd (grpc_Handler p st s)) = obs s \<and>
       (\<exists>code msg. code \<in> {Internal, Unauthenticated} \<and> fst (grpc_Handler p st s) = Some (RPC_Status code msg))
   | Some (i, t, m) \<Rightarrow> accounted (rpc_admitted p st s) i t m (st_md st) (grpc_Handler p st s) s"
proof (cases "rpc_caller p st s")
  case None
  then show ?thesis
    by (auto simp: rpc_caller_def grpc_Handler_def case_prod_beta obs_now obs_identity split: option.splits sum.splits)
next
  case (Some c)
  obtain i t m where c: "c = (i, t, m)" by (cases c)
  let ?s1 = "snd (gp_now p s)"
  let ?s2 = "snd (gp_identity p (st_md st) ?s1)"
  have id: "st_method st = Some m" "fst (gp_identity p (st_md st) ?s1) = Inr (i, t)"
    using Some c by (auto simp: rpc_caller_def split: option.splits sum.splits prod.splits)
  have s2: "obs ?s2 = obs s" by (simp add: obs_now obs_identity)
  show ?thesis
  proof (cases "gp_autoBlock p")
    case None
    then show ?thesis
      using accounted_frame [OF accounted_policy s2] Some c
      by (simp add: rpc_admitted_def grpc_Handler_def case_prod_beta id)
  next
    case blk: (Some check)
    let ?v = "check i t (fst (gp_now p s)) ?s2"
    have "obs (snd ?v) = obs s" using obs_block [OF blk] s2 by simp
    then show ?thesis
      using accounted_frame [OF accounted_policy, of "snd ?v" s] Some c blk
      by (auto simp: rpc_admitted_def grpc_Handler_def case_prod_beta id intro: accounted_refused)
  qed
qed

end

section \<open>Credentials\<close>

lemma outMD_strips: "outMD md metaAuth = []" "outMD md metaIdentity = []" "outMD md metaTenant = []"
  by (simp_all add: outMD_def metaAuth_def metaIdentity_def metaTenant_def)

lemma outMD_keeps: "k \<notin> {metaAuth, metaIdentity, metaTenant} \<Longrightarrow> outMD md k = md k"
  by (simp add: outMD_def)

section \<open>Invariants of the state\<close>

locale invariant_grpc =
  fixes p :: "'s grpc_Proxy" and I :: "'s \<Rightarrow> bool"
  assumes inv_record: "I s \<Longrightarrow> I (RecordWithEffect (gp_recorder p) i t tool d reason tr lat now u eff st src s)"
    and inv_NewStream: "I s \<Longrightarrow> I (snd (gp_NewStream p m md s))"
    and inv_relay: "I s \<Longrightarrow> I (snd (gp_relay p m s))"
    and inv_now: "I s \<Longrightarrow> I (snd (gp_now p s))"
    and inv_identity: "I s \<Longrightarrow> I (snd (gp_identity p md s))"
    and inv_budget: "I s \<Longrightarrow> I (snd (gp_budget p i t tool now s))"
    and inv_block: "gp_autoBlock p = Some check \<Longrightarrow> I s \<Longrightarrow> I (snd (check i t now s))"
begin

lemma inv_grpc_record: "I s \<Longrightarrow> I (grpc_record p i t tool d reason start s)"
  by (simp add: grpc_record_def Recorder_Record_def case_prod_beta inv_record inv_now)

lemma inv_grpc_forward: "I s \<Longrightarrow> I (snd (grpc_forward p m md i t start s))"
  by (simp add: grpc_forward_def case_prod_beta inv_grpc_record inv_NewStream inv_relay split: option.split prod.split)

lemma inv_grpc_policy: "I s \<Longrightarrow> I (snd (grpc_policy p st m i t start s))"
  by (simp add: grpc_policy_def Let_def case_prod_beta inv_grpc_record inv_grpc_forward inv_budget)

lemma grpc_invariant:
  assumes "I s"
  shows "I (snd (grpc_Handler p st s))"
proof (cases "gp_autoBlock p")
  case None
  then show ?thesis
    using assms by (simp add: grpc_Handler_def case_prod_beta inv_grpc_policy inv_identity inv_now split: option.split sum.split)
next
  case (Some check)
  then show ?thesis
    using assms by (simp add: grpc_Handler_def case_prod_beta inv_grpc_policy inv_grpc_record inv_identity inv_now
        inv_block [OF Some] split: option.split sum.split)
qed

end

end
