(* ===== verification/Taint.thy ===== *)
theory Taint
  imports Keys Audit_Log
begin

text \<open>
  Taint tracking: \<open>internal/features/taint/domain\<close> (\<open>Label\<close>, \<open>TaintConfig\<close>, the store interface),
  \<open>internal/features/taint/usecase/engine.go\<close> (\<open>Publish\<close> sets and clears labels from the audit
  stream, \<open>Current\<close> reads them with lazy expiry), \<open>internal/features/taint/adapter/inmemory_store.go\<close>
  and the decision-time lookup that \<open>cmd/wardline/main.go\<close> builds from the engine.

  The locale \<open>taint_store\<close> is the store's contract. The reference semantics \<open>taint_spec\<close> reads a
  label off the audit history alone: the last entry of the session that mattered decides.
\<close>

section \<open>Labels and configuration\<close>

record Label =
  lab_Tainted :: bool
  lab_SetAt :: go_time
  lab_Sources :: "string list"

definition zero_Label :: Label where
  "zero_Label = \<lparr>lab_Tainted = False, lab_SetAt = 0, lab_Sources = []\<rparr>"

record TaintConfig =
  tc_UntrustedSources :: "string list"
  tc_DeclassifySources :: "string list"
  tc_TTLSeconds :: int
  tc_SessionWindowSeconds :: int
  tc_SessionHeader :: string

definition DefaultTTLSeconds :: int where
  "DefaultTTLSeconds = 300"

definition taint_DefaultSessionWindowSeconds :: int where
  "taint_DefaultSessionWindowSeconds = 300"

definition DefaultSessionHeader :: string where
  "DefaultSessionHeader = ''X-Wardline-Session''"

definition TaintConfig_TTL :: "TaintConfig \<Rightarrow> int" where
  "TaintConfig_TTL c = (if tc_TTLSeconds c \<le> 0 then DefaultTTLSeconds else tc_TTLSeconds c)"

definition TaintConfig_Window :: "TaintConfig \<Rightarrow> int" where
  "TaintConfig_Window c =
     (if tc_SessionWindowSeconds c \<le> 0 then taint_DefaultSessionWindowSeconds else tc_SessionWindowSeconds c)"

definition TaintConfig_Header :: "TaintConfig \<Rightarrow> string" where
  "TaintConfig_Header c = (if tc_SessionHeader c = '''' then DefaultSessionHeader else tc_SessionHeader c)"

section \<open>The store\<close>

record 's TaintStore =
  ts_Get :: "'s \<Rightarrow> string \<Rightarrow> Label option"
  ts_Set :: "string \<Rightarrow> Label \<Rightarrow> 's \<Rightarrow> 's"
  ts_Clear :: "string \<Rightarrow> 's \<Rightarrow> 's"

record taint_InMemoryStore =
  tm_m :: "string \<rightharpoonup> Label"

definition taint_NewInMemoryStore :: taint_InMemoryStore where
  "taint_NewInMemoryStore = \<lparr>tm_m = Map.empty\<rparr>"

definition taint_Get :: "taint_InMemoryStore \<Rightarrow> string \<Rightarrow> Label option" where
  "taint_Get s key = tm_m s key"

definition taint_Set :: "string \<Rightarrow> Label \<Rightarrow> taint_InMemoryStore \<Rightarrow> taint_InMemoryStore" where
  "taint_Set key l s = s\<lparr>tm_m := (tm_m s)(key \<mapsto> l)\<rparr>"

definition taint_Clear :: "string \<Rightarrow> taint_InMemoryStore \<Rightarrow> taint_InMemoryStore" where
  "taint_Clear key s = s\<lparr>tm_m := (tm_m s)(key := None)\<rparr>"

definition inmemory_TaintStore :: "taint_InMemoryStore TaintStore" where
  "inmemory_TaintStore = \<lparr>ts_Get = taint_Get, ts_Set = taint_Set, ts_Clear = taint_Clear\<rparr>"

section \<open>The engine\<close>

record 's Engine =
  en_cfg :: TaintConfig
  en_store :: "'s TaintStore"
  en_untrusted :: "string set"
  en_declassify :: "string set"

definition toSet :: "string list \<Rightarrow> string set" where
  "toSet xs = fold insert xs {}"

definition NewEngine :: "TaintConfig \<Rightarrow> 's TaintStore \<Rightarrow> 's Engine" where
  "NewEngine cfg store = \<lparr>en_cfg = cfg, en_store = store, en_untrusted = toSet (tc_UntrustedSources cfg),
     en_declassify = toSet (tc_DeclassifySources cfg)\<rparr>"

definition Engine_Publish :: "'s Engine \<Rightarrow> Entry \<Rightarrow> 's \<Rightarrow> 's" where
  "Engine_Publish e entry s =
     (if e_Decision entry = ''deny'' \<or> e_Decision entry = ''blocked'' \<or> e_Decision entry = ''throttled''
      then s
      else
        let session = SessionID (e_SessionID entry) (e_Tenant entry) (e_Identity entry) (e_Timestamp entry)
              (TaintConfig_Window (en_cfg e));
            key = taintKey (e_Tenant entry) (e_Identity entry) session
        in if e_Tool entry \<in> en_declassify e then ts_Clear (en_store e) key s
           else if e_Tool entry \<in> en_untrusted e
           then ts_Set (en_store e) key
                  \<lparr>lab_Tainted = True, lab_SetAt = e_Timestamp entry, lab_Sources = [e_Tool entry]\<rparr> s
           else s)"

definition Engine_Current :: "'s Engine \<Rightarrow> string \<Rightarrow> string \<Rightarrow> string \<Rightarrow> go_time \<Rightarrow> 's \<Rightarrow> Label" where
  "Engine_Current e tenant identity session now s =
     (let key = taintKey tenant identity session
      in case ts_Get (en_store e) s key of
           None \<Rightarrow> zero_Label
         | Some l \<Rightarrow>
             if \<not> lab_Tainted l then zero_Label
             else if time_after now (lab_SetAt l + wrap64 (TaintConfig_TTL (en_cfg e) * second)) then zero_Label
             else l)"

text \<open>
  The lookup wired into the decider: the call's session header, or the window of its time, picks
  the session; the label is read at the call's time.
\<close>

definition taintLookup ::
  "'s Engine \<Rightarrow> string \<Rightarrow> string \<Rightarrow> string \<Rightarrow> go_time \<Rightarrow> 's \<Rightarrow> bool \<times> string list" where
  "taintLookup e tenant identity sessionID now s =
     (let session = SessionID sessionID tenant identity now (TaintConfig_Window (en_cfg e));
          label = Engine_Current e tenant identity session now s
      in (lab_Tainted label, lab_Sources label))"

section \<open>Reference semantics over the audit history\<close>

definition entry_session :: "TaintConfig \<Rightarrow> Entry \<Rightarrow> string \<times> string \<times> string" where
  "entry_session cfg en =
     (e_Tenant en, e_Identity en,
      SessionID (e_SessionID en) (e_Tenant en) (e_Identity en) (e_Timestamp en) (TaintConfig_Window cfg))"

text \<open>An entry that sets or clears the label of its session.\<close>

definition taint_relevant :: "TaintConfig \<Rightarrow> Entry \<Rightarrow> bool" where
  "taint_relevant cfg en \<longleftrightarrow>
     e_Decision en \<notin> {''deny'', ''blocked'', ''throttled''} \<and>
     e_Tool en \<in> set (tc_DeclassifySources cfg) \<union> set (tc_UntrustedSources cfg)"

definition taint_spec ::
  "TaintConfig \<Rightarrow> string \<times> string \<times> string \<Rightarrow> go_time \<Rightarrow> Entry list \<Rightarrow> bool \<times> string list" where
  "taint_spec cfg sess now es =
     (case find (\<lambda>en. taint_relevant cfg en \<and> entry_session cfg en = sess) (rev es) of
        None \<Rightarrow> (False, [])
      | Some en \<Rightarrow>
          if e_Tool en \<in> set (tc_DeclassifySources cfg) then (False, [])
          else if e_Timestamp en + wrap64 (TaintConfig_TTL cfg * second) < now then (False, [])
          else (True, [e_Tool en]))"

section \<open>The contract of a label store\<close>

locale taint_store =
  fixes store :: "'s TaintStore"
  assumes get_set: "ts_Get store (ts_Set store k l s) k' = (if k' = k then Some l else ts_Get store s k')"
    and get_clear: "ts_Get store (ts_Clear store k s) k' = (if k' = k then None else ts_Get store s k')"
begin

definition publish_all :: "TaintConfig \<Rightarrow> Entry list \<Rightarrow> 's \<Rightarrow> 's" where
  "publish_all cfg es s = fold (Engine_Publish (NewEngine cfg store)) es s"

lemma toSet_set: "toSet xs = set xs"
  by (simp add: toSet_def union_set_fold [symmetric])

lemma publish_get:
  "ts_Get store (Engine_Publish (NewEngine cfg store) en s) (taintKey t i u) =
     (if taint_relevant cfg en \<and> entry_session cfg en = (t, i, u)
      then if e_Tool en \<in> set (tc_DeclassifySources cfg) then None
           else Some \<lparr>lab_Tainted = True, lab_SetAt = e_Timestamp en, lab_Sources = [e_Tool en]\<rparr>
      else ts_Get store s (taintKey t i u))"
  by (auto simp: Engine_Publish_def NewEngine_def toSet_set get_set get_clear taint_relevant_def
      entry_session_def wardline_keys)

lemma publish_all_get:
  "ts_Get store (publish_all cfg es s) (taintKey t i u) =
     (case find (\<lambda>en. taint_relevant cfg en \<and> entry_session cfg en = (t, i, u)) (rev es) of
        None \<Rightarrow> ts_Get store s (taintKey t i u)
      | Some en \<Rightarrow>
          if e_Tool en \<in> set (tc_DeclassifySources cfg) then None
          else Some \<lparr>lab_Tainted = True, lab_SetAt = e_Timestamp en, lab_Sources = [e_Tool en]\<rparr>)"
  by (induction es rule: rev_induct) (auto simp: publish_all_def publish_get)

lemma current_refines_spec:
  assumes "\<And>k. ts_Get store s k = None"
  shows "(let l = Engine_Current (NewEngine cfg store) t i u now (publish_all cfg es s)
          in (lab_Tainted l, lab_Sources l)) = taint_spec cfg (t, i, u) now es"
  by (simp add: Engine_Current_def taint_spec_def publish_all_get NewEngine_def [of _ store]
      zero_Label_def time_after_def assms split: option.split)

end

section \<open>The in-memory store keeps the contract\<close>

interpretation inmemory_taint: taint_store inmemory_TaintStore
  by unfold_locales (simp_all add: inmemory_TaintStore_def taint_Get_def taint_Set_def taint_Clear_def)

section \<open>Properties of the taint lookup\<close>

lemma taint_lookup_history:
  "taintLookup (NewEngine cfg inmemory_TaintStore) t i header now
     (fold (Engine_Publish (NewEngine cfg inmemory_TaintStore)) es taint_NewInMemoryStore)
   = taint_spec cfg (t, i, SessionID header t i now (TaintConfig_Window cfg)) now es"
proof -
  have "\<And>k. ts_Get inmemory_TaintStore taint_NewInMemoryStore k = None"
    by (simp add: inmemory_TaintStore_def taint_Get_def taint_NewInMemoryStore_def)
  from inmemory_taint.current_refines_spec [OF this] show ?thesis
    by (simp add: taintLookup_def NewEngine_def [of _ inmemory_TaintStore] inmemory_taint.publish_all_def)
qed

text \<open>
  The label a policy decision sees is a function of the audit history alone: after any
  sequence of entries published to the engine, the lookup answers what the last relevant entry of
  the caller's session says, a declassification or the expiry of the label included.
\<close>

theorem taint_lookup_refines_history:
  "taintLookup (NewEngine cfg inmemory_TaintStore) t i header now
     (fold (Engine_Publish (NewEngine cfg inmemory_TaintStore)) es taint_NewInMemoryStore)
   = taint_spec cfg (t, i, SessionID header t i now (TaintConfig_Window cfg)) now es"
  by (rule taint_lookup_history)

lemma taint_spec_own_entries:
  "taint_spec cfg (t, i, u) now (filter (\<lambda>en. e_Tenant en = t \<and> e_Identity en = i) es)
   = taint_spec cfg (t, i, u) now es"
proof -
  have "find (\<lambda>en. taint_relevant cfg en \<and> entry_session cfg en = (t, i, u))
          (filter (\<lambda>en. e_Tenant en = t \<and> e_Identity en = i) (rev es))
      = find (\<lambda>en. taint_relevant cfg en \<and> entry_session cfg en = (t, i, u)) (rev es)"
    by (rule find_filter) (simp add: entry_session_def)
  then show ?thesis by (simp add: taint_spec_def rev_filter)
qed

text \<open>
  Taint does not cross tenants or identities: dropping from the history every entry of
  another tenant or another identity changes nothing in what the lookup answers.
\<close>

theorem taint_isolated:
  "taintLookup (NewEngine cfg inmemory_TaintStore) t i header now
     (fold (Engine_Publish (NewEngine cfg inmemory_TaintStore)) es taint_NewInMemoryStore)
   = taintLookup (NewEngine cfg inmemory_TaintStore) t i header now
     (fold (Engine_Publish (NewEngine cfg inmemory_TaintStore))
        (filter (\<lambda>en. e_Tenant en = t \<and> e_Identity en = i) es) taint_NewInMemoryStore)"
  by (simp add: taint_lookup_history taint_spec_own_entries)

text \<open>
  C38. A declassifying call that the proxy refused still clears the taint of its session: the
  entry's decision is filtered only when it is deny, blocked or throttled, and a call parked for
  approval or refused by a job or cost ceiling is recorded under another decision although it never
  reached the upstream.
\<close>

theorem refused_declassification_clears_taint:
  assumes "e_Tool en \<in> set (tc_DeclassifySources cfg)"
    and "e_Decision en \<in> {''needs_approval'', ''job_budget_exceeded'', ''cost_budget_exceeded''}"
    and "SessionID header (e_Tenant en) (e_Identity en) now (TaintConfig_Window cfg) =
         SessionID (e_SessionID en) (e_Tenant en) (e_Identity en) (e_Timestamp en) (TaintConfig_Window cfg)"
  shows "taintLookup (NewEngine cfg inmemory_TaintStore) (e_Tenant en) (e_Identity en) header now
     (fold (Engine_Publish (NewEngine cfg inmemory_TaintStore)) (es @ [en]) taint_NewInMemoryStore)
   = (False, [])"
  using assms unfolding taint_lookup_history
  by (auto simp: taint_spec_def taint_relevant_def entry_session_def)

definition example_taint_config :: TaintConfig where
  "example_taint_config = \<lparr>tc_UntrustedSources = [''fetch''], tc_DeclassifySources = [''review''],
     tc_TTLSeconds = 60, tc_SessionWindowSeconds = 300, tc_SessionHeader = ''''\<rparr>"

definition example_entry :: "string \<Rightarrow> string \<Rightarrow> go_time \<Rightarrow> Entry" where
  "example_entry tool decision t = \<lparr>e_Timestamp = t, e_Identity = ''alice'', e_Tenant = ''acme'',
     e_Tool = tool, e_Decision = decision, e_LatencyMS = 0, e_Reason = '''', e_TraceID = '''',
     e_Effect = None, e_EffectStatus = EffectStatusEmpty, e_SessionID = ''s1'', e_TaintSources = []\<rparr>"

theorem refused_declassification_clears_taint_witness:
  "taintLookup (NewEngine example_taint_config inmemory_TaintStore) ''acme'' ''alice'' ''s1'' 9
     (fold (Engine_Publish (NewEngine example_taint_config inmemory_TaintStore))
        [example_entry ''fetch'' ''allow'' 5] taint_NewInMemoryStore) = (True, [''fetch'']) \<and>
   taintLookup (NewEngine example_taint_config inmemory_TaintStore) ''acme'' ''alice'' ''s1'' 9
     (fold (Engine_Publish (NewEngine example_taint_config inmemory_TaintStore))
        ([example_entry ''fetch'' ''allow'' 5] @ [example_entry ''review'' ''needs_approval'' 7])
        taint_NewInMemoryStore) = (False, [])"
proof
  show "taintLookup (NewEngine example_taint_config inmemory_TaintStore) ''acme'' ''alice'' ''s1'' 9
     (fold (Engine_Publish (NewEngine example_taint_config inmemory_TaintStore))
        [example_entry ''fetch'' ''allow'' 5] taint_NewInMemoryStore) = (True, [''fetch''])"
    unfolding taint_lookup_history
    by (simp add: taint_spec_def taint_relevant_def entry_session_def
        example_taint_config_def example_entry_def SessionID_def TaintConfig_TTL_def second_def wrap64_id)
  show "taintLookup (NewEngine example_taint_config inmemory_TaintStore) ''acme'' ''alice'' ''s1'' 9
     (fold (Engine_Publish (NewEngine example_taint_config inmemory_TaintStore))
        ([example_entry ''fetch'' ''allow'' 5] @ [example_entry ''review'' ''needs_approval'' 7])
        taint_NewInMemoryStore) = (False, [])"
    using refused_declassification_clears_taint [of "example_entry ''review'' ''needs_approval'' 7"
        example_taint_config "''s1''" 9 "[example_entry ''fetch'' ''allow'' 5]"]
    by (simp add: example_taint_config_def example_entry_def SessionID_def)
qed

end
