(* ===== verification/Revocation.thy ===== *)
theory Revocation
  imports Keys
begin

text \<open>
  Revocation of identities: the \<open>Revoker\<close> interface (\<open>internal/features/credential/domain/revoker.go\<close>),
  the in-memory list (\<open>adapter/revocation_inmemory.go\<close>) and the bearer-token check that consults it
  (\<open>usecase/verification.go\<close>). The token verifier (signature and expiry of a JWT) is an argument.

  An empty tenant stands for a revocation in every tenant and is stored under the bare identity. The
  locale \<open>revoker\<close> is the contract: a revocation is in force until it expires.
\<close>

section \<open>The interface and the in-memory list\<close>

record 's Revoker =
  rv_Revoke :: "string \<Rightarrow> string \<Rightarrow> go_time \<Rightarrow> 's \<Rightarrow> string option \<times> 's"
  rv_IsRevoked :: "string \<Rightarrow> string \<Rightarrow> go_time \<Rightarrow> 's \<Rightarrow> bool \<times> 's"

definition revocationEvictionSweepInterval :: "64 word" where
  "revocationEvictionSweepInterval = 1000"

record RevocationList =
  rl_entries :: "string \<rightharpoonup> go_time"
  rl_calls :: "64 word"

definition NewRevocationList :: RevocationList where
  "NewRevocationList = \<lparr>rl_entries = Map.empty, rl_calls = 0\<rparr>"

definition revocation_key :: "string \<Rightarrow> string \<Rightarrow> string" where
  "revocation_key tenantName identity = (if tenantName \<noteq> '''' then tenant_Key tenantName identity else identity)"

definition Revoke :: "string \<Rightarrow> string \<Rightarrow> go_time \<Rightarrow> RevocationList \<Rightarrow> RevocationList" where
  "Revoke tenantName identity expiresAt r =
     r\<lparr>rl_entries := (rl_entries r)(revocation_key tenantName identity \<mapsto> expiresAt)\<rparr>"

definition revocation_evictExpired :: "go_time \<Rightarrow> RevocationList \<Rightarrow> RevocationList" where
  "revocation_evictExpired now r = r\<lparr>rl_entries := map_keep (\<lambda>_ e. \<not> time_after now e) (rl_entries r)\<rparr>"

definition checkAndSelfHeal :: "string \<Rightarrow> go_time \<Rightarrow> RevocationList \<Rightarrow> bool \<times> RevocationList" where
  "checkAndSelfHeal key now r =
     (case rl_entries r key of
        None \<Rightarrow> (False, r)
      | Some expiresAt \<Rightarrow>
          if time_after now expiresAt then (False, r\<lparr>rl_entries := (rl_entries r)(key := None)\<rparr>)
          else (True, r))"

definition IsRevoked :: "string \<Rightarrow> string \<Rightarrow> go_time \<Rightarrow> RevocationList \<Rightarrow> bool \<times> RevocationList" where
  "IsRevoked tenantName identity now r =
     (let r = r\<lparr>rl_calls := rl_calls r + 1\<rparr>;
          r = (if rl_calls r mod revocationEvictionSweepInterval = 0 then revocation_evictExpired now r else r);
          (scoped, r) = (if tenantName \<noteq> '''' then checkAndSelfHeal (tenant_Key tenantName identity) now r
                         else (False, r))
      in if scoped then (True, r) else checkAndSelfHeal identity now r)"

definition inmemory_Revoker :: "RevocationList Revoker" where
  "inmemory_Revoker = \<lparr>rv_Revoke = (\<lambda>t i e r. (None, Revoke t i e r)), rv_IsRevoked = IsRevoked\<rparr>"

section \<open>Bearer-token authentication\<close>

record Claims =
  cl_Subject :: string
  cl_Tenant :: string
  cl_IssuedAt :: go_time
  cl_ExpiresAt :: go_time
  cl_ID :: string

datatype 'e auth_error =
    VerifyFailed 'e
  | ErrRevoked

definition Verification_Authenticate ::
  "(string \<Rightarrow> go_time \<Rightarrow> 'e + Claims) \<Rightarrow> 's Revoker \<Rightarrow> string \<Rightarrow> go_time \<Rightarrow> go_time \<Rightarrow> 's \<Rightarrow>
   ('e auth_error + string \<times> string) \<times> 's" where
  "Verification_Authenticate verify revoker bearerToken nowV nowR s =
     (case verify bearerToken nowV of
        Inl e \<Rightarrow> (Inl (VerifyFailed e), s)
      | Inr claims \<Rightarrow>
          let (revoked, s) = rv_IsRevoked revoker (cl_Tenant claims) (cl_Subject claims) nowR s
          in if revoked then (Inl ErrRevoked, s)
             else (Inr (cl_Subject claims, cl_Tenant claims), s))"

section \<open>The list answers from its unexpired entries\<close>

definition live_entry :: "RevocationList \<Rightarrow> string \<Rightarrow> go_time \<Rightarrow> bool" where
  "live_entry r k now \<longleftrightarrow> (\<exists>e. rl_entries r k = Some e \<and> now \<le> e)"

lemma checkAndSelfHeal_fst: "fst (checkAndSelfHeal k now r) \<longleftrightarrow> live_entry r k now"
  by (auto simp: checkAndSelfHeal_def live_entry_def time_after_def split: option.split)

lemma checkAndSelfHeal_keep:
  "rl_entries r k' = Some e \<Longrightarrow> now \<le> e \<Longrightarrow> rl_entries (snd (checkAndSelfHeal k now r)) k' = Some e"
  by (auto simp: checkAndSelfHeal_def time_after_def split: option.split)

lemma checkAndSelfHeal_live:
  "live_entry (snd (checkAndSelfHeal k now r)) k' now \<longleftrightarrow> live_entry r k' now"
  by (auto simp: checkAndSelfHeal_def live_entry_def time_after_def split: option.split)

definition revocation_sweep :: "go_time \<Rightarrow> RevocationList \<Rightarrow> RevocationList" where
  "revocation_sweep now r =
     (let r = r\<lparr>rl_calls := rl_calls r + 1\<rparr>
      in if rl_calls r mod revocationEvictionSweepInterval = 0 then revocation_evictExpired now r else r)"

lemma revocation_sweep_keep:
  "rl_entries r k = Some e \<Longrightarrow> now \<le> e \<Longrightarrow> rl_entries (revocation_sweep now r) k = Some e"
  by (simp add: revocation_sweep_def revocation_evictExpired_def map_keep_eq_Some time_after_def)

lemma revocation_sweep_live: "live_entry (revocation_sweep now r) k now \<longleftrightarrow> live_entry r k now"
  by (auto simp: revocation_sweep_def live_entry_def revocation_evictExpired_def map_keep_eq_Some time_after_def)

lemma IsRevoked_sweep:
  "IsRevoked t i now r =
     (let r = revocation_sweep now r;
          (scoped, r) = (if t \<noteq> '''' then checkAndSelfHeal (tenant_Key t i) now r else (False, r))
      in if scoped then (True, r) else checkAndSelfHeal i now r)"
  by (simp add: IsRevoked_def revocation_sweep_def)

lemma IsRevoked_iff:
  "fst (IsRevoked t i now r) \<longleftrightarrow> live_entry r (revocation_key t i) now \<or> live_entry r i now"
  by (auto simp: IsRevoked_sweep case_prod_beta revocation_key_def checkAndSelfHeal_fst checkAndSelfHeal_live
      revocation_sweep_live)

lemma IsRevoked_keep:
  "rl_entries r k = Some e \<Longrightarrow> now \<le> e \<Longrightarrow> rl_entries (snd (IsRevoked t i now r)) k = Some e"
  by (auto simp: IsRevoked_sweep case_prod_beta intro!: checkAndSelfHeal_keep revocation_sweep_keep)

section \<open>The contract of a revoker\<close>

text \<open>\<open>in_force s t i e\<close>: the identity \<open>i\<close> of tenant \<open>t\<close> is revoked at least up to time \<open>e\<close>.\<close>

datatype revoker_op =
    OpRevoke string string go_time
  | OpCheck string string go_time

fun revoker_step :: "'s Revoker \<Rightarrow> revoker_op \<Rightarrow> 's \<Rightarrow> 's" where
  "revoker_step rv (OpRevoke t i e) s = snd (rv_Revoke rv t i e s)"
| "revoker_step rv (OpCheck t i now) s = snd (rv_IsRevoked rv t i now s)"

text \<open>An operation that cannot end a revocation before \<open>e\<close>: it runs before, or revokes for longer.\<close>

fun within :: "go_time \<Rightarrow> revoker_op \<Rightarrow> bool" where
  "within e (OpRevoke t i e') = (e \<le> e')"
| "within e (OpCheck t i now) = (now \<le> e)"

locale revoker =
  fixes rv :: "'s Revoker" and in_force :: "'s \<Rightarrow> string \<Rightarrow> string \<Rightarrow> go_time \<Rightarrow> bool"
  assumes revoke_in_force:
      "rv_Revoke rv t i e s = (None, s') \<Longrightarrow> t = '''' \<or> t = t' \<Longrightarrow> in_force s' t' i e"
    and in_force_revoked: "in_force s t i e \<Longrightarrow> now \<le> e \<Longrightarrow> fst (rv_IsRevoked rv t i now s)"
    and in_force_check:
      "in_force s t i e \<Longrightarrow> now \<le> e \<Longrightarrow> in_force (snd (rv_IsRevoked rv t' i' now s)) t i e"
    and in_force_revoke: "in_force s t i e \<Longrightarrow> e \<le> e' \<Longrightarrow> in_force (snd (rv_Revoke rv t' i' e' s)) t i e"
begin

lemma in_force_step: "in_force s t i e \<Longrightarrow> within e op \<Longrightarrow> in_force (revoker_step rv op s) t i e"
  by (cases op) (auto intro: in_force_check in_force_revoke)

lemma in_force_run:
  "in_force s t i e \<Longrightarrow> \<forall>op \<in> set ops. within e op \<Longrightarrow> in_force (fold (revoker_step rv) ops s) t i e"
  by (induction ops arbitrary: s) (auto intro: in_force_step)

text \<open>No token of a revoked identity is accepted while the revocation is in force.\<close>

lemma revoked_not_authenticated:
  assumes "in_force s t i e" and "nowR \<le> e"
  shows "fst (Verification_Authenticate verify rv token nowV nowR s) \<noteq> Inr (i, t)"
  using in_force_revoked [OF assms]
  by (auto simp: Verification_Authenticate_def case_prod_beta split: sum.split)

lemma revocation_effective:
  assumes "rv_Revoke rv t i e s = (None, s')" and "t = '''' \<or> t = t'"
    and "\<forall>op \<in> set ops. within e op" and "nowR \<le> e"
  shows "fst (Verification_Authenticate verify rv token nowV nowR (fold (revoker_step rv) ops s')) \<noteq> Inr (i, t')"
  using revoked_not_authenticated in_force_run revoke_in_force assms by metis

end

definition list_in_force :: "RevocationList \<Rightarrow> string \<Rightarrow> string \<Rightarrow> go_time \<Rightarrow> bool" where
  "list_in_force r t i e \<longleftrightarrow> (\<exists>k e'. k \<in> {revocation_key t i, i} \<and> rl_entries r k = Some e' \<and> e \<le> e')"

interpretation inmemory_revoker: revoker inmemory_Revoker list_in_force
proof
  fix t i :: string and e now :: go_time and s
  assume "list_in_force s t i e" "now \<le> e"
  then obtain k e' where k: "k \<in> {revocation_key t i, i}" "rl_entries s k = Some e'" "e \<le> e'" "now \<le> e'"
    by (auto simp: list_in_force_def)
  then show "fst (rv_IsRevoked inmemory_Revoker t i now s)"
    by (auto simp: inmemory_Revoker_def IsRevoked_iff live_entry_def)
  fix t' i' :: string
  show "list_in_force (snd (rv_IsRevoked inmemory_Revoker t' i' now s)) t i e"
    using k IsRevoked_keep [OF k(2) k(4), of t' i'] by (auto simp: inmemory_Revoker_def list_in_force_def)
next
  fix t i t' :: string and e :: go_time and s s'
  assume "rv_Revoke inmemory_Revoker t i e s = (None, s')" "t = '''' \<or> t = t'"
  then have "rl_entries s' (revocation_key t i) = Some e" "revocation_key t i \<in> {revocation_key t' i, i}"
    by (auto simp: inmemory_Revoker_def Revoke_def revocation_key_def)
  then show "list_in_force s' t' i e" unfolding list_in_force_def by blast
next
  fix t i t' i' :: string and e e' :: go_time and s
  assume "list_in_force s t i e" "e \<le> e'"
  then obtain k e0 where "k \<in> {revocation_key t i, i}" "rl_entries s k = Some e0" "e \<le> e0"
    unfolding list_in_force_def by blast
  moreover from this have "\<exists>e1. rl_entries (Revoke t' i' e' s) k = Some e1 \<and> e \<le> e1"
    using \<open>e \<le> e'\<close> by (simp add: Revoke_def)
  ultimately show "list_in_force (snd (rv_Revoke inmemory_Revoker t' i' e' s)) t i e"
    unfolding list_in_force_def inmemory_Revoker_def by auto
qed

section \<open>Properties of revocation\<close>

text \<open>
  A revocation takes effect and stays in effect: once an identity is revoked until a time, in
  its tenant or in every tenant, no bearer token authenticates as it up to that time, whatever
  revocation checks and (no shorter) revocations of it or of others come in between, the sweeps
  that evict expired entries included.
\<close>

theorem revoked_identity_never_authenticates:
  assumes "t = '''' \<or> t = t'"
    and "\<forall>op \<in> set ops. within e op" and "nowR \<le> e"
  shows "fst (Verification_Authenticate verify inmemory_Revoker token nowV nowR
           (fold (revoker_step inmemory_Revoker) ops (Revoke t i e r))) \<noteq> Inr (i, t')"
  using inmemory_revoker.revocation_effective [of t i e r "Revoke t i e r"] assms
  by (simp add: inmemory_Revoker_def)

theorem revoked_identity_never_authenticates_witness:
  "let verify = (\<lambda>token now. if token = ''tok'' then Inr \<lparr>cl_Subject = ''alice'', cl_Tenant = ''acme'',
         cl_IssuedAt = 1, cl_ExpiresAt = 99, cl_ID = ''j1''\<rparr> else Inl ''bad'')
   in fst (Verification_Authenticate verify inmemory_Revoker ''tok'' 7 7 NewRevocationList) = Inr (''alice'', ''acme'') \<and>
      fst (Verification_Authenticate verify inmemory_Revoker ''tok'' 7 7
        (fold (revoker_step inmemory_Revoker) [OpCheck ''acme'' ''bob'' 6] (Revoke ''acme'' ''alice'' 50 NewRevocationList)))
      \<noteq> Inr (''alice'', ''acme'')"
  unfolding Let_def
  by (rule conjI, simp add: Verification_Authenticate_def inmemory_Revoker_def NewRevocationList_def
      IsRevoked_def checkAndSelfHeal_def revocationEvictionSweepInterval_def,
      rule revoked_identity_never_authenticates, simp_all)

text \<open>The list never answers \<open>revoked\<close> without an unexpired entry under one of the two keys it checks.\<close>

lemma fresh_list_not_revoked: "\<not> fst (IsRevoked t i now NewRevocationList)"
  by (simp add: IsRevoked_iff live_entry_def NewRevocationList_def)

end
