(* ===== verification/Refresh_Tokens.thy ===== *)
theory Refresh_Tokens
  imports Revocation
begin

text \<open>
  Refresh tokens: the store interface (\<open>internal/features/credential/domain/refresh.go\<close>), the in-memory
  store with its reuse detection (\<open>adapter/refresh_inmemory.go\<close>) and the services built on it
  (\<open>usecase/issuance.go\<close>, \<open>usecase/refresh.go\<close>, \<open>usecase/revocation.go\<close>).

  The bootstrapper, the access-token issuer and the random source are arguments; \<open>None\<close> is a failure
  of the random source. Each clock reading of an operation is an argument of its own.
  \<open>Refresh\<close> is split after its call of \<open>Redeem\<close>, because the two halves are separate critical
  sections of the store and other operations can run in between.
\<close>

section \<open>Errors and interfaces\<close>

datatype cred_error =
    ErrInvalidCredentials
  | ErrRefreshTokenInvalid
  | ErrRefreshTokenReused
  | IssuerError string
  | GenerateTokenError
  | GenerateFamilyError
  | StoreError string
  | IssueAccessToken cred_error \<comment> \<open>wrapped: issue access token\<close>
  | IssueRefreshToken cred_error \<comment> \<open>wrapped: issue refresh token\<close>

record 's RefreshStore =
  rs_Issue :: "string \<Rightarrow> string \<Rightarrow> string \<Rightarrow> string \<Rightarrow> go_time \<Rightarrow> 's \<Rightarrow> string option \<times> 's"
  rs_Redeem :: "string \<Rightarrow> go_time \<Rightarrow> 's \<Rightarrow> (cred_error + string \<times> string \<times> string) \<times> 's"
  rs_RevokeAllForIdentity :: "string \<Rightarrow> string \<Rightarrow> 's \<Rightarrow> string option \<times> 's"

section \<open>The in-memory store\<close>

record refreshEntry =
  re_identity :: string
  re_tenant :: string
  re_family :: string
  re_expiresAt :: go_time
  re_consumed :: bool

record InMemoryRefreshStore =
  irs_byTok :: "string \<rightharpoonup> refreshEntry"
  irs_calls :: "64 word"

definition NewInMemoryRefreshStore :: InMemoryRefreshStore where
  "NewInMemoryRefreshStore = \<lparr>irs_byTok = Map.empty, irs_calls = 0\<rparr>"

definition refresh_Issue ::
  "string \<Rightarrow> string \<Rightarrow> string \<Rightarrow> string \<Rightarrow> go_time \<Rightarrow> InMemoryRefreshStore \<Rightarrow> InMemoryRefreshStore" where
  "refresh_Issue token identity tenantName family expiresAt s =
     s\<lparr>irs_byTok := (irs_byTok s)(token \<mapsto> \<lparr>re_identity = identity, re_tenant = tenantName,
         re_family = family, re_expiresAt = expiresAt, re_consumed = False\<rparr>)\<rparr>"

definition refresh_evictExpired :: "go_time \<Rightarrow> InMemoryRefreshStore \<Rightarrow> InMemoryRefreshStore" where
  "refresh_evictExpired now s =
     s\<lparr>irs_byTok := map_keep (\<lambda>_ entry. \<not> time_after now (re_expiresAt entry)) (irs_byTok s)\<rparr>"

definition revokeFamilyLocked :: "string \<Rightarrow> InMemoryRefreshStore \<Rightarrow> InMemoryRefreshStore" where
  "revokeFamilyLocked family s =
     s\<lparr>irs_byTok := map_keep (\<lambda>_ entry. re_family entry \<noteq> family) (irs_byTok s)\<rparr>"

definition refresh_sweep :: "go_time \<Rightarrow> InMemoryRefreshStore \<Rightarrow> InMemoryRefreshStore" where
  "refresh_sweep now s =
     (let s = s\<lparr>irs_calls := irs_calls s + 1\<rparr>
      in if irs_calls s mod revocationEvictionSweepInterval = 0 then refresh_evictExpired now s else s)"

definition Redeem ::
  "string \<Rightarrow> go_time \<Rightarrow> InMemoryRefreshStore \<Rightarrow> (cred_error + string \<times> string \<times> string) \<times> InMemoryRefreshStore"
where
  "Redeem token now s =
     (let s = refresh_sweep now s
      in case irs_byTok s token of
           None \<Rightarrow> (Inl ErrRefreshTokenInvalid, s)
         | Some entry \<Rightarrow>
             if re_consumed entry then (Inl ErrRefreshTokenReused, revokeFamilyLocked (re_family entry) s)
             else if time_after now (re_expiresAt entry)
             then (Inl ErrRefreshTokenInvalid, s\<lparr>irs_byTok := (irs_byTok s)(token := None)\<rparr>)
             else (Inr (re_identity entry, re_tenant entry, re_family entry),
                   s\<lparr>irs_byTok := (irs_byTok s)(token \<mapsto> entry\<lparr>re_consumed := True\<rparr>)\<rparr>))"

definition RevokeAllForIdentity :: "string \<Rightarrow> string \<Rightarrow> InMemoryRefreshStore \<Rightarrow> InMemoryRefreshStore" where
  "RevokeAllForIdentity tenantName identity s =
     s\<lparr>irs_byTok := map_keep (\<lambda>_ entry. re_identity entry \<noteq> identity \<or>
         \<not> (tenantName = '''' \<or> re_tenant entry = tenantName)) (irs_byTok s)\<rparr>"

definition inmemory_RefreshStore :: "InMemoryRefreshStore RefreshStore" where
  "inmemory_RefreshStore = \<lparr>rs_Issue = (\<lambda>tok i t f e s. (None, refresh_Issue tok i t f e s)),
     rs_Redeem = Redeem, rs_RevokeAllForIdentity = (\<lambda>t i s. (None, RevokeAllForIdentity t i s))\<rparr>"

section \<open>The services\<close>

definition mintAndStoreRefreshToken ::
  "'s RefreshStore \<Rightarrow> string option \<Rightarrow> string \<Rightarrow> string \<Rightarrow> string \<Rightarrow> go_time \<Rightarrow> 's \<Rightarrow> (cred_error + string) \<times> 's"
where
  "mintAndStoreRefreshToken store rnd identity tenantName family expiresAt s =
     (case rnd of
        None \<Rightarrow> (Inl GenerateTokenError, s)
      | Some token \<Rightarrow>
          let (err, s) = rs_Issue store token identity tenantName family expiresAt s
          in case err of Some e \<Rightarrow> (Inl (StoreError e), s) | None \<Rightarrow> (Inr token, s))"

definition Bootstrap ::
  "(string \<Rightarrow> cred_error + string \<times> string) \<Rightarrow> (string \<Rightarrow> string \<Rightarrow> cred_error + string) \<Rightarrow> 's RefreshStore \<Rightarrow>
   duration \<Rightarrow> string \<Rightarrow> string option \<Rightarrow> string option \<Rightarrow> go_time \<Rightarrow> 's \<Rightarrow> (cred_error + string \<times> string) \<times> 's"
where
  "Bootstrap authenticate issue store refreshTokenTTL secret rndFamily rndToken now s =
     (case authenticate secret of
        Inl e \<Rightarrow> (Inl e, s)
      | Inr (identity, tenantName) \<Rightarrow>
          (case issue identity tenantName of
             Inl e \<Rightarrow> (Inl e, s)
           | Inr accessToken \<Rightarrow>
               (case rndFamily of
                  None \<Rightarrow> (Inl GenerateFamilyError, s)
                | Some family \<Rightarrow>
                    (case mintAndStoreRefreshToken store rndToken identity tenantName family
                            (now + refreshTokenTTL) s of
                       (Inl e, s) \<Rightarrow> (Inl e, s)
                     | (Inr refreshToken, s) \<Rightarrow> (Inr (accessToken, refreshToken), s)))))"

record 's RefreshService =
  svc_store :: "'s RefreshStore"
  svc_revoker :: "'s Revoker"
  svc_issue :: "string \<Rightarrow> string \<Rightarrow> cred_error + string"
  svc_refreshTokenTTL :: duration

text \<open>The part of \<open>Refresh\<close> after \<open>Redeem\<close> returned \<open>(identity, tenantName, family)\<close>.\<close>

definition Refresh_rotate ::
  "'s RefreshService \<Rightarrow> string \<Rightarrow> string \<Rightarrow> string \<Rightarrow> go_time \<Rightarrow> string option \<Rightarrow> go_time \<Rightarrow> 's \<Rightarrow>
   (cred_error + string \<times> string) \<times> 's" where
  "Refresh_rotate svc identity tenantName family nowV rnd nowI s =
     (let (revoked, s) = rv_IsRevoked (svc_revoker svc) tenantName identity nowV s
      in if revoked then (Inl ErrRefreshTokenInvalid, s)
         else case svc_issue svc identity tenantName of
                Inl e \<Rightarrow> (Inl (IssueAccessToken e), s)
              | Inr accessToken \<Rightarrow>
                  (case mintAndStoreRefreshToken (svc_store svc) rnd identity tenantName family
                          (nowI + svc_refreshTokenTTL svc) s of
                     (Inl e, s) \<Rightarrow> (Inl (IssueRefreshToken e), s)
                   | (Inr newRefreshToken, s) \<Rightarrow> (Inr (accessToken, newRefreshToken), s)))"

definition Refresh ::
  "'s RefreshService \<Rightarrow> string \<Rightarrow> go_time \<Rightarrow> go_time \<Rightarrow> string option \<Rightarrow> go_time \<Rightarrow> 's \<Rightarrow>
   (cred_error + string \<times> string) \<times> 's" where
  "Refresh svc refreshToken nowR nowV rnd nowI s =
     (case rs_Redeem (svc_store svc) refreshToken nowR s of
        (Inl e, s) \<Rightarrow> (Inl e, s)
      | (Inr (identity, tenantName, family), s) \<Rightarrow>
          Refresh_rotate svc identity tenantName family nowV rnd nowI s)"

definition Revocation_Revoke ::
  "'s Revoker \<Rightarrow> 's RefreshStore \<Rightarrow> string \<Rightarrow> string \<Rightarrow> go_time \<Rightarrow> 's \<Rightarrow> string option \<times> 's" where
  "Revocation_Revoke rv refreshStore tenantName identity expiresAt s =
     (case rv_Revoke rv tenantName identity expiresAt s of
        (Some err, s) \<Rightarrow> (Some err, s)
      | (None, s) \<Rightarrow> rs_RevokeAllForIdentity refreshStore tenantName identity s)"

section \<open>Both in-memory stores in one state\<close>

record credential_state =
  cs_revoked :: RevocationList
  cs_refresh :: InMemoryRefreshStore

definition credential_RefreshStore :: "credential_state RefreshStore" where
  "credential_RefreshStore = \<lparr>
     rs_Issue = (\<lambda>tok i t f e s. (None, s\<lparr>cs_refresh := refresh_Issue tok i t f e (cs_refresh s)\<rparr>)),
     rs_Redeem = (\<lambda>tok now s. let (r, rs) = Redeem tok now (cs_refresh s) in (r, s\<lparr>cs_refresh := rs\<rparr>)),
     rs_RevokeAllForIdentity = (\<lambda>t i s. (None, s\<lparr>cs_refresh := RevokeAllForIdentity t i (cs_refresh s)\<rparr>))\<rparr>"

definition credential_Revoker :: "credential_state Revoker" where
  "credential_Revoker = \<lparr>
     rv_Revoke = (\<lambda>t i e s. (None, s\<lparr>cs_revoked := Revoke t i e (cs_revoked s)\<rparr>)),
     rv_IsRevoked = (\<lambda>t i now s. let (b, r) = IsRevoked t i now (cs_revoked s) in (b, s\<lparr>cs_revoked := r\<rparr>))\<rparr>"

definition credential_RefreshService ::
  "(string \<Rightarrow> string \<Rightarrow> cred_error + string) \<Rightarrow> duration \<Rightarrow> credential_state RefreshService" where
  "credential_RefreshService issue ttl = \<lparr>svc_store = credential_RefreshStore,
     svc_revoker = credential_Revoker, svc_issue = issue, svc_refreshTokenTTL = ttl\<rparr>"

section \<open>The contract of a refresh store\<close>

text \<open>
  \<open>view s tok\<close> is the entry a store holds for a token. A redemption may drop expired entries of any
  token, never anything else; a successful one consumes exactly its token; a replay wipes the
  token's family.
\<close>

definition consume_entry :: "refreshEntry \<Rightarrow> refreshEntry" where
  "consume_entry e = e\<lparr>re_consumed := True\<rparr>"

definition active_at :: "go_time \<Rightarrow> refreshEntry option \<Rightarrow> bool" where
  "active_at now oe \<longleftrightarrow> (\<exists>e. oe = Some e \<and> \<not> re_consumed e \<and> now \<le> re_expiresAt e)"

datatype refresh_op =
    OpIssue string string string string go_time
  | OpRedeem string go_time
  | OpRevokeAll string string

fun refresh_step :: "'s RefreshStore \<Rightarrow> refresh_op \<Rightarrow> 's \<Rightarrow> 's" where
  "refresh_step rs (OpIssue tok i t f e) s = snd (rs_Issue rs tok i t f e s)"
| "refresh_step rs (OpRedeem tok now) s = snd (rs_Redeem rs tok now s)"
| "refresh_step rs (OpRevokeAll t i) s = snd (rs_RevokeAllForIdentity rs t i s)"

fun redeems :: "'s RefreshStore \<Rightarrow> string \<Rightarrow> refresh_op \<Rightarrow> 's \<Rightarrow> bool" where
  "redeems rs tok (OpRedeem k now) s = (k = tok \<and> \<not> isl (fst (rs_Redeem rs k now s)))"
| "redeems rs tok _ s = False"

fun issues :: "string \<Rightarrow> refresh_op \<Rightarrow> bool" where
  "issues tok (OpIssue k i t f e) = (k = tok)"
| "issues tok _ = False"

fun issues_in :: "string \<Rightarrow> refresh_op \<Rightarrow> bool" where
  "issues_in fam (OpIssue k i t f e) = (f = fam)"
| "issues_in fam _ = False"

text \<open>How often a token is redeemed successfully in a sequence of operations.\<close>

fun redemptions :: "'s RefreshStore \<Rightarrow> string \<Rightarrow> refresh_op list \<Rightarrow> 's \<Rightarrow> nat" where
  "redemptions rs tok [] s = 0"
| "redemptions rs tok (op # ops) s =
     (if redeems rs tok op s then 1 else 0) + redemptions rs tok ops (refresh_step rs op s)"

locale refresh_store =
  fixes rs :: "'s RefreshStore" and view :: "'s \<Rightarrow> string \<Rightarrow> refreshEntry option"
  assumes issue_view:
      "view (snd (rs_Issue rs tok i t f e s)) k = (if k = tok then
         Some \<lparr>re_identity = i, re_tenant = t, re_family = f, re_expiresAt = e, re_consumed = False\<rparr>
       else view s k)"
    and issue_ok: "fst (rs_Issue rs tok i t f e s) = None"
    and redeem_iff:
      "fst (rs_Redeem rs tok now s) = Inr (i, t, f) \<longleftrightarrow>
         (\<exists>en. view s tok = Some en \<and> active_at now (Some en) \<and> re_identity en = i \<and> re_tenant en = t \<and>
            re_family en = f)"
    and redeem_consumes:
      "\<not> isl (fst (rs_Redeem rs tok now s)) \<Longrightarrow> view (snd (rs_Redeem rs tok now s)) tok = map_option consume_entry (view s tok)"
    and redeem_shrinks:
      "view (snd (rs_Redeem rs tok now s)) k = Some en \<Longrightarrow> view s k = Some en \<or> k = tok \<and> re_consumed en \<and> (\<exists>en'. view s k = Some en' \<and> en = consume_entry en')"
    and redeem_replay:
      "view s tok = Some en \<Longrightarrow> re_consumed en \<Longrightarrow> now \<le> re_expiresAt en \<Longrightarrow>
         fst (rs_Redeem rs tok now s) = Inl ErrRefreshTokenReused \<and>
         (\<forall>k en'. view (snd (rs_Redeem rs tok now s)) k = Some en' \<longrightarrow> re_family en' \<noteq> re_family en)"
    and revoke_all_view:
      "view (snd (rs_RevokeAllForIdentity rs t i s)) k = Some en \<longleftrightarrow>
         view s k = Some en \<and> (re_identity en \<noteq> i \<or> t \<noteq> '''' \<and> re_tenant en \<noteq> t)"
begin

definition spendable :: "'s \<Rightarrow> string \<Rightarrow> bool" where
  "spendable s tok \<longleftrightarrow> (\<exists>en. view s tok = Some en \<and> \<not> re_consumed en)"

lemma not_islE: "\<not> isl r \<Longrightarrow> (\<And>i t f. r = Inr (i, t, f) \<Longrightarrow> P) \<Longrightarrow> P"
  by (cases r) auto

lemma redeems_spendable: "redeems rs tok op s \<Longrightarrow> spendable s tok"
  by (cases op) (auto simp: spendable_def active_at_def redeem_iff elim!: not_islE)

lemma redeems_spends: "redeems rs tok op s \<Longrightarrow> \<not> spendable (refresh_step rs op s) tok"
  by (cases op) (auto simp: spendable_def redeem_consumes consume_entry_def)

lemma spendable_step: "spendable (refresh_step rs op s) tok \<Longrightarrow> spendable s tok \<or> issues tok op"
proof (cases op)
  case (OpRevokeAll t i)
  moreover assume "spendable (refresh_step rs op s) tok"
  ultimately show ?thesis by (auto simp: spendable_def revoke_all_view)
qed (auto simp: spendable_def issue_view dest!: redeem_shrinks split: if_splits)

text \<open>A token is redeemed no more often than it was issued.\<close>

lemma redemptions_le_issues:
  "redemptions rs tok ops s \<le> length (filter (issues tok) ops) + (if spendable s tok then 1 else 0)"
proof (induction ops arbitrary: s)
  case (Cons op ops)
  have no_issue: "\<not> issues tok op" if "redeems rs tok op s" using that by (cases op) auto
  show ?case
    using Cons [of "refresh_step rs op s"] redeems_spendable [of tok op s] redeems_spends [of tok op s]
      spendable_step [of op s tok] no_issue by (auto split: if_splits)
qed simp

definition family_dead :: "'s \<Rightarrow> string \<Rightarrow> bool" where
  "family_dead s fam \<longleftrightarrow> (\<forall>k en. view s k = Some en \<longrightarrow> re_family en \<noteq> fam)"

lemma family_dead_step:
  assumes "family_dead s fam" and "\<not> issues_in fam op"
  shows "family_dead (refresh_step rs op s) fam"
proof (cases op)
  case (OpRedeem tok now)
  then show ?thesis using assms redeem_shrinks [of tok now s]
    by (fastforce simp: family_dead_def consume_entry_def)
qed (use assms in \<open>auto simp: family_dead_def issue_view revoke_all_view split: if_splits\<close>)

lemma family_dead_run:
  "family_dead s fam \<Longrightarrow> \<forall>op \<in> set ops. \<not> issues_in fam op \<Longrightarrow> family_dead (fold (refresh_step rs) ops s) fam"
  by (induction ops arbitrary: s) (auto intro: family_dead_step)

end

section \<open>The in-memory store keeps the contract\<close>

lemma refresh_sweep_keeps:
  "irs_byTok s k = Some en \<Longrightarrow> now \<le> re_expiresAt en \<Longrightarrow> irs_byTok (refresh_sweep now s) k = Some en"
  by (simp add: refresh_sweep_def refresh_evictExpired_def map_keep_eq_Some time_after_def)

lemma refresh_sweep_shrinks: "irs_byTok (refresh_sweep now s) k = Some en \<Longrightarrow> irs_byTok s k = Some en"
  by (auto simp: refresh_sweep_def refresh_evictExpired_def map_keep_eq_Some split: if_splits)

lemma Redeem_iff:
  "fst (Redeem tok now s) = Inr (i, t, f) \<longleftrightarrow>
     (\<exists>en. irs_byTok s tok = Some en \<and> active_at now (Some en) \<and> re_identity en = i \<and> re_tenant en = t \<and>
        re_family en = f)"
  by (auto simp: Redeem_def active_at_def time_after_def split: option.splits
      dest: refresh_sweep_keeps refresh_sweep_shrinks)

lemma Redeem_consumes:
  "\<not> isl (fst (Redeem tok now s)) \<Longrightarrow>
     irs_byTok (snd (Redeem tok now s)) tok = map_option consume_entry (irs_byTok s tok)"
  by (auto simp: Redeem_def consume_entry_def split: option.splits if_splits dest: refresh_sweep_shrinks)

lemma Redeem_shrinks:
  "irs_byTok (snd (Redeem tok now s)) k = Some en \<Longrightarrow>
     irs_byTok s k = Some en \<or> k = tok \<and> re_consumed en \<and> (\<exists>en'. irs_byTok s k = Some en' \<and> en = consume_entry en')"
  by (auto simp: Redeem_def consume_entry_def revokeFamilyLocked_def map_keep_eq_Some
      split: option.splits if_splits dest: refresh_sweep_shrinks)

lemma Redeem_replay:
  "irs_byTok s tok = Some en \<Longrightarrow> re_consumed en \<Longrightarrow> now \<le> re_expiresAt en \<Longrightarrow>
     fst (Redeem tok now s) = Inl ErrRefreshTokenReused \<and>
     (\<forall>k en'. irs_byTok (snd (Redeem tok now s)) k = Some en' \<longrightarrow> re_family en' \<noteq> re_family en)"
  using refresh_sweep_keeps [of s tok en now]
  by (simp add: Redeem_def revokeFamilyLocked_def map_keep_eq_Some)

lemma RevokeAll_view:
  "irs_byTok (RevokeAllForIdentity t i s) k = Some en \<longleftrightarrow>
     irs_byTok s k = Some en \<and> (re_identity en \<noteq> i \<or> t \<noteq> '''' \<and> re_tenant en \<noteq> t)"
  by (auto simp: RevokeAllForIdentity_def map_keep_eq_Some)

lemmas refresh_store_laws = Redeem_iff Redeem_consumes Redeem_replay RevokeAll_view

interpretation inmemory_refresh: refresh_store inmemory_RefreshStore irs_byTok
proof (unfold_locales, goal_cases)
  case (5 tok now s k en)
  then show ?case using Redeem_shrinks by (simp add: inmemory_RefreshStore_def)
qed (simp_all add: inmemory_RefreshStore_def refresh_store_laws refresh_Issue_def)

interpretation credential_refresh: refresh_store credential_RefreshStore "irs_byTok \<circ> cs_refresh"
proof (unfold_locales, goal_cases)
  case (5 tok now s k en)
  then show ?case using Redeem_shrinks by (simp add: credential_RefreshStore_def case_prod_beta)
qed (simp_all add: credential_RefreshStore_def refresh_store_laws refresh_Issue_def case_prod_beta)

lemma credential_revoker_view:
  "rv_IsRevoked credential_Revoker t i now s =
     (fst (IsRevoked t i now (cs_revoked s)), s\<lparr>cs_revoked := snd (IsRevoked t i now (cs_revoked s))\<rparr>)"
  by (simp add: credential_Revoker_def case_prod_beta)

section \<open>Properties of refresh tokens\<close>

text \<open>
  C8. A refresh token is single-use: over any sequence of issues, redemptions and revocations, a
  token is redeemed successfully no more often than it was issued. Sweeps, expiries and replays at
  any time do not change that.
\<close>

theorem refresh_token_single_use:
  "redemptions inmemory_RefreshStore tok ops NewInMemoryRefreshStore \<le> length (filter (issues tok) ops)"
  using inmemory_refresh.redemptions_le_issues [of tok ops NewInMemoryRefreshStore]
  by (simp add: inmemory_refresh.spendable_def NewInMemoryRefreshStore_def)

text \<open>
  Replaying a redeemed token kills its whole lineage: the replay is reported as reuse, no
  token of the family is left, and none comes back as long as nothing is issued in the family.
\<close>

theorem replay_kills_family:
  assumes "irs_byTok s tok = Some en" and "re_consumed en" and "now \<le> re_expiresAt en"
    and "\<forall>op \<in> set ops. \<not> issues_in (re_family en) op"
  shows "fst (Redeem tok now s) = Inl ErrRefreshTokenReused \<and>
         (\<forall>k en'. irs_byTok (fold (refresh_step inmemory_RefreshStore) ops (snd (Redeem tok now s))) k = Some en' \<longrightarrow>
            re_family en' \<noteq> re_family en)"
  using Redeem_replay [OF assms(1-3)] inmemory_refresh.family_dead_run [OF _ assms(4)]
  unfolding inmemory_refresh.family_dead_def by blast

definition example_refresh_store :: InMemoryRefreshStore where
  "example_refresh_store =
     refresh_Issue ''t2'' ''alice'' ''acme'' ''fam'' 90
       (snd (Redeem ''t1'' 5 (refresh_Issue ''t1'' ''alice'' ''acme'' ''fam'' 90 NewInMemoryRefreshStore)))"

lemma example_refresh_store_entries:
  "irs_byTok example_refresh_store =
     [''t1'' \<mapsto> \<lparr>re_identity = ''alice'', re_tenant = ''acme'', re_family = ''fam'', re_expiresAt = 90, re_consumed = True\<rparr>,
      ''t2'' \<mapsto> \<lparr>re_identity = ''alice'', re_tenant = ''acme'', re_family = ''fam'', re_expiresAt = 90, re_consumed = False\<rparr>]"
  by (simp add: example_refresh_store_def refresh_Issue_def Redeem_def refresh_sweep_def time_after_def
      NewInMemoryRefreshStore_def revocationEvictionSweepInterval_def)

theorem replay_kills_family_witness:
  "fst (Redeem ''t2'' 7 example_refresh_store) = Inr (''alice'', ''acme'', ''fam'') \<and>
   fst (Redeem ''t1'' 7 example_refresh_store) = Inl ErrRefreshTokenReused \<and>
   (\<forall>k. map_option re_family (irs_byTok (fold (refresh_step inmemory_RefreshStore) [OpRevokeAll ''acme'' ''bob'']
       (snd (Redeem ''t1'' 7 example_refresh_store))) k) \<noteq> Some ''fam'')"
  using replay_kills_family [of example_refresh_store "''t1''" _ 7 "[OpRevokeAll ''acme'' ''bob'']"]
  by (auto simp: example_refresh_store_entries Redeem_iff active_at_def)

lemma mint_in_memory:
  "mintAndStoreRefreshToken credential_RefreshStore (Some tok) i t f e s =
     (Inr tok, s\<lparr>cs_refresh := refresh_Issue tok i t f e (cs_refresh s)\<rparr>)"
  by (simp add: mintAndStoreRefreshToken_def credential_RefreshStore_def)

lemma Refresh_Inr:
  assumes "Refresh (credential_RefreshService issue ttl) tok nowR nowV (Some new) nowI s = (Inr (acc, new'), s')"
  obtains en where "irs_byTok (cs_refresh s) tok = Some en" and "active_at nowR (Some en)"
    and "\<not> fst (IsRevoked (re_tenant en) (re_identity en) nowV (cs_revoked s))"
    and "issue (re_identity en) (re_tenant en) = Inr acc" and "new' = new"
    and "cs_refresh s' = refresh_Issue new (re_identity en) (re_tenant en) (re_family en) (nowI + ttl)
           (snd (Redeem tok nowR (cs_refresh s)))"
proof -
  obtain i t f s1 where red: "Redeem tok nowR (cs_refresh s) = (Inr (i, t, f), s1)"
    using assms by (auto simp: Refresh_def credential_RefreshService_def credential_RefreshStore_def
        split: prod.splits sum.splits)
  then obtain en where en: "irs_byTok (cs_refresh s) tok = Some en" "active_at nowR (Some en)"
      "re_identity en = i" "re_tenant en = t" "re_family en = f"
    using Redeem_iff [of tok nowR "cs_refresh s" i t f] by auto
  have "rs_Redeem credential_RefreshStore tok nowR s = (Inr (i, t, f), s\<lparr>cs_refresh := s1\<rparr>)"
    using red by (simp add: credential_RefreshStore_def)
  then show thesis
    using assms en red that [of en]
    by (auto simp: Refresh_def credential_RefreshService_def Refresh_rotate_def credential_revoker_view
        mint_in_memory split: if_splits sum.splits)
qed

text \<open>
  A refresh rotates: when the service exchanges a token, the token was active and its identity
  not revoked, the access token is for the token's own identity and tenant, the presented token is
  consumed, and the new one is active in the same family with a fresh time to live.
\<close>

theorem refresh_rotates:
  assumes "Refresh (credential_RefreshService issue ttl) tok nowR nowV (Some new) nowI s = (Inr (acc, new'), s')"
    and "new \<noteq> tok"
  shows "\<exists>en. irs_byTok (cs_refresh s) tok = Some en \<and> active_at nowR (Some en) \<and>
     \<not> fst (IsRevoked (re_tenant en) (re_identity en) nowV (cs_revoked s)) \<and>
     issue (re_identity en) (re_tenant en) = Inr acc \<and> new' = new \<and>
     irs_byTok (cs_refresh s') tok = Some (en\<lparr>re_consumed := True\<rparr>) \<and>
     irs_byTok (cs_refresh s') new = Some (en\<lparr>re_expiresAt := nowI + ttl\<rparr>)"
proof -
  obtain en where en: "irs_byTok (cs_refresh s) tok = Some en" "active_at nowR (Some en)"
    and nr: "\<not> fst (IsRevoked (re_tenant en) (re_identity en) nowV (cs_revoked s))"
    and acc: "issue (re_identity en) (re_tenant en) = Inr acc" "new' = new"
    and s': "cs_refresh s' = refresh_Issue new (re_identity en) (re_tenant en) (re_family en) (nowI + ttl)
           (snd (Redeem tok nowR (cs_refresh s)))"
    using Refresh_Inr [OF assms(1)] .
  have "\<not> isl (fst (Redeem tok nowR (cs_refresh s)))"
    using Redeem_iff [of tok nowR "cs_refresh s" "re_identity en" "re_tenant en" "re_family en"] en by simp
  from Redeem_consumes [OF this] have "irs_byTok (cs_refresh s') tok = Some (en\<lparr>re_consumed := True\<rparr>)"
    using s' en assms(2) by (simp add: refresh_Issue_def consume_entry_def)
  moreover have "irs_byTok (cs_refresh s') new = Some (en\<lparr>re_expiresAt := nowI + ttl\<rparr>)"
    using s' en(2) by (cases en) (simp add: refresh_Issue_def active_at_def)
  ultimately show ?thesis using en nr acc by blast
qed

definition example_credential_state :: credential_state where
  "example_credential_state = \<lparr>cs_revoked = NewRevocationList, cs_refresh = example_refresh_store\<rparr>"

lemma Refresh_success:
  assumes "irs_byTok (cs_refresh s) tok = Some en" and "active_at nowR (Some en)"
    and "\<not> fst (IsRevoked (re_tenant en) (re_identity en) nowV (cs_revoked s))"
    and "issue (re_identity en) (re_tenant en) = Inr acc"
  shows "fst (Refresh (credential_RefreshService issue ttl) tok nowR nowV (Some new) nowI s) = Inr (acc, new)"
proof -
  have "fst (rs_Redeem credential_RefreshStore tok nowR s) = Inr (re_identity en, re_tenant en, re_family en)"
    using credential_refresh.redeem_iff assms(1,2) by simp
  then obtain s1 where "rs_Redeem credential_RefreshStore tok nowR s =
      (Inr (re_identity en, re_tenant en, re_family en), s1)" and "cs_revoked s1 = cs_revoked s"
    by (cases "rs_Redeem credential_RefreshStore tok nowR s")
      (auto simp: credential_RefreshStore_def case_prod_beta)
  then show ?thesis using assms(3,4)
    by (simp add: Refresh_def credential_RefreshService_def Refresh_rotate_def credential_revoker_view mint_in_memory)
qed

lemma example_refresh:
  "Refresh (credential_RefreshService (\<lambda>i t. Inr (t @ ''/'' @ i)) 60) ''t2'' 7 7 (Some ''t3'') 7 example_credential_state
   = (Inr (''acme/alice'', ''t3''),
      snd (Refresh (credential_RefreshService (\<lambda>i t. Inr (t @ ''/'' @ i)) 60) ''t2'' 7 7 (Some ''t3'') 7 example_credential_state))"
proof -
  have "fst (Refresh (credential_RefreshService (\<lambda>i t. Inr (t @ ''/'' @ i)) 60) ''t2'' 7 7 (Some ''t3'') 7
      example_credential_state) = Inr (''acme/alice'', ''t3'')"
    by (rule Refresh_success [of _ _ "\<lparr>re_identity = ''alice'', re_tenant = ''acme'', re_family = ''fam'',
          re_expiresAt = 90, re_consumed = False\<rparr>"])
      (simp_all add: example_credential_state_def example_refresh_store_entries active_at_def fresh_list_not_revoked)
  then show ?thesis by (metis prod.collapse)
qed

theorem refresh_rotates_witness:
  "\<exists>s'. Refresh (credential_RefreshService (\<lambda>i t. Inr (t @ ''/'' @ i)) 60) ''t2'' 7 7 (Some ''t3'') 7
          example_credential_state = (Inr (''acme/alice'', ''t3''), s') \<and>
     irs_byTok (cs_refresh s') ''t3'' = Some \<lparr>re_identity = ''alice'', re_tenant = ''acme'', re_family = ''fam'',
       re_expiresAt = 67, re_consumed = False\<rparr>"
  using refresh_rotates [OF example_refresh] example_refresh
  by (auto simp: example_credential_state_def example_refresh_store_entries)

text \<open>
  Revoking an identity ends its refreshes: the revocation service leaves no refresh token of the
  identity in the tenant, and up to the revocation's expiry even a token of it that the store
  holds later cannot be exchanged, whatever revocation checks come in between.
\<close>

theorem revoked_identity_cannot_refresh:
  assumes "t = '''' \<or> t = t'" and "\<forall>op \<in> set ops. within e op" and "nowV \<le> e"
    and "Revocation_Revoke credential_Revoker credential_RefreshStore t i e s = (err, s')"
    and "irs_byTok store tok = Some en" and "re_identity en = i" and "re_tenant en = t'"
  shows "irs_byTok (cs_refresh s') tok \<noteq> Some en \<and>
     fst (Refresh (credential_RefreshService issue ttl) tok nowR nowV (Some new) nowI
       \<lparr>cs_revoked = fold (revoker_step inmemory_Revoker) ops (cs_revoked s'), cs_refresh = store\<rparr>) \<noteq> Inr (acc, new')"
proof -
  have s': "cs_revoked s' = Revoke t i e (cs_revoked s)" "cs_refresh s' = RevokeAllForIdentity t i (cs_refresh s)"
    using assms(4) by (auto simp: Revocation_Revoke_def credential_Revoker_def credential_RefreshStore_def)
  let ?r = "fold (revoker_step inmemory_Revoker) ops (cs_revoked s')"
  have "list_in_force (Revoke t i e (cs_revoked s)) t' i e"
    using inmemory_revoker.revoke_in_force [of t i e "cs_revoked s"] assms(1) by (simp add: inmemory_Revoker_def)
  then have "list_in_force ?r t' i e" using inmemory_revoker.in_force_run [OF _ assms(2)] s' by simp
  then have "fst (IsRevoked t' i nowV ?r)"
    using inmemory_revoker.in_force_revoked assms(3) by (simp add: inmemory_Revoker_def)
  moreover have "\<not> fst (IsRevoked t' i nowV ?r)"
    if "fst (Refresh (credential_RefreshService issue ttl) tok nowR nowV (Some new) nowI
       \<lparr>cs_revoked = ?r, cs_refresh = store\<rparr>) = Inr (acc, new')"
    by (rule Refresh_Inr [of issue ttl tok nowR nowV new nowI "\<lparr>cs_revoked = ?r, cs_refresh = store\<rparr>" acc new'])
      (use that assms(5-7) in \<open>auto simp: prod_eq_iff\<close>)
  ultimately show ?thesis using assms(1,6,7) by (auto simp: s' RevokeAll_view)
qed

theorem revoked_identity_cannot_refresh_witness:
  "irs_byTok (cs_refresh (snd (Revocation_Revoke credential_Revoker credential_RefreshStore ''acme'' ''alice'' 50
      example_credential_state))) ''t2'' \<noteq> irs_byTok example_refresh_store ''t2'' \<and>
   fst (Refresh (credential_RefreshService (\<lambda>i t. Inr (t @ ''/'' @ i)) 60) ''t2'' 7 7 (Some ''t3'') 7
     \<lparr>cs_revoked = fold (revoker_step inmemory_Revoker) [OpCheck ''acme'' ''bob'' 6]
        (cs_revoked (snd (Revocation_Revoke credential_Revoker credential_RefreshStore ''acme'' ''alice'' 50
           example_credential_state))), cs_refresh = example_refresh_store\<rparr>) \<noteq> Inr (''acme/alice'', ''t3'')"
proof -
  let ?en = "\<lparr>re_identity = ''alice'', re_tenant = ''acme'', re_family = ''fam'', re_expiresAt = 90, re_consumed = False\<rparr>"
  have en: "irs_byTok example_refresh_store ''t2'' = Some ?en" by (simp add: example_refresh_store_entries)
  show ?thesis unfolding en
    by (rule revoked_identity_cannot_refresh [where t = "''acme''" and e = 50 and s = example_credential_state
          and i = "''alice''" and t' = "''acme''", OF _ _ _ prod.collapse [symmetric] en]) simp_all
qed

text \<open>
  C37. Reuse detection has a window: a token is redeemed, the same token is replayed before the
  redeeming request has stored its rotated token, the replay is reported as reuse and wipes the
  family, and then the rotated token is stored in the wiped family and stays active. The lineage a
  replay is meant to kill goes on.
\<close>

theorem rotation_survives_reuse_detection:
  fixes issue ttl
  defines "svc \<equiv> credential_RefreshService issue ttl"
  assumes tok: "irs_byTok (cs_refresh s) tok = Some en" "active_at nowR (Some en)" "nowB \<le> re_expiresAt en"
    and ok: "\<not> fst (IsRevoked (re_tenant en) (re_identity en) nowV (cs_revoked s))"
      "issue (re_identity en) (re_tenant en) = Inr acc"
    and s1: "s1 = snd (rs_Redeem (svc_store svc) tok nowR s)"
    and s2: "s2 = snd (rs_Redeem (svc_store svc) tok nowB s1)"
    and s3: "s3 = snd (Refresh_rotate svc (re_identity en) (re_tenant en) (re_family en) nowV (Some new) nowI s2)"
  shows "fst (rs_Redeem (svc_store svc) tok nowR s) = Inr (re_identity en, re_tenant en, re_family en) \<and>
    fst (rs_Redeem (svc_store svc) tok nowB s1) = Inl ErrRefreshTokenReused \<and>
    (\<forall>k en'. irs_byTok (cs_refresh s2) k = Some en' \<longrightarrow> re_family en' \<noteq> re_family en) \<and>
    irs_byTok (cs_refresh s3) new = Some (en\<lparr>re_expiresAt := nowI + ttl\<rparr>)"
proof -
  have svc: "svc_store svc = credential_RefreshStore" by (simp add: svc_def credential_RefreshService_def)
  have r1: "fst (rs_Redeem (svc_store svc) tok nowR s) = Inr (re_identity en, re_tenant en, re_family en)"
    using credential_refresh.redeem_iff tok(1,2) by (simp add: svc)
  then have "irs_byTok (cs_refresh s1) tok = Some (consume_entry en)"
    using credential_refresh.redeem_consumes [of tok nowR s] tok(1) by (simp add: s1 svc)
  then have r2: "fst (rs_Redeem (svc_store svc) tok nowB s1) = Inl ErrRefreshTokenReused \<and>
      (\<forall>k en'. irs_byTok (cs_refresh s2) k = Some en' \<longrightarrow> re_family en' \<noteq> re_family en)"
    using credential_refresh.redeem_replay [of s1 tok "consume_entry en" nowB] tok(3)
    by (simp add: svc s2 consume_entry_def)
  have "cs_revoked s2 = cs_revoked s" by (simp add: s1 s2 svc credential_RefreshStore_def case_prod_beta)
  then have "cs_refresh s3 = refresh_Issue new (re_identity en) (re_tenant en) (re_family en) (nowI + ttl) (cs_refresh s2)"
    using ok by (simp add: s3 svc_def Refresh_rotate_def credential_RefreshService_def credential_revoker_view mint_in_memory)
  then have "irs_byTok (cs_refresh s3) new = Some (en\<lparr>re_expiresAt := nowI + ttl\<rparr>)"
    using tok(2) by (cases en) (simp add: refresh_Issue_def active_at_def)
  with r1 r2 show ?thesis by blast
qed

theorem rotation_survives_reuse_detection_witness:
  "let svc = credential_RefreshService (\<lambda>i t. Inr (t @ ''/'' @ i)) 60;
       s1 = snd (rs_Redeem (svc_store svc) ''t2'' 7 example_credential_state);
       s2 = snd (rs_Redeem (svc_store svc) ''t2'' 8 s1);
       s3 = snd (Refresh_rotate svc ''alice'' ''acme'' ''fam'' 9 (Some ''t3'') 9 s2)
   in fst (rs_Redeem (svc_store svc) ''t2'' 8 s1) = Inl ErrRefreshTokenReused \<and>
      irs_byTok (cs_refresh s3) ''t3'' = Some \<lparr>re_identity = ''alice'', re_tenant = ''acme'',
        re_family = ''fam'', re_expiresAt = 69, re_consumed = False\<rparr>"
proof -
  let ?en = "\<lparr>re_identity = ''alice'', re_tenant = ''acme'', re_family = ''fam'', re_expiresAt = 90, re_consumed = False\<rparr>"
  have "irs_byTok (cs_refresh example_credential_state) ''t2'' = Some ?en" "active_at 7 (Some ?en)"
    "(8 :: go_time) \<le> re_expiresAt ?en"
    "\<not> fst (IsRevoked (re_tenant ?en) (re_identity ?en) 9 (cs_revoked example_credential_state))"
    by (simp_all add: example_credential_state_def example_refresh_store_entries active_at_def fresh_list_not_revoked)
  from rotation_survives_reuse_detection [where issue = "\<lambda>i t. Inr (t @ ''/'' @ i)" and ttl = 60 and nowI = 9
      and new = "''t3''", OF this refl refl refl refl]
  show ?thesis by simp
qed

end
