(* ===== verification/Ring_Buffer.thy ===== *)
theory Ring_Buffer
  imports Audit_Log
begin

text \<open>
  The bounded live views: the dashboard's ring of audit entries
  (\<open>internal/features/dashboard/usecase/ring_buffer.go\<close>) and the ring of anomaly alerts
  (\<open>internal/features/anomaly/usecase/alert_buffer.go\<close>). They are separate types in the code with the
  same behaviour; the locale \<open>ring\<close> states it once: after any number of additions a ring answers
  from the most recent ones, under consecutive ids.

  Ids are 64-bit counters in the code; the model's are integers, equal below \<open>2 ^ 63\<close> additions.
\<close>

section \<open>The dashboard ring\<close>

record LiveEntry =
  le_ID :: int
  le_Timestamp :: go_time
  le_Identity :: string
  le_Tenant :: string
  le_Tool :: string
  le_Decision :: string
  le_LatencyMS :: int
  le_Reason :: string
  le_TraceID :: string

record RingBuffer =
  rg_cap :: int
  rg_entries :: "LiveEntry list"
  rg_nextID :: int

definition NewRingBuffer :: "int \<Rightarrow> RingBuffer" where
  "NewRingBuffer capacity =
     (let capacity = (if capacity < 1 then 1 else capacity)
      in \<lparr>rg_cap = capacity, rg_entries = [], rg_nextID = 0\<rparr>)"

definition FromAuditEntry :: "int \<Rightarrow> Entry \<Rightarrow> LiveEntry" where
  "FromAuditEntry i e = \<lparr>le_ID = i, le_Timestamp = e_Timestamp e, le_Identity = e_Identity e, le_Tenant = e_Tenant e,
     le_Tool = e_Tool e, le_Decision = e_Decision e, le_LatencyMS = e_LatencyMS e, le_Reason = e_Reason e,
     le_TraceID = e_TraceID e\<rparr>"

definition RingBuffer_Publish :: "Entry \<Rightarrow> RingBuffer \<Rightarrow> RingBuffer" where
  "RingBuffer_Publish e b =
     (let b = b\<lparr>rg_nextID := rg_nextID b + 1\<rparr>;
          entry = FromAuditEntry (rg_nextID b) e;
          b = (if rg_cap b \<le> int (length (rg_entries b)) then b\<lparr>rg_entries := drop 1 (rg_entries b)\<rparr> else b)
      in b\<lparr>rg_entries := rg_entries b @ [entry]\<rparr>)"

definition keep_last :: "int \<Rightarrow> 'a list \<Rightarrow> 'a list" where
  "keep_last limit out = (if 0 < limit \<and> limit < int (length out) then drop (length out - nat limit) out else out)"

definition RingBuffer_Since :: "RingBuffer \<Rightarrow> int \<Rightarrow> int \<Rightarrow> string \<Rightarrow> LiveEntry list" where
  "RingBuffer_Since b afterID limit tenantFilter =
     (let afterID = (if rg_nextID b < afterID then 0 else afterID);
          out = filter (\<lambda>e. \<not> le_ID e \<le> afterID \<and> \<not> (tenantFilter \<noteq> '''' \<and> le_Tenant e \<noteq> tenantFilter)) (rg_entries b)
      in keep_last limit out)"

section \<open>The alert ring\<close>

text \<open>The type of an anomaly's score is left open.\<close>

datatype Kind = KindRateSpike | KindNovelTool | KindDenyRateSpike | KindMLScore | KindDrift | KindTenantDrift
  | KindIdentityChurn

record 'f Anomaly =
  an_Timestamp :: go_time
  an_Identity :: string
  an_Tenant :: string
  an_Kind :: Kind
  an_Detail :: string
  an_Entry :: Entry
  an_Score :: "'f option"
  an_AutoBlockSeconds :: int

record 'f Alert =
  al_ID :: int
  al_Anomaly :: "'f Anomaly"

record 'f AlertBuffer =
  ab_cap :: int
  ab_entries :: "'f Alert list"
  ab_nextID :: int

definition NewAlertBuffer :: "int \<Rightarrow> 'f AlertBuffer" where
  "NewAlertBuffer capacity =
     (let capacity = (if capacity < 1 then 1 else capacity)
      in \<lparr>ab_cap = capacity, ab_entries = [], ab_nextID = 0\<rparr>)"

definition AlertBuffer_Add :: "'f Anomaly \<Rightarrow> 'f AlertBuffer \<Rightarrow> 'f AlertBuffer" where
  "AlertBuffer_Add a b =
     (let b = b\<lparr>ab_nextID := ab_nextID b + 1\<rparr>;
          entry = \<lparr>al_ID = ab_nextID b, al_Anomaly = a\<rparr>;
          b = (if ab_cap b \<le> int (length (ab_entries b)) then b\<lparr>ab_entries := drop 1 (ab_entries b)\<rparr> else b)
      in b\<lparr>ab_entries := ab_entries b @ [entry]\<rparr>)"

definition AlertBuffer_Since :: "'f AlertBuffer \<Rightarrow> int \<Rightarrow> int \<Rightarrow> string \<Rightarrow> 'f Alert list" where
  "AlertBuffer_Since b afterID limit tenantFilter =
     (let afterID = (if ab_nextID b < afterID then 0 else afterID);
          out = filter (\<lambda>e. \<not> al_ID e \<le> afterID \<and>
            \<not> (tenantFilter \<noteq> '''' \<and> an_Tenant (al_Anomaly e) \<noteq> tenantFilter)) (ab_entries b)
      in keep_last limit out)"

section \<open>The contract of a ring\<close>

text \<open>
  \<open>mk i x\<close> is the entry stored for the \<open>i\<close>-th addition; \<open>ok\<close> holds on the states a ring reaches (its
  capacity field has the value it was made with).
\<close>

definition last_n :: "nat \<Rightarrow> 'a list \<Rightarrow> 'a list" where
  "last_n n xs = drop (length xs - n) xs"

definition numbered :: "(int \<Rightarrow> 'x \<Rightarrow> 'e) \<Rightarrow> 'x list \<Rightarrow> 'e list" where
  "numbered mk xs = map2 mk [1..int (length xs)] xs"

lemma length_numbered [simp]: "length (numbered mk xs) = length xs"
  by (simp add: numbered_def)

lemma numbered_snoc: "numbered mk (xs @ [x]) = numbered mk xs @ [mk (int (length xs) + 1) x]"
proof -
  have "[1..int (length (xs @ [x]))] = [1..int (length xs)] @ [int (length xs) + 1]"
    by (simp add: upto_rec2)
  then show ?thesis by (simp add: numbered_def)
qed

locale ring =
  fixes new :: 's and add :: "'x \<Rightarrow> 's \<Rightarrow> 's" and entries :: "'s \<Rightarrow> 'e list" and nextID :: "'s \<Rightarrow> int"
    and ok :: "'s \<Rightarrow> bool" and cap :: nat and mk :: "int \<Rightarrow> 'x \<Rightarrow> 'e"
  assumes cap_pos: "0 < cap"
    and new_ok: "ok new" and new_entries: "entries new = []" and new_nextID: "nextID new = 0"
    and add_ok: "ok s \<Longrightarrow> ok (add x s)"
    and add_entries: "ok s \<Longrightarrow> entries (add x s) =
      (if cap \<le> length (entries s) then drop 1 (entries s) else entries s) @ [mk (nextID s + 1) x]"
    and add_nextID: "ok s \<Longrightarrow> nextID (add x s) = nextID s + 1"
begin

lemma after_adds:
  "ok (fold add xs new) \<and> nextID (fold add xs new) = int (length xs) \<and>
   entries (fold add xs new) = last_n cap (numbered mk xs)"
proof (induction xs rule: rev_induct)
  case (snoc x xs)
  then have "entries (fold add (xs @ [x]) new) =
      (if cap \<le> length (last_n cap (numbered mk xs)) then drop 1 (last_n cap (numbered mk xs))
       else last_n cap (numbered mk xs)) @ [mk (int (length xs) + 1) x]"
    by (simp add: add_entries)
  also have "\<dots> = last_n cap (numbered mk (xs @ [x]))"
    using cap_pos by (auto simp: numbered_snoc last_n_def not_le Suc_diff_le)
  finally show ?case using snoc by (simp add: add_nextID add_ok)
qed (simp add: new_ok new_entries new_nextID last_n_def numbered_def)

end

section \<open>Both rings keep the contract\<close>

definition effective_cap :: "int \<Rightarrow> nat" where
  "effective_cap capacity = nat (if capacity < 1 then 1 else capacity)"

lemma int_effective_cap: "int (effective_cap c) = (if c < 1 then 1 else c)"
  by (simp add: effective_cap_def)

interpretation dashboard_ring: ring "NewRingBuffer c" RingBuffer_Publish rg_entries rg_nextID
    "\<lambda>b. rg_cap b = int (effective_cap c)" "effective_cap c" FromAuditEntry
  for c
  by unfold_locales (auto simp: NewRingBuffer_def RingBuffer_Publish_def int_effective_cap effective_cap_def)

interpretation alert_ring: ring "NewAlertBuffer c" AlertBuffer_Add ab_entries ab_nextID
    "\<lambda>b. ab_cap b = int (effective_cap c)" "effective_cap c" "\<lambda>i a. \<lparr>al_ID = i, al_Anomaly = a\<rparr>"
  for c
  by unfold_locales (auto simp: NewAlertBuffer_def AlertBuffer_Add_def int_effective_cap effective_cap_def)


section \<open>What the views show\<close>

text \<open>
  After any sequence of entries, a poll answers the entries after the given id among the most recent
  ones the capacity holds, oldest first, of the given tenant only when one is given, cut to the last
  ones when a limit is given. An id ahead of everything recorded, from before a restart, reads as the start.
\<close>

lemma live_view_of_published:
  "RingBuffer_Since (fold RingBuffer_Publish es (NewRingBuffer c)) afterID limit tenantFilter =
     keep_last limit
       (filter (\<lambda>e. (if int (length es) < afterID then 0 else afterID) < le_ID e \<and> (tenantFilter = '''' \<or> le_Tenant e = tenantFilter))
          (last_n (effective_cap c) (numbered FromAuditEntry es)))"
  using dashboard_ring.after_adds [where c = c and xs = es] by (simp add: RingBuffer_Since_def not_le)

text \<open>
  The alert view is exact: after any sequence of anomalies, a poll answers the numbered alerts
  after the given id among the most recent ones the capacity holds, oldest first, of the given tenant only
  when one is given, cut to the last ones when a limit is given.
\<close>

theorem alert_view_exact:
  "AlertBuffer_Since (fold AlertBuffer_Add xs (NewAlertBuffer c)) afterID limit tenantFilter =
     keep_last limit
       (filter (\<lambda>e. (if int (length xs) < afterID then 0 else afterID) < al_ID e \<and>
            (tenantFilter = '''' \<or> an_Tenant (al_Anomaly e) = tenantFilter))
          (last_n (effective_cap c) (numbered (\<lambda>i a. \<lparr>al_ID = i, al_Anomaly = a\<rparr>) xs)))"
  using alert_ring.after_adds [where c = c and xs = xs] by (simp add: AlertBuffer_Since_def not_le)

end
