(* ===== verification/Float64.thy ===== *)
theory Float64
  imports Complex_Main Wardline_Prelude
begin

text \<open>
  What the code uses of Go's \<open>float64\<close>: IEEE 754 double precision with rounding to nearest, ties to even. A value is
  a rational, an infinity or a NaN; every operation rounds the exact result once. The sign of a zero is not
  kept: the code neither divides by a zero nor prints one it could see. A compiler that fuses a
  multiplication with an addition, which the language allows and the amd64 one does not do, is not modelled.

  The lemmas are what the detectors rely on: comparison is an order apart from NaN, rounding is monotone, keeps
  signs and is exact on the integers a double can hold.
\<close>

section \<open>Values and comparison\<close>

datatype float64 = NegInf | Finite rat | PosInf | NaN

fun f_le :: "float64 \<Rightarrow> float64 \<Rightarrow> bool" where
  "f_le NaN y = False"
| "f_le x NaN = False"
| "f_le NegInf y = True"
| "f_le x PosInf = True"
| "f_le (Finite a) (Finite b) = (a \<le> b)"
| "f_le x y = False"

definition f_lt :: "float64 \<Rightarrow> float64 \<Rightarrow> bool" where
  "f_lt x y \<longleftrightarrow> f_le x y \<and> x \<noteq> y"

lemma f_le_refl: "f_le x x \<longleftrightarrow> x \<noteq> NaN"
  by (cases x) auto

lemma f_le_trans: "f_le x y \<Longrightarrow> f_le y z \<Longrightarrow> f_le x z"
  by (cases x; cases y; cases z) auto

lemma f_le_antisym: "f_le x y \<Longrightarrow> f_le y x \<Longrightarrow> x = y"
  by (cases x; cases y) auto

lemma f_not_le: "x \<noteq> NaN \<Longrightarrow> y \<noteq> NaN \<Longrightarrow> \<not> f_le x y \<longleftrightarrow> f_lt y x"
  by (cases x; cases y) (auto simp: f_lt_def)

lemma f_le_notNaN: "f_le x y \<Longrightarrow> x \<noteq> NaN \<and> y \<noteq> NaN"
  by (cases x; cases y) auto

lemma f_lt_le: "f_lt x y \<Longrightarrow> f_le x y"
  by (simp add: f_lt_def)

lemma f_le_lt_trans: "f_le x y \<Longrightarrow> f_lt y z \<Longrightarrow> f_lt x z"
  using f_le_trans f_le_antisym by (auto simp: f_lt_def)

lemma f_lt_le_trans: "f_lt x y \<Longrightarrow> f_le y z \<Longrightarrow> f_lt x z"
  using f_le_trans f_le_antisym by (auto simp: f_lt_def)

lemma f_not_lt: "f_le y x \<Longrightarrow> \<not> f_lt x y"
  using f_le_antisym by (auto simp: f_lt_def)

lemma f_lt_Finite [simp]: "f_lt (Finite a) (Finite b) \<longleftrightarrow> a < b"
  by (auto simp: f_lt_def)

lemma f_lt_NaN [simp]: "\<not> f_lt NaN x" "\<not> f_lt x NaN"
  by (cases x; simp add: f_lt_def)+

section \<open>Rounding\<close>

text \<open>The nearest integer, ties to even; the binary exponent of a positive rational.\<close>

definition round_even :: "rat \<Rightarrow> int" where
  "round_even r =
     (let f = \<lfloor>r\<rfloor>; d = r - of_int f
      in if d < 1 / 2 then f else if 1 / 2 < d then f + 1 else if even f then f else f + 1)"

fun bit_length :: "nat \<Rightarrow> nat" where
  "bit_length n = (if n = 0 then 0 else Suc (bit_length (n div 2)))"

declare bit_length.simps [simp del]

definition exponent :: "rat \<Rightarrow> int" where
  "exponent r =
     (let (p, q) = quotient_of r; e = int (bit_length (nat p)) - int (bit_length (nat q))
      in if r < 2 powi e then e - 1 else e)"

definition round_pos :: "rat \<Rightarrow> rat" where
  "round_pos a = (let u = 2 powi (max (exponent a) (-1022) - 52) in of_int (round_even (a / u)) * u)"

definition round64 :: "rat \<Rightarrow> float64" where
  "round64 r =
     (if r = 0 then Finite 0
      else let v = round_pos \<bar>r\<bar>
           in if 2 ^ 1024 \<le> v then if r < 0 then NegInf else PosInf
              else Finite (if r < 0 then - v else v))"

section \<open>Operations\<close>

fun f_neg :: "float64 \<Rightarrow> float64" where
  "f_neg NaN = NaN"
| "f_neg PosInf = NegInf"
| "f_neg NegInf = PosInf"
| "f_neg (Finite a) = Finite (- a)"

fun f_abs :: "float64 \<Rightarrow> float64" where
  "f_abs NaN = NaN"
| "f_abs (Finite a) = Finite \<bar>a\<bar>"
| "f_abs x = PosInf"

fun f_add :: "float64 \<Rightarrow> float64 \<Rightarrow> float64" where
  "f_add (Finite a) (Finite b) = round64 (a + b)"
| "f_add NaN y = NaN"
| "f_add x NaN = NaN"
| "f_add PosInf NegInf = NaN"
| "f_add NegInf PosInf = NaN"
| "f_add PosInf y = PosInf"
| "f_add NegInf y = NegInf"
| "f_add x PosInf = PosInf"
| "f_add x NegInf = NegInf"

definition f_sub :: "float64 \<Rightarrow> float64 \<Rightarrow> float64" where
  "f_sub x y = f_add x (f_neg y)"

definition f_sign :: "float64 \<Rightarrow> int" where
  "f_sign x = (case x of NaN \<Rightarrow> 0 | PosInf \<Rightarrow> 1 | NegInf \<Rightarrow> -1 | Finite a \<Rightarrow> (if a < 0 then -1 else if a = 0 then 0 else 1))"

definition f_inf :: "int \<Rightarrow> float64" where
  "f_inf s = (if s < 0 then NegInf else if s = 0 then NaN else PosInf)"

fun f_mul :: "float64 \<Rightarrow> float64 \<Rightarrow> float64" where
  "f_mul (Finite a) (Finite b) = round64 (a * b)"
| "f_mul NaN y = NaN"
| "f_mul x NaN = NaN"
| "f_mul x y = f_inf (f_sign x * f_sign y)"

fun f_div :: "float64 \<Rightarrow> float64 \<Rightarrow> float64" where
  "f_div (Finite a) (Finite b) = (if b = 0 then f_inf (f_sign (Finite a)) else round64 (a / b))"
| "f_div NaN y = NaN"
| "f_div x NaN = NaN"
| "f_div (Finite a) y = Finite 0"
| "f_div x (Finite b) = f_inf (f_sign x * (if b < 0 then -1 else 1))"
| "f_div x y = NaN"

text \<open>\<open>math.Max\<close>: an infinity above wins even over a NaN.\<close>

definition f_max :: "float64 \<Rightarrow> float64 \<Rightarrow> float64" where
  "f_max x y = (if x = PosInf \<or> y = PosInf then PosInf else if x = NaN \<or> y = NaN then NaN else if f_lt y x then x else y)"

text \<open>
  \<open>math.Sqrt\<close>, correctly rounded: the integer part of a root scaled to some sixty bits decides the rounding together
  with whether it is exact.
\<close>

fun isqrt :: "nat \<Rightarrow> nat" where
  "isqrt n = (if n = 0 then 0 else let s = 2 * isqrt (n div 4) in if (s + 1) * (s + 1) \<le> n then s + 1 else s)"

declare isqrt.simps [simp del]

fun f_sqrt :: "float64 \<Rightarrow> float64" where
  "f_sqrt NaN = NaN"
| "f_sqrt NegInf = NaN"
| "f_sqrt PosInf = PosInf"
| "f_sqrt (Finite r) =
     (if r < 0 then NaN else if r = 0 then Finite 0
      else let k = 60 - exponent r div 2; scaled = r * 4 powi k; s = int (isqrt (nat \<lfloor>scaled\<rfloor>))
           in round64 ((if of_int (s * s) = scaled then of_int s else of_int s + 1 / 2) * 2 powi (- k)))"

text \<open>Conversions: from an integer, and \<open>int(x)\<close>, which truncates (out of range it depends on the platform).\<close>

definition f_of_int :: "int \<Rightarrow> float64" where
  "f_of_int n = round64 (of_int n)"

definition f_to_int :: "float64 \<Rightarrow> int option" where
  "f_to_int x = (case x of
       Finite r \<Rightarrow> let n = (if r < 0 then - \<lfloor>- r\<rfloor> else \<lfloor>r\<rfloor>) in if - (2 ^ 63) \<le> n \<and> n < 2 ^ 63 then Some n else None
     | _ \<Rightarrow> None)"

text \<open>\<open>time.Duration.Seconds\<close>.\<close>

definition Duration_Seconds :: "duration \<Rightarrow> float64" where
  "Duration_Seconds d = f_add (f_of_int (d sdiv second)) (f_div (f_of_int (d smod second)) (f_of_int 1000000000))"

text \<open>The verb \<open>%.2f\<close>.\<close>

definition fmt2 :: "float64 \<Rightarrow> string" where
  "fmt2 x = (case x of
       NaN \<Rightarrow> ''NaN'' | PosInf \<Rightarrow> ''+Inf'' | NegInf \<Rightarrow> ''-Inf''
     | Finite r \<Rightarrow> let n = nat (round_even (\<bar>r\<bar> * 100))
         in (if r < 0 then ''-'' else '''') @ digits10 (n div 100) @ ''.'' @ pad_digits 2 (n mod 100))"

section \<open>Rounding keeps order and signs\<close>

lemma round_even_of_int [simp]: "round_even (of_int n) = n"
  by (simp add: round_even_def)

lemma round_even_mono:
  assumes "r \<le> s" shows "round_even r \<le> round_even s"
proof (cases "\<lfloor>r\<rfloor> = \<lfloor>s\<rfloor>")
  case True
  with assms show ?thesis by (simp add: round_even_def)
next
  case False
  with floor_mono [OF assms] have "\<lfloor>r\<rfloor> + 1 \<le> \<lfloor>s\<rfloor>" by simp
  then show ?thesis by (auto simp: round_even_def)
qed

lemma round_even_nonneg: "0 \<le> r \<Longrightarrow> 0 \<le> round_even r"
  using round_even_mono [of 0 r] by (simp add: round_even_def)

lemma bit_length_bounds: "0 < n \<Longrightarrow> 2 ^ (bit_length n - 1) \<le> n \<and> n < 2 ^ bit_length n \<and> 0 < bit_length n"
proof (induction n rule: bit_length.induct)
  case (1 n)
  show ?case
  proof (cases "n div 2 = 0")
    case True
    with 1(2) have "n = 1" by auto
    then show ?thesis by (simp add: bit_length.simps)
  next
    case False
    with 1 have IH: "2 ^ (bit_length (n div 2) - 1) \<le> n div 2 \<and> n div 2 < 2 ^ bit_length (n div 2) \<and> 0 < bit_length (n div 2)" by auto
    then obtain k where k: "bit_length (n div 2) = Suc k" using gr0_implies_Suc by blast
    moreover have "bit_length n = Suc (bit_length (n div 2))" using 1(2) by (subst bit_length.simps) simp
    moreover obtain x where "x = (2::nat) ^ k" by blast
    ultimately show ?thesis using IH by auto
  qed
qed

lemma rat_power_iff: "(2::rat) ^ k \<le> of_nat n \<longleftrightarrow> 2 ^ k \<le> n" "of_nat n < (2::rat) ^ k \<longleftrightarrow> n < 2 ^ k"
  by (metis of_nat_le_iff of_nat_numeral of_nat_power) (metis of_nat_less_iff of_nat_numeral of_nat_power)

lemma exponent_bounds:
  assumes "0 < r" shows "2 powi exponent r \<le> r" "r < 2 powi (exponent r + 1)"
proof -
  obtain p q where pq: "quotient_of r = (p, q)" by fastforce
  then have r: "r = of_int p / of_int q" and q: "0 < q" by (auto intro: quotient_of_div quotient_of_denom_pos)
  with assms have p: "0 < p" by (simp add: zero_less_divide_iff)
  obtain P Q where PQ: "p = int P" "q = int Q" using p q by (metis zero_le_imp_eq_int less_imp_le)
  define a b where "a = bit_length P" and "b = bit_length Q"
  have "2 ^ (a - 1) \<le> P \<and> P < 2 ^ a \<and> 0 < a" "2 ^ (b - 1) \<le> Q \<and> Q < 2 ^ b \<and> 0 < b"
    unfolding a_def b_def using p q PQ bit_length_bounds [of P] bit_length_bounds [of Q] by simp_all
  then have ab: "(2::rat) ^ (a - 1) \<le> of_nat P" "of_nat P < (2::rat) ^ a" "(2::rat) ^ (b - 1) \<le> of_nat Q" "of_nat Q < (2::rat) ^ b" "0 < a" "0 < b"
    by (simp_all only: rat_power_iff)
  let ?e = "int a - int b"
  have pow: "(2::rat) powi (?e + 1) = 2 ^ a / 2 ^ (b - 1)" "(2::rat) powi (?e - 1) = 2 ^ (a - 1) / 2 ^ b"
    using ab(5,6) by (simp_all add: power_int_add power_int_diff power_eq_if [of _ b] power_eq_if [of _ a])
  have "r < 2 powi (?e + 1)"
    unfolding pow r using ab(2,3) p q PQ by (intro frac_less) auto
  moreover have "2 powi (?e - 1) \<le> r"
    unfolding pow r using ab(1,4) p q PQ by (intro frac_le) auto
  moreover have "exponent r = (if r < 2 powi ?e then ?e - 1 else ?e)"
    by (simp add: exponent_def pq PQ a_def b_def)
  ultimately show "2 powi exponent r \<le> r" "r < 2 powi (exponent r + 1)" by auto
qed


lemma powi_le: "a \<le> b \<Longrightarrow> (2::rat) powi a \<le> 2 powi b"
  by (rule power_int_increasing) auto

lemma powi_split: "(2::rat) powi (m + 1) = of_int (2 ^ 53) * 2 powi (m - 52)" "(2::rat) powi m = of_int (2 ^ 52) * 2 powi (m - 52)"
  using power_int_add [of "2::rat" 53 "m - 52"] power_int_add [of "2::rat" 52 "m - 52"] by (simp_all add: add.commute)

lemma exponent_mono: "0 < r \<Longrightarrow> r \<le> s \<Longrightarrow> exponent r \<le> exponent s"
proof (rule ccontr)
  assume rs: "0 < r" "r \<le> s" and "\<not> exponent r \<le> exponent s"
  then have "(2::rat) powi (exponent s + 1) \<le> 2 powi exponent r" by (intro powi_le) simp
  with exponent_bounds [of r] exponent_bounds [of s] rs show False by linarith
qed

lemma round_even_le_of_int: "r \<le> of_int n \<Longrightarrow> round_even r \<le> n"
  using round_even_mono [of r "of_int n"] by simp

lemma round_even_ge_of_int: "of_int n \<le> r \<Longrightarrow> n \<le> round_even r"
  using round_even_mono [of "of_int n" r] by simp

text \<open>Within one binade the rounded value stays between the powers of two.\<close>

lemma round_pos_upper:
  assumes "0 < a" and "exponent a < e" and "-1022 < e" shows "round_pos a \<le> 2 powi e"
proof -
  define m where "m = max (exponent a) (-1022)"
  define u :: rat where "u = 2 powi (m - 52)"
  have u: "0 < u" by (simp add: u_def)
  have m: "exponent a \<le> m" "m < e" using assms by (auto simp: m_def)
  have "a \<le> of_int (2 ^ 53) * u"
    using exponent_bounds(2) [OF assms(1)] powi_le [of "exponent a + 1" "m + 1"] m unfolding u_def powi_split(1) [symmetric] by linarith
  with u have "a / u \<le> of_int (2 ^ 53)" by (simp only: pos_divide_le_eq)
  then have "(of_int (round_even (a / u)) :: rat) \<le> of_int (2 ^ 53)"
    by (simp only: of_int_le_iff round_even_le_of_int)
  then have "round_pos a \<le> of_int (2 ^ 53) * u"
    unfolding round_pos_def Let_def m_def [symmetric] u_def [symmetric] using u by (intro mult_right_mono) linarith+
  also have "\<dots> = 2 powi (m + 1)" unfolding u_def by (rule powi_split(1) [symmetric])
  also have "\<dots> \<le> 2 powi e" using m by (intro powi_le) simp
  finally show ?thesis .
qed

lemma round_pos_lower:
  assumes "0 < a" and "-1022 \<le> exponent a" shows "2 powi exponent a \<le> round_pos a"
proof -
  define u :: rat where "u = 2 powi (exponent a - 52)"
  have u: "0 < u" by (simp add: u_def)
  have "of_int (2 ^ 52) * u \<le> a"
    using exponent_bounds(1) [OF assms(1)] unfolding u_def powi_split(2) [symmetric] .
  with u have "of_int (2 ^ 52) \<le> a / u" by (simp only: pos_le_divide_eq)
  then have "(of_int (2 ^ 52) :: rat) \<le> of_int (round_even (a / u))"
    by (simp only: of_int_le_iff round_even_ge_of_int)
  then have "of_int (2 ^ 52) * u \<le> of_int (round_even (a / u)) * u" using u by (intro mult_right_mono) linarith+
  moreover have "max (exponent a) (-1022) = exponent a" using assms(2) by simp
  ultimately show ?thesis unfolding round_pos_def Let_def u_def powi_split(2) [symmetric] by simp
qed

lemma round_pos_nonneg: "0 \<le> a \<Longrightarrow> 0 \<le> round_pos a"
  by (simp add: round_pos_def round_even_nonneg)

lemma round_pos_mono:
  assumes "0 < a" and "a \<le> b" shows "round_pos a \<le> round_pos b"
proof (cases "max (exponent a) (-1022) = max (exponent b) (-1022)")
  case True
  then show ?thesis
    using assms by (auto simp: round_pos_def intro!: mult_right_mono round_even_mono divide_right_mono)
next
  case False
  with exponent_mono [OF assms] have "exponent a < exponent b" "-1022 < exponent b" by auto
  with assms round_pos_upper [of a "exponent b"] round_pos_lower [of b] show ?thesis by force
qed

lemma round64_mono:
  assumes "a \<le> b" shows "f_le (round64 a) (round64 b)"
proof -
  consider "0 < a" | "b < 0" | "a \<le> 0" "0 \<le> b" using assms by linarith
  then show ?thesis
  proof cases
    case 1
    with assms round_pos_mono [of a b] show ?thesis by (auto simp: round64_def)
  next
    case 2
    with assms round_pos_mono [of "- b" "- a"] show ?thesis by (auto simp: round64_def)
  next
    case 3
    with round_pos_nonneg [of "- a"] round_pos_nonneg [of b] show ?thesis by (auto simp: round64_def)
  qed
qed

lemma round64_zero [simp]: "round64 0 = Finite 0"
  by (simp add: round64_def)

lemma round64_notNaN [simp]: "round64 r \<noteq> NaN"
  by (simp add: round64_def)

lemma round64_sign: "0 \<le> r \<Longrightarrow> f_le (Finite 0) (round64 r)" "r \<le> 0 \<Longrightarrow> f_le (round64 r) (Finite 0)"
  using round64_mono [of 0 r] round64_mono [of r 0] by simp_all

text \<open>Integers up to \<open>2^53\<close> are doubles.\<close>

lemma round_pos_int:
  assumes "0 < n" and "n \<le> 2 ^ 53" shows "round_pos (of_int n) = of_int n"
proof -
  let ?e = "exponent (of_int n)"
  have e: "2 powi ?e \<le> (of_int n :: rat)" "of_int n < (2::rat) powi (?e + 1)" using exponent_bounds [of "of_int n"] assms by auto
  have "0 \<le> ?e"
  proof (rule ccontr)
    assume "\<not> 0 \<le> ?e"
    then have "(2::rat) powi (?e + 1) \<le> 2 powi 0" by (intro powi_le) simp
    with e(2) assms(1) show False by simp
  qed
  moreover have "?e \<le> 53"
  proof (rule ccontr)
    assume "\<not> ?e \<le> 53"
    then have "(2::rat) powi 54 \<le> 2 powi ?e" by (intro powi_le) simp
    moreover have "(of_int n :: rat) \<le> of_int (2 ^ 53)" using assms(2) by (simp only: of_int_le_iff)
    ultimately show False using e(1) by simp
  qed
  ultimately consider k where "?e = int k" "k \<le> 52" | "?e = 53"
    by (cases "?e = 53") (auto dest: zero_le_imp_eq_int)
  then show ?thesis
  proof cases
    case 1
    define j where "j = 52 - k"
    with 1 have "?e - 52 = - int j" by simp
    then have u: "(2::rat) powi (?e - 52) = inverse (2 ^ j)" by (simp only: power_int_minus power_int_of_nat)
    have "(of_int n :: rat) / 2 powi (?e - 52) = of_int (n * 2 ^ j)" unfolding u by (simp add: divide_inverse)
    then have "round_even ((of_int n :: rat) / 2 powi (?e - 52)) = n * 2 ^ j" by (simp only: round_even_of_int)
    moreover have "max ?e (-1022) = ?e" using 1 by simp
    ultimately show ?thesis unfolding round_pos_def Let_def by (simp add: u)
  next
    case 2
    with e(1) have "of_int (2 ^ 53) \<le> (of_int n :: rat)" by simp
    then have "2 ^ 53 \<le> n" by (simp only: of_int_le_iff)
    with assms(2) have "n = 2 ^ 53" by simp
    moreover have "round_even ((2 ^ 53 :: rat) / 2) = 2 ^ 52" using round_even_of_int [of "2 ^ 52"] by simp
    ultimately show ?thesis using 2 by (simp add: round_pos_def)
  qed
qed

lemma f_of_int_exact: "\<bar>n\<bar> \<le> 2 ^ 53 \<Longrightarrow> f_of_int n = Finite (of_int n)"
proof -
  assume n: "\<bar>n\<bar> \<le> 2 ^ 53"
  have "round_pos (of_int \<bar>n\<bar>) = of_int \<bar>n\<bar>" if "n \<noteq> 0" using that n by (intro round_pos_int) auto
  moreover have "(of_int \<bar>n\<bar> :: rat) < 2 ^ 1024"
  proof -
    have "(of_int \<bar>n\<bar> :: rat) \<le> of_int (2 ^ 53)" using n by (simp only: of_int_le_iff)
    also have "\<dots> < 2 ^ 1024" by simp
    finally show ?thesis .
  qed
  ultimately show ?thesis by (auto simp: f_of_int_def round64_def)
qed

lemma round64_int: "\<bar>n\<bar> \<le> 2 ^ 53 \<Longrightarrow> round64 (of_int n) = Finite (of_int n)"
  using f_of_int_exact by (simp add: f_of_int_def)

lemma round64_numeral: "numeral k \<le> (2 ^ 53 :: int) \<Longrightarrow> round64 (numeral k) = Finite (numeral k)" "round64 1 = Finite 1"
  using round64_int [of "numeral k"] round64_int [of 1] by simp_all

text \<open>To evaluate a rounding, give the exponent.\<close>

lemma exponent_eqI:
  assumes "2 powi e \<le> r" and "r < 2 powi (e + 1)" shows "exponent r = e"
proof -
  have r: "0 < r" using assms(1) by (rule less_le_trans [rotated]) simp
  have "\<not> e < exponent r" using powi_le [of "e + 1" "exponent r"] exponent_bounds(1) [OF r] assms(2) by (auto dest: zless_imp_add1_zle)
  moreover have "\<not> exponent r < e" using powi_le [of "exponent r + 1" e] exponent_bounds(2) [OF r] assms(1) by (auto dest: zless_imp_add1_zle)
  ultimately show ?thesis by simp
qed

end
