(* ===== verification/Anomaly_Stats.thy ===== *)
theory Anomaly_Stats
  imports Float64
begin

text \<open>
  The statistics of the anomaly detectors: running mean and variance with the floored z-scores
  (\<open>online_stat.go\<close>), the scores of a window and the cumulative-sum chart (\<open>detector.go\<close>), the jittered decision threshold
  (\<open>drift_jitter.go\<close>) and the detectors' configuration (\<open>domain/config.go\<close>), all under \<open>internal/features/anomaly\<close>.
\<close>

section \<open>Configuration\<close>

record MLScoreConfig =
  ms_Enabled :: bool
  ms_ScoreThreshold :: float64
  ms_MinCalls :: int

record AutoBlockConfig =
  kb_Enabled :: bool
  kb_ScoreThreshold :: float64
  kb_BlockDurationSeconds :: int

record DriftConfig =
  dc_Enabled :: bool
  dc_K :: float64
  dc_H :: float64
  dc_MinCalls :: int
  dc_HJitterFraction :: float64
  dc_JitterSecret :: string

record TenantAnomalyConfig =
  tc_Enabled :: bool
  tc_RateMultiplier :: float64
  tc_MinCalls :: int

record IdentityChurnConfig =
  ch_Enabled :: bool
  ch_RateMultiplier :: float64
  ch_MinNewIdentities :: int
  ch_CUSUMEnabled :: bool
  ch_K :: float64
  ch_H :: float64

record HeuristicConfig =
  hc_WindowSeconds :: int
  hc_RateSpikeEnabled :: bool
  hc_RateMultiplier :: float64
  hc_RateMinCalls :: int
  hc_NovelToolEnabled :: bool
  hc_DenyRateSpikeEnabled :: bool
  hc_DenyRateThreshold :: float64
  hc_DenyRateMinCalls :: int
  hc_MLScore :: MLScoreConfig
  hc_AutoBlock :: AutoBlockConfig
  hc_Drift :: DriftConfig
  hc_TenantAnomaly :: TenantAnomalyConfig
  hc_IdentityChurn :: IdentityChurnConfig

section \<open>Running mean and variance\<close>

record onlineStat =
  st_mean :: float64
  st_m2 :: float64
  st_count :: int

definition zero_onlineStat :: onlineStat where
  "zero_onlineStat = \<lparr>st_mean = Finite 0, st_m2 = Finite 0, st_count = 0\<rparr>"

definition onlineStat_Update :: "float64 \<Rightarrow> onlineStat \<Rightarrow> onlineStat" where
  "onlineStat_Update x s =
     (let count = wrap64 (st_count s + 1);
          delta = f_sub x (st_mean s);
          mean = f_add (st_mean s) (f_div delta (f_of_int count));
          delta2 = f_sub x mean;
          m2 = f_add (st_m2 s) (f_mul delta delta2)
      in \<lparr>st_mean = mean, st_m2 = m2, st_count = count\<rparr>)"

definition minSamplesForZScore :: int where
  "minSamplesForZScore = 8"

definition minStddevRelFraction :: float64 where
  "minStddevRelFraction = round64 (15 / 100)"

definition stat_stddev :: "onlineStat \<Rightarrow> float64" where
  "stat_stddev s =
     (let variance = f_div (st_m2 s) (f_of_int (wrap64 (st_count s - 1)))
      in if f_lt (Finite 0) variance then f_sqrt variance else Finite 0)"

definition ZScoreFloored :: "onlineStat \<Rightarrow> float64 \<Rightarrow> float64 \<Rightarrow> float64" where
  "ZScoreFloored s x extraFloor =
     (if st_count s < minSamplesForZScore then Finite 0
      else let stddev = stat_stddev s;
               floor' = f_mul (f_abs (st_mean s)) minStddevRelFraction;
               stddev = (if f_lt stddev floor' then floor' else stddev);
               stddev = (if f_lt stddev extraFloor then extraFloor else stddev)
           in if stddev = Finite 0 then Finite 0 else f_div (f_sub x (st_mean s)) stddev)"

definition ZScore :: "onlineStat \<Rightarrow> float64 \<Rightarrow> float64" where
  "ZScore s x = ZScoreFloored s x (Finite 0)"

definition AggregateZScore :: "onlineStat \<Rightarrow> float64 \<Rightarrow> float64" where
  "AggregateZScore s x =
     (if st_count s < minSamplesForZScore then Finite 0
      else let stddev = stat_stddev s;
               stddev = (if f_lt stddev (Finite 1) then Finite 1 else stddev)
           in f_div (f_sub x (st_mean s)) stddev)"

definition zCount :: "onlineStat \<Rightarrow> float64 \<Rightarrow> float64" where
  "zCount s x = ZScoreFloored s x (f_max (Finite 1) (f_sqrt (f_abs (st_mean s))))"

section \<open>The cumulative-sum chart and its threshold\<close>

text \<open>The value that crossed the threshold, if any, and the accumulator.\<close>

definition cusumStep :: "float64 \<Rightarrow> float64 \<Rightarrow> float64 \<Rightarrow> float64 \<Rightarrow> float64 option \<times> float64" where
  "cusumStep cusum z k h =
     (let cusum = f_max (Finite 0) (f_sub (f_add cusum z) k)
      in if f_le cusum h then (None, cusum) else (Some cusum, Finite 0))"

text \<open>\<open>hmac\<close> is HMAC-SHA256; its first eight bytes are read in big-endian order.\<close>

definition Uint64 :: "string \<Rightarrow> int" where
  "Uint64 bs = foldl (\<lambda>acc c. acc * 256 + int (of_char c)) 0 (take 8 bs)"

definition driftEffectiveH :: "(string \<Rightarrow> string \<Rightarrow> string) \<Rightarrow> string \<Rightarrow> DriftConfig \<Rightarrow> float64" where
  "driftEffectiveH hmac identity cfg =
     (if f_le (dc_HJitterFraction cfg) (Finite 0) \<or> dc_JitterSecret cfg = '''' then dc_H cfg
      else let sum = hmac (dc_JitterSecret cfg) identity;
               unit = f_div (f_of_int (Uint64 sum)) (f_of_int (2 ^ 64 - 1));
               signed = f_sub (f_mul unit (Finite 2)) (Finite 1)
           in f_mul (dc_H cfg) (f_add (Finite 1) (f_mul (dc_HJitterFraction cfg) signed)))"

section \<open>The scores of a window\<close>

text \<open>\<open>if v > best\<close> on a candidate: the running best with the name of its feature.\<close>

definition better :: "string \<Rightarrow> float64 \<Rightarrow> float64 \<times> string \<Rightarrow> float64 \<times> string" where
  "better feature v best = (if f_lt (fst best) v then (v, feature) else best)"

definition maxAbsZ :: "float64 \<Rightarrow> float64 \<Rightarrow> float64 \<Rightarrow> float64 \<Rightarrow> float64 \<times> string" where
  "maxAbsZ zRate zDiversity zDeny zInterArrival =
     better ''inter_arrival_time'' (f_abs zInterArrival)
       (better ''deny_ratio'' (f_abs zDeny)
         (better ''tool_diversity'' (f_abs zDiversity) (f_abs zRate, ''call_rate'')))"

definition volumeDeclineMargin :: float64 where
  "volumeDeclineMargin = Finite 1"

definition maxHarmfulZ :: "float64 \<Rightarrow> float64 \<Rightarrow> float64 \<Rightarrow> float64 \<Rightarrow> float64 \<Rightarrow> float64 \<times> string" where
  "maxHarmfulZ zRate zDiversity zDenyBlock zToolCalls zInterArrival =
     (let best = better ''tool_diversity'' zDiversity (zRate, ''call_rate'');
          best = (if f_le (f_neg volumeDeclineMargin) zToolCalls then better ''deny_ratio'' zDenyBlock best else best);
          best = (if f_le (f_neg volumeDeclineMargin) zRate then better ''inter_arrival_time'' (f_neg zInterArrival) best else best)
      in if f_lt (fst best) (Finite 0) then (Finite 0, snd best) else best)"

definition denyRatioContinuityWeight :: float64 where
  "denyRatioContinuityWeight = Finite 8"

section \<open>The sign of a score\<close>

text \<open>A value is not positive: zero, negative or not a number.\<close>

definition not_pos :: "float64 \<Rightarrow> bool" where
  "not_pos x \<longleftrightarrow> \<not> f_lt (Finite 0) x"

lemma not_pos_zero [simp]: "not_pos (Finite 0)"
  by (simp add: not_pos_def)

lemma f_sub_le: "f_le x y \<Longrightarrow> not_pos (f_sub x y)"
proof -
  assume le: "f_le x y"
  have "\<not> f_lt (Finite 0) (round64 (a - b))" if "a \<le> b" for a b
    using that by (intro f_not_lt round64_sign) simp
  with le show ?thesis by (cases x; cases y) (auto simp: f_sub_def not_pos_def f_lt_def)
qed

lemma f_sqrt_not_neg: "\<not> f_lt (f_sqrt x) (Finite 0)"
  by (cases x) (auto simp: Let_def f_lt_def [of PosInf] intro!: f_not_lt round64_sign(1))

lemma stat_stddev_not_neg: "\<not> f_lt (stat_stddev s) (Finite 0)"
  using f_sqrt_not_neg by (simp add: stat_stddev_def)

lemma floor_not_neg: "\<not> f_lt x (Finite 0) \<Longrightarrow> \<not> f_lt (if f_lt x y then y else x) (Finite 0)"
  by (auto dest: f_le_lt_trans [OF f_lt_le])

lemma f_div_not_pos:
  assumes "not_pos x" and "\<not> f_lt y (Finite 0)" and "y \<noteq> Finite 0" shows "not_pos (f_div x y)"
proof -
  have "\<not> f_lt (Finite 0) (round64 (a / b))" if "a \<le> 0" "0 \<le> b" for a b :: rat
    using that by (intro f_not_lt round64_sign) (simp add: divide_nonpos_nonneg)
  with assms show ?thesis by (cases x; cases y) (auto simp: not_pos_def f_lt_def f_inf_def f_sign_def)
qed

lemma ZScoreFloored_not_pos:
  assumes "f_le x (st_mean s)" shows "not_pos (ZScoreFloored s x extraFloor)"
proof -
  let ?floor = "f_mul (f_abs (st_mean s)) minStddevRelFraction"
  define a where "a = (if f_lt (stat_stddev s) ?floor then ?floor else stat_stddev s)"
  define b where "b = (if f_lt a extraFloor then extraFloor else a)"
  have "\<not> f_lt b (Finite 0)" unfolding b_def a_def by (intro floor_not_neg stat_stddev_not_neg)
  then have "b = Finite 0 \<or> not_pos (f_div (f_sub x (st_mean s)) b)"
    using f_div_not_pos [OF f_sub_le [OF assms]] by blast
  moreover have "ZScoreFloored s x extraFloor =
      (if st_count s < minSamplesForZScore \<or> b = Finite 0 then Finite 0 else f_div (f_sub x (st_mean s)) b)"
    unfolding ZScoreFloored_def Let_def a_def [symmetric] b_def [symmetric] by simp
  ultimately show ?thesis by auto
qed

text \<open>Of candidates none of which is positive the best is not positive either, whatever gates let through.\<close>

lemma better_not_pos: "not_pos (fst b) \<Longrightarrow> not_pos v \<Longrightarrow> not_pos (fst (better f v b))"
  by (simp add: better_def)

lemma maxHarmfulZ_not_pos:
  assumes "not_pos zRate" and "not_pos zDiversity"
    and "not_pos zDenyBlock \<or> f_lt zToolCalls (Finite (-1))" and "not_pos (f_neg zInterArrival) \<or> f_lt zRate (Finite (-1))"
  shows "not_pos (fst (maxHarmfulZ zRate zDiversity zDenyBlock zToolCalls zInterArrival))"
  using assms by (auto simp: maxHarmfulZ_def volumeDeclineMargin_def dest: f_not_lt intro!: better_not_pos)

text \<open>Rounding is symmetric, so a score on the other side of the mean has the other sign.\<close>

lemma round64_minus: "round64 (- r) = f_neg (round64 r)"
  by (simp add: round64_def)

lemma f_neg_div_sub:
  assumes "\<not> f_lt b (Finite 0)" and "b \<noteq> Finite 0"
  shows "f_neg (f_div (f_sub x m) b) = f_div (f_sub m x) b"
proof -
  have diff: "round64 (r - q) = f_neg (round64 (q - r))" for r q using round64_minus [of "q - r"] by simp
  have swap: "f_sub m x = f_neg (f_sub x m)"
    by (cases x; cases m) (auto simp: f_sub_def intro: diff)
  have quot: "f_neg (round64 (a / c)) = round64 (- a / c)" for a c using round64_minus [of "a / c"] by simp
  have "f_neg (f_div u b) = f_div (f_neg u) b" for u
    using assms by (cases u; cases b) (simp_all add: quot f_inf_def f_sign_def f_lt_def)
  with swap show ?thesis by simp
qed

lemma ZScoreFloored_not_neg:
  assumes "f_le (st_mean s) x" shows "not_pos (f_neg (ZScoreFloored s x extraFloor))"
proof -
  let ?floor = "f_mul (f_abs (st_mean s)) minStddevRelFraction"
  define a where "a = (if f_lt (stat_stddev s) ?floor then ?floor else stat_stddev s)"
  define b where "b = (if f_lt a extraFloor then extraFloor else a)"
  have b: "\<not> f_lt b (Finite 0)" unfolding b_def a_def by (intro floor_not_neg stat_stddev_not_neg)
  then have "b = Finite 0 \<or> not_pos (f_neg (f_div (f_sub x (st_mean s)) b))"
    using f_div_not_pos [OF f_sub_le [OF assms]] f_neg_div_sub by metis
  moreover have "ZScoreFloored s x extraFloor =
      (if st_count s < minSamplesForZScore \<or> b = Finite 0 then Finite 0 else f_div (f_sub x (st_mean s)) b)"
    unfolding ZScoreFloored_def Let_def a_def [symmetric] b_def [symmetric] by simp
  ultimately show ?thesis by (auto simp: not_pos_def)
qed

lemma minStddevRelFraction_value: "minStddevRelFraction = Finite (5404319552844595 / 36028797018963968)"
proof -
  have "exponent (3 / 20) = -3" by (rule exponent_eqI) (simp_all add: power_int_def power_divide)
  moreover have "\<lfloor>27021597764222976 / 5 :: rat\<rfloor> = 5404319552844595" by (simp add: floor_eq_iff)
  then have "round_even (27021597764222976 / 5) = 5404319552844595" by (simp add: round_even_def)
  ultimately have "round_pos (3 / 20) = 5404319552844595 / 36028797018963968"
    by (simp add: round_pos_def power_int_def power_divide)
  then show ?thesis by (simp add: minStddevRelFraction_def round64_def)
qed

end
