(* ===== verification/Anomaly_Detector.thy ===== *)
theory Anomaly_Detector
  imports Anomaly_Stats Ring_Buffer Auto_Block "HOL-Library.Char_ord" "HOL-Library.List_Lexorder"
begin

text \<open>
  The anomaly detector (\<open>internal/features/anomaly/usecase\<close>): \<open>detector.go\<close>, \<open>tenant_detector.go\<close>,
  \<open>identity_churn_detector.go\<close>, the per-identity state with its snapshots and the sweep (\<open>gc.go\<close>).

  One audit entry is one step over the state the mutex protects. Its clock readings, the time of each
  block and the answers of the shared window stores are read from outside (\<open>readings\<close>), each reading site under
  its own name. Sets of strings stand for \<open>map[string]struct{}\<close>, a set of kinds for the latch map.
\<close>

section \<open>State\<close>

record windowCounts =
  wn_total :: int
  wn_toolCalls :: int
  wn_deny :: int
  wn_uniqueTools :: "string set"
  wn_interArrivalSum :: duration
  wn_interArrivalN :: int

definition zero_windowCounts :: windowCounts where
  "zero_windowCounts = \<lparr>wn_total = 0, wn_toolCalls = 0, wn_deny = 0, wn_uniqueTools = {}, wn_interArrivalSum = 0, wn_interArrivalN = 0\<rparr>"

record mlFeatureState =
  mf_rate :: onlineStat
  mf_diversity :: onlineStat
  mf_denyRatio :: onlineStat
  mf_interArrival :: onlineStat
  mf_toolCalls :: onlineStat

record identityState =
  is_tools :: "string set"
  is_windowStart :: go_time
  is_cur :: windowCounts
  is_prev :: windowCounts
  is_flaggedThisWindow :: "Kind set"
  is_lastSeen :: go_time
  is_mlStats :: mlFeatureState
  is_lastCallAt :: go_time
  is_driftCUSUM :: float64
  is_driftDiversityCUSUM :: float64

definition new_identityState :: "go_time \<Rightarrow> identityState" where
  "new_identityState now =
     \<lparr>is_tools = {}, is_windowStart = now, is_cur = zero_windowCounts, is_prev = zero_windowCounts, is_flaggedThisWindow = {},
      is_lastSeen = 0, is_mlStats = \<lparr>mf_rate = zero_onlineStat, mf_diversity = zero_onlineStat, mf_denyRatio = zero_onlineStat,
        mf_interArrival = zero_onlineStat, mf_toolCalls = zero_onlineStat\<rparr>,
      is_lastCallAt = 0, is_driftCUSUM = Finite 0, is_driftDiversityCUSUM = Finite 0\<rparr>"

record tenantWindowState =
  tw_windowStart :: go_time
  tw_cur :: int
  tw_prev :: int
  tw_rateStat :: onlineStat
  tw_flagged :: bool
  tw_lastSeen :: go_time

record churnWindowState =
  cw_windowStart :: go_time
  cw_cur :: int
  cw_rateStat :: onlineStat
  cw_lastSeen :: go_time
  cw_churnCUSUM :: float64

record Detector =
  dt_state :: "string \<rightharpoonup> identityState"
  dt_tenantState :: "string \<rightharpoonup> tenantWindowState"
  dt_churnState :: "string \<rightharpoonup> churnWindowState"

definition NewDetector :: Detector where
  "NewDetector = \<lparr>dt_state = Map.empty, dt_tenantState = Map.empty, dt_churnState = Map.empty\<rparr>"

text \<open>What a detector is built with: whether it may block, the keyed hash, and whether windows are shared.\<close>

record detector_env =
  dv_cfg :: HeuristicConfig
  dv_blocker :: bool
  dv_hmac :: "string \<Rightarrow> string \<Rightarrow> string"
  dv_tenantWindows :: bool
  dv_churnWindows :: bool

record readings =
  rd_now :: go_time
  rd_stamp :: "string \<Rightarrow> go_time"
  rd_blockAt :: "string \<Rightarrow> go_time"
  rd_tenantNow :: go_time
  rd_tenantMerge :: "string \<Rightarrow> go_time \<Rightarrow> int \<Rightarrow> string + int"
  rd_churnMerge :: "string \<Rightarrow> go_time \<Rightarrow> int \<Rightarrow> string + int"

text \<open>A call of the blocker: identity, tenant, reason and time.\<close>

type_synonym block_call = "string \<times> string \<times> string \<times> go_time"
type_synonym anomaly = "float64 Anomaly"

definition new_anomaly :: "Kind \<Rightarrow> go_time \<Rightarrow> string \<Rightarrow> Entry \<Rightarrow> anomaly" where
  "new_anomaly kind at' detail e = \<lparr>an_Timestamp = at', an_Identity = e_Identity e, an_Tenant = e_Tenant e, an_Kind = kind,
     an_Detail = detail, an_Entry = e, an_Score = None, an_AutoBlockSeconds = 0\<rparr>"

section \<open>Checks on the current window\<close>

definition isToolCall :: "Entry \<Rightarrow> bool" where
  "isToolCall e \<longleftrightarrow> e_Tool e \<noteq> '''' \<and> e_Decision e \<noteq> ''passthrough''"

definition checkRateSpike :: "HeuristicConfig \<Rightarrow> readings \<Rightarrow> Entry \<Rightarrow> identityState \<Rightarrow> anomaly list \<times> identityState" where
  "checkRateSpike cfg rd e st =
     (if wn_total (is_prev st) = 0 then ([], st)
      else if wn_total (is_cur st) < hc_RateMinCalls cfg then ([], st)
      else let threshold = f_mul (f_of_int (wn_total (is_prev st))) (hc_RateMultiplier cfg)
           in if f_le (f_of_int (wn_total (is_cur st))) threshold then ([], st)
              else if KindRateSpike \<in> is_flaggedThisWindow st then ([], st)
              else ([new_anomaly KindRateSpike (rd_stamp rd ''rate_spike'') ''call rate exceeded the identity's own trailing baseline'' e],
                    st\<lparr>is_flaggedThisWindow := insert KindRateSpike (is_flaggedThisWindow st)\<rparr>))"

definition checkNovelTool :: "readings \<Rightarrow> Entry \<Rightarrow> identityState \<Rightarrow> anomaly list \<times> identityState" where
  "checkNovelTool rd e st =
     (if \<not> isToolCall e then ([], st)
      else if e_Tool e \<in> is_tools st then ([], st)
      else ([new_anomaly KindNovelTool (rd_stamp rd ''novel_tool'') (''first call from this identity to tool '' @ e_Tool e) e],
            st\<lparr>is_tools := insert (e_Tool e) (is_tools st)\<rparr>))"

definition checkDenyRateSpike :: "HeuristicConfig \<Rightarrow> readings \<Rightarrow> Entry \<Rightarrow> identityState \<Rightarrow> anomaly list \<times> identityState" where
  "checkDenyRateSpike cfg rd e st =
     (if wn_toolCalls (is_cur st) = 0 \<or> wn_toolCalls (is_cur st) < hc_DenyRateMinCalls cfg then ([], st)
      else let ratio = f_div (f_of_int (wn_deny (is_cur st))) (f_of_int (wn_toolCalls (is_cur st)))
           in if f_le ratio (hc_DenyRateThreshold cfg) then ([], st)
              else if KindDenyRateSpike \<in> is_flaggedThisWindow st then ([], st)
              else ([new_anomaly KindDenyRateSpike (rd_stamp rd ''deny_rate_spike'') ''deny ratio exceeded threshold within the trailing window'' e],
                    st\<lparr>is_flaggedThisWindow := insert KindDenyRateSpike (is_flaggedThisWindow st)\<rparr>))"

section \<open>Checks on a completed window\<close>

definition may_block :: "detector_env \<Rightarrow> bool" where
  "may_block env \<longleftrightarrow> kb_Enabled (hc_AutoBlock (dv_cfg env)) \<and> dv_blocker env"

definition drift_reason :: "float64 \<Rightarrow> float64 \<Rightarrow> string \<Rightarrow> string" where
  "drift_reason fired h feature =
     ''drift_detection cusum '' @ fmt2 fired @ '' exceeded decision threshold '' @ fmt2 h @ '' over a sustained rise in '' @ feature"

definition drift_detail :: "string \<Rightarrow> float64 \<Rightarrow> float64 \<Rightarrow> string" where
  "drift_detail feature fired h =
     ''cumulative sustained rise in '' @ feature @ '' (cusum '' @ fmt2 fired @ '') exceeded decision threshold '' @ fmt2 h"

definition checkDriftFeature ::
  "detector_env \<Rightarrow> readings \<Rightarrow> Entry \<Rightarrow> string \<Rightarrow> float64 \<Rightarrow> float64 \<Rightarrow> float64 \<Rightarrow> anomaly list \<times> block_call list \<times> float64" where
  "checkDriftFeature env rd e feature cusum z h =
     (case cusumStep cusum z (dc_K (hc_Drift (dv_cfg env))) h of
        (None, cusum) \<Rightarrow> ([], [], cusum)
      | (Some fired, cusum) \<Rightarrow>
          let blocks = (if may_block env then [(e_Identity e, e_Tenant e, drift_reason fired h feature, rd_blockAt rd feature)] else []);
              autoBlockSeconds = (if may_block env then kb_BlockDurationSeconds (hc_AutoBlock (dv_cfg env)) else 0)
          in ([(new_anomaly KindDrift (rd_stamp rd feature) (drift_detail feature fired h) e)
                 \<lparr>an_Score := Some fired, an_AutoBlockSeconds := autoBlockSeconds\<rparr>], blocks, cusum))"

definition checkDrift :: "detector_env \<Rightarrow> readings \<Rightarrow> Entry \<Rightarrow> identityState \<Rightarrow> anomaly list \<times> block_call list \<times> identityState" where
  "checkDrift env rd e st =
     (if wn_total (is_prev st) < dc_MinCalls (hc_Drift (dv_cfg env)) then ([], [], st)
      else let h = driftEffectiveH (dv_hmac env) (e_Identity e) (hc_Drift (dv_cfg env));
               (as, bs, c) = checkDriftFeature env rd e ''call_rate'' (is_driftCUSUM st)
                 (zCount (mf_rate (is_mlStats st)) (f_of_int (wn_total (is_prev st)))) h;
               st = st\<lparr>is_driftCUSUM := c\<rparr>;
               (as', bs', c) = checkDriftFeature env rd e ''tool_diversity'' (is_driftDiversityCUSUM st)
                 (zCount (mf_diversity (is_mlStats st)) (f_of_int (int (card (wn_uniqueTools (is_prev st)))))) h;
               st = st\<lparr>is_driftDiversityCUSUM := c\<rparr>
           in (as @ as', bs @ bs', st))"

text \<open>The raw features of a window and its z-scores: rate, diversity, deny ratio (logged and for blocking), tool calls, spacing.\<close>

record ml_features =
  ft_rate :: float64
  ft_diversity :: float64
  ft_denyRatio :: float64
  ft_interArrival :: float64

definition features_of :: "windowCounts \<Rightarrow> ml_features" where
  "features_of w =
     \<lparr>ft_rate = f_of_int (wn_total w), ft_diversity = f_of_int (int (card (wn_uniqueTools w))),
      ft_denyRatio = (if 0 < wn_toolCalls w then f_div (f_of_int (wn_deny w)) (f_of_int (wn_toolCalls w)) else Finite 0),
      ft_interArrival = (if 0 < wn_interArrivalN w
         then f_div (Duration_Seconds (wn_interArrivalSum w)) (f_of_int (wn_interArrivalN w)) else Finite 0)\<rparr>"

record ml_scores =
  zs_rate :: float64
  zs_diversity :: float64
  zs_deny :: float64
  zs_denyBlock :: float64
  zs_toolCalls :: float64
  zs_interArrival :: float64

definition deny_se :: "float64 \<Rightarrow> float64 \<Rightarrow> float64" where
  "deny_se p n =
     (let pSmoothed = f_div (f_add (f_mul p denyRatioContinuityWeight) (Finite (1 / 2))) (Finite 9)
      in f_sqrt (f_div (f_mul pSmoothed (f_sub (Finite 1) pSmoothed)) n))"

definition scores_of :: "int \<Rightarrow> mlFeatureState \<Rightarrow> windowCounts \<Rightarrow> ml_scores" where
  "scores_of minCalls ml w =
     (let ft = features_of w; n = f_of_int (wn_toolCalls w); counted = minCalls \<le> wn_toolCalls w
      in \<lparr>zs_rate = zCount (mf_rate ml) (ft_rate ft),
          zs_diversity = (if counted then zCount (mf_diversity ml) (ft_diversity ft) else Finite 0),
          zs_deny = (if counted then ZScore (mf_denyRatio ml) (ft_denyRatio ft) else Finite 0),
          zs_denyBlock = (if counted then ZScoreFloored (mf_denyRatio ml) (ft_denyRatio ft) (deny_se (st_mean (mf_denyRatio ml)) n) else Finite 0),
          zs_toolCalls = (if counted then ZScore (mf_toolCalls ml) n else Finite 0),
          zs_interArrival = ZScore (mf_interArrival ml) (ft_interArrival ft)\<rparr>)"

definition fold_window :: "int \<Rightarrow> windowCounts \<Rightarrow> mlFeatureState \<Rightarrow> mlFeatureState" where
  "fold_window minCalls w ml =
     (let ft = features_of w;
          ml = ml\<lparr>mf_rate := onlineStat_Update (ft_rate ft) (mf_rate ml),
                  mf_interArrival := onlineStat_Update (ft_interArrival ft) (mf_interArrival ml)\<rparr>
      in if minCalls \<le> wn_toolCalls w
         then ml\<lparr>mf_diversity := onlineStat_Update (ft_diversity ft) (mf_diversity ml),
                 mf_denyRatio := onlineStat_Update (ft_denyRatio ft) (mf_denyRatio ml),
                 mf_toolCalls := onlineStat_Update (f_of_int (wn_toolCalls w)) (mf_toolCalls ml)\<rparr>
         else ml)"

definition block_score :: "ml_scores \<Rightarrow> float64 \<times> string" where
  "block_score z = maxHarmfulZ (zs_rate z) (zs_diversity z) (zs_denyBlock z) (zs_toolCalls z) (zs_interArrival z)"

definition log_score :: "ml_scores \<Rightarrow> float64 \<times> string" where
  "log_score z =
     (let best = maxAbsZ (zs_rate z) (zs_diversity z) (zs_deny z) (zs_interArrival z)
      in if f_lt (fst best) (fst (block_score z)) then block_score z else best)"

definition ml_reason :: "float64 \<times> string \<Rightarrow> float64 \<Rightarrow> string" where
  "ml_reason b threshold =
     ''ml_score '' @ fmt2 (fst b) @ '' (feature: '' @ snd b @ '') exceeded auto-block threshold '' @ fmt2 threshold"

definition ml_detail :: "float64 \<times> string \<Rightarrow> float64 \<Rightarrow> string" where
  "ml_detail b threshold =
     ''combined z-score '' @ fmt2 (fst b) @ '' (driving feature: '' @ snd b @ '') exceeded threshold '' @ fmt2 threshold"

definition checkMLScore :: "detector_env \<Rightarrow> readings \<Rightarrow> Entry \<Rightarrow> identityState \<Rightarrow> anomaly list \<times> block_call list \<times> identityState" where
  "checkMLScore env rd e st =
     (let cfg = dv_cfg env; ms = hc_MLScore cfg; kb = hc_AutoBlock cfg
      in if wn_total (is_prev st) < ms_MinCalls ms then ([], [], st)
         else let z = scores_of (ms_MinCalls ms) (is_mlStats st) (is_prev st);
                  score = log_score z; blockScore = block_score z;
                  anomalous = f_lt (ms_ScoreThreshold ms) (fst score);
                  st = (if anomalous then st else st\<lparr>is_mlStats := fold_window (ms_MinCalls ms) (is_prev st) (is_mlStats st)\<rparr>);
                  block = may_block env \<and> f_lt (kb_ScoreThreshold kb) (fst blockScore);
                  blocks = (if block then [(e_Identity e, e_Tenant e, ml_reason blockScore (kb_ScoreThreshold kb), rd_blockAt rd ''ml_score'')] else []);
                  autoBlockSeconds = (if block then kb_BlockDurationSeconds kb else 0)
              in if \<not> anomalous then ([], blocks, st)
                 else if KindMLScore \<in> is_flaggedThisWindow st then ([], blocks, st)
                 else ([(new_anomaly KindMLScore (rd_stamp rd ''ml_score'') (ml_detail score (ms_ScoreThreshold ms)) e)
                          \<lparr>an_Score := Some (fst score), an_AutoBlockSeconds := autoBlockSeconds\<rparr>], blocks,
                       st\<lparr>is_flaggedThisWindow := insert KindMLScore (is_flaggedThisWindow st)\<rparr>))"

section \<open>Tenant aggregates\<close>

definition zero_Entry :: Entry where
  "zero_Entry = \<lparr>e_Timestamp = 0, e_Identity = '''', e_Tenant = '''', e_Tool = '''', e_Decision = '''', e_LatencyMS = 0, e_Reason = '''',
     e_TraceID = '''', e_Effect = None, e_EffectStatus = EffectStatusEmpty, e_SessionID = '''', e_TaintSources = []\<rparr>"

definition tenant_anomaly :: "Kind \<Rightarrow> go_time \<Rightarrow> string \<Rightarrow> string \<Rightarrow> float64 \<Rightarrow> anomaly" where
  "tenant_anomaly kind at' tenantName detail score = \<lparr>an_Timestamp = at', an_Identity = '''', an_Tenant = tenantName, an_Kind = kind,
     an_Detail = detail, an_Entry = zero_Entry, an_Score = Some score, an_AutoBlockSeconds = 0\<rparr>"

text \<open>\<open>time.Time.Truncate\<close>: down to a multiple of \<open>d\<close> since the zero time.\<close>

definition time_Truncate :: "go_time \<Rightarrow> duration \<Rightarrow> go_time" where
  "time_Truncate t d = (if d \<le> 0 then t else t - t mod d)"

definition detector_window :: "HeuristicConfig \<Rightarrow> duration" where
  "detector_window cfg = wrap64 (hc_WindowSeconds cfg * second)"

text \<open>The total that is scored: the merged one where windows are shared and the store answers; a failure is reported.\<close>

definition merged_total ::
  "bool \<Rightarrow> (string \<Rightarrow> go_time \<Rightarrow> int \<Rightarrow> string + int) \<Rightarrow> string \<Rightarrow> string \<Rightarrow> go_time \<Rightarrow> int \<Rightarrow> int \<times> string list" where
  "merged_total shared merge feature tenantName start localTotal =
     (if \<not> shared then (localTotal, [])
      else case merge tenantName start localTotal of
             Inl err \<Rightarrow> (localTotal, [feature @ '': failed to merge cross-replica window total, scoring this replica''
                 @ [CHR 0x27] @ ''s own local total only this window: '' @ err])
           | Inr merged \<Rightarrow> (merged, []))"

definition tenant_detail :: "int \<Rightarrow> float64 \<Rightarrow> float64 \<Rightarrow> string" where
  "tenant_detail mergedTotal z threshold =
     ''tenant-aggregate call volume '' @ itoa mergedTotal @ '' this window scored z='' @ fmt2 z @ '' against its own baseline (threshold '' @
     fmt2 threshold @ '') -- a coordinated shift across identities in this tenant, invisible to any single per-identity heuristic''"

definition checkTenantDrift :: "detector_env \<Rightarrow> readings \<Rightarrow> Entry \<Rightarrow> tenantWindowState option \<Rightarrow> anomaly list \<times> string list \<times> tenantWindowState" where
  "checkTenantDrift env rd e old =
     (let cfg = dv_cfg env; tc = hc_TenantAnomaly cfg; window = detector_window cfg; now = rd_tenantNow rd;
          ts = (case old of
                  Some ts \<Rightarrow> ts
                | None \<Rightarrow> \<lparr>tw_windowStart = time_Truncate now window, tw_cur = 0, tw_prev = 0, tw_rateStat = zero_onlineStat,
                    tw_flagged = False, tw_lastSeen = 0\<rparr>);
          ts = ts\<lparr>tw_lastSeen := now\<rparr>;
          (as, errs, ts) =
            (if time_sub now (tw_windowStart ts) < window then ([], [], ts)
             else let finished = tw_windowStart ts; localTotal = tw_cur ts;
                      ts = ts\<lparr>tw_prev := localTotal, tw_cur := 0, tw_windowStart := time_Truncate now window, tw_flagged := False\<rparr>;
                      (mergedTotal, errs) = merged_total (dv_tenantWindows env) (rd_tenantMerge rd) ''tenant_anomaly'' (e_Tenant e) finished localTotal
                  in if mergedTotal < tc_MinCalls tc then ([], errs, ts)
                     else let z = AggregateZScore (tw_rateStat ts) (f_of_int mergedTotal)
                          in if f_lt (tc_RateMultiplier tc) z
                             then ([tenant_anomaly KindTenantDrift now (e_Tenant e) (tenant_detail mergedTotal z (tc_RateMultiplier tc)) z], errs, ts)
                             else ([], errs, ts\<lparr>tw_rateStat := onlineStat_Update (f_of_int mergedTotal) (tw_rateStat ts)\<rparr>))
      in (as, errs, ts\<lparr>tw_cur := wrap64 (tw_cur ts + 1)\<rparr>))"

definition churn_detail :: "int \<Rightarrow> float64 \<Rightarrow> float64 \<Rightarrow> string" where
  "churn_detail mergedTotal z threshold =
     itoa mergedTotal @ '' never-before-seen identities appeared in this tenant this window, scored z='' @ fmt2 z @
     '' against its own baseline (threshold '' @ fmt2 threshold @
     '') -- a burst of disposable identities, the fingerprint of an attacker discarding identities caught by per-identity heuristics (rate_spike, novel_tool, ml_score, drift_detection'' @ [CHR 0x27] @ ''s h_jitter_fraction) and retrying fresh ones''"

definition churn_cusum_detail :: "float64 \<Rightarrow> float64 \<Rightarrow> string" where
  "churn_cusum_detail fired h =
     ''cumulative sustained rise in new-identity churn (cusum '' @ fmt2 fired @ '') exceeded decision threshold '' @ fmt2 h @
     '' -- a slow trickle of disposable identities, individually below any single window'' @ [CHR 0x27] @ ''s rate_multiplier, adding up over time the same way drift_detection'' @ [CHR 0x27] @ ''s call_rate CUSUM catches a slow ramp''"

definition checkIdentityChurn :: "detector_env \<Rightarrow> readings \<Rightarrow> string \<Rightarrow> churnWindowState option \<Rightarrow> anomaly list \<times> string list \<times> churnWindowState" where
  "checkIdentityChurn env rd tenantName old =
     (let cfg = dv_cfg env; ch = hc_IdentityChurn cfg; window = detector_window cfg; now = rd_now rd;
          cs = (case old of
                  Some cs \<Rightarrow> cs
                | None \<Rightarrow> \<lparr>cw_windowStart = time_Truncate now window, cw_cur = 0, cw_rateStat = zero_onlineStat, cw_lastSeen = 0,
                    cw_churnCUSUM = Finite 0\<rparr>);
          cs = cs\<lparr>cw_lastSeen := now\<rparr>;
          (as, errs, cs) =
            (if time_sub now (cw_windowStart cs) < window then ([], [], cs)
             else let finished = cw_windowStart cs; localTotal = cw_cur cs;
                      cs = cs\<lparr>cw_cur := 0, cw_windowStart := time_Truncate now window\<rparr>;
                      (mergedTotal, errs) = merged_total (dv_churnWindows env) (rd_churnMerge rd) ''identity_churn'' tenantName finished localTotal
                  in if mergedTotal < ch_MinNewIdentities ch then ([], errs, cs)
                     else let z = AggregateZScore (cw_rateStat cs) (f_of_int mergedTotal)
                          in if f_lt (ch_RateMultiplier ch) z
                             then ([tenant_anomaly KindIdentityChurn now tenantName (churn_detail mergedTotal z (ch_RateMultiplier ch)) z], errs, cs)
                             else let cs = cs\<lparr>cw_rateStat := onlineStat_Update (f_of_int mergedTotal) (cw_rateStat cs)\<rparr>
                                  in if \<not> ch_CUSUMEnabled ch then ([], errs, cs)
                                     else (case cusumStep (cw_churnCUSUM cs) z (ch_K ch) (ch_H ch) of
                                             (None, c) \<Rightarrow> ([], errs, cs\<lparr>cw_churnCUSUM := c\<rparr>)
                                           | (Some fired, c) \<Rightarrow>
                                               ([tenant_anomaly KindIdentityChurn now tenantName (churn_cusum_detail fired (ch_H ch)) fired],
                                                errs, cs\<lparr>cw_churnCUSUM := c\<rparr>)))
      in (as, errs, cs\<lparr>cw_cur := wrap64 (cw_cur cs + 1)\<rparr>))"

section \<open>One audit entry\<close>

text \<open>The window of an identity: roll it over where it is complete, then count the entry.\<close>

definition roll_window :: "duration \<Rightarrow> go_time \<Rightarrow> identityState \<Rightarrow> bool \<times> identityState" where
  "roll_window window now st =
     (if window \<le> time_sub now (is_windowStart st)
      then (True, st\<lparr>is_prev := is_cur st, is_cur := zero_windowCounts, is_windowStart := now, is_flaggedThisWindow := {}, is_lastCallAt := 0\<rparr>)
      else (False, st))"

definition count_entry :: "go_time \<Rightarrow> Entry \<Rightarrow> identityState \<Rightarrow> identityState" where
  "count_entry now e st =
     (let w = (is_cur st)\<lparr>wn_total := wrap64 (wn_total (is_cur st) + 1)\<rparr>;
          w = (if isToolCall e
               then w\<lparr>wn_toolCalls := wrap64 (wn_toolCalls w + 1),
                      wn_deny := (if e_Decision e = ''deny'' then wrap64 (wn_deny w + 1) else wn_deny w),
                      wn_uniqueTools := insert (e_Tool e) (wn_uniqueTools w)\<rparr>
               else w);
          w = (if time_is_zero (is_lastCallAt st) then w
               else w\<lparr>wn_interArrivalSum := wrap64 (wn_interArrivalSum w + time_sub now (is_lastCallAt st)),
                      wn_interArrivalN := wrap64 (wn_interArrivalN w + 1)\<rparr>)
      in st\<lparr>is_cur := w, is_lastCallAt := now\<rparr>)"

text \<open>The heuristics of one identity, in the order of the code.\<close>

definition check_identity ::
  "detector_env \<Rightarrow> readings \<Rightarrow> Entry \<Rightarrow> bool \<Rightarrow> identityState \<Rightarrow> anomaly list \<times> block_call list \<times> identityState" where
  "check_identity env rd e completed st =
     (let cfg = dv_cfg env;
          (a1, st) = (if hc_RateSpikeEnabled cfg then checkRateSpike cfg rd e st else ([], st));
          (a2, st) = (if hc_NovelToolEnabled cfg then checkNovelTool rd e st else ([], st));
          (a3, st) = (if hc_DenyRateSpikeEnabled cfg then checkDenyRateSpike cfg rd e st else ([], st));
          (a4, b4, st) = (if ms_Enabled (hc_MLScore cfg) \<and> completed \<and> dc_Enabled (hc_Drift cfg) then checkDrift env rd e st else ([], [], st));
          (a5, b5, st) = (if ms_Enabled (hc_MLScore cfg) \<and> completed then checkMLScore env rd e st else ([], [], st))
      in (a1 @ a2 @ a3 @ a4 @ a5, b4 @ b5, st))"

definition identity_step ::
  "detector_env \<Rightarrow> readings \<Rightarrow> Entry \<Rightarrow> identityState option \<Rightarrow> anomaly list \<times> block_call list \<times> identityState" where
  "identity_step env rd e old =
     (let st = (case old of Some st \<Rightarrow> st | None \<Rightarrow> new_identityState (rd_now rd));
          st = st\<lparr>is_lastSeen := rd_now rd\<rparr>;
          (completed, st) = roll_window (detector_window (dv_cfg env)) (rd_now rd) st
      in check_identity env rd e completed (count_entry (rd_now rd) e st))"

definition Detector_recordAndCheck ::
  "detector_env \<Rightarrow> readings \<Rightarrow> Entry \<Rightarrow> Detector \<Rightarrow> anomaly list \<times> block_call list \<times> string list \<times> Detector" where
  "Detector_recordAndCheck env rd e d =
     (if e_Decision e = ''blocked'' then ([], [], [], d)
      else let key = tenantIdentityKey (e_Tenant e) (e_Identity e);
               isNewIdentity = (dt_state d key = None);
               (as, bs, st) = identity_step env rd e (dt_state d key);
               d = d\<lparr>dt_state := (dt_state d)(key \<mapsto> st)\<rparr>;
               (a6, e6, d) =
                 (if tc_Enabled (hc_TenantAnomaly (dv_cfg env))
                  then let (a6, e6, ts) = checkTenantDrift env rd e (dt_tenantState d (e_Tenant e))
                       in (a6, e6, d\<lparr>dt_tenantState := (dt_tenantState d)(e_Tenant e \<mapsto> ts)\<rparr>)
                  else ([], [], d));
               (a7, e7, d) =
                 (if ch_Enabled (hc_IdentityChurn (dv_cfg env)) \<and> isNewIdentity
                  then let (a7, e7, cs) = checkIdentityChurn env rd (e_Tenant e) (dt_churnState d (e_Tenant e))
                       in (a7, e7, d\<lparr>dt_churnState := (dt_churnState d)(e_Tenant e \<mapsto> cs)\<rparr>)
                  else ([], [], d))
           in (as @ a6 @ a7, bs, e6 @ e7, d))"

text \<open>
  Publishing: the blocks take effect under the lock, the anomalies are written and buffered after it. \<open>write\<close>
  reports a failure, which goes to the error log and does not keep the anomaly from the buffer.
\<close>

definition apply_blocks :: "block_call list \<Rightarrow> BlockChecker \<Rightarrow> BlockChecker" where
  "apply_blocks bs b = fold (\<lambda>(identity, tenantName, reason, now). Block identity tenantName reason now) bs b"

definition emit :: "(anomaly \<Rightarrow> string option) \<Rightarrow> anomaly \<Rightarrow> string list \<times> float64 AlertBuffer \<Rightarrow> string list \<times> float64 AlertBuffer" where
  "emit write a s = (fst s @ (case write a of None \<Rightarrow> [] | Some err \<Rightarrow> [err]), AlertBuffer_Add a (snd s))"

definition Detector_Publish ::
  "detector_env \<Rightarrow> readings \<Rightarrow> (anomaly \<Rightarrow> string option) \<Rightarrow> Entry \<Rightarrow> Detector \<times> BlockChecker \<times> float64 AlertBuffer \<Rightarrow>
   string list \<times> Detector \<times> BlockChecker \<times> float64 AlertBuffer" where
  "Detector_Publish env rd write e s =
     (let (d, blocker, buffer) = s;
          (toEmit, blocks, errs, d) = Detector_recordAndCheck env rd e d;
          (errs, buffer) = fold (emit write) toEmit (errs, buffer)
      in (errs, d, apply_blocks blocks blocker, buffer))"

section \<open>The sweep\<close>

definition gc_cutoff :: "go_time \<Rightarrow> duration \<Rightarrow> go_time" where
  "gc_cutoff now interval = now + wrap64 (- 2 * interval)"

definition detector_gc :: "go_time \<Rightarrow> duration \<Rightarrow> Detector \<Rightarrow> Detector" where
  "detector_gc now interval d =
     (let cutoff = gc_cutoff now interval
      in d\<lparr>dt_tenantState := map_keep (\<lambda>_ ts. \<not> tw_lastSeen ts < cutoff) (dt_tenantState d),
           dt_churnState := map_keep (\<lambda>_ cs. \<not> cw_lastSeen cs < cutoff) (dt_churnState d),
           dt_state := map_keep (\<lambda>_ st. \<not> is_lastSeen st < cutoff) (dt_state d)\<rparr>)"

section \<open>A block is always explained\<close>

lemma better_notNaN: "fst b = NaN \<Longrightarrow> better f v b = b"
  by (simp add: better_def)

lemma better_ge: "fst b \<noteq> NaN \<Longrightarrow> f_le (fst b) (fst (better f v b)) \<and> fst (better f v b) \<noteq> NaN"
  using f_lt_NaN(2) f_le_refl f_lt_le by (auto simp: better_def)

lemma maxAbsZ_NaN: "fst (maxAbsZ zr zd zn zi) = NaN \<Longrightarrow> zr = NaN"
proof -
  assume "fst (maxAbsZ zr zd zn zi) = NaN"
  then have "f_abs zr = NaN" unfolding maxAbsZ_def using better_ge by (metis fst_conv)
  then show ?thesis by (cases zr) auto
qed

lemma maxHarmfulZ_NaN: "fst (maxHarmfulZ NaN zd zn zt zi) = NaN"
  by (simp add: maxHarmfulZ_def better_notNaN)

lemma blocking_score_logged:
  assumes "f_lt threshold (fst (block_score z))" and "f_le logged threshold"
  shows "f_lt logged (fst (log_score z))"
proof -
  let ?best = "maxAbsZ (zs_rate z) (zs_diversity z) (zs_deny z) (zs_interArrival z)"
  have b: "f_lt logged (fst (block_score z))" using assms f_le_lt_trans by blast
  show ?thesis
  proof (cases "f_lt (fst ?best) (fst (block_score z))")
    case True
    with b show ?thesis by (simp add: log_score_def)
  next
    case False
    have "fst ?best \<noteq> NaN"
    proof
      assume "fst ?best = NaN"
      then have "zs_rate z = NaN" by (rule maxAbsZ_NaN)
      then have "fst (block_score z) = NaN" by (simp add: block_score_def maxHarmfulZ_NaN)
      with b show False by simp
    qed
    moreover have "fst (block_score z) \<noteq> NaN" using b by auto
    ultimately have "f_le (fst (block_score z)) (fst ?best)" using False f_not_le by blast
    with b False show ?thesis using f_lt_le_trans by (auto simp: log_score_def)
  qed
qed

lemma checkDrift_blocks:
  assumes "checkDrift env rd e st = (as, bs, st')"
  shows "\<forall>(i, t, r, n) \<in> set bs. i = e_Identity e \<and> t = e_Tenant e \<and> may_block env \<and>
    (\<exists>a \<in> set as. an_Kind a = KindDrift \<and> an_Identity a = i \<and> an_Tenant a = t \<and> an_Entry a = e \<and>
       an_AutoBlockSeconds a = kb_BlockDurationSeconds (hc_AutoBlock (dv_cfg env)))"
  using assms by (auto simp: checkDrift_def checkDriftFeature_def new_anomaly_def split_def split: if_splits option.splits prod.splits)

lemma checkMLScore_blocks:
  assumes "checkMLScore env rd e st = (as, bs, st')" and "KindMLScore \<notin> is_flaggedThisWindow st"
    and "f_le (ms_ScoreThreshold (hc_MLScore (dv_cfg env))) (kb_ScoreThreshold (hc_AutoBlock (dv_cfg env)))"
  shows "\<forall>(i, t, r, n) \<in> set bs. i = e_Identity e \<and> t = e_Tenant e \<and> may_block env \<and>
    (\<exists>a \<in> set as. an_Kind a = KindMLScore \<and> an_Identity a = i \<and> an_Tenant a = t \<and> an_Entry a = e \<and>
       an_AutoBlockSeconds a = kb_BlockDurationSeconds (hc_AutoBlock (dv_cfg env)))"
  using assms(1,2) blocking_score_logged [OF _ assms(3)]
  by (auto simp: checkMLScore_def new_anomaly_def split: if_splits)

text \<open>What the checks leave of the state they share.\<close>

lemma checks_frame:
  "is_windowStart (snd (checkRateSpike cfg rd e st)) = is_windowStart st"
  "is_windowStart (snd (checkNovelTool rd e st)) = is_windowStart st"
  "is_windowStart (snd (checkDenyRateSpike cfg rd e st)) = is_windowStart st"
  "is_windowStart (snd (snd (checkDrift env rd e st))) = is_windowStart st"
  "is_windowStart (snd (snd (checkMLScore env rd e st))) = is_windowStart st"
  "is_lastSeen (snd (checkRateSpike cfg rd e st)) = is_lastSeen st"
  "is_lastSeen (snd (checkNovelTool rd e st)) = is_lastSeen st"
  "is_lastSeen (snd (checkDenyRateSpike cfg rd e st)) = is_lastSeen st"
  "is_lastSeen (snd (snd (checkDrift env rd e st))) = is_lastSeen st"
  "is_lastSeen (snd (snd (checkMLScore env rd e st))) = is_lastSeen st"
  "is_tools (snd (checkRateSpike cfg rd e st)) = is_tools st"
  "is_tools (snd (checkDenyRateSpike cfg rd e st)) = is_tools st"
  "is_tools (snd (snd (checkDrift env rd e st))) = is_tools st"
  "is_tools (snd (snd (checkMLScore env rd e st))) = is_tools st"
  "is_flaggedThisWindow (snd (checkRateSpike cfg rd e st)) = is_flaggedThisWindow st \<union> an_Kind ` set (fst (checkRateSpike cfg rd e st))"
  "is_flaggedThisWindow (snd (checkNovelTool rd e st)) = is_flaggedThisWindow st"
  "is_flaggedThisWindow (snd (checkDenyRateSpike cfg rd e st)) = is_flaggedThisWindow st \<union> an_Kind ` set (fst (checkDenyRateSpike cfg rd e st))"
  "is_flaggedThisWindow (snd (snd (checkDrift env rd e st))) = is_flaggedThisWindow st"
  "is_flaggedThisWindow (snd (snd (checkMLScore env rd e st))) = is_flaggedThisWindow st \<union> an_Kind ` set (fst (checkMLScore env rd e st))"
  by (simp_all add: checkRateSpike_def checkNovelTool_def checkDenyRateSpike_def checkDrift_def checkMLScore_def new_anomaly_def split_def)

lemma checks_kinds:
  "a \<in> set (fst (checkRateSpike cfg rd e st)) \<Longrightarrow> an_Kind a = KindRateSpike \<and> an_Entry a = e"
  "a \<in> set (fst (checkNovelTool rd e st)) \<Longrightarrow> an_Kind a = KindNovelTool \<and> an_Entry a = e"
  "a \<in> set (fst (checkDenyRateSpike cfg rd e st)) \<Longrightarrow> an_Kind a = KindDenyRateSpike \<and> an_Entry a = e"
  "a \<in> set (fst (checkDrift env rd e st)) \<Longrightarrow> an_Kind a = KindDrift \<and> an_Entry a = e"
  "a \<in> set (fst (checkMLScore env rd e st)) \<Longrightarrow> an_Kind a = KindMLScore \<and> an_Entry a = e"
  by (auto simp: checkRateSpike_def checkNovelTool_def checkDenyRateSpike_def checkDrift_def checkDriftFeature_def checkMLScore_def
      new_anomaly_def split_def split: if_splits option.splits prod.splits)

lemma check_identityE:
  assumes "check_identity env rd e completed st = (as, bs, st')"
  obtains a1 s1 a2 s2 a3 s3 a4 b4 s4 a5 b5 where
    "(if hc_RateSpikeEnabled (dv_cfg env) then checkRateSpike (dv_cfg env) rd e st else ([], st)) = (a1, s1)"
    "(if hc_NovelToolEnabled (dv_cfg env) then checkNovelTool rd e s1 else ([], s1)) = (a2, s2)"
    "(if hc_DenyRateSpikeEnabled (dv_cfg env) then checkDenyRateSpike (dv_cfg env) rd e s2 else ([], s2)) = (a3, s3)"
    "(if ms_Enabled (hc_MLScore (dv_cfg env)) \<and> completed \<and> dc_Enabled (hc_Drift (dv_cfg env)) then checkDrift env rd e s3 else ([], [], s3)) = (a4, b4, s4)"
    "(if ms_Enabled (hc_MLScore (dv_cfg env)) \<and> completed then checkMLScore env rd e s4 else ([], [], s4)) = (a5, b5, st')"
    "as = a1 @ a2 @ a3 @ a4 @ a5" "bs = b4 @ b5"
  using assms unfolding check_identity_def Let_def by (auto split: prod.splits)

lemma stage_rate:
  "(if b then checkRateSpike cfg rd e st else ([], st)) = (as, st') \<Longrightarrow>
     is_windowStart st' = is_windowStart st \<and> is_lastSeen st' = is_lastSeen st \<and> is_tools st' = is_tools st \<and>
     is_flaggedThisWindow st' = is_flaggedThisWindow st \<union> an_Kind ` set as \<and> (\<forall>a \<in> set as. an_Kind a = KindRateSpike)"
  using checks_frame(1,6,11,15) [of cfg rd e st] checks_kinds(1) [of _ cfg rd e st]
  by (auto split: if_splits)

lemma stage_novel:
  "(if b then checkNovelTool rd e st else ([], st)) = (as, st') \<Longrightarrow>
     is_windowStart st' = is_windowStart st \<and> is_lastSeen st' = is_lastSeen st \<and> is_flaggedThisWindow st' = is_flaggedThisWindow st \<and>
     (\<forall>a \<in> set as. an_Kind a = KindNovelTool)"
  using checks_frame(2,7,16) [of rd e st] checks_kinds(2) [of _ rd e st]
  by (auto split: if_splits)

lemma stage_deny:
  "(if b then checkDenyRateSpike cfg rd e st else ([], st)) = (as, st') \<Longrightarrow>
     is_windowStart st' = is_windowStart st \<and> is_lastSeen st' = is_lastSeen st \<and> is_tools st' = is_tools st \<and>
     is_flaggedThisWindow st' = is_flaggedThisWindow st \<union> an_Kind ` set as \<and> (\<forall>a \<in> set as. an_Kind a = KindDenyRateSpike)"
  using checks_frame(3,8,12,17) [of cfg rd e st] checks_kinds(3) [of _ cfg rd e st]
  by (auto split: if_splits)

lemma stage_drift:
  "(if b then checkDrift env rd e st else ([], [], st)) = (as, bs, st') \<Longrightarrow>
     is_windowStart st' = is_windowStart st \<and> is_lastSeen st' = is_lastSeen st \<and> is_tools st' = is_tools st \<and>
     is_flaggedThisWindow st' = is_flaggedThisWindow st \<and> (\<forall>a \<in> set as. an_Kind a = KindDrift)"
  using checks_frame(4,9,13,18) [of env rd e st] checks_kinds(4) [of _ env rd e st]
  by (auto split: if_splits)

lemma stage_ml:
  "(if b then checkMLScore env rd e st else ([], [], st)) = (as, bs, st') \<Longrightarrow>
     is_windowStart st' = is_windowStart st \<and> is_lastSeen st' = is_lastSeen st \<and> is_tools st' = is_tools st \<and>
     is_flaggedThisWindow st' = is_flaggedThisWindow st \<union> an_Kind ` set as \<and> (\<forall>a \<in> set as. an_Kind a = KindMLScore)"
  using checks_frame(5,10,14,19) [of env rd e st] checks_kinds(5) [of _ env rd e st]
  by (auto split: if_splits)

lemmas stage_frame = stage_rate stage_novel stage_deny stage_drift stage_ml

text \<open>The state the checks start from, and that the latch is clear when a window has just completed.\<close>

definition entered :: "detector_env \<Rightarrow> readings \<Rightarrow> Entry \<Rightarrow> identityState option \<Rightarrow> bool \<times> identityState" where
  "entered env rd e old =
     (let (completed, st) = roll_window (detector_window (dv_cfg env)) (rd_now rd)
        ((case old of Some st \<Rightarrow> st | None \<Rightarrow> new_identityState (rd_now rd))\<lparr>is_lastSeen := rd_now rd\<rparr>)
      in (completed, count_entry (rd_now rd) e st))"

lemma identity_step_entered:
  "identity_step env rd e old = (let (completed, st) = entered env rd e old in check_identity env rd e completed st)"
  by (simp add: identity_step_def entered_def split_def)

lemma entered_frame:
  assumes "entered env rd e old = (completed, st)"
  shows "is_lastSeen st = rd_now rd" "completed \<Longrightarrow> is_flaggedThisWindow st = {} \<and> is_windowStart st = rd_now rd"
    "\<not> completed \<Longrightarrow> is_flaggedThisWindow st = (case old of Some s \<Rightarrow> is_flaggedThisWindow s | None \<Rightarrow> {}) \<and>
       is_windowStart st = (case old of Some s \<Rightarrow> is_windowStart s | None \<Rightarrow> rd_now rd)"
    "is_tools st = (case old of Some s \<Rightarrow> is_tools s | None \<Rightarrow> {})"
  using assms by (auto simp: entered_def roll_window_def count_entry_def new_identityState_def split: option.splits if_splits)

text \<open>The parts of a step.\<close>

lemma recordAndCheck_parts:
  assumes "Detector_recordAndCheck env rd e d = (as, bs, errs, d')" and "e_Decision e \<noteq> ''blocked''"
  obtains ia a6 a7 e6 e7 st where
    "identity_step env rd e (dt_state d (tenantIdentityKey (e_Tenant e) (e_Identity e))) = (ia, bs, st)"
    "as = ia @ a6 @ a7" "dt_state d' = (dt_state d)(tenantIdentityKey (e_Tenant e) (e_Identity e) \<mapsto> st)"
    "if tc_Enabled (hc_TenantAnomaly (dv_cfg env))
     then \<exists>ts. checkTenantDrift env rd e (dt_tenantState d (e_Tenant e)) = (a6, e6, ts) \<and> dt_tenantState d' = (dt_tenantState d)(e_Tenant e \<mapsto> ts)
     else a6 = [] \<and> e6 = [] \<and> dt_tenantState d' = dt_tenantState d"
    "if ch_Enabled (hc_IdentityChurn (dv_cfg env)) \<and> dt_state d (tenantIdentityKey (e_Tenant e) (e_Identity e)) = None
     then \<exists>cs. checkIdentityChurn env rd (e_Tenant e) (dt_churnState d (e_Tenant e)) = (a7, e7, cs) \<and>
       dt_churnState d' = (dt_churnState d)(e_Tenant e \<mapsto> cs)
     else a7 = [] \<and> e7 = [] \<and> dt_churnState d' = dt_churnState d"
    "errs = e6 @ e7"
  using assms unfolding Detector_recordAndCheck_def Let_def by (auto split: prod.splits if_splits)

text \<open>
  Every automatic block is explained. Where the threshold for blocking is not below the one for logging, whatever
  entry arrives in whatever state: an identity is only ever blocked by its own entry and with blocking
  enabled, and each block comes with an anomaly of that identity and tenant that carries the entry and the
  duration of the block.
\<close>

theorem every_block_explained:
  assumes "Detector_recordAndCheck env rd e d = (as, bs, errs, d')"
    and "f_le (ms_ScoreThreshold (hc_MLScore (dv_cfg env))) (kb_ScoreThreshold (hc_AutoBlock (dv_cfg env)))"
  shows "\<forall>(i, t, reason, at') \<in> set bs. i = e_Identity e \<and> t = e_Tenant e \<and> may_block env \<and>
    (\<exists>a \<in> set as. an_Kind a \<in> {KindMLScore, KindDrift} \<and> an_Identity a = i \<and> an_Tenant a = t \<and> an_Entry a = e \<and>
       an_AutoBlockSeconds a = kb_BlockDurationSeconds (hc_AutoBlock (dv_cfg env)))"
proof (cases "e_Decision e = ''blocked''")
  case True
  with assms(1) show ?thesis by (simp add: Detector_recordAndCheck_def)
next
  case False
  from assms(1) this obtain ia a6 a7 e6 e7 st where
    step: "identity_step env rd e (dt_state d (tenantIdentityKey (e_Tenant e) (e_Identity e))) = (ia, bs, st)" and as: "as = ia @ a6 @ a7"
    by (rule recordAndCheck_parts)
  obtain completed s0 where ent: "entered env rd e (dt_state d (tenantIdentityKey (e_Tenant e) (e_Identity e))) = (completed, s0)" by fastforce
  with step have "check_identity env rd e completed s0 = (ia, bs, st)" by (simp add: identity_step_entered)
  then obtain a1 s1 a2 s2 a3 s3 a4 b4 s4 a5 b5 where
    s: "(if hc_RateSpikeEnabled (dv_cfg env) then checkRateSpike (dv_cfg env) rd e s0 else ([], s0)) = (a1, s1)"
    "(if hc_NovelToolEnabled (dv_cfg env) then checkNovelTool rd e s1 else ([], s1)) = (a2, s2)"
    "(if hc_DenyRateSpikeEnabled (dv_cfg env) then checkDenyRateSpike (dv_cfg env) rd e s2 else ([], s2)) = (a3, s3)"
    and drift: "(if ms_Enabled (hc_MLScore (dv_cfg env)) \<and> completed \<and> dc_Enabled (hc_Drift (dv_cfg env)) then checkDrift env rd e s3 else ([], [], s3)) = (a4, b4, s4)"
    and ml: "(if ms_Enabled (hc_MLScore (dv_cfg env)) \<and> completed then checkMLScore env rd e s4 else ([], [], s4)) = (a5, b5, st)"
    and out: "ia = a1 @ a2 @ a3 @ a4 @ a5" "bs = b4 @ b5"
    by (rule check_identityE)
  have "KindMLScore \<notin> is_flaggedThisWindow s4" if completed
    using entered_frame(2) [OF ent that] stage_frame(1) [OF s(1)] stage_frame(2) [OF s(2)] stage_frame(3) [OF s(3)] stage_frame(4) [OF drift]
    by force
  then have "\<forall>(i, t, r, n) \<in> set b5. i = e_Identity e \<and> t = e_Tenant e \<and> may_block env \<and>
      (\<exists>a \<in> set a5. an_Kind a = KindMLScore \<and> an_Identity a = i \<and> an_Tenant a = t \<and> an_Entry a = e \<and>
         an_AutoBlockSeconds a = kb_BlockDurationSeconds (hc_AutoBlock (dv_cfg env)))"
    using ml checkMLScore_blocks [OF _ _ assms(2)] by (simp split: if_splits)
  moreover have "\<forall>(i, t, r, n) \<in> set b4. i = e_Identity e \<and> t = e_Tenant e \<and> may_block env \<and>
      (\<exists>a \<in> set a4. an_Kind a = KindDrift \<and> an_Identity a = i \<and> an_Tenant a = t \<and> an_Entry a = e \<and>
         an_AutoBlockSeconds a = kb_BlockDurationSeconds (hc_AutoBlock (dv_cfg env)))"
    using drift checkDrift_blocks by (simp split: if_splits)
  ultimately show ?thesis unfolding out as by fastforce
qed

section \<open>Quiet traffic is never blocked\<close>

text \<open>
  A window that is no busier than the identity's baseline never gets it blocked by its score: not more calls, not more
  distinct tools, no higher share of denials (or tool calls down by more than a standard deviation) and
  calls no closer together (or the call rate down by more than a standard deviation), with any threshold
  that is not negative and whatever the baseline has been through.
\<close>

theorem quiet_window_never_blocks:
  assumes "checkMLScore env rd e st = (as, bs, st')"
    and "f_le (ft_rate (features_of (is_prev st))) (st_mean (mf_rate (is_mlStats st)))"
    and "f_le (ft_diversity (features_of (is_prev st))) (st_mean (mf_diversity (is_mlStats st)))"
    and "f_le (ft_denyRatio (features_of (is_prev st))) (st_mean (mf_denyRatio (is_mlStats st))) \<or>
      f_lt (ZScore (mf_toolCalls (is_mlStats st)) (f_of_int (wn_toolCalls (is_prev st)))) (Finite (-1))"
    and "f_le (st_mean (mf_interArrival (is_mlStats st))) (ft_interArrival (features_of (is_prev st))) \<or>
      f_lt (zCount (mf_rate (is_mlStats st)) (ft_rate (features_of (is_prev st)))) (Finite (-1))"
    and "f_le (Finite 0) (kb_ScoreThreshold (hc_AutoBlock (dv_cfg env)))"
  shows "bs = []"
proof -
  define z where "z = scores_of (ms_MinCalls (hc_MLScore (dv_cfg env))) (is_mlStats st) (is_prev st)"
  have "not_pos (fst (block_score z))"
    unfolding block_score_def
  proof (rule maxHarmfulZ_not_pos)
    show "not_pos (zs_rate z)" "not_pos (zs_diversity z)"
      using assms(2,3) by (simp_all add: z_def scores_of_def zCount_def ZScoreFloored_not_pos)
    show "not_pos (zs_denyBlock z) \<or> f_lt (zs_toolCalls z) (Finite (-1))"
      using assms(4) by (auto simp: z_def scores_of_def ZScoreFloored_not_pos)
    show "not_pos (f_neg (zs_interArrival z)) \<or> f_lt (zs_rate z) (Finite (-1))"
      using assms(5) by (auto simp: z_def scores_of_def ZScore_def ZScoreFloored_not_neg)
  qed
  with assms(6) have "\<not> f_lt (kb_ScoreThreshold (hc_AutoBlock (dv_cfg env))) (fst (block_score z))"
    using f_le_lt_trans by (auto simp: not_pos_def)
  with assms(1) show ?thesis
    unfolding checkMLScore_def Let_def z_def [symmetric] by (auto split: if_splits)
qed

text \<open>
  A threshold that is not a number turns the drift chart around: no sum is at most it, so every completed window of an
  identity raises both alarms and, with blocking on, blocks it.
\<close>

lemma nan_threshold_always_alarms:
  assumes "dc_H (hc_Drift (dv_cfg env)) = NaN" and "dc_HJitterFraction (hc_Drift (dv_cfg env)) = Finite 0"
    and "dc_MinCalls (hc_Drift (dv_cfg env)) \<le> wn_total (is_prev st)" and "may_block env"
  shows "length (fst (snd (checkDrift env rd e st))) = 2"
proof -
  have "\<not> f_le c NaN" for c by (cases c) auto
  with assms show ?thesis
    by (simp add: checkDrift_def checkDriftFeature_def cusumStep_def driftEffectiveH_def split_def)
qed

section \<open>Tenants do not see each other\<close>

text \<open>A run of the detector: what each entry made it report and whom it blocked.\<close>

fun detector_run :: "detector_env \<Rightarrow> (readings \<times> Entry) list \<Rightarrow> Detector \<Rightarrow> (Entry \<times> anomaly list \<times> block_call list \<times> string list) list \<times> Detector" where
  "detector_run env [] d = ([], d)"
| "detector_run env ((rd, e) # evs) d =
     (let (as, bs, errs, d) = Detector_recordAndCheck env rd e d; (out, d) = detector_run env evs d in ((e, as, bs, errs) # out, d))"

definition tenant_agrees :: "string \<Rightarrow> Detector \<Rightarrow> Detector \<Rightarrow> bool" where
  "tenant_agrees t d d' \<longleftrightarrow> (\<forall>i. dt_state d (tenantIdentityKey t i) = dt_state d' (tenantIdentityKey t i)) \<and>
     dt_tenantState d t = dt_tenantState d' t \<and> dt_churnState d t = dt_churnState d' t"

lemma recordAndCheck_other:
  assumes "e_Tenant e \<noteq> t" and "Detector_recordAndCheck env rd e d = (as, bs, errs, d')"
  shows "tenant_agrees t d' d"
proof (cases "e_Decision e = ''blocked''")
  case True
  with assms(2) show ?thesis by (simp add: Detector_recordAndCheck_def tenant_agrees_def)
next
  case False
  from assms(2) this show ?thesis
    by (rule recordAndCheck_parts) (use assms(1) in \<open>auto simp: tenant_agrees_def block_key_eq split: if_splits\<close>)
qed

lemma recordAndCheck_same:
  assumes "tenant_agrees (e_Tenant e) d d'"
    and "Detector_recordAndCheck env rd e d = (as, bs, errs, d1)" and "Detector_recordAndCheck env rd e d' = (as', bs', errs', d1')"
  shows "as = as' \<and> bs = bs' \<and> errs = errs' \<and> tenant_agrees (e_Tenant e) d1 d1'"
proof (cases "e_Decision e = ''blocked''")
  case True
  with assms show ?thesis by (simp add: Detector_recordAndCheck_def)
next
  case False
  let ?key = "tenantIdentityKey (e_Tenant e) (e_Identity e)"
  have same: "dt_state d ?key = dt_state d' ?key" "dt_tenantState d (e_Tenant e) = dt_tenantState d' (e_Tenant e)"
    "dt_churnState d (e_Tenant e) = dt_churnState d' (e_Tenant e)"
    using assms(1) by (auto simp: tenant_agrees_def)
  from assms(2) False show ?thesis
  proof (rule recordAndCheck_parts)
    fix ia a6 a7 e6 e7 st
    assume 1: "identity_step env rd e (dt_state d ?key) = (ia, bs, st)" "as = ia @ a6 @ a7" "dt_state d1 = (dt_state d)(?key \<mapsto> st)"
      "if tc_Enabled (hc_TenantAnomaly (dv_cfg env))
       then \<exists>ts. checkTenantDrift env rd e (dt_tenantState d (e_Tenant e)) = (a6, e6, ts) \<and> dt_tenantState d1 = (dt_tenantState d)(e_Tenant e \<mapsto> ts)
       else a6 = [] \<and> e6 = [] \<and> dt_tenantState d1 = dt_tenantState d"
      "if ch_Enabled (hc_IdentityChurn (dv_cfg env)) \<and> dt_state d ?key = None
       then \<exists>cs. checkIdentityChurn env rd (e_Tenant e) (dt_churnState d (e_Tenant e)) = (a7, e7, cs) \<and> dt_churnState d1 = (dt_churnState d)(e_Tenant e \<mapsto> cs)
       else a7 = [] \<and> e7 = [] \<and> dt_churnState d1 = dt_churnState d" "errs = e6 @ e7"
    from assms(3) False show ?thesis
      by (rule recordAndCheck_parts) (use 1 same assms(1) in \<open>auto simp: tenant_agrees_def block_key_eq split: if_splits\<close>)
  qed
qed

lemma tenant_agrees_trans: "tenant_agrees t d d' \<Longrightarrow> tenant_agrees t d' d'' \<Longrightarrow> tenant_agrees t d d''"
  by (auto simp: tenant_agrees_def)

lemma detector_run_isolated:
  assumes "tenant_agrees t d d'"
  shows "filter (\<lambda>r. e_Tenant (fst r) = t) (fst (detector_run env evs d)) = fst (detector_run env (filter (\<lambda>ev. e_Tenant (snd ev) = t) evs) d') \<and>
    tenant_agrees t (snd (detector_run env evs d)) (snd (detector_run env (filter (\<lambda>ev. e_Tenant (snd ev) = t) evs) d'))"
  using assms
proof (induction evs arbitrary: d d')
  case Nil
  then show ?case by simp
next
  case (Cons ev evs)
  obtain rd e where ev: "ev = (rd, e)" by fastforce
  obtain as bs errs d1 where step: "Detector_recordAndCheck env rd e d = (as, bs, errs, d1)" by (metis prod_cases4)
  obtain as' bs' errs' d1' where step': "Detector_recordAndCheck env rd e d' = (as', bs', errs', d1')" by (metis prod_cases4)
  show ?case
  proof (cases "e_Tenant e = t")
    case True
    with recordAndCheck_same [OF _ step step'] Cons.prems
    have "as = as' \<and> bs = bs' \<and> errs = errs' \<and> tenant_agrees t d1 d1'" by simp
    with Cons.IH [of d1 d1'] True show ?thesis by (simp add: ev step step' split_def)
  next
    case False
    with recordAndCheck_other [OF False step] Cons.prems have "tenant_agrees t d1 d'" using tenant_agrees_trans by blast
    with Cons.IH [of d1 d'] False show ?thesis by (simp add: ev step split_def)
  qed
qed

text \<open>
  Tenants do not influence each other through the detector. Over any history, everything it reports for a tenant's
  entries (anomalies, blocks, errors) and every baseline it keeps of that tenant are what they would be had
  the entries of all other tenants never been published.
\<close>

theorem detector_tenant_isolation:
  "filter (\<lambda>r. e_Tenant (fst r) = t) (fst (detector_run env evs d)) = fst (detector_run env (filter (\<lambda>ev. e_Tenant (snd ev) = t) evs) d) \<and>
   tenant_agrees t (snd (detector_run env evs d)) (snd (detector_run env (filter (\<lambda>ev. e_Tenant (snd ev) = t) evs) d))"
  by (rule detector_run_isolated) (simp add: tenant_agrees_def)

section \<open>How often an identity is reported\<close>

definition kind_count :: "Kind \<Rightarrow> anomaly list \<Rightarrow> nat" where
  "kind_count K as = length (filter (\<lambda>a. an_Kind a = K) as)"

lemma kind_count_append [simp]: "kind_count K (as @ bs) = kind_count K as + kind_count K bs"
  by (simp add: kind_count_def)

lemma kind_count_0: "\<forall>a \<in> set as. an_Kind a \<noteq> K \<Longrightarrow> kind_count K as = 0"
  by (simp add: kind_count_def filter_empty_conv)

definition latched :: "Kind set" where
  "latched = {KindRateSpike, KindDenyRateSpike, KindMLScore}"

text \<open>Every check reports a latched kind exactly when it sets its latch.\<close>

lemma stage_count:
  assumes "K \<in> latched"
  shows "(if b then checkRateSpike cfg rd e st else ([], st)) = (as, st') \<Longrightarrow>
      kind_count K as + of_bool (K \<in> is_flaggedThisWindow st) = of_bool (K \<in> is_flaggedThisWindow st')"
    and "(if b then checkNovelTool rd e st else ([], st)) = (as, st') \<Longrightarrow>
      kind_count K as + of_bool (K \<in> is_flaggedThisWindow st) = of_bool (K \<in> is_flaggedThisWindow st')"
    and "(if b then checkDenyRateSpike cfg rd e st else ([], st)) = (as, st') \<Longrightarrow>
      kind_count K as + of_bool (K \<in> is_flaggedThisWindow st) = of_bool (K \<in> is_flaggedThisWindow st')"
    and "(if b then checkDrift env rd e st else ([], [], st)) = (as, bs, st') \<Longrightarrow>
      kind_count K as + of_bool (K \<in> is_flaggedThisWindow st) = of_bool (K \<in> is_flaggedThisWindow st')"
    and "(if b then checkMLScore env rd e st else ([], [], st)) = (as, bs, st') \<Longrightarrow>
      kind_count K as + of_bool (K \<in> is_flaggedThisWindow st) = of_bool (K \<in> is_flaggedThisWindow st')"
proof -
  show "(if b then checkRateSpike cfg rd e st else ([], st)) = (as, st') \<Longrightarrow>
      kind_count K as + of_bool (K \<in> is_flaggedThisWindow st) = of_bool (K \<in> is_flaggedThisWindow st')"
    by (auto simp: checkRateSpike_def kind_count_def new_anomaly_def split: if_splits)
  show "(if b then checkNovelTool rd e st else ([], st)) = (as, st') \<Longrightarrow>
      kind_count K as + of_bool (K \<in> is_flaggedThisWindow st) = of_bool (K \<in> is_flaggedThisWindow st')"
    using assms by (auto dest!: stage_novel simp: latched_def intro!: kind_count_0)
  show "(if b then checkDenyRateSpike cfg rd e st else ([], st)) = (as, st') \<Longrightarrow>
      kind_count K as + of_bool (K \<in> is_flaggedThisWindow st) = of_bool (K \<in> is_flaggedThisWindow st')"
    by (auto simp: checkDenyRateSpike_def kind_count_def new_anomaly_def split: if_splits)
  show "(if b then checkDrift env rd e st else ([], [], st)) = (as, bs, st') \<Longrightarrow>
      kind_count K as + of_bool (K \<in> is_flaggedThisWindow st) = of_bool (K \<in> is_flaggedThisWindow st')"
    using assms by (auto dest!: stage_drift simp: latched_def intro!: kind_count_0)
  show "(if b then checkMLScore env rd e st else ([], [], st)) = (as, bs, st') \<Longrightarrow>
      kind_count K as + of_bool (K \<in> is_flaggedThisWindow st) = of_bool (K \<in> is_flaggedThisWindow st')"
    by (auto simp: checkMLScore_def kind_count_def new_anomaly_def split: if_splits)
qed

lemma check_identity_count:
  assumes "check_identity env rd e completed st = (as, bs, st')" and "K \<in> latched"
  shows "kind_count K as + of_bool (K \<in> is_flaggedThisWindow st) = of_bool (K \<in> is_flaggedThisWindow st')" (is ?count)
    and "is_windowStart st' = is_windowStart st"
proof -
  from assms(1) obtain a1 s1 a2 s2 a3 s3 a4 b4 s4 a5 b5 where
    s: "(if hc_RateSpikeEnabled (dv_cfg env) then checkRateSpike (dv_cfg env) rd e st else ([], st)) = (a1, s1)"
    "(if hc_NovelToolEnabled (dv_cfg env) then checkNovelTool rd e s1 else ([], s1)) = (a2, s2)"
    "(if hc_DenyRateSpikeEnabled (dv_cfg env) then checkDenyRateSpike (dv_cfg env) rd e s2 else ([], s2)) = (a3, s3)"
    "(if ms_Enabled (hc_MLScore (dv_cfg env)) \<and> completed \<and> dc_Enabled (hc_Drift (dv_cfg env)) then checkDrift env rd e s3 else ([], [], s3)) = (a4, b4, s4)"
    "(if ms_Enabled (hc_MLScore (dv_cfg env)) \<and> completed then checkMLScore env rd e s4 else ([], [], s4)) = (a5, b5, st')"
    and out: "as = a1 @ a2 @ a3 @ a4 @ a5"
    by (rule check_identityE)
  note counts = stage_count(1) [OF assms(2) s(1)] stage_count(2) [OF assms(2) s(2)] stage_count(3) [OF assms(2) s(3)]
    stage_count(4) [OF assms(2) s(4)] stage_count(5) [OF assms(2) s(5)]
  show ?count unfolding out kind_count_append using counts by linarith
  show "is_windowStart st' = is_windowStart st"
    using stage_rate [OF s(1)] stage_novel [OF s(2)] stage_deny [OF s(3)] stage_drift [OF s(4)] stage_ml [OF s(5)] by simp
qed

lemma window_le: "0 < w \<Longrightarrow> w \<le> time_sub t u \<Longrightarrow> u + w \<le> t"
  by (auto simp: time_sub_def max_duration_def min_duration_def max_def min_def split: if_splits)

lemma identity_step_count:
  assumes "identity_step env rd e (Some s) = (as, bs, s')" and "K \<in> latched" and "0 < detector_window (dv_cfg env)"
  shows "int (kind_count K as) * detector_window (dv_cfg env) \<le>
    (of_bool (K \<in> is_flaggedThisWindow s') - of_bool (K \<in> is_flaggedThisWindow s)) * detector_window (dv_cfg env) +
    (is_windowStart s' - is_windowStart s)"
proof -
  let ?w = "detector_window (dv_cfg env)"
  obtain completed s0 where ent: "entered env rd e (Some s) = (completed, s0)" by fastforce
  with assms(1) have "check_identity env rd e completed s0 = (as, bs, s')" by (simp add: identity_step_entered)
  note c = check_identity_count [OF this assms(2)]
  from c(1) have count: "int (kind_count K as) = of_bool (K \<in> is_flaggedThisWindow s') - of_bool (K \<in> is_flaggedThisWindow s0)"
    by (simp add: of_bool_def split: if_splits)
  show ?thesis
  proof (cases completed)
    case True
    from ent True have "?w \<le> time_sub (rd_now rd) (is_windowStart s)" by (auto simp: entered_def roll_window_def split: if_splits)
    then have "is_windowStart s + ?w \<le> rd_now rd" using window_le assms(3) by blast
    with entered_frame(2) [OF ent True] c(2) assms(3) show ?thesis unfolding count by (auto simp: of_bool_def)
  next
    case False
    with entered_frame(3) [OF ent False] c(2) show ?thesis unfolding count by simp
  qed
qed

text \<open>The anomalies a run reports on the entries of one identity.\<close>

definition reported :: "string \<Rightarrow> string \<Rightarrow> (Entry \<times> anomaly list \<times> block_call list \<times> string list) list \<Rightarrow> anomaly list" where
  "reported t i out = concat (map (\<lambda>(e, as, _). if e_Tenant e = t \<and> e_Identity e = i then as else []) out)"

lemma reported_simps [simp]:
  "reported t i [] = []"
  "reported t i ((e, as, r) # out) = (if e_Tenant e = t \<and> e_Identity e = i then as else []) @ reported t i out"
  by (simp_all add: reported_def split_def)

text \<open>Tenant-level kinds are never latched ones, so the counts of a step are those of its identity part.\<close>

lemma tenant_kinds:
  "checkTenantDrift env rd e old = (as, errs, ts) \<Longrightarrow> \<forall>a \<in> set as. an_Kind a = KindTenantDrift"
  "checkIdentityChurn env rd t old' = (as, errs, cs) \<Longrightarrow> \<forall>a \<in> set as. an_Kind a = KindIdentityChurn"
  by (auto simp: checkTenantDrift_def checkIdentityChurn_def tenant_anomaly_def split_def split: if_splits option.splits prod.splits)

lemma recordAndCheck_kinds:
  assumes "Detector_recordAndCheck env rd e d = (as, bs, errs, d')" and "e_Decision e \<noteq> ''blocked''"
  obtains ia rest st where "identity_step env rd e (dt_state d (tenantIdentityKey (e_Tenant e) (e_Identity e))) = (ia, bs, st)"
    "as = ia @ rest" "\<forall>a \<in> set rest. an_Kind a \<in> {KindTenantDrift, KindIdentityChurn}"
    "dt_state d' = (dt_state d)(tenantIdentityKey (e_Tenant e) (e_Identity e) \<mapsto> st)"
proof (rule recordAndCheck_parts [OF assms])
  fix ia a6 a7 e6 e7 st
  assume 1: "identity_step env rd e (dt_state d (tenantIdentityKey (e_Tenant e) (e_Identity e))) = (ia, bs, st)" "as = ia @ a6 @ a7"
      "dt_state d' = (dt_state d)(tenantIdentityKey (e_Tenant e) (e_Identity e) \<mapsto> st)"
    and 6: "if tc_Enabled (hc_TenantAnomaly (dv_cfg env))
      then \<exists>ts. checkTenantDrift env rd e (dt_tenantState d (e_Tenant e)) = (a6, e6, ts) \<and> dt_tenantState d' = (dt_tenantState d)(e_Tenant e \<mapsto> ts)
      else a6 = [] \<and> e6 = [] \<and> dt_tenantState d' = dt_tenantState d"
    and 7: "if ch_Enabled (hc_IdentityChurn (dv_cfg env)) \<and> dt_state d (tenantIdentityKey (e_Tenant e) (e_Identity e)) = None
      then \<exists>cs. checkIdentityChurn env rd (e_Tenant e) (dt_churnState d (e_Tenant e)) = (a7, e7, cs) \<and> dt_churnState d' = (dt_churnState d)(e_Tenant e \<mapsto> cs)
      else a7 = [] \<and> e7 = [] \<and> dt_churnState d' = dt_churnState d"
  have "\<forall>a \<in> set (a6 @ a7). an_Kind a \<in> {KindTenantDrift, KindIdentityChurn}"
    using 6 7 by (auto dest: tenant_kinds split: if_splits)
  with 1 that show thesis by blast
qed

lemma blocked_step [simp]: "e_Decision e = ''blocked'' \<Longrightarrow> Detector_recordAndCheck env rd e d = ([], [], [], d)"
  by (simp add: Detector_recordAndCheck_def)

lemma other_identity:
  assumes "Detector_recordAndCheck env rd e d = (as, bs, errs, d')" and "(e_Tenant e, e_Identity e) \<noteq> (t, i)"
  shows "dt_state d' (tenantIdentityKey t i) = dt_state d (tenantIdentityKey t i)"
proof (cases "e_Decision e = ''blocked''")
  case False
  from assms(1) this show ?thesis by (rule recordAndCheck_parts) (use assms(2) in \<open>auto simp: block_key_eq\<close>)
qed (use assms in simp)

lemma reported_count:
  assumes "dt_state d (tenantIdentityKey t i) = Some s" and "K \<in> latched" and w: "0 < detector_window (dv_cfg env)"
  shows "\<exists>s'. dt_state (snd (detector_run env evs d)) (tenantIdentityKey t i) = Some s' \<and>
    int (kind_count K (reported t i (fst (detector_run env evs d)))) * detector_window (dv_cfg env) \<le>
      (of_bool (K \<in> is_flaggedThisWindow s') - of_bool (K \<in> is_flaggedThisWindow s)) * detector_window (dv_cfg env) +
      (is_windowStart s' - is_windowStart s)"
  using assms(1)
proof (induction evs arbitrary: d s)
  case Nil
  then show ?case by (simp add: kind_count_def)
next
  case (Cons ev evs)
  let ?w = "detector_window (dv_cfg env)"
  obtain rd e where ev: "ev = (rd, e)" by fastforce
  obtain as bs errs d1 where step: "Detector_recordAndCheck env rd e d = (as, bs, errs, d1)" by (metis prod_cases4)
  show ?case
  proof (cases "e_Tenant e = t \<and> e_Identity e = i \<and> e_Decision e \<noteq> ''blocked''")
    case own: True
    with step obtain ia rest s1 where ident: "identity_step env rd e (Some s) = (ia, bs, s1)" and as: "as = ia @ rest"
      and rest: "\<forall>a \<in> set rest. an_Kind a \<in> {KindTenantDrift, KindIdentityChurn}"
      and d1: "dt_state d1 (tenantIdentityKey t i) = Some s1"
      using Cons.prems by (elim recordAndCheck_kinds) auto
    have "kind_count K as = kind_count K ia" using rest assms(2) by (auto simp: as latched_def intro!: kind_count_0)
    with identity_step_count [OF ident assms(2) w] Cons.IH [OF d1] own show ?thesis
      by (auto simp: ev step split_def algebra_simps)
  next
    case False
    then have "dt_state d1 (tenantIdentityKey t i) = Some s" "e_Tenant e = t \<and> e_Identity e = i \<longrightarrow> as = []"
      using other_identity [OF step] step Cons.prems by auto
    moreover from this have "reported t i (fst (detector_run env (ev # evs) d)) = reported t i (fst (detector_run env evs d1))"
      "snd (detector_run env (ev # evs) d) = snd (detector_run env evs d1)"
      by (auto simp: ev step split_def)
    ultimately show ?thesis using Cons.IH [of d1 s] by simp
  qed
qed

text \<open>
  Alerts do not flood: over any history, with any clock, an identity is reported for a call-rate spike, for a denial
  spike and for its score at most once more than the number of whole windows its window has moved on.
\<close>

theorem alert_rate_bounded:
  assumes "dt_state d (tenantIdentityKey t i) = Some s" and "0 < detector_window (dv_cfg env)"
    and "K \<in> {KindRateSpike, KindDenyRateSpike, KindMLScore}"
  shows "\<exists>s'. dt_state (snd (detector_run env evs d)) (tenantIdentityKey t i) = Some s' \<and>
    int (kind_count K (reported t i (fst (detector_run env evs d)))) \<le>
      1 + (is_windowStart s' - is_windowStart s) div detector_window (dv_cfg env)"
proof -
  let ?w = "detector_window (dv_cfg env)" and ?n = "int (kind_count K (reported t i (fst (detector_run env evs d))))"
  obtain s' where s': "dt_state (snd (detector_run env evs d)) (tenantIdentityKey t i) = Some s'"
    and "?n * ?w \<le> (of_bool (K \<in> is_flaggedThisWindow s') - of_bool (K \<in> is_flaggedThisWindow s)) * ?w + (is_windowStart s' - is_windowStart s)"
    using reported_count [OF assms(1) _ assms(2)] assms(3) by (auto simp: latched_def)
  then have "?n * ?w \<le> ?w + (is_windowStart s' - is_windowStart s)"
    using assms(2) by (auto simp: of_bool_def split: if_splits)
  then have "(?n - 1) * ?w \<le> is_windowStart s' - is_windowStart s" by (simp add: algebra_simps)
  then have "?n - 1 \<le> (is_windowStart s' - is_windowStart s) div ?w"
    using assms(2) zdiv_mono1 [of "(?n - 1) * ?w" _ ?w] by simp
  with s' show ?thesis by auto
qed

section \<open>Every new tool is reported once\<close>

definition novel_tools :: "anomaly list \<Rightarrow> string list" where
  "novel_tools as = map (\<lambda>a. e_Tool (an_Entry a)) (filter (\<lambda>a. an_Kind a = KindNovelTool) as)"

lemma novel_tools_append [simp]: "novel_tools (as @ bs) = novel_tools as @ novel_tools bs"
  by (simp add: novel_tools_def)

lemma novel_tools_none: "\<forall>a \<in> set as. an_Kind a \<noteq> KindNovelTool \<Longrightarrow> novel_tools as = []"
  by (simp add: novel_tools_def filter_empty_conv)

definition known_tools :: "identityState option \<Rightarrow> string set" where
  "known_tools old = (case old of Some s \<Rightarrow> is_tools s | None \<Rightarrow> {})"

lemma identity_step_tools:
  assumes "identity_step env rd e old = (ia, bs, s')" and "hc_NovelToolEnabled (dv_cfg env)"
  shows "novel_tools ia = (if isToolCall e \<and> e_Tool e \<notin> known_tools old then [e_Tool e] else []) \<and>
    is_tools s' = (if isToolCall e then insert (e_Tool e) (known_tools old) else known_tools old)"
proof -
  obtain completed s0 where ent: "entered env rd e old = (completed, s0)" by fastforce
  with assms(1) have "check_identity env rd e completed s0 = (ia, bs, s')" by (simp add: identity_step_entered)
  then obtain a1 s1 a2 s2 a3 s3 a4 b4 s4 a5 b5 where
    s: "(if hc_RateSpikeEnabled (dv_cfg env) then checkRateSpike (dv_cfg env) rd e s0 else ([], s0)) = (a1, s1)"
    "(if hc_NovelToolEnabled (dv_cfg env) then checkNovelTool rd e s1 else ([], s1)) = (a2, s2)"
    "(if hc_DenyRateSpikeEnabled (dv_cfg env) then checkDenyRateSpike (dv_cfg env) rd e s2 else ([], s2)) = (a3, s3)"
    "(if ms_Enabled (hc_MLScore (dv_cfg env)) \<and> completed \<and> dc_Enabled (hc_Drift (dv_cfg env)) then checkDrift env rd e s3 else ([], [], s3)) = (a4, b4, s4)"
    "(if ms_Enabled (hc_MLScore (dv_cfg env)) \<and> completed then checkMLScore env rd e s4 else ([], [], s4)) = (a5, b5, s')"
    and out: "ia = a1 @ a2 @ a3 @ a4 @ a5"
    by (rule check_identityE)
  have "novel_tools a1 = []" "novel_tools a3 = []" "novel_tools a4 = []" "novel_tools a5 = []"
    using stage_rate [OF s(1)] stage_deny [OF s(3)] stage_drift [OF s(4)] stage_ml [OF s(5)] by (auto intro!: novel_tools_none)
  moreover have "is_tools s1 = known_tools old"
    using stage_rate [OF s(1)] entered_frame(4) [OF ent] by (simp add: known_tools_def)
  moreover have "is_tools s' = is_tools s2"
    using stage_deny [OF s(3)] stage_drift [OF s(4)] stage_ml [OF s(5)] by simp
  moreover have "novel_tools a2 = (if isToolCall e \<and> e_Tool e \<notin> is_tools s1 then [e_Tool e] else []) \<and>
      is_tools s2 = (if isToolCall e then insert (e_Tool e) (is_tools s1) else is_tools s1)"
    using s(2) assms(2) by (auto simp: checkNovelTool_def novel_tools_def new_anomaly_def)
  ultimately show ?thesis by (simp add: out)
qed

text \<open>The tools an identity called, as the entries of a run say.\<close>

definition called_tools :: "string \<Rightarrow> string \<Rightarrow> (readings \<times> Entry) list \<Rightarrow> string list" where
  "called_tools t i evs = map (\<lambda>ev. e_Tool (snd ev))
     (filter (\<lambda>ev. e_Tenant (snd ev) = t \<and> e_Identity (snd ev) = i \<and> isToolCall (snd ev) \<and> e_Decision (snd ev) \<noteq> ''blocked'') evs)"

lemma first_sighting:
  assumes "distinct N" and "set N = C - (if b then insert x K else K)"
  shows "distinct ((if b \<and> x \<notin> K then [x] else []) @ N) \<and> set ((if b \<and> x \<notin> K then [x] else []) @ N) = (if b then {x} else {}) \<union> C - K"
proof (cases b)
  case True
  then show ?thesis using assms by (cases "x \<in> K") auto
next
  case False
  then show ?thesis using assms by simp
qed

lemma reported_tools:
  assumes "hc_NovelToolEnabled (dv_cfg env)"
  shows "distinct (novel_tools (reported t i (fst (detector_run env evs d)))) \<and>
    set (novel_tools (reported t i (fst (detector_run env evs d)))) =
      set (called_tools t i evs) - known_tools (dt_state d (tenantIdentityKey t i))"
proof (induction evs arbitrary: d)
  case Nil
  then show ?case by (simp add: novel_tools_def called_tools_def)
next
  case (Cons ev evs)
  obtain rd e where ev: "ev = (rd, e)" by fastforce
  obtain as bs errs d1 where step: "Detector_recordAndCheck env rd e d = (as, bs, errs, d1)" by (metis prod_cases4)
  have run: "reported t i (fst (detector_run env (ev # evs) d)) =
      (if e_Tenant e = t \<and> e_Identity e = i then as else []) @ reported t i (fst (detector_run env evs d1))"
    by (simp add: ev step split_def)
  show ?case
  proof (cases "e_Tenant e = t \<and> e_Identity e = i \<and> e_Decision e \<noteq> ''blocked''")
    case own: True
    let ?old = "dt_state d (tenantIdentityKey t i)"
    from own step obtain ia rest s1 where ident: "identity_step env rd e ?old = (ia, bs, s1)" and as: "as = ia @ rest"
      and rest: "\<forall>a \<in> set rest. an_Kind a \<in> {KindTenantDrift, KindIdentityChurn}"
      and d1: "dt_state d1 (tenantIdentityKey t i) = Some s1"
      by (elim recordAndCheck_kinds) auto
    have "novel_tools as = novel_tools ia" using rest by (auto simp: as intro!: novel_tools_none)
    with identity_step_tools [OF ident assms]
    have tools: "novel_tools as = (if isToolCall e \<and> e_Tool e \<notin> known_tools ?old then [e_Tool e] else [])"
      "known_tools (dt_state d1 (tenantIdentityKey t i)) = (if isToolCall e then insert (e_Tool e) (known_tools ?old) else known_tools ?old)"
      by (simp_all add: d1 known_tools_def)
    have called: "set (called_tools t i (ev # evs)) = (if isToolCall e then {e_Tool e} else {}) \<union> set (called_tools t i evs)"
      using own by (auto simp: called_tools_def ev)
    obtain N where N: "distinct N" "set N = set (called_tools t i evs) - known_tools (dt_state d1 (tenantIdentityKey t i))"
      "novel_tools (reported t i (fst (detector_run env (ev # evs) d))) = novel_tools as @ N"
      using Cons.IH [of d1] own by (simp only: run novel_tools_append if_True simp_thms) blast
    show ?thesis unfolding N(3) called tools(1) using N(1,2) unfolding tools(2) by (rule first_sighting)
  next
    case False
    then have d1: "dt_state d1 (tenantIdentityKey t i) = dt_state d (tenantIdentityKey t i)" and "e_Tenant e = t \<and> e_Identity e = i \<longrightarrow> as = []"
      using other_identity [OF step] step by auto
    then have "reported t i (fst (detector_run env (ev # evs) d)) = reported t i (fst (detector_run env evs d1))" unfolding run by auto
    moreover from False have "called_tools t i (ev # evs) = called_tools t i evs" by (auto simp: called_tools_def ev)
    ultimately show ?thesis using Cons.IH [of d1] by (simp only: d1)
  qed
qed

text \<open>
  Over any history of an identity the detector has not seen before, each tool it calls is reported as new exactly once, and
  nothing else is: protocol messages and entries without a tool are not tools, and calls the block list
  turned away do not count.
\<close>

theorem novel_tools_exact:
  assumes "hc_NovelToolEnabled (dv_cfg env)" and "dt_state d (tenantIdentityKey t i) = None"
  shows "distinct (novel_tools (reported t i (fst (detector_run env evs d)))) \<and>
    set (novel_tools (reported t i (fst (detector_run env evs d)))) = set (called_tools t i evs)"
  using reported_tools [OF assms(1), of t i evs d] assms(2) by (simp add: known_tools_def)

section \<open>A blocked identity keeps its baseline\<close>

datatype detector_op = Published readings Entry | Swept go_time duration

fun detector_op_step :: "detector_env \<Rightarrow> detector_op \<Rightarrow> Detector \<Rightarrow> Detector" where
  "detector_op_step env (Published rd e) d = snd (snd (snd (Detector_recordAndCheck env rd e d)))"
| "detector_op_step env (Swept now interval) d = detector_gc now interval d"

text \<open>What the block list lets through of an operation while the identity is blocked and the sweeps that run meanwhile.\<close>

fun while_blocked :: "BlockChecker \<Rightarrow> string \<Rightarrow> string \<Rightarrow> duration \<Rightarrow> detector_op \<Rightarrow> bool" where
  "while_blocked b t i interval (Published rd e) = ((e_Tenant e, e_Identity e) = (t, i) \<longrightarrow> e_Decision e = ''blocked'')"
| "while_blocked b t i interval (Swept now iv) = (iv = interval \<and> \<not> bk_Allowed (BlockChecker_Check b i t now))"

lemma gc_keeps:
  assumes "dt_state d k = Some s" and "now \<le> is_lastSeen s + 2 * interval" and "0 \<le> interval" "interval < 2 ^ 62"
  shows "dt_state (detector_gc now interval d) k = Some s"
proof -
  have "wrap64 (- 2 * interval) = - 2 * interval" using assms(3,4) by (intro wrap64_id) auto
  then show ?thesis using assms(1,2) by (simp add: detector_gc_def gc_cutoff_def map_keep_def)
qed

lemma frozen_step:
  assumes "dt_state d (tenantIdentityKey t i) = Some s" and "while_blocked b t i interval op"
    and "\<And>now. \<not> bk_Allowed (BlockChecker_Check b i t now) \<Longrightarrow> now \<le> is_lastSeen s + 2 * interval"
    and "0 \<le> interval" "interval < 2 ^ 62"
  shows "dt_state (detector_op_step env op d) (tenantIdentityKey t i) = Some s"
proof (cases op)
  case (Published rd e)
  obtain as bs errs d1 where step: "Detector_recordAndCheck env rd e d = (as, bs, errs, d1)" by (metis prod_cases4)
  with assms(1,2) Published show ?thesis
    using other_identity [OF step, of t i] by (cases "(e_Tenant e, e_Identity e) = (t, i)") auto
next
  case (Swept now iv)
  with assms(2,3) have "now \<le> is_lastSeen s + 2 * interval" "iv = interval" by auto
  with Swept gc_keeps [OF assms(1) _ assms(4,5)] show ?thesis by simp
qed

lemma identity_step_lastSeen:
  assumes "identity_step env rd e old = (ia, bs, s')" shows "is_lastSeen s' = rd_now rd"
proof -
  obtain completed s0 where ent: "entered env rd e old = (completed, s0)" by fastforce
  with assms have "check_identity env rd e completed s0 = (ia, bs, s')" by (simp add: identity_step_entered)
  then show ?thesis
    by (rule check_identityE) (use entered_frame(1) [OF ent] in \<open>metis stage_rate stage_novel stage_deny stage_drift stage_ml\<close>)
qed

text \<open>
  A blocked identity comes back to the baseline it left: from the entry that got it blocked, for as long as the block lasts,
  no sweep evicts its state and none of its refused calls changes it, so it is scored afterwards as if the blocked
  period had not happened. This rests on what the configuration enforces: a block lasts no longer than two
  sweep intervals.
\<close>

theorem baseline_frozen_while_blocked:
  assumes "Detector_recordAndCheck env rd e d = (as, bs, errs, d')" and "e_Decision e \<noteq> ''blocked''"
    and "wrap64 (bc_BlockDurationSeconds b * second) \<le> 2 * interval" and "0 \<le> interval" "interval < 2 ^ 62"
    and "list_all (while_blocked (Block (e_Identity e) (e_Tenant e) reason (rd_now rd) b) (e_Tenant e) (e_Identity e) interval) ops"
  shows "dt_state (fold (detector_op_step env) ops d') (tenantIdentityKey (e_Tenant e) (e_Identity e)) =
    dt_state d' (tenantIdentityKey (e_Tenant e) (e_Identity e))"
proof -
  let ?k = "tenantIdentityKey (e_Tenant e) (e_Identity e)" and ?b = "Block (e_Identity e) (e_Tenant e) reason (rd_now rd) b"
  from assms(1,2) obtain s where s: "dt_state d' ?k = Some s" "is_lastSeen s = rd_now rd"
    by (rule recordAndCheck_parts) (auto dest: identity_step_lastSeen)
  have blocked: "now \<le> is_lastSeen s + 2 * interval" if "\<not> bk_Allowed (BlockChecker_Check ?b (e_Identity e) (e_Tenant e) now)" for now
    using that assms(3) s(2) by (auto simp: BlockChecker_Check_def Block_def block_expired_def split: if_splits)
  have "dt_state (fold (detector_op_step env) ops d1) ?k = Some s" if "dt_state d1 ?k = Some s" for d1
    using that assms(6)
  proof (induction ops arbitrary: d1)
    case (Cons op ops)
    then have "while_blocked ?b (e_Tenant e) (e_Identity e) interval op" by simp
    from Cons.IH [OF frozen_step [OF Cons.prems(1) this blocked assms(4,5)]] Cons.prems(2) show ?case by simp
  qed simp
  with s show ?thesis by simp
qed

section \<open>Checkpoints\<close>

record WindowCountsSnapshot =
  sw_Total :: int
  sw_ToolCalls :: int
  sw_Deny :: int
  sw_UniqueTools :: "string list"
  sw_InterArrivalSum :: int
  sw_InterArrivalN :: int

record OnlineStatSnapshot =
  so_Mean :: float64
  so_M2 :: float64
  so_Count :: int

record MLFeatureStateSnapshot =
  sm_Rate :: OnlineStatSnapshot
  sm_Diversity :: OnlineStatSnapshot
  sm_DenyRatio :: OnlineStatSnapshot
  sm_InterArrival :: OnlineStatSnapshot
  sm_ToolCalls :: OnlineStatSnapshot

record IdentityStateSnapshot =
  ss_Tools :: "string list"
  ss_WindowStart :: go_time
  ss_Cur :: WindowCountsSnapshot
  ss_Prev :: WindowCountsSnapshot
  ss_FlaggedThisWindow :: "Kind list"
  ss_LastSeen :: go_time
  ss_MLStats :: MLFeatureStateSnapshot
  ss_LastCallAt :: go_time
  ss_DriftCUSUM :: float64
  ss_DriftDiversityCUSUM :: float64

text \<open>The order in which the runtime lists a set is an argument.\<close>

definition lists_sets :: "('a set \<Rightarrow> 'a list) \<Rightarrow> bool" where
  "lists_sets ord' \<longleftrightarrow> (\<forall>S. finite S \<longrightarrow> set (ord' S) = S)"

definition snapshotWindowCounts :: "(string set \<Rightarrow> string list) \<Rightarrow> windowCounts \<Rightarrow> WindowCountsSnapshot" where
  "snapshotWindowCounts stringSetToSlice w =
     \<lparr>sw_Total = wn_total w, sw_ToolCalls = wn_toolCalls w, sw_Deny = wn_deny w, sw_UniqueTools = stringSetToSlice (wn_uniqueTools w),
      sw_InterArrivalSum = wn_interArrivalSum w, sw_InterArrivalN = wn_interArrivalN w\<rparr>"

definition toWindowCounts :: "WindowCountsSnapshot \<Rightarrow> windowCounts" where
  "toWindowCounts s =
     \<lparr>wn_total = sw_Total s, wn_toolCalls = sw_ToolCalls s, wn_deny = sw_Deny s, wn_uniqueTools = set (sw_UniqueTools s),
      wn_interArrivalSum = sw_InterArrivalSum s, wn_interArrivalN = sw_InterArrivalN s\<rparr>"

definition snapshotOnlineStat :: "onlineStat \<Rightarrow> OnlineStatSnapshot" where
  "snapshotOnlineStat s = \<lparr>so_Mean = st_mean s, so_M2 = st_m2 s, so_Count = st_count s\<rparr>"

definition toOnlineStat :: "OnlineStatSnapshot \<Rightarrow> onlineStat" where
  "toOnlineStat s = \<lparr>st_mean = so_Mean s, st_m2 = so_M2 s, st_count = so_Count s\<rparr>"

definition snapshotMLFeatureState :: "mlFeatureState \<Rightarrow> MLFeatureStateSnapshot" where
  "snapshotMLFeatureState m =
     \<lparr>sm_Rate = snapshotOnlineStat (mf_rate m), sm_Diversity = snapshotOnlineStat (mf_diversity m),
      sm_DenyRatio = snapshotOnlineStat (mf_denyRatio m), sm_InterArrival = snapshotOnlineStat (mf_interArrival m),
      sm_ToolCalls = snapshotOnlineStat (mf_toolCalls m)\<rparr>"

definition toMLFeatureState :: "MLFeatureStateSnapshot \<Rightarrow> mlFeatureState" where
  "toMLFeatureState s =
     \<lparr>mf_rate = toOnlineStat (sm_Rate s), mf_diversity = toOnlineStat (sm_Diversity s), mf_denyRatio = toOnlineStat (sm_DenyRatio s),
      mf_interArrival = toOnlineStat (sm_InterArrival s), mf_toolCalls = toOnlineStat (sm_ToolCalls s)\<rparr>"

definition snapshotIdentityState :: "(string set \<Rightarrow> string list) \<Rightarrow> (Kind set \<Rightarrow> Kind list) \<Rightarrow> identityState \<Rightarrow> IdentityStateSnapshot" where
  "snapshotIdentityState stringSetToSlice flagged st =
     \<lparr>ss_Tools = stringSetToSlice (is_tools st), ss_WindowStart = is_windowStart st,
      ss_Cur = snapshotWindowCounts stringSetToSlice (is_cur st), ss_Prev = snapshotWindowCounts stringSetToSlice (is_prev st),
      ss_FlaggedThisWindow = flagged (is_flaggedThisWindow st), ss_LastSeen = is_lastSeen st,
      ss_MLStats = snapshotMLFeatureState (is_mlStats st), ss_LastCallAt = is_lastCallAt st,
      ss_DriftCUSUM = is_driftCUSUM st, ss_DriftDiversityCUSUM = is_driftDiversityCUSUM st\<rparr>"

definition toIdentityState :: "IdentityStateSnapshot \<Rightarrow> identityState" where
  "toIdentityState s =
     \<lparr>is_tools = set (ss_Tools s), is_windowStart = ss_WindowStart s, is_cur = toWindowCounts (ss_Cur s), is_prev = toWindowCounts (ss_Prev s),
      is_flaggedThisWindow = set (ss_FlaggedThisWindow s), is_lastSeen = ss_LastSeen s, is_mlStats = toMLFeatureState (ss_MLStats s),
      is_lastCallAt = ss_LastCallAt s, is_driftCUSUM = ss_DriftCUSUM s, is_driftDiversityCUSUM = ss_DriftDiversityCUSUM s\<rparr>"

text \<open>What a sweep hands to the baseline store: the snapshots of the identities it kept and the keys of those it dropped.\<close>

definition gc_toSave :: "(string set \<Rightarrow> string list) \<Rightarrow> (Kind set \<Rightarrow> Kind list) \<Rightarrow> Detector \<Rightarrow> string \<rightharpoonup> IdentityStateSnapshot" where
  "gc_toSave stringSetToSlice flagged d = (\<lambda>key. map_option (snapshotIdentityState stringSetToSlice flagged) (dt_state d key))"

definition gc_deletedKeys :: "go_time \<Rightarrow> duration \<Rightarrow> Detector \<Rightarrow> string set" where
  "gc_deletedKeys now interval d = {key. \<exists>st. dt_state d key = Some st \<and> is_lastSeen st < gc_cutoff now interval}"

definition restore_identities :: "(string \<rightharpoonup> IdentityStateSnapshot) \<Rightarrow> Detector \<Rightarrow> Detector" where
  "restore_identities snapshots d = d\<lparr>dt_state := dt_state d ++ (\<lambda>key. map_option toIdentityState (snapshots key))\<rparr>"

text \<open>
  Loading a store: nothing where there is none, the store's error where it fails, else the answer restored. A load has the
  result of \<open>LoadAll\<close> as argument.
\<close>

definition load_store :: "('snaps \<Rightarrow> Detector \<Rightarrow> Detector) \<Rightarrow> (string + 'snaps) option \<Rightarrow> Detector \<Rightarrow> string option \<times> Detector" where
  "load_store restore loaded d =
     (case loaded of None \<Rightarrow> (None, d) | Some (Inl err) \<Rightarrow> (Some err, d) | Some (Inr snapshots) \<Rightarrow> (None, restore snapshots d))"

definition LoadBaselines :: "(string + (string \<rightharpoonup> IdentityStateSnapshot)) option \<Rightarrow> Detector \<Rightarrow> string option \<times> Detector" where
  "LoadBaselines = load_store restore_identities"

text \<open>The aggregates of a tenant are stored without their windows; restored ones begin at the zero time.\<close>

record ChurnBaselineSnapshot =
  sc_Mean :: float64
  sc_M2 :: float64
  sc_Count :: int
  sc_CUSUM :: float64

definition gc_tenantToSave :: "Detector \<Rightarrow> string \<rightharpoonup> OnlineStatSnapshot" where
  "gc_tenantToSave d = (\<lambda>tenantName. map_option (\<lambda>ts. snapshotOnlineStat (tw_rateStat ts)) (dt_tenantState d tenantName))"

definition gc_churnToSave :: "Detector \<Rightarrow> string \<rightharpoonup> ChurnBaselineSnapshot" where
  "gc_churnToSave d = (\<lambda>tenantName. map_option (\<lambda>cs. \<lparr>sc_Mean = st_mean (cw_rateStat cs), sc_M2 = st_m2 (cw_rateStat cs),
     sc_Count = st_count (cw_rateStat cs), sc_CUSUM = cw_churnCUSUM cs\<rparr>) (dt_churnState d tenantName))"

definition restore_tenants :: "(string \<rightharpoonup> OnlineStatSnapshot) \<Rightarrow> Detector \<Rightarrow> Detector" where
  "restore_tenants snapshots d = d\<lparr>dt_tenantState := \<lambda>tenantName. case snapshots tenantName of
       None \<Rightarrow> dt_tenantState d tenantName
     | Some snap \<Rightarrow> Some ((case dt_tenantState d tenantName of
           Some ts \<Rightarrow> ts
         | None \<Rightarrow> \<lparr>tw_windowStart = 0, tw_cur = 0, tw_prev = 0, tw_rateStat = zero_onlineStat, tw_flagged = False, tw_lastSeen = 0\<rparr>)
         \<lparr>tw_rateStat := toOnlineStat snap\<rparr>)\<rparr>"

definition LoadTenantBaselines :: "(string + (string \<rightharpoonup> OnlineStatSnapshot)) option \<Rightarrow> Detector \<Rightarrow> string option \<times> Detector" where
  "LoadTenantBaselines = load_store restore_tenants"

definition restore_churn :: "(string \<rightharpoonup> ChurnBaselineSnapshot) \<Rightarrow> Detector \<Rightarrow> Detector" where
  "restore_churn snapshots d = d\<lparr>dt_churnState := \<lambda>tenantName. case snapshots tenantName of
       None \<Rightarrow> dt_churnState d tenantName
     | Some snap \<Rightarrow> Some ((case dt_churnState d tenantName of
           Some cs \<Rightarrow> cs
         | None \<Rightarrow> \<lparr>cw_windowStart = 0, cw_cur = 0, cw_rateStat = zero_onlineStat, cw_lastSeen = 0, cw_churnCUSUM = Finite 0\<rparr>)
         \<lparr>cw_rateStat := \<lparr>st_mean = sc_Mean snap, st_m2 = sc_M2 snap, st_count = sc_Count snap\<rparr>, cw_churnCUSUM := sc_CUSUM snap\<rparr>)\<rparr>"

definition LoadChurnBaselines :: "(string + (string \<rightharpoonup> ChurnBaselineSnapshot)) option \<Rightarrow> Detector \<Rightarrow> string option \<times> Detector" where
  "LoadChurnBaselines = load_store restore_churn"

text \<open>A restart with every store configured: the process loads the three checkpoints into a new detector.\<close>

definition restarted :: "(string set \<Rightarrow> string list) \<Rightarrow> (Kind set \<Rightarrow> Kind list) \<Rightarrow> Detector \<Rightarrow> Detector" where
  "restarted stringSetToSlice flagged d =
     snd (LoadChurnBaselines (Some (Inr (gc_churnToSave d))) (snd (LoadTenantBaselines (Some (Inr (gc_tenantToSave d)))
       (snd (LoadBaselines (Some (Inr (gc_toSave stringSetToSlice flagged d))) NewDetector)))))"

lemma window_roundtrip:
  "lists_sets ord' \<Longrightarrow> finite (wn_uniqueTools w) \<Longrightarrow> toWindowCounts (snapshotWindowCounts ord' w) = w"
  by (simp add: toWindowCounts_def snapshotWindowCounts_def lists_sets_def)

lemma stats_roundtrip: "toMLFeatureState (snapshotMLFeatureState m) = m"
  by (simp add: toMLFeatureState_def snapshotMLFeatureState_def toOnlineStat_def snapshotOnlineStat_def)

text \<open>The sets of a state are finite, as those of a program are.\<close>

definition finite_sets :: "Detector \<Rightarrow> bool" where
  "finite_sets d \<longleftrightarrow> (\<forall>st \<in> ran (dt_state d). finite (is_tools st) \<and> finite (wn_uniqueTools (is_cur st)) \<and> finite (wn_uniqueTools (is_prev st)))"

lemma checks_windows:
  "is_cur (snd (checkRateSpike cfg rd e st)) = is_cur st" "is_prev (snd (checkRateSpike cfg rd e st)) = is_prev st"
  "is_cur (snd (checkNovelTool rd e st)) = is_cur st" "is_prev (snd (checkNovelTool rd e st)) = is_prev st"
  "is_cur (snd (checkDenyRateSpike cfg rd e st)) = is_cur st" "is_prev (snd (checkDenyRateSpike cfg rd e st)) = is_prev st"
  "is_cur (snd (snd (checkDrift env rd e st))) = is_cur st" "is_prev (snd (snd (checkDrift env rd e st))) = is_prev st"
  "is_cur (snd (snd (checkMLScore env rd e st))) = is_cur st" "is_prev (snd (snd (checkMLScore env rd e st))) = is_prev st"
  by (simp_all add: checkRateSpike_def checkNovelTool_def checkDenyRateSpike_def checkDrift_def checkMLScore_def split_def)

definition finite_state :: "identityState \<Rightarrow> bool" where
  "finite_state st \<longleftrightarrow> finite (is_tools st) \<and> finite (wn_uniqueTools (is_cur st)) \<and> finite (wn_uniqueTools (is_prev st))"

lemma check_identity_finite: "finite_state st \<Longrightarrow> finite_state (snd (snd (check_identity env rd e completed st)))"
proof -
  have "finite_state (snd (checkRateSpike cfg rd e s))" "finite_state (snd (checkNovelTool rd e s))"
    "finite_state (snd (checkDenyRateSpike cfg rd e s))" "finite_state (snd (snd (checkDrift env rd e s)))"
    "finite_state (snd (snd (checkMLScore env rd e s)))" if "finite_state s" for cfg s
    using that unfolding finite_state_def checks_frame checks_windows by (auto simp: checkNovelTool_def)
  then show "finite_state st \<Longrightarrow> finite_state (snd (snd (check_identity env rd e completed st)))"
    by (simp add: check_identity_def split_def)
qed

lemma finite_sets_iff: "finite_sets d \<longleftrightarrow> (\<forall>key st. dt_state d key = Some st \<longrightarrow> finite_state st)"
  by (auto simp: finite_sets_def finite_state_def ran_def)

lemma finite_sets_step:
  assumes "finite_sets d" shows "finite_sets (detector_op_step env op d)"
proof (cases op)
  case (Published rd e)
  let ?k = "tenantIdentityKey (e_Tenant e) (e_Identity e)"
  obtain as bs errs d1 where step: "Detector_recordAndCheck env rd e d = (as, bs, errs, d1)" by (metis prod_cases4)
  have "finite_state (snd (entered env rd e (dt_state d ?k)))"
    using assms by (auto simp: entered_def roll_window_def count_entry_def finite_state_def new_identityState_def zero_windowCounts_def finite_sets_iff
        split: option.split)
  then have ident: "finite_state (snd (snd (identity_step env rd e (dt_state d ?k))))"
    by (simp add: identity_step_entered check_identity_finite split_def)
  show ?thesis
  proof (cases "e_Decision e = ''blocked''")
    case True
    with assms Published show ?thesis by simp
  next
    case False
    from step this have "finite_sets d1" by (rule recordAndCheck_parts) (use assms ident in \<open>auto simp: finite_sets_iff\<close>)
    with Published step show ?thesis by simp
  qed
next
  case (Swept now interval)
  with assms show ?thesis by (auto simp: finite_sets_iff detector_gc_def map_keep_def split: option.splits if_splits)
qed

text \<open>So every state a process reaches has finite sets.\<close>

lemma finite_sets_reachable: "finite_sets (fold (detector_op_step env) ops NewDetector)"
proof -
  have "finite_sets (fold (detector_op_step env) ops d)" if "finite_sets d" for d
    using that by (induction ops arbitrary: d) (simp_all add: finite_sets_step)
  moreover have "finite_sets NewDetector" by (simp add: finite_sets_def NewDetector_def)
  ultimately show ?thesis by blast
qed

lemma all_kinds: "set [KindRateSpike, KindNovelTool, KindDenyRateSpike, KindMLScore, KindDrift, KindTenantDrift, KindIdentityChurn] = UNIV"
proof -
  have "k \<in> set [KindRateSpike, KindNovelTool, KindDenyRateSpike, KindMLScore, KindDrift, KindTenantDrift, KindIdentityChurn]" for k
    by (cases k) simp_all
  then show ?thesis by blast
qed

lemma snapshot_roundtrip:
  assumes "lists_sets ordT" and "lists_sets ordK" and "finite (is_tools st)" "finite (wn_uniqueTools (is_cur st))" "finite (wn_uniqueTools (is_prev st))"
  shows "toIdentityState (snapshotIdentityState ordT ordK st) = st"
proof -
  have "finite (is_flaggedThisWindow st)"
    using all_kinds finite_subset [OF subset_UNIV] by (metis List.finite_set)
  with assms show ?thesis
    by (simp add: toIdentityState_def snapshotIdentityState_def window_roundtrip stats_roundtrip) (simp add: lists_sets_def)
qed

lemmas load_defs = LoadBaselines_def LoadTenantBaselines_def LoadChurnBaselines_def load_store_def restore_identities_def
  restore_tenants_def restore_churn_def

text \<open>
  A restart loses no baseline: a new detector that loads what a sweep hands to the stores holds exactly the identities the
  sweep kept, each in the state it had, and the call-volume and churn baselines of exactly the tenants it kept; the keys the
  sweep tells the store to delete are those of the identities it dropped.
\<close>

theorem checkpoint_resumes:
  assumes "finite_sets d" and "lists_sets ordT" and "lists_sets ordK"
  shows "let swept = detector_gc now interval d; d' = restarted ordT ordK swept
    in dt_state d' = dt_state swept \<and>
       (\<forall>tn. map_option tw_rateStat (dt_tenantState d' tn) = map_option tw_rateStat (dt_tenantState swept tn)) \<and>
       (\<forall>tn. map_option (\<lambda>cs. (cw_rateStat cs, cw_churnCUSUM cs)) (dt_churnState d' tn) =
             map_option (\<lambda>cs. (cw_rateStat cs, cw_churnCUSUM cs)) (dt_churnState swept tn)) \<and>
       gc_deletedKeys now interval d = dom (dt_state d) - dom (dt_state swept)"
proof -
  let ?swept = "detector_gc now interval d"
  have "toIdentityState (snapshotIdentityState ordT ordK st) = st" if "dt_state d key = Some st" for key st
    using that assms by (intro snapshot_roundtrip) (auto simp: finite_sets_def ran_def)
  then have "dt_state (restarted ordT ordK ?swept) key = dt_state ?swept key" for key
    by (auto simp: restarted_def load_defs NewDetector_def gc_toSave_def detector_gc_def map_keep_def map_add_def split: option.split)
  moreover have "map_option tw_rateStat (dt_tenantState (restarted ordT ordK ?swept) tn) = map_option tw_rateStat (dt_tenantState ?swept tn)" for tn
    by (simp add: restarted_def load_defs NewDetector_def gc_tenantToSave_def snapshotOnlineStat_def toOnlineStat_def split: option.split)
  moreover have "map_option (\<lambda>cs. (cw_rateStat cs, cw_churnCUSUM cs)) (dt_churnState (restarted ordT ordK ?swept) tn) =
      map_option (\<lambda>cs. (cw_rateStat cs, cw_churnCUSUM cs)) (dt_churnState ?swept tn)" for tn
    by (simp add: restarted_def load_defs NewDetector_def gc_churnToSave_def split: option.split)
  moreover have "gc_deletedKeys now interval d = dom (dt_state d) - dom (dt_state ?swept)"
    by (auto simp: gc_deletedKeys_def detector_gc_def map_keep_def dom_def split: option.splits if_splits)
  ultimately show ?thesis by (simp add: fun_eq_iff Let_def)
qed

text \<open>
  The restored baselines of tenants do not survive an idle sweep, however recently the tenant was seen before the restart: they
  carry the zero time as their last sight, so that the first sweep drops those of every tenant that has not called since.
\<close>

lemma restored_aggregates_swept:
  assumes "0 < gc_cutoff now interval"
  shows "dt_tenantState (detector_gc now interval (restarted ordT ordK d)) = Map.empty"
    and "dt_churnState (detector_gc now interval (restarted ordT ordK d)) = Map.empty"
  using assms by (auto simp: fun_eq_iff detector_gc_def restarted_def load_defs NewDetector_def gc_tenantToSave_def gc_churnToSave_def
      map_keep_def split: option.split)

text \<open>A store that does not answer changes nothing and its error is returned.\<close>

lemma load_failure:
  "LoadBaselines (Some (Inl err)) d = (Some err, d)" "LoadTenantBaselines (Some (Inl err)) d = (Some err, d)"
  "LoadChurnBaselines (Some (Inl err)) d = (Some err, d)"
  by (simp_all add: load_defs)

section \<open>An example\<close>

text \<open>A client that was idle for eight windows and then sent a hundred protocol messages within one.\<close>

definition example_heuristics :: HeuristicConfig where
  "example_heuristics = \<lparr>hc_WindowSeconds = 60, hc_RateSpikeEnabled = False, hc_RateMultiplier = Finite 3, hc_RateMinCalls = 2, hc_NovelToolEnabled = True,
     hc_DenyRateSpikeEnabled = False, hc_DenyRateThreshold = Finite (1 / 2), hc_DenyRateMinCalls = 2,
     hc_MLScore = \<lparr>ms_Enabled = True, ms_ScoreThreshold = Finite 3, ms_MinCalls = 1\<rparr>,
     hc_AutoBlock = \<lparr>kb_Enabled = True, kb_ScoreThreshold = Finite 4, kb_BlockDurationSeconds = 600\<rparr>,
     hc_Drift = \<lparr>dc_Enabled = False, dc_K = Finite 1, dc_H = Finite 5, dc_MinCalls = 1, dc_HJitterFraction = Finite 0, dc_JitterSecret = ''''\<rparr>,
     hc_TenantAnomaly = \<lparr>tc_Enabled = False, tc_RateMultiplier = Finite 5, tc_MinCalls = 1\<rparr>,
     hc_IdentityChurn = \<lparr>ch_Enabled = False, ch_RateMultiplier = Finite 5, ch_MinNewIdentities = 1, ch_CUSUMEnabled = False, ch_K = Finite 1, ch_H = Finite 5\<rparr>\<rparr>"

definition example_env :: detector_env where
  "example_env = \<lparr>dv_cfg = example_heuristics, dv_blocker = True, dv_hmac = (\<lambda>_ _. ''''), dv_tenantWindows = False, dv_churnWindows = False\<rparr>"

definition example_readings :: "go_time \<Rightarrow> readings" where
  "example_readings now = \<lparr>rd_now = now, rd_stamp = (\<lambda>_. now), rd_blockAt = (\<lambda>_. now), rd_tenantNow = now,
     rd_tenantMerge = (\<lambda>_ _ n. Inr n), rd_churnMerge = (\<lambda>_ _ n. Inr n)\<rparr>"

definition observed_call :: "string \<Rightarrow> string \<Rightarrow> Entry" where
  "observed_call tool decision = zero_Entry\<lparr>e_Identity := ''bot'', e_Tenant := ''acme'', e_Tool := tool, e_Decision := decision\<rparr>"

definition steady :: onlineStat where
  "steady = \<lparr>st_mean = Finite 0, st_m2 = Finite 0, st_count = 8\<rparr>"

definition example_busy :: "int \<Rightarrow> identityState" where
  "example_busy n = (new_identityState 1000)\<lparr>is_tools := {''read''}, is_lastSeen := 2000, is_cur := zero_windowCounts\<lparr>wn_total := n\<rparr>,
     is_prev := zero_windowCounts\<lparr>wn_total := n\<rparr>,
     is_mlStats := \<lparr>mf_rate = steady, mf_diversity = steady, mf_denyRatio = steady, mf_interArrival = steady, mf_toolCalls = steady\<rparr>\<rparr>"

definition example_detector :: Detector where
  "example_detector = NewDetector\<lparr>dt_state := [tenantIdentityKey ''acme'' ''bot'' \<mapsto> example_busy 100]\<rparr>"

lemma example_zscores:
  "stat_stddev steady = Finite 0" "ZScore steady (Finite 0) = Finite 0" "zCount steady (Finite 100) = Finite 100"
  by (simp_all add: stat_stddev_def steady_def f_of_int_def round64_numeral wrap64_def ZScore_def zCount_def ZScoreFloored_def minSamplesForZScore_def
      f_sub_def f_max_def minStddevRelFraction_value)

abbreviation example_key :: string where
  "example_key \<equiv> tenantIdentityKey ''acme'' ''bot''"

lemma observed_fields:
  "e_Identity (observed_call tool dec) = ''bot''" "e_Tenant (observed_call tool dec) = ''acme''" "e_Decision (observed_call tool dec) = dec"
  "rd_now (example_readings n) = n"
  by (simp_all add: observed_call_def example_readings_def)

lemma example_window: "detector_window (dv_cfg example_env) = 60000000000"
  by (simp add: detector_window_def example_env_def example_heuristics_def second_def wrap64_def)

lemma example_score:
  "scores_of 1 (is_mlStats (example_busy 100)) (zero_windowCounts\<lparr>wn_total := 100\<rparr>) =
     \<lparr>zs_rate = Finite 100, zs_diversity = Finite 0, zs_deny = Finite 0, zs_denyBlock = Finite 0, zs_toolCalls = Finite 0, zs_interArrival = Finite 0\<rparr>"
  by (simp add: scores_of_def features_of_def zero_windowCounts_def example_busy_def example_zscores f_of_int_def round64_numeral)

lemma example_blocked:
  "fst (snd (Detector_recordAndCheck example_env (example_readings 70000000000) (observed_call '''' ''passthrough'') example_detector)) \<noteq> []"
proof -
  let ?z = "\<lparr>zs_rate = Finite 100, zs_diversity = Finite 0, zs_deny = Finite 0, zs_denyBlock = Finite 0, zs_toolCalls = Finite 0, zs_interArrival = Finite 0\<rparr>"
  have score: "fst (block_score ?z) = Finite 100"
    by (simp add: block_score_def maxHarmfulZ_def better_def volumeDeclineMargin_def)
  obtain st where ent: "entered example_env (example_readings 70000000000) (observed_call '''' ''passthrough'') (Some (example_busy 100)) = (True, st)"
    and st: "is_prev st = zero_windowCounts\<lparr>wn_total := 100\<rparr>" "is_mlStats st = is_mlStats (example_busy 100)"
    by (simp add: entered_def roll_window_def example_window example_readings_def example_busy_def new_identityState_def time_sub_def max_duration_def
        min_duration_def count_entry_def)
  have "fst (snd (checkMLScore example_env (example_readings 70000000000) (observed_call '''' ''passthrough'') st)) \<noteq> []"
    using st score example_score
    by (simp add: checkMLScore_def example_env_def example_heuristics_def may_block_def zero_windowCounts_def)
  then show ?thesis
    using ent by (simp add: Detector_recordAndCheck_def identity_step_entered check_identity_def checkNovelTool_def isToolCall_def observed_call_def zero_Entry_def
        example_detector_def NewDetector_def example_env_def example_heuristics_def split_def)
qed

theorem every_block_explained_witness:
  "let (as, bs, errs, d') = Detector_recordAndCheck example_env (example_readings 70000000000) (observed_call '''' ''passthrough'') example_detector
   in bs \<noteq> [] \<and> (\<exists>a \<in> set as. an_Identity a = ''bot'' \<and> an_Tenant a = ''acme'' \<and> an_AutoBlockSeconds a = 600)"
proof -
  obtain as bs errs d' where step: "Detector_recordAndCheck example_env (example_readings 70000000000) (observed_call '''' ''passthrough'') example_detector =
      (as, bs, errs, d')" by (metis prod_cases4)
  then have "bs \<noteq> []" using example_blocked by simp
  moreover have "f_le (ms_ScoreThreshold (hc_MLScore (dv_cfg example_env))) (kb_ScoreThreshold (hc_AutoBlock (dv_cfg example_env)))"
    "kb_BlockDurationSeconds (hc_AutoBlock (dv_cfg example_env)) = 600"
    by (simp_all add: example_env_def example_heuristics_def)
  ultimately have "\<exists>a \<in> set as. an_Identity a = ''bot'' \<and> an_Tenant a = ''acme'' \<and> an_AutoBlockSeconds a = 600"
    using every_block_explained [OF step] by (cases bs) (fastforce simp: observed_fields)+
  with \<open>bs \<noteq> []\<close> show ?thesis unfolding step by auto
qed

theorem quiet_window_never_blocks_witness:
  "fst (snd (checkMLScore example_env (example_readings 1) (observed_call '''' ''passthrough'')
     ((example_busy 1)\<lparr>is_mlStats := (is_mlStats (example_busy 1))\<lparr>mf_rate := steady\<lparr>st_mean := Finite 100\<rparr>\<rparr>\<rparr>))) = []"
proof -
  let ?st = "(example_busy 1)\<lparr>is_mlStats := (is_mlStats (example_busy 1))\<lparr>mf_rate := steady\<lparr>st_mean := Finite 100\<rparr>\<rparr>\<rparr>"
  obtain as bs st' where step: "checkMLScore example_env (example_readings 1) (observed_call '''' ''passthrough'') ?st = (as, bs, st')"
    by (metis prod_cases3)
  have "bs = []"
    by (rule quiet_window_never_blocks [OF step])
      (simp_all add: features_of_def example_busy_def steady_def zero_windowCounts_def f_of_int_def round64_numeral example_env_def example_heuristics_def)
  then show ?thesis by (simp add: step)
qed

theorem alert_rate_bounded_witness:
  "\<exists>s'. dt_state (snd (detector_run example_env [(example_readings 70000000000, observed_call '''' ''passthrough'')] example_detector)) example_key = Some s' \<and>
     int (kind_count KindMLScore (reported ''acme'' ''bot''
       (fst (detector_run example_env [(example_readings 70000000000, observed_call '''' ''passthrough'')] example_detector)))) \<le>
     1 + (is_windowStart s' - 1000) div 60000000000"
proof -
  have "dt_state example_detector example_key = Some (example_busy 100)" "is_windowStart (example_busy 100) = 1000"
    by (simp_all add: example_detector_def example_busy_def new_identityState_def)
  then show ?thesis
    using alert_rate_bounded [of example_detector "''acme''" "''bot''" "example_busy 100" example_env KindMLScore
        "[(example_readings 70000000000, observed_call '''' ''passthrough'')]"] by (simp add: example_window)
qed

theorem novel_tools_exact_witness:
  "set (novel_tools (reported ''acme'' ''bot'' (fst (detector_run example_env
     [(example_readings 1, observed_call ''read'' ''allow''), (example_readings 2, observed_call ''initialize'' ''passthrough''),
      (example_readings 3, observed_call ''write'' ''deny''), (example_readings 4, observed_call ''read'' ''allow''),
      (example_readings 5, observed_call ''drop'' ''blocked'')] NewDetector)))) = {''read'', ''write''}"
  using novel_tools_exact [of example_env NewDetector "''acme''" "''bot''" "[(example_readings 1, observed_call ''read'' ''allow''),
    (example_readings 2, observed_call ''initialize'' ''passthrough''), (example_readings 3, observed_call ''write'' ''deny''),
    (example_readings 4, observed_call ''read'' ''allow''), (example_readings 5, observed_call ''drop'' ''blocked'')]"]
  by (auto simp: NewDetector_def example_env_def example_heuristics_def called_tools_def observed_call_def zero_Entry_def isToolCall_def)

theorem baseline_frozen_while_blocked_witness:
  "let rd = example_readings 70000000000; e = observed_call '''' ''passthrough'';
       d' = snd (snd (snd (Detector_recordAndCheck example_env rd e example_detector)));
       ops = [Published (example_readings 80000000000) (observed_call ''read'' ''blocked''), Swept 669000000000 300000000000]
   in dt_state (fold (detector_op_step example_env) ops d') example_key = dt_state d' example_key"
proof -
  obtain as bs errs d' where step: "Detector_recordAndCheck example_env (example_readings 70000000000) (observed_call '''' ''passthrough'') example_detector =
      (as, bs, errs, d')" by (metis prod_cases4)
  let ?ops = "[Published (example_readings 80000000000) (observed_call ''read'' ''blocked''), Swept 669000000000 300000000000]"
  have "list_all (while_blocked (Block ''bot'' ''acme'' '''' 70000000000 (NewBlockChecker 600)) ''acme'' ''bot'' 300000000000) ?ops"
    by (simp add: observed_fields BlockChecker_Check_def Block_def NewBlockChecker_def block_expired_def second_def wrap64_def)
  then have "dt_state (fold (detector_op_step example_env) ?ops d') example_key = dt_state d' example_key"
    using baseline_frozen_while_blocked [OF step, of "NewBlockChecker 600" 300000000000 "''''" ?ops]
    by (simp only: observed_fields) (simp add: NewBlockChecker_def second_def wrap64_def)
  then show ?thesis by (simp only: Let_def step snd_conv)
qed

theorem checkpoint_resumes_witness:
  "let kinds = (\<lambda>S. filter (\<lambda>k. k \<in> S) [KindRateSpike, KindNovelTool, KindDenyRateSpike, KindMLScore, KindDrift, KindTenantDrift, KindIdentityChurn])
   in dt_state (restarted sorted_list_of_set kinds (detector_gc 3000 600 example_detector)) example_key = Some (example_busy 100) \<and>
      gc_deletedKeys 3000 600 example_detector = {}"
proof -
  let ?kinds = "\<lambda>S. filter (\<lambda>k. k \<in> S) [KindRateSpike, KindNovelTool, KindDenyRateSpike, KindMLScore, KindDrift, KindTenantDrift, KindIdentityChurn]"
  have fin: "finite_sets example_detector"
    by (simp add: finite_sets_def example_detector_def NewDetector_def example_busy_def new_identityState_def zero_windowCounts_def)
  have kinds: "lists_sets ?kinds" unfolding lists_sets_def set_filter all_kinds by simp
  have strings: "lists_sets (sorted_list_of_set :: string set \<Rightarrow> string list)" by (simp add: lists_sets_def)
  have "dt_state (detector_gc 3000 600 example_detector) = [example_key \<mapsto> example_busy 100]" "dt_state example_detector = [example_key \<mapsto> example_busy 100]"
    by (auto simp: example_detector_def NewDetector_def detector_gc_def map_keep_def gc_cutoff_def wrap64_def example_busy_def fun_eq_iff)
  then show ?thesis using checkpoint_resumes [OF fin strings kinds, of 3000 600] by (simp add: Let_def)
qed

end
