(* ===== verification/Wardline_System.thy ===== *)
theory Wardline_System
  imports Grpc_Proxy Taint Refresh_Tokens Ring_Buffer Anomaly_Detector
begin

text \<open>
  The running proxy: the components wired together the way \<open>cmd/wardline/main.go\<close> wires them for a
  single replica (in-memory stores, the YAML policy engine), over one state that holds them all.

  What the process talks to is a parameter of the configuration record: the token verifier, the
  cookie parser, the clock, the source of request ids, the audit writer's failures, the trace
  propagator, the upstream, and what the anomaly detector reads besides the entry. The metrics recorder
  has no state here. \<open>ws_obs\<close> logs what was handed to the audit writer and what was sent upstream.
\<close>

section \<open>Configuration and state\<close>

record wardline_config =
  wc_flags :: "string \<Rightarrow> bool"
  wc_policy :: Matcher
  wc_taint :: TaintConfig
  wc_job :: JobConfig
  wc_cost :: CostConfig
  wc_grantTTLSeconds :: int
  wc_autoBlock :: bool
  wc_revocationHorizon :: duration
  wc_mtlsHeader :: string
  wc_verify :: "string \<Rightarrow> go_time \<Rightarrow> string + Claims"
  wc_cookie :: "string list \<Rightarrow> string \<Rightarrow> string option"
  wc_tick :: "go_time \<Rightarrow> go_time"
  wc_newID :: "nat \<Rightarrow> string"
  wc_writeError :: "Entry \<Rightarrow> string option"
  wc_detector :: detector_env
  wc_readings :: "go_time \<Rightarrow> readings"
  wc_alertError :: "anomaly \<Rightarrow> string option"
  wc_traceID :: "http_request \<Rightarrow> string"
  wc_inject :: "http_request \<Rightarrow> headers \<Rightarrow> headers"
  wc_errorText :: "manager_error \<Rightarrow> string"
  wc_parseErrorText :: "parse_error \<Rightarrow> string"
  wc_upstream :: "http_request \<Rightarrow> nat \<Rightarrow> upstream_outcome"
  wc_grpcDial :: "string \<Rightarrow> headers \<Rightarrow> nat \<Rightarrow> string option"
  wc_grpcRelay :: "string \<Rightarrow> nat \<Rightarrow> relay_action list"

record wardline_state =
  ws_limiter :: InMemoryLimiter
  ws_job :: job_InMemoryMeter
  ws_cost :: cost_InMemoryMeter
  ws_taint :: taint_InMemoryStore
  ws_approval :: approval_InMemoryStore
  ws_revoked :: RevocationList
  ws_blocks :: BlockChecker
  ws_ring :: RingBuffer
  ws_detector :: Detector
  ws_alerts :: "float64 AlertBuffer"
  ws_clock :: go_time
  ws_ids :: nat
  ws_obs :: "proxy_event list"

definition new_limiter ::
  "int \<Rightarrow> duration \<Rightarrow> (string \<times> int \<times> duration) list \<Rightarrow> (string \<times> int \<times> duration) list \<Rightarrow> InMemoryLimiter" where
  "new_limiter requestsPerWindow window tenants tools =
     fold (\<lambda>(toolName, n, w). SetToolLimit toolName n w) tools
       (fold (\<lambda>(tenantName, n, w). SetTenantLimit tenantName n w) tenants (NewInMemoryLimiter requestsPerWindow window))"

definition initial_state :: "InMemoryLimiter \<Rightarrow> int \<Rightarrow> int \<Rightarrow> int \<Rightarrow> wardline_state" where
  "initial_state limiter blockDurationSeconds ringCapacity alertCapacity =
     \<lparr>ws_limiter = limiter, ws_job = job_NewInMemoryMeter,
      ws_cost = cost_NewInMemoryMeter, ws_taint = taint_NewInMemoryStore,
      ws_approval = approval_NewInMemoryStore, ws_revoked = NewRevocationList,
      ws_blocks = NewBlockChecker blockDurationSeconds, ws_ring = NewRingBuffer ringCapacity,
      ws_detector = NewDetector, ws_alerts = NewAlertBuffer alertCapacity,
      ws_clock = 0, ws_ids = 0, ws_obs = []\<rparr>"

section \<open>The ports\<close>

definition sys_now :: "wardline_config \<Rightarrow> wardline_state \<Rightarrow> go_time \<times> wardline_state" where
  "sys_now cfg s = (ws_clock s, s\<lparr>ws_clock := wc_tick cfg (ws_clock s)\<rparr>)"

text \<open>
  A token check reads the clock for the expiry and again for the revocation list; the two readings, with nothing
  between them, are one here.
\<close>

definition sys_token_check :: "wardline_config \<Rightarrow> string \<Rightarrow> wardline_state \<Rightarrow> (string auth_error + string \<times> string) \<times> wardline_state" where
  "sys_token_check cfg token s =
     (let (res, r) = Verification_Authenticate (wc_verify cfg) inmemory_Revoker token (ws_clock s) (ws_clock s) (ws_revoked s)
      in (res, s\<lparr>ws_revoked := r\<rparr>))"

definition sys_authenticate ::
  "wardline_config \<Rightarrow> http_request \<Rightarrow> wardline_state \<Rightarrow> (unit + string \<times> string) \<times> wardline_state" where
  "sys_authenticate cfg r s =
     (if wc_flags cfg ''credential_issuance''
      then let (res, s) = bearerIdentity_Authenticate (wc_cookie cfg) (sys_token_check cfg) r s
           in (case res of Inl _ \<Rightarrow> Inl () | Inr it \<Rightarrow> Inr it, s)
      else (Inr (HeaderIdentity_Authenticate r), s))"

definition sys_engine :: "wardline_config \<Rightarrow> taint_InMemoryStore Engine" where
  "sys_engine cfg = NewEngine (wc_taint cfg) inmemory_TaintStore"

definition sys_taintLookup :: "wardline_config \<Rightarrow> ToolCall \<Rightarrow> wardline_state \<Rightarrow> TaintSignal" where
  "sys_taintLookup cfg call s =
     (let (tainted, sources) = taintLookup (sys_engine cfg) (tcl_Tenant call) (tcl_Identity call)
            (tcl_SessionID call) (tcl_Timestamp call) (ws_taint s)
      in \<lparr>sig_Tainted = tainted, sig_Sources = sources\<rparr>)"

definition sys_jobLookup :: "wardline_config \<Rightarrow> ToolCall \<Rightarrow> wardline_state \<Rightarrow> bool" where
  "sys_jobLookup cfg call s =
     jobbudget_IsOverBudget (wc_flags cfg) job_Current (wc_job cfg)
       (tcl_Tenant call) (tcl_Identity call) (tcl_SessionID call) (tcl_Timestamp call) (ws_job s)"

definition sys_costLookup :: "wardline_config \<Rightarrow> ToolCall \<Rightarrow> wardline_state \<Rightarrow> bool" where
  "sys_costLookup cfg call s =
     costbudget_IsOverBudget (wc_flags cfg) cost_Current (wc_cost cfg)
       (tcl_Tenant call) (tcl_Identity call) (tcl_SessionID call) (tcl_Timestamp call) (ws_cost s)"

definition sys_decider :: "wardline_config \<Rightarrow> wardline_state Decider" where
  "sys_decider cfg = \<lparr>dc_policy = Matcher_Evaluate (wc_policy cfg),
     dc_taint = (if wc_flags cfg ''taint_tracking'' then Some (sys_taintLookup cfg) else None),
     dc_jobBudget = (if wc_flags cfg ''job_budget'' then Some (sys_jobLookup cfg) else None),
     dc_costBudget = (if wc_flags cfg ''job_cost_budget'' then Some (sys_costLookup cfg) else None)\<rparr>"

definition sys_writer :: "wardline_config \<Rightarrow> Entry \<Rightarrow> wardline_state \<Rightarrow> string option \<times> wardline_state" where
  "sys_writer cfg e s = (wc_writeError cfg e, s\<lparr>ws_obs := Audited e # ws_obs s\<rparr>)"

text \<open>The detector as a sink; it has a blocker exactly where automatic blocking is wired.\<close>

definition sys_detect :: "wardline_config \<Rightarrow> Entry \<Rightarrow> wardline_state \<Rightarrow> wardline_state" where
  "sys_detect cfg e s =
     (let (errs, d, blocks, alerts) = Detector_Publish ((wc_detector cfg)\<lparr>dv_blocker := wc_autoBlock cfg\<rparr>) (wc_readings cfg (ws_clock s))
        (wc_alertError cfg) e (ws_detector s, ws_blocks s, ws_alerts s)
      in s\<lparr>ws_detector := d, ws_blocks := blocks, ws_alerts := alerts\<rparr>)"

definition sys_sinks :: "wardline_config \<Rightarrow> (Entry \<Rightarrow> wardline_state \<Rightarrow> wardline_state) option list" where
  "sys_sinks cfg =
     (if wc_flags cfg ''web_ui'' then [Some (\<lambda>e s. s\<lparr>ws_ring := RingBuffer_Publish e (ws_ring s)\<rparr>)] else []) @
     (if wc_flags cfg ''anomaly_detection'' then [Some (sys_detect cfg)] else []) @
     (if wc_flags cfg ''taint_tracking''
      then [Some (\<lambda>e s. s\<lparr>ws_taint := Engine_Publish (sys_engine cfg) e (ws_taint s)\<rparr>)] else [])"

definition sys_recorder :: "wardline_config \<Rightarrow> wardline_state Recorder" where
  "sys_recorder cfg = NewRecorder (sys_writer cfg) (Some (MultiSink_Publish (sys_sinks cfg))) (Some (\<lambda>_ s. s))"

definition sys_budgetCheck ::
  "wardline_config \<Rightarrow> string \<Rightarrow> string \<Rightarrow> string \<Rightarrow> go_time \<Rightarrow> wardline_state \<Rightarrow> budget_Verdict \<times> wardline_state" where
  "sys_budgetCheck cfg identity tenant tool now s =
     (let (v, l) = budget_Check (wc_flags cfg) Limiter_Allow identity tenant tool now (ws_limiter s)
      in (v, s\<lparr>ws_limiter := l\<rparr>))"

definition sys_jobCheck ::
  "wardline_config \<Rightarrow> string \<Rightarrow> string \<Rightarrow> string \<Rightarrow> go_time \<Rightarrow> wardline_state \<Rightarrow> job_Verdict \<times> wardline_state" where
  "sys_jobCheck cfg tenant identity session now s =
     (let (v, m) = jobbudget_Check (wc_flags cfg) job_Increment (wc_job cfg) tenant identity session now (ws_job s)
      in (v, s\<lparr>ws_job := m\<rparr>))"

definition sys_costCheck ::
  "wardline_config \<Rightarrow> string \<Rightarrow> string \<Rightarrow> string \<Rightarrow> string \<Rightarrow> go_time \<Rightarrow> wardline_state \<Rightarrow> cost_Verdict \<times> wardline_state" where
  "sys_costCheck cfg tenant identity session tool now s =
     (let (v, m) = costbudget_Check (wc_flags cfg) cost_Add (wc_cost cfg) tenant identity session tool now (ws_cost s)
      in (v, s\<lparr>ws_cost := m\<rparr>))"

definition sys_blockCheck :: "string \<Rightarrow> string \<Rightarrow> go_time \<Rightarrow> wardline_state \<Rightarrow> BlockVerdict \<times> wardline_state" where
  "sys_blockCheck identity tenant now s = (BlockChecker_Check (ws_blocks s) identity tenant now, s)"

definition sys_manager :: "wardline_config \<Rightarrow> approval_InMemoryStore Manager" where
  "sys_manager cfg = NewManager (inmemory_approval_Store []) (wrap64 (Config_GrantTTL (wc_grantTTLSeconds cfg) * second))"

definition sys_approval ::
  "wardline_config \<Rightarrow> string \<Rightarrow> string \<Rightarrow> string \<Rightarrow> string \<Rightarrow> string \<Rightarrow> (string \<rightharpoonup> string) \<Rightarrow> wardline_state \<Rightarrow>
   (string + approval_Result) \<times> wardline_state" where
  "sys_approval cfg tenant identity tool meth session params s =
     (let (res, st) = OnNeedsApproval (sys_manager cfg) tenant identity tool meth session params (ws_clock s)
            (wc_newID cfg (ws_ids s)) (ws_approval s)
      in (case res of Inl e \<Rightarrow> Inl (wc_errorText cfg e) | Inr r \<Rightarrow> Inr r,
          s\<lparr>ws_approval := st, ws_ids := ws_ids s + 1\<rparr>))"

definition sys_upstream :: "wardline_config \<Rightarrow> http_request \<Rightarrow> wardline_state \<Rightarrow> upstream_outcome \<times> wardline_state" where
  "sys_upstream cfg q s = (wc_upstream cfg q (length (ws_obs s)), s\<lparr>ws_obs := Sent q # ws_obs s\<rparr>)"

definition sys_sessionHeader :: "wardline_config \<Rightarrow> string" where
  "sys_sessionHeader cfg =
     (if wc_flags cfg ''taint_tracking'' \<or> wc_flags cfg ''approval_workflow'' \<or> wc_flags cfg ''job_budget'' \<or>
         wc_flags cfg ''job_cost_budget''
      then TaintConfig_Header (wc_taint cfg) else '''')"

definition wardline_handler :: "wardline_config \<Rightarrow> wardline_state Handler" where
  "wardline_handler cfg = \<lparr>h_authenticate = sys_authenticate cfg, h_decider = sys_decider cfg,
     h_recorder = sys_recorder cfg, h_upstream = sys_upstream cfg, h_budgetCheck = sys_budgetCheck cfg,
     h_autoBlock = (if wc_flags cfg ''anomaly_detection'' \<and> wc_autoBlock cfg then Some sys_blockCheck else None),
     h_approval = (if wc_flags cfg ''approval_workflow'' then Some (sys_approval cfg) else None),
     h_jobBudget = (if wc_flags cfg ''job_budget'' then Some (sys_jobCheck cfg) else None),
     h_costBudget = (if wc_flags cfg ''job_cost_budget'' then Some (sys_costCheck cfg) else None),
     h_metrics = Some (\<lambda>_ _ s. s), h_now = sys_now cfg, h_traceID = wc_traceID cfg, h_inject = wc_inject cfg,
     h_parseErrorText = wc_parseErrorText cfg, h_trustedIdentityHeader = wc_mtlsHeader cfg,
     h_sessionHeader = sys_sessionHeader cfg\<rparr>"

definition sys_grpcIdentity ::
  "wardline_config \<Rightarrow> MD \<Rightarrow> wardline_state \<Rightarrow> (unit + string \<times> string) \<times> wardline_state" where
  "sys_grpcIdentity cfg md s =
     (if wc_flags cfg ''credential_issuance''
      then let (res, s) = bearerMetadataIdentity_Resolve (sys_token_check cfg) md s
           in (case res of Inl _ \<Rightarrow> Inl () | Inr it \<Rightarrow> Inr it, s)
      else (Inr (MetadataIdentity_Resolve md), s))"

definition sys_NewStream :: "wardline_config \<Rightarrow> string \<Rightarrow> MD \<Rightarrow> wardline_state \<Rightarrow> string option \<times> wardline_state" where
  "sys_NewStream cfg m md s = (wc_grpcDial cfg m md (length (ws_obs s)), s\<lparr>ws_obs := Opened m md # ws_obs s\<rparr>)"

text \<open>The stream of one RPC is relayed while nothing else happens: an RPC is one step of a run, as a request is.\<close>

definition sys_relay :: "wardline_config \<Rightarrow> string \<Rightarrow> wardline_state \<Rightarrow> relay_action list \<times> wardline_state" where
  "sys_relay cfg m s = (wc_grpcRelay cfg m (length (ws_obs s)), s)"

definition wardline_grpc :: "wardline_config \<Rightarrow> wardline_state grpc_Proxy" where
  "wardline_grpc cfg = \<lparr>gp_decider = sys_decider cfg, gp_budget = sys_budgetCheck cfg,
     gp_autoBlock = (if wc_flags cfg ''anomaly_detection'' \<and> wc_autoBlock cfg then Some sys_blockCheck else None),
     gp_recorder = sys_recorder cfg, gp_identity = sys_grpcIdentity cfg, gp_NewStream = sys_NewStream cfg,
     gp_relay = sys_relay cfg, gp_now = sys_now cfg\<rparr>"

section \<open>The wired ports keep the contract\<close>

lemma sys_authenticate_obs: "ws_obs (snd (sys_authenticate cfg r s)) = ws_obs s"
proof -
  have "ws_obs (snd (sys_token_check cfg token s)) = ws_obs s" for token s
    by (simp add: sys_token_check_def case_prod_beta)
  then show ?thesis
    by (simp add: sys_authenticate_def bearerIdentity_Authenticate_def case_prod_beta split: option.split)
qed

lemma sys_detect_frame [simp]:
  "ws_obs (sys_detect cfg e s) = ws_obs s" "ws_clock (sys_detect cfg e s) = ws_clock s"
  "ws_revoked (sys_detect cfg e s) = ws_revoked s" "ws_taint (sys_detect cfg e s) = ws_taint s"
  "ws_ring (sys_detect cfg e s) = ws_ring s"
  by (simp_all add: sys_detect_def case_prod_beta)

lemma sys_sinks_obs: "Some publish \<in> set (sys_sinks cfg) \<Longrightarrow> ws_obs (publish e s) = ws_obs s"
  by (auto simp: sys_sinks_def split: if_splits)

lemma sys_publish_obs: "ws_obs (MultiSink_Publish (sys_sinks cfg) e s) = ws_obs s"
  by (rule MultiSink_Publish_frame) (rule sys_sinks_obs)

interpretation wired: observed_ports "wardline_handler cfg" ws_obs for cfg
  by unfold_locales
    (auto simp: wardline_handler_def sys_recorder_def NewRecorder_def sys_writer_def sys_publish_obs sys_upstream_def
      sys_now_def sys_authenticate_obs sys_budgetCheck_def sys_blockCheck_def sys_approval_def sys_jobCheck_def
      sys_costCheck_def case_prod_beta split: if_splits)

lemma sys_grpcIdentity_frame:
  "snd (sys_grpcIdentity cfg md s) = s\<lparr>ws_revoked := ws_revoked (snd (sys_grpcIdentity cfg md s))\<rparr>"
  by (simp add: sys_grpcIdentity_def bearerMetadataIdentity_Resolve_def sys_token_check_def case_prod_beta split: option.split)

lemma sys_grpcIdentity_obs: "ws_obs (snd (sys_grpcIdentity cfg md s)) = ws_obs s"
  by (subst sys_grpcIdentity_frame) simp

interpretation wired_grpc: observed_grpc "wardline_grpc cfg" ws_obs for cfg
  by unfold_locales
    (auto simp: wardline_grpc_def sys_recorder_def NewRecorder_def sys_writer_def sys_publish_obs sys_NewStream_def
      sys_relay_def sys_now_def sys_grpcIdentity_obs sys_budgetCheck_def sys_blockCheck_def case_prod_beta split: if_splits)

section \<open>A running proxy\<close>

text \<open>
  What can happen to a replica: an HTTP request or an RPC is served; an operator approves or denies a held call,
  revokes an identity (\<open>HandleRevoke\<close> revokes up to \<open>revocationHorizon\<close> from now) or lifts a block;
  expired blocks are collected; the detector's idle baselines are swept; time passes. A request is one step: the handler's own interleavings
  are those of its stores, each of which is atomic under its lock.
\<close>

inductive wardline_step :: "wardline_config \<Rightarrow> wardline_state \<Rightarrow> wardline_state \<Rightarrow> bool" for cfg where
  serve: "wardline_step cfg s (snd (ServeHTTP (wardline_handler cfg) r s))"
| rpc: "wc_flags cfg ''grpc_transport'' \<Longrightarrow> wardline_step cfg s (snd (grpc_Handler (wardline_grpc cfg) st s))"
| approve: "wardline_step cfg s (s\<lparr>ws_approval := snd (Approve (sys_manager cfg) rid who (ws_clock s) (ws_approval s))\<rparr>)"
| deny: "wardline_step cfg s (s\<lparr>ws_approval := snd (Deny (sys_manager cfg) rid who (ws_clock s) (ws_approval s))\<rparr>)"
| revoke: "wardline_step cfg s (s\<lparr>ws_revoked := Revoke t i (ws_clock s + wc_revocationHorizon cfg) (ws_revoked s)\<rparr>)"
| unblock: "wardline_step cfg s (s\<lparr>ws_blocks := snd (Unblock i t (ws_clock s) (ws_blocks s))\<rparr>)"
| collect: "wardline_step cfg s (s\<lparr>ws_blocks := GCBlocksOnce (ws_clock s) (ws_blocks s)\<rparr>)"
| sweep: "wardline_step cfg s (s\<lparr>ws_detector := detector_gc (ws_clock s) interval (ws_detector s)\<rparr>)"
| elapse: "ws_clock s \<le> now \<Longrightarrow> wardline_step cfg s (s\<lparr>ws_clock := now\<rparr>)"

inductive wardline_run :: "wardline_config \<Rightarrow> wardline_state \<Rightarrow> wardline_state \<Rightarrow> bool" for cfg where
  stop: "wardline_run cfg s s"
| more: "wardline_run cfg s s' \<Longrightarrow> wardline_step cfg s' s'' \<Longrightarrow> wardline_run cfg s s''"

inductive_cases wardline_stepE: "wardline_step cfg s s'"

section \<open>The sinks follow the audit log\<close>

definition sinks_mirror :: "wardline_config \<Rightarrow> int \<Rightarrow> wardline_state \<Rightarrow> bool" where
  "sinks_mirror cfg ringCapacity s \<longleftrightarrow>
     (wc_flags cfg ''taint_tracking'' \<longrightarrow>
        ws_taint s = fold (Engine_Publish (sys_engine cfg)) (rev (audits (ws_obs s))) taint_NewInMemoryStore) \<and>
     (wc_flags cfg ''web_ui'' \<longrightarrow>
        ws_ring s = fold RingBuffer_Publish (rev (audits (ws_obs s))) (NewRingBuffer ringCapacity))"

lemma sinks_mirror_frame:
  "sinks_mirror cfg c s \<Longrightarrow> ws_taint s' = ws_taint s \<Longrightarrow> ws_ring s' = ws_ring s \<Longrightarrow>
     audits (ws_obs s') = audits (ws_obs s) \<Longrightarrow> sinks_mirror cfg c s'"
  by (simp add: sinks_mirror_def)

lemma sys_publish_effects:
  "ws_taint (MultiSink_Publish (sys_sinks cfg) e s) =
     (if wc_flags cfg ''taint_tracking'' then Engine_Publish (sys_engine cfg) e (ws_taint s) else ws_taint s)"
  "ws_ring (MultiSink_Publish (sys_sinks cfg) e s) =
     (if wc_flags cfg ''web_ui'' then RingBuffer_Publish e (ws_ring s) else ws_ring s)"
  by (simp_all add: sys_sinks_def)

lemma sinks_mirror_record:
  "sinks_mirror cfg c s \<Longrightarrow>
     sinks_mirror cfg c (RecordWithEffect (sys_recorder cfg) i t tool d reason tr lat now u eff st src s)"
  by (simp add: sinks_mirror_def RecordWithEffect_def sys_recorder_def NewRecorder_def sys_writer_def
      sys_publish_effects sys_publish_obs split: option.split)

lemma sys_authenticate_frame:
  "snd (sys_authenticate cfg r s) = s\<lparr>ws_revoked := ws_revoked (snd (sys_authenticate cfg r s))\<rparr>"
proof -
  have "snd (sys_token_check cfg token s) = s\<lparr>ws_revoked := ws_revoked (snd (sys_token_check cfg token s))\<rparr>" for token
    by (simp add: sys_token_check_def case_prod_beta)
  then show ?thesis
    by (simp add: sys_authenticate_def bearerIdentity_Authenticate_def case_prod_beta split: option.split)
qed

lemma sinks_mirror_authenticate: "sinks_mirror cfg c s \<Longrightarrow> sinks_mirror cfg c (snd (sys_authenticate cfg r s))"
  by (subst sys_authenticate_frame) (auto elim: sinks_mirror_frame)

interpretation mirrored: invariant_ports "wardline_handler cfg" "sinks_mirror cfg c" for cfg c
proof (unfold_locales, goal_cases)
  case 1
  then show ?case by (simp add: wardline_handler_def sinks_mirror_record)
next
  case 4
  then show ?case by (simp add: wardline_handler_def sinks_mirror_authenticate)
qed (auto simp: wardline_handler_def sys_upstream_def sys_now_def sys_budgetCheck_def sys_blockCheck_def
    sys_approval_def sys_jobCheck_def sys_costCheck_def case_prod_beta split: if_splits elim!: sinks_mirror_frame)

interpretation mirrored_grpc: invariant_grpc "wardline_grpc cfg" "sinks_mirror cfg c" for cfg c
proof (unfold_locales, goal_cases)
  case 1
  then show ?case by (simp add: wardline_grpc_def sinks_mirror_record)
next
  case 5
  then show ?case by (subst wardline_grpc_def, simp, subst sys_grpcIdentity_frame) (auto elim: sinks_mirror_frame)
qed (auto simp: wardline_grpc_def sys_NewStream_def sys_relay_def sys_now_def sys_budgetCheck_def sys_blockCheck_def
    case_prod_beta split: if_splits elim!: sinks_mirror_frame)

lemma sinks_mirror_step: "wardline_step cfg s s' \<Longrightarrow> sinks_mirror cfg c s \<Longrightarrow> sinks_mirror cfg c s'"
  by (erule wardline_stepE) (auto intro: mirrored.serve_invariant mirrored_grpc.grpc_invariant elim: sinks_mirror_frame)

lemma sinks_mirror_run:
  "wardline_run cfg s s' \<Longrightarrow> sinks_mirror cfg c s \<Longrightarrow> sinks_mirror cfg c s'"
  by (induction rule: wardline_run.induct) (auto intro: sinks_mirror_step)

lemma sinks_mirror_init: "sinks_mirror cfg c (initial_state limiter bds c acap)"
  by (simp add: sinks_mirror_def initial_state_def)

section \<open>A revocation holds while the proxy runs\<close>

definition revoked_until :: "string \<Rightarrow> string \<Rightarrow> go_time \<Rightarrow> go_time \<Rightarrow> wardline_state \<Rightarrow> bool" where
  "revoked_until t i since e s \<longleftrightarrow> since \<le> ws_clock s \<and> (ws_clock s \<le> e \<longrightarrow> list_in_force (ws_revoked s) t i e)"

lemma revoked_until_frame:
  "revoked_until t i since e s \<Longrightarrow> ws_revoked s' = ws_revoked s \<Longrightarrow> ws_clock s \<le> ws_clock s' \<Longrightarrow>
     revoked_until t i since e s'"
  by (simp add: revoked_until_def)

lemma sys_authenticate_revoked:
  assumes "list_in_force (ws_revoked s) t i e" and "ws_clock s \<le> e"
  shows "list_in_force (ws_revoked (snd (sys_authenticate cfg r s))) t i e"
proof -
  have "list_in_force (ws_revoked (snd (sys_token_check cfg token s))) t i e" for token
    using inmemory_revoker.in_force_check [OF assms] assms(1)
    by (simp add: sys_token_check_def Verification_Authenticate_def case_prod_beta split: sum.split)
  then show ?thesis
    using assms(1) by (simp add: sys_authenticate_def bearerIdentity_Authenticate_def case_prod_beta split: option.split)
qed

lemma revoked_until_authenticate:
  assumes "revoked_until t i since e s"
  shows "revoked_until t i since e (snd (sys_authenticate cfg r s))"
proof -
  have "ws_clock (snd (sys_authenticate cfg r s)) = ws_clock s"
    by (subst sys_authenticate_frame) simp
  then show ?thesis
    using assms sys_authenticate_revoked by (simp add: revoked_until_def)
qed

lemma sys_publish_clock:
  "ws_clock (MultiSink_Publish (sys_sinks cfg) e s) = ws_clock s"
  "ws_revoked (MultiSink_Publish (sys_sinks cfg) e s) = ws_revoked s"
  by (simp_all add: sys_sinks_def)

lemma revoked_until_record:
  "revoked_until t i since e s \<Longrightarrow>
     revoked_until t i since e (RecordWithEffect (sys_recorder cfg) i' t' tool d reason tr lat now u eff st src s)"
  by (simp add: revoked_until_def RecordWithEffect_def sys_recorder_def NewRecorder_def sys_writer_def
      sys_publish_clock split: option.split)

lemma revoked_until_ports:
  assumes "\<And>now. now \<le> wc_tick cfg now"
  shows "invariant_ports (wardline_handler cfg) (revoked_until t i since e)"
proof (unfold_locales, goal_cases)
  case 1
  then show ?case by (simp add: wardline_handler_def revoked_until_record)
next
  case 4
  then show ?case by (simp add: wardline_handler_def revoked_until_authenticate)
qed (auto simp: wardline_handler_def sys_upstream_def sys_now_def sys_budgetCheck_def sys_blockCheck_def
    sys_approval_def sys_jobCheck_def sys_costCheck_def case_prod_beta assms split: if_splits
    elim!: revoked_until_frame)

lemma sys_grpcIdentity_revoked:
  assumes "revoked_until t i since e s"
  shows "revoked_until t i since e (snd (sys_grpcIdentity cfg md s))"
proof -
  have "list_in_force (ws_revoked (snd (sys_token_check cfg token s))) t i e"
    if "list_in_force (ws_revoked s) t i e" "ws_clock s \<le> e" for token
    using inmemory_revoker.in_force_check [OF that] that(1)
    by (simp add: sys_token_check_def Verification_Authenticate_def case_prod_beta split: sum.split)
  moreover have "ws_clock (snd (sys_grpcIdentity cfg md s)) = ws_clock s"
    by (subst sys_grpcIdentity_frame) simp
  ultimately show ?thesis
    using assms by (auto simp: revoked_until_def sys_grpcIdentity_def bearerMetadataIdentity_Resolve_def case_prod_beta
        split: option.split)
qed

lemma revoked_until_grpc:
  assumes "\<And>now. now \<le> wc_tick cfg now"
  shows "invariant_grpc (wardline_grpc cfg) (revoked_until t i since e)"
proof (unfold_locales, goal_cases)
  case 1
  then show ?case by (simp add: wardline_grpc_def revoked_until_record)
next
  case 5
  then show ?case by (simp add: wardline_grpc_def sys_grpcIdentity_revoked)
qed (auto simp: wardline_grpc_def sys_NewStream_def sys_relay_def sys_now_def sys_budgetCheck_def sys_blockCheck_def
    case_prod_beta assms split: if_splits elim!: revoked_until_frame)

lemma revoked_until_step:
  assumes tick: "\<And>now. now \<le> wc_tick cfg now" and e: "e \<le> since + wc_revocationHorizon cfg"
    and step: "wardline_step cfg s s'" and revoked: "revoked_until t i since e s"
  shows "revoked_until t i since e s'"
  using step
proof (cases rule: wardline_step.cases)
  case (serve r)
  then show ?thesis
    using invariant_ports.serve_invariant [OF revoked_until_ports [OF tick] revoked] by simp
next
  case (rpc st)
  then show ?thesis
    using invariant_grpc.grpc_invariant [OF revoked_until_grpc [OF tick] revoked] by simp
next
  case (revoke t' i')
  have "list_in_force (Revoke t' i' (ws_clock s + wc_revocationHorizon cfg) (ws_revoked s)) t i e"
    if "list_in_force (ws_revoked s) t i e"
    using inmemory_revoker.in_force_revoke [OF that, of _ t' i'] e revoked
    by (simp add: inmemory_Revoker_def revoked_until_def)
  then show ?thesis
    using revoke revoked by (simp add: revoked_until_def)
qed (use revoked in \<open>auto elim: revoked_until_frame\<close>)

lemma revoked_until_run:
  assumes "wardline_run cfg s s'" and "\<And>now. now \<le> wc_tick cfg now"
    and "e \<le> since + wc_revocationHorizon cfg" and "revoked_until t i since e s"
  shows "revoked_until t i since e s'"
  using assms by (induction rule: wardline_run.induct) (auto intro: revoked_until_step)

lemma revoked_not_caller:
  assumes "list_in_force (ws_revoked s) t i e" and "wc_tick cfg (ws_clock s) \<le> e"
    and "wc_flags cfg ''credential_issuance''"
  shows "caller (wardline_handler cfg) r s \<noteq> Some (i, t)"
proof -
  let ?s = "s\<lparr>ws_clock := wc_tick cfg (ws_clock s)\<rparr>"
  have "fst (sys_token_check cfg token ?s) \<noteq> Inr (i, t)" for token
    using inmemory_revoker.revoked_not_authenticated [OF assms(1,2)] by (simp add: sys_token_check_def case_prod_beta)
  then have "fst (sys_authenticate cfg r ?s) \<noteq> Inr (i, t)"
    using assms(3) by (auto simp: sys_authenticate_def bearerIdentity_Authenticate_def case_prod_beta
        split: option.splits sum.splits)
  then show ?thesis
    by (auto simp: caller_def wardline_handler_def sys_now_def split: sum.splits)
qed

lemma revoked_not_rpc_caller:
  assumes "list_in_force (ws_revoked s) t i e" and "wc_tick cfg (ws_clock s) \<le> e"
    and "wc_flags cfg ''credential_issuance''"
  shows "rpc_caller (wardline_grpc cfg) st s \<noteq> Some (i, t, m)"
proof -
  let ?s = "s\<lparr>ws_clock := wc_tick cfg (ws_clock s)\<rparr>"
  have "fst (sys_token_check cfg token ?s) \<noteq> Inr (i, t)" for token
    using inmemory_revoker.revoked_not_authenticated [OF assms(1,2)] by (simp add: sys_token_check_def case_prod_beta)
  then have "fst (sys_grpcIdentity cfg (st_md st) ?s) \<noteq> Inr (i, t)"
    using assms(3) by (auto simp: sys_grpcIdentity_def bearerMetadataIdentity_Resolve_def case_prod_beta
        split: option.splits sum.splits)
  then show ?thesis
    by (auto simp: rpc_caller_def wardline_grpc_def sys_now_def split: option.splits sum.splits)
qed

end
