(* ===== verification/RBAC.thy ===== *)
theory RBAC
  imports Wardline_Prelude
begin

text \<open>
  Role-based access control of the admin surface: permissions, roles and bindings
  (\<open>internal/features/rbac/domain\<close>), the file-loaded authorizer (\<open>adapter/static.go\<close>), the authorizer
  that adds provisioned bindings to it (\<open>usecase/composite_authorizer.go\<close>), the flag gate
  (\<open>usecase/checker.go\<close>) and the HTTP middleware (\<open>adapter/middleware.go\<close>).

  The YAML decoder is not part of the model: \<open>LoadAuthorizer\<close> starts from the decoded file. A
  subject is granted a permission globally by a cluster binding or in one tenant by a scoped one.
  The locale \<open>authorizer\<close> states that relation between the two methods of the interface; the
  static and the composite authorizer interpret it.
\<close>

section \<open>Permissions, roles and bindings\<close>

type_synonym Permission = string

definition PermissionDashboardView :: Permission where
  "PermissionDashboardView = ''dashboard:view''"

definition PermissionCredentialRevoke :: Permission where
  "PermissionCredentialRevoke = ''credential:revoke''"

definition PermissionConfigEdit :: Permission where
  "PermissionConfigEdit = ''config:edit''"

record Role =
  role_Name :: string
  role_Permissions :: "Permission list"

record ClusterRoleBinding =
  crb_Subject :: string
  crb_RoleName :: string

record RoleBinding =
  rb_Subject :: string
  rb_RoleName :: string
  rb_Tenant :: string

record Authorizer =
  az_Authorize :: "string \<Rightarrow> string \<Rightarrow> Permission \<Rightarrow> bool"
  az_IsGlobal :: "string \<Rightarrow> Permission \<Rightarrow> bool"

section \<open>The static authorizer\<close>

definition builtinRoles :: "string \<rightharpoonup> Role" where
  "builtinRoles =
     [''viewer'' \<mapsto> \<lparr>role_Name = ''viewer'', role_Permissions = [PermissionDashboardView]\<rparr>,
      ''admin'' \<mapsto> \<lparr>role_Name = ''admin'', role_Permissions =
         [PermissionDashboardView, PermissionCredentialRevoke, PermissionConfigEdit]\<rparr>]"

definition allPermissions :: "Permission list" where
  "allPermissions = [PermissionDashboardView, PermissionCredentialRevoke, PermissionConfigEdit]"

definition knownPermission :: "string \<Rightarrow> bool" where
  "knownPermission p = list_ex (\<lambda>kp. kp = p) allPermissions"

record roleConfig =
  rc_Name :: string
  rc_Permissions :: "string list"

record bindingConfig =
  bc_Subject :: string
  bc_Role :: string
  bc_Tenant :: string

record rbacFile =
  rf_Roles :: "roleConfig list"
  rf_Bindings :: "bindingConfig list"

record StaticAuthorizer =
  sa_roles :: "string \<rightharpoonup> Role"
  sa_clusterRoleBindings :: "ClusterRoleBinding list"
  sa_roleBindings :: "RoleBinding list"

datatype rbac_error =
    RoleMissingName
  | RoleCollidesBuiltin string
  | RoleDuplicate string
  | UnknownPermission string string
  | BindingIncomplete
  | UndefinedRole string string

fun load_perms :: "string \<Rightarrow> string list \<Rightarrow> rbac_error + Permission list" where
  "load_perms role [] = Inr []"
| "load_perms role (p # ps) =
     (if \<not> knownPermission p then Inl (UnknownPermission role p)
      else case load_perms role ps of Inl e \<Rightarrow> Inl e | Inr perms \<Rightarrow> Inr (p # perms))"

fun load_roles :: "roleConfig list \<Rightarrow> (string \<rightharpoonup> Role) \<Rightarrow> rbac_error + (string \<rightharpoonup> Role)" where
  "load_roles [] roles = Inr roles"
| "load_roles (rc # rcs) roles =
     (if rc_Name rc = '''' then Inl RoleMissingName
      else if builtinRoles (rc_Name rc) \<noteq> None then Inl (RoleCollidesBuiltin (rc_Name rc))
      else if roles (rc_Name rc) \<noteq> None then Inl (RoleDuplicate (rc_Name rc))
      else case load_perms (rc_Name rc) (rc_Permissions rc) of
             Inl e \<Rightarrow> Inl e
           | Inr perms \<Rightarrow>
               load_roles rcs (roles(rc_Name rc \<mapsto> \<lparr>role_Name = rc_Name rc, role_Permissions = perms\<rparr>)))"

fun load_bindings :: "bindingConfig list \<Rightarrow> StaticAuthorizer \<Rightarrow> rbac_error + StaticAuthorizer" where
  "load_bindings [] a = Inr a"
| "load_bindings (bc # bcs) a =
     (if bc_Subject bc = '''' \<or> bc_Role bc = '''' then Inl BindingIncomplete
      else if sa_roles a (bc_Role bc) = None then Inl (UndefinedRole (bc_Subject bc) (bc_Role bc))
      else if bc_Tenant bc = ''''
      then load_bindings bcs (a\<lparr>sa_clusterRoleBindings := sa_clusterRoleBindings a @
             [\<lparr>crb_Subject = bc_Subject bc, crb_RoleName = bc_Role bc\<rparr>]\<rparr>)
      else load_bindings bcs (a\<lparr>sa_roleBindings := sa_roleBindings a @
             [\<lparr>rb_Subject = bc_Subject bc, rb_RoleName = bc_Role bc, rb_Tenant = bc_Tenant bc\<rparr>]\<rparr>))"

definition LoadAuthorizer :: "rbacFile \<Rightarrow> rbac_error + StaticAuthorizer" where
  "LoadAuthorizer f =
     (case load_roles (rf_Roles f) builtinRoles of
        Inl e \<Rightarrow> Inl e
      | Inr roles \<Rightarrow> load_bindings (rf_Bindings f)
          \<lparr>sa_roles = roles, sa_clusterRoleBindings = [], sa_roleBindings = []\<rparr>)"

definition RoleHasPermission :: "StaticAuthorizer \<Rightarrow> string \<Rightarrow> Permission \<Rightarrow> bool" where
  "RoleHasPermission a roleName perm =
     (case sa_roles a roleName of
        None \<Rightarrow> False
      | Some role \<Rightarrow> list_ex (\<lambda>p. p = perm) (role_Permissions role))"

definition Static_Authorize :: "StaticAuthorizer \<Rightarrow> string \<Rightarrow> string \<Rightarrow> Permission \<Rightarrow> bool" where
  "Static_Authorize a identity tenant perm =
     (if list_ex (\<lambda>b. crb_Subject b = identity \<and> RoleHasPermission a (crb_RoleName b) perm)
           (sa_clusterRoleBindings a)
      then True
      else list_ex (\<lambda>b. rb_Subject b = identity \<and> rb_Tenant b = tenant \<and> RoleHasPermission a (rb_RoleName b) perm)
             (sa_roleBindings a))"

definition Static_IsGlobal :: "StaticAuthorizer \<Rightarrow> string \<Rightarrow> Permission \<Rightarrow> bool" where
  "Static_IsGlobal a identity perm =
     list_ex (\<lambda>b. crb_Subject b = identity \<and> RoleHasPermission a (crb_RoleName b) perm)
       (sa_clusterRoleBindings a)"

definition static_Authorizer :: "StaticAuthorizer \<Rightarrow> Authorizer" where
  "static_Authorizer a = \<lparr>az_Authorize = Static_Authorize a, az_IsGlobal = Static_IsGlobal a\<rparr>"

section \<open>The composite authorizer\<close>

type_synonym binding_source = "string \<Rightarrow> ClusterRoleBinding list \<times> RoleBinding list"

record CompositeAuthorizer =
  ca_static :: Authorizer
  ca_dynamic :: binding_source
  ca_dynamicRoleHasPerm :: "string \<Rightarrow> Permission \<Rightarrow> bool"

definition Composite_Authorize :: "CompositeAuthorizer \<Rightarrow> string \<Rightarrow> string \<Rightarrow> Permission \<Rightarrow> bool" where
  "Composite_Authorize c identity tenant perm =
     (if az_Authorize (ca_static c) identity tenant perm then True
      else let (cluster, scoped) = ca_dynamic c identity
           in if list_ex (\<lambda>b. ca_dynamicRoleHasPerm c (crb_RoleName b) perm) cluster then True
              else list_ex (\<lambda>b. rb_Tenant b = tenant \<and> ca_dynamicRoleHasPerm c (rb_RoleName b) perm) scoped)"

definition Composite_IsGlobal :: "CompositeAuthorizer \<Rightarrow> string \<Rightarrow> Permission \<Rightarrow> bool" where
  "Composite_IsGlobal c identity perm =
     (if az_IsGlobal (ca_static c) identity perm then True
      else let (cluster, _) = ca_dynamic c identity
           in list_ex (\<lambda>b. ca_dynamicRoleHasPerm c (crb_RoleName b) perm) cluster)"

definition composite_Authorizer :: "CompositeAuthorizer \<Rightarrow> Authorizer" where
  "composite_Authorizer c = \<lparr>az_Authorize = Composite_Authorize c, az_IsGlobal = Composite_IsGlobal c\<rparr>"

section \<open>The flag gate and the middleware\<close>

definition rbacFeatureFlag :: string where
  "rbacFeatureFlag = ''rbac''"

definition rbac_Check :: "(string \<Rightarrow> bool) \<Rightarrow> Authorizer \<Rightarrow> string \<Rightarrow> string \<Rightarrow> Permission \<Rightarrow> bool" where
  "rbac_Check flags authorizer identity tenant perm =
     (if \<not> flags rbacFeatureFlag then True else az_Authorize authorizer identity tenant perm)"

definition rbac_IsGlobal :: "(string \<Rightarrow> bool) \<Rightarrow> Authorizer \<Rightarrow> string \<Rightarrow> Permission \<Rightarrow> bool" where
  "rbac_IsGlobal flags authorizer identity perm =
     (if \<not> flags rbacFeatureFlag then True else az_IsGlobal authorizer identity perm)"

text \<open>
  The middleware's answers: a redirect to the login form, a plain error, or what the wrapped handler
  does. The request's method and its Accept header are arguments.
\<close>

datatype 'b middleware_response =
    SeeOther string
  | PlainError int string
  | Next 'b

definition RequirePermission ::
  "(string \<Rightarrow> string \<Rightarrow> Permission \<Rightarrow> bool) \<Rightarrow> ('r \<Rightarrow> 's \<Rightarrow> 'e + string \<times> string) \<Rightarrow> Permission \<Rightarrow>
   ('r \<Rightarrow> 's \<Rightarrow> 'b \<times> 's) \<Rightarrow> string \<Rightarrow> string \<Rightarrow> string \<Rightarrow> 'r \<Rightarrow> 's \<Rightarrow> 'b middleware_response \<times> 's" where
  "RequirePermission check authenticate perm nxt loginRedirect meth accept r s =
     (case authenticate r s of
        Inl _ \<Rightarrow>
          if loginRedirect \<noteq> '''' \<and> meth = ''GET'' \<and> sublist ''text/html'' accept then (SeeOther loginRedirect, s)
          else (PlainError 401 ''unauthorized'', s)
      | Inr (who, tenantName) \<Rightarrow>
          if \<not> check who tenantName perm then (PlainError 403 ''forbidden'', s)
          else let (b, s) = nxt r s in (Next b, s))"

section \<open>What a file grants\<close>

definition role_grants :: "rbacFile \<Rightarrow> string \<Rightarrow> Permission \<Rightarrow> bool" where
  "role_grants f name perm \<longleftrightarrow>
     (case builtinRoles name of
        Some role \<Rightarrow> perm \<in> set (role_Permissions role)
      | None \<Rightarrow> \<exists>rc \<in> set (rf_Roles f). rc_Name rc = name \<and> perm \<in> set (rc_Permissions rc))"

definition file_grants :: "rbacFile \<Rightarrow> string \<Rightarrow> string \<Rightarrow> Permission \<Rightarrow> bool" where
  "file_grants f identity tenant perm \<longleftrightarrow>
     (\<exists>bc \<in> set (rf_Bindings f). bc_Subject bc = identity \<and> bc_Tenant bc \<in> {'''', tenant} \<and>
        role_grants f (bc_Role bc) perm)"

lemma load_perms_Inr: "load_perms role ps = Inr perms \<Longrightarrow> perms = ps \<and> (\<forall>p \<in> set ps. knownPermission p)"
  by (induction ps arbitrary: perms) (auto split: if_splits sum.splits)

lemma load_roles_Inr:
  "load_roles rcs roles = Inr roles' \<Longrightarrow>
     roles' name = (case roles name of
        Some role \<Rightarrow> Some role
      | None \<Rightarrow> map_of (map (\<lambda>rc. (rc_Name rc, \<lparr>role_Name = rc_Name rc, role_Permissions = rc_Permissions rc\<rparr>)) rcs) name)"
proof (induction rcs arbitrary: roles)
  case (Cons rc rcs)
  then show ?case by (auto split: if_splits sum.splits option.splits dest!: load_perms_Inr)
qed (simp split: option.split)

lemma load_roles_names:
  "load_roles rcs roles = Inr roles' \<Longrightarrow> distinct (map rc_Name rcs) \<and> (\<forall>rc \<in> set rcs. builtinRoles (rc_Name rc) = None \<and> roles (rc_Name rc) = None)"
proof (induction rcs arbitrary: roles)
  case (Cons rc rcs)
  then show ?case by (fastforce split: if_splits sum.splits)
qed simp

lemma load_bindings_Inr:
  "load_bindings bcs a = Inr a' \<Longrightarrow>
     sa_roles a' = sa_roles a \<and>
     sa_clusterRoleBindings a' = sa_clusterRoleBindings a @
       map (\<lambda>bc. \<lparr>crb_Subject = bc_Subject bc, crb_RoleName = bc_Role bc\<rparr>) (filter (\<lambda>bc. bc_Tenant bc = '''') bcs) \<and>
     sa_roleBindings a' = sa_roleBindings a @
       map (\<lambda>bc. \<lparr>rb_Subject = bc_Subject bc, rb_RoleName = bc_Role bc, rb_Tenant = bc_Tenant bc\<rparr>)
         (filter (\<lambda>bc. bc_Tenant bc \<noteq> '''') bcs)"
  by (induction bcs arbitrary: a) (auto split: if_splits)

lemma loaded_role_grants:
  assumes "LoadAuthorizer f = Inr a"
  shows "RoleHasPermission a name perm \<longleftrightarrow> role_grants f name perm"
proof -
  obtain roles where roles: "load_roles (rf_Roles f) builtinRoles = Inr roles" and a: "sa_roles a = roles"
    using assms by (auto simp: LoadAuthorizer_def split: sum.splits dest!: load_bindings_Inr)
  let ?kv = "\<lambda>rc. (rc_Name rc, \<lparr>role_Name = rc_Name rc, role_Permissions = rc_Permissions rc\<rparr>)"
  have "distinct (map fst (map ?kv (rf_Roles f)))"
    using load_roles_names [OF roles] by (simp add: comp_def)
  then have "map_of (map ?kv (rf_Roles f)) name = Some role \<longleftrightarrow> (name, role) \<in> set (map ?kv (rf_Roles f))" for role
    by (rule map_of_eq_Some_iff)
  then have mo: "map_of (map ?kv (rf_Roles f)) name = Some role \<longleftrightarrow>
      (\<exists>rc \<in> set (rf_Roles f). ?kv rc = (name, role))" for role by auto
  show ?thesis
  proof (cases "builtinRoles name")
    case None
    then have "roles name = map_of (map ?kv (rf_Roles f)) name"
      using load_roles_Inr [OF roles, of name] by simp
    then have "RoleHasPermission a name perm \<longleftrightarrow>
        (\<exists>role. map_of (map ?kv (rf_Roles f)) name = Some role \<and> perm \<in> set (role_Permissions role))"
      by (auto simp: RoleHasPermission_def a list_ex_iff split: option.split)
    then show ?thesis unfolding mo using None by (auto simp: role_grants_def)
  next
    case (Some role)
    then show ?thesis using load_roles_Inr [OF roles, of name]
      by (auto simp: RoleHasPermission_def a list_ex_iff role_grants_def)
  qed
qed

lemma loaded_authorize:
  assumes "LoadAuthorizer f = Inr a"
  shows "Static_Authorize a identity tenant perm \<longleftrightarrow> file_grants f identity tenant perm"
    and "Static_IsGlobal a identity perm \<longleftrightarrow>
      (\<exists>bc \<in> set (rf_Bindings f). bc_Subject bc = identity \<and> bc_Tenant bc = '''' \<and> role_grants f (bc_Role bc) perm)"
proof -
  have "set (sa_clusterRoleBindings a) = (\<lambda>bc. \<lparr>crb_Subject = bc_Subject bc, crb_RoleName = bc_Role bc\<rparr>) `
        {bc \<in> set (rf_Bindings f). bc_Tenant bc = ''''}"
    and "set (sa_roleBindings a) =
        (\<lambda>bc. \<lparr>rb_Subject = bc_Subject bc, rb_RoleName = bc_Role bc, rb_Tenant = bc_Tenant bc\<rparr>) `
        {bc \<in> set (rf_Bindings f). bc_Tenant bc \<noteq> ''''}"
    using assms by (auto simp: LoadAuthorizer_def split: sum.splits dest!: load_bindings_Inr)
  then show "Static_Authorize a identity tenant perm \<longleftrightarrow> file_grants f identity tenant perm"
    and "Static_IsGlobal a identity perm \<longleftrightarrow>
      (\<exists>bc \<in> set (rf_Bindings f). bc_Subject bc = identity \<and> bc_Tenant bc = '''' \<and> role_grants f (bc_Role bc) perm)"
    unfolding Static_Authorize_def Static_IsGlobal_def file_grants_def list_ex_iff loaded_role_grants [OF assms]
    by auto
qed

section \<open>The contract of an authorizer\<close>

text \<open>
  \<open>scoped i t p\<close> says that a binding of tenant \<open>t\<close> grants \<open>p\<close> to \<open>i\<close>. Authorization is the union of the
  global grants and those of the tenant asked about.
\<close>

locale authorizer =
  fixes az :: Authorizer and scoped :: "string \<Rightarrow> string \<Rightarrow> Permission \<Rightarrow> bool"
  assumes authorize_iff: "az_Authorize az i t p \<longleftrightarrow> az_IsGlobal az i p \<or> scoped i t p"
begin

lemma global_everywhere: "az_IsGlobal az i p \<Longrightarrow> az_Authorize az i t p"
  by (simp add: authorize_iff)

lemma tenant_confined: "az_Authorize az i t p \<Longrightarrow> \<not> scoped i t' p \<Longrightarrow> az_IsGlobal az i p \<or> t \<noteq> t'"
  by (auto simp: authorize_iff)

end

definition static_scoped :: "StaticAuthorizer \<Rightarrow> string \<Rightarrow> string \<Rightarrow> Permission \<Rightarrow> bool" where
  "static_scoped a i t p \<longleftrightarrow>
     (\<exists>b \<in> set (sa_roleBindings a). rb_Subject b = i \<and> rb_Tenant b = t \<and> RoleHasPermission a (rb_RoleName b) p)"

interpretation static: authorizer "static_Authorizer a" "static_scoped a" for a
  by unfold_locales
    (auto simp: static_Authorizer_def Static_Authorize_def Static_IsGlobal_def static_scoped_def list_ex_iff)

text \<open>Provisioned bindings are added to any authorizer that keeps the contract.\<close>

locale provisioned_authorizer = authorizer +
  fixes dynamic :: binding_source and roleHasPerm :: "string \<Rightarrow> Permission \<Rightarrow> bool"
begin

abbreviation composed :: CompositeAuthorizer where
  "composed \<equiv> \<lparr>ca_static = az, ca_dynamic = dynamic, ca_dynamicRoleHasPerm = roleHasPerm\<rparr>"

lemma composed_global:
  "Composite_IsGlobal composed i p \<longleftrightarrow>
     az_IsGlobal az i p \<or> (\<exists>b \<in> set (fst (dynamic i)). roleHasPerm (crb_RoleName b) p)"
  by (simp add: Composite_IsGlobal_def case_prod_beta list_ex_iff)

lemma composed_authorize:
  "Composite_Authorize composed i t p \<longleftrightarrow>
     az_Authorize az i t p \<or> (\<exists>b \<in> set (fst (dynamic i)). roleHasPerm (crb_RoleName b) p) \<or>
     (\<exists>b \<in> set (snd (dynamic i)). rb_Tenant b = t \<and> roleHasPerm (rb_RoleName b) p)"
  by (simp add: Composite_Authorize_def case_prod_beta list_ex_iff)

end

sublocale provisioned_authorizer \<subseteq> composite: authorizer "composite_Authorizer composed"
    "\<lambda>i t p. scoped i t p \<or> (\<exists>b \<in> set (snd (dynamic i)). rb_Tenant b = t \<and> roleHasPerm (rb_RoleName b) p)"
  by unfold_locales
    (auto simp: composite_Authorizer_def composed_authorize composed_global authorize_iff)

interpretation static_provisioned:
  provisioned_authorizer "static_Authorizer a" "static_scoped a" dynamic "RoleHasPermission a"
  for a dynamic
  by unfold_locales

section \<open>Properties of authorization\<close>

lemma role_grants_known:
  assumes "LoadAuthorizer f = Inr a" and "role_grants f name perm"
  shows "knownPermission perm"
proof -
  have "\<forall>rc \<in> set rcs. \<forall>p \<in> set (rc_Permissions rc). knownPermission p"
    if "load_roles rcs roles = Inr roles'" for rcs roles roles'
    using that by (induction rcs arbitrary: roles) (auto split: if_splits sum.splits dest: load_perms_Inr)
  then show ?thesis
    using assms by (fastforce simp: LoadAuthorizer_def role_grants_def builtinRoles_def knownPermission_def
        allPermissions_def split: sum.splits option.splits if_splits)
qed

text \<open>
  C19. A loaded file grants exactly what it says: with an accepted RBAC file, an identity is
  authorized for a permission in a tenant if and only if one of the file's bindings names the
  identity, applies to every tenant or to that one, and has a role, built in or defined in the
  file, that lists the permission; and no permission outside the known ones is ever granted.
\<close>

theorem static_authorizer_sound_complete:
  assumes "LoadAuthorizer f = Inr a"
  shows "Static_Authorize a identity tenant perm = file_grants f identity tenant perm \<and>
         (Static_Authorize a identity tenant perm \<longrightarrow> perm \<in> set allPermissions)"
  using loaded_authorize(1) [OF assms] role_grants_known [OF assms]
  by (auto simp: file_grants_def knownPermission_def list_ex_iff)

definition example_rbac_file :: rbacFile where
  "example_rbac_file = \<lparr>rf_Roles = [\<lparr>rc_Name = ''revoker'', rc_Permissions = [''credential:revoke'']\<rparr>],
     rf_Bindings = [\<lparr>bc_Subject = ''alice'', bc_Role = ''revoker'', bc_Tenant = ''acme''\<rparr>,
                    \<lparr>bc_Subject = ''root'', bc_Role = ''admin'', bc_Tenant = ''''\<rparr>]\<rparr>"

definition example_authorizer :: StaticAuthorizer where
  "example_authorizer = (case LoadAuthorizer example_rbac_file of Inr a \<Rightarrow> a)"

lemma example_authorizer_loaded: "LoadAuthorizer example_rbac_file = Inr example_authorizer"
  by (simp add: example_authorizer_def example_rbac_file_def LoadAuthorizer_def builtinRoles_def
      knownPermission_def allPermissions_def PermissionCredentialRevoke_def)

theorem static_authorizer_sound_complete_witness:
  "LoadAuthorizer example_rbac_file = Inr example_authorizer \<and>
   Static_Authorize example_authorizer ''alice'' ''acme'' ''credential:revoke'' \<and>
   \<not> Static_Authorize example_authorizer ''alice'' ''globex'' ''credential:revoke''"
  using static_authorizer_sound_complete [OF example_authorizer_loaded, of "''alice''" "''acme''" "''credential:revoke''"]
    static_authorizer_sound_complete [OF example_authorizer_loaded, of "''alice''" "''globex''" "''credential:revoke''"]
    example_authorizer_loaded
  unfolding file_grants_def role_grants_def by (simp add: example_rbac_file_def builtinRoles_def)

text \<open>
  Provisioned bindings only add to the file's: the composite authorizer over a loaded file
  grants a permission in a tenant exactly when the file does, or a provisioned binding of the
  identity, global or of that tenant, names a role the file (or the built-in set) gives the
  permission to.
\<close>

theorem composite_authorizer_union:
  assumes "LoadAuthorizer f = Inr a"
  shows "Composite_Authorize \<lparr>ca_static = static_Authorizer a, ca_dynamic = dynamic,
           ca_dynamicRoleHasPerm = RoleHasPermission a\<rparr> identity tenant perm =
      (file_grants f identity tenant perm \<or>
       (\<exists>b \<in> set (fst (dynamic identity)). role_grants f (crb_RoleName b) perm) \<or>
       (\<exists>b \<in> set (snd (dynamic identity)). rb_Tenant b = tenant \<and> role_grants f (rb_RoleName b) perm))"
  using static_provisioned.composed_authorize [of a dynamic identity tenant perm]
    loaded_authorize(1) [OF assms] loaded_role_grants [OF assms]
  by (simp add: static_Authorizer_def)

theorem composite_authorizer_union_witness:
  "Composite_Authorize \<lparr>ca_static = static_Authorizer example_authorizer,
     ca_dynamic = (\<lambda>i. ([], [\<lparr>rb_Subject = i, rb_RoleName = ''viewer'', rb_Tenant = ''acme''\<rparr>])),
     ca_dynamicRoleHasPerm = RoleHasPermission example_authorizer\<rparr> ''carol'' ''acme'' ''dashboard:view''"
  using composite_authorizer_union [OF example_authorizer_loaded,
      of "\<lambda>i. ([], [\<lparr>rb_Subject = i, rb_RoleName = ''viewer'', rb_Tenant = ''acme''\<rparr>])" "''carol''" "''acme''" "''dashboard:view''"]
  by (simp add: role_grants_def builtinRoles_def PermissionDashboardView_def)

text \<open>The middleware reaches the wrapped handler only for an authenticated, authorized caller.\<close>

lemma RequirePermission_next:
  "fst (RequirePermission check authenticate perm nxt loginRedirect meth accept r s) = Next b \<Longrightarrow>
     \<exists>who t. authenticate r s = Inr (who, t) \<and> check who t perm"
  by (auto simp: RequirePermission_def split: sum.splits if_splits)

lemma RequirePermission_refused:
  "authenticate r s = Inl e \<or> (\<exists>who t. authenticate r s = Inr (who, t) \<and> \<not> check who t perm) \<Longrightarrow>
     snd (RequirePermission check authenticate perm nxt loginRedirect meth accept r s) = s"
  by (auto simp: RequirePermission_def)

end
