(* ===== verification/Bootstrap.thy ===== *)
theory Bootstrap
  imports Keys
begin

text \<open>
  Registered identities: the preshared-secret registry
  (\<open>internal/features/credential/adapter/presharedsecret.go\<close>) and the SPIFFE-ID registry
  (\<open>adapter/mtls.go\<close>), each loaded from a credentials file, which resolve what a caller presents to an
  identity and a tenant, and answer which tenant an identity name belongs to.

  The YAML decoder is not part of the model: a loader starts from the decoded entries. The locale
  \<open>registry_loader\<close> is what the two loaders share; \<open>TenantOf\<close> loops over a map, whose
  order \<open>ks\<close> is an argument.
\<close>

section \<open>Entries and errors\<close>

record RegisteredIdentity =
  ri_Name :: string
  ri_Secret :: string
  ri_Tenant :: string
  ri_SpiffeID :: string

record registeredEntry =
  en_identity :: string
  en_tenant :: string

datatype load_error =
    MissingNameOrKey
  | DuplicateKey string string \<comment> \<open>the two identities that share the key\<close>

definition entry_of :: "RegisteredIdentity \<Rightarrow> registeredEntry" where
  "entry_of e = \<lparr>en_identity = ri_Name e, en_tenant = (if ri_Tenant e = '''' then tenant_Default else ri_Tenant e)\<rparr>"

section \<open>The preshared-secret registry\<close>

fun load_secrets ::
  "RegisteredIdentity list \<Rightarrow> (string \<rightharpoonup> registeredEntry) \<Rightarrow> load_error + (string \<rightharpoonup> registeredEntry)" where
  "load_secrets [] bySecret = Inr bySecret"
| "load_secrets (e # es) bySecret =
     (if ri_Name e = '''' \<or> ri_Secret e = '''' then Inl MissingNameOrKey
      else case bySecret (ri_Secret e) of
             Some existing \<Rightarrow> Inl (DuplicateKey (en_identity existing) (ri_Name e))
           | None \<Rightarrow> load_secrets es (bySecret(ri_Secret e \<mapsto> entry_of e)))"

definition LoadBootstrapper :: "RegisteredIdentity list \<Rightarrow> load_error + (string \<rightharpoonup> registeredEntry)" where
  "LoadBootstrapper es = load_secrets es Map.empty"

definition Bootstrapper_Authenticate :: "(string \<rightharpoonup> registeredEntry) \<Rightarrow> string \<Rightarrow> (string \<times> string) option" where
  "Bootstrapper_Authenticate bySecret secret =
     (case bySecret secret of None \<Rightarrow> None | Some entry \<Rightarrow> Some (en_identity entry, en_tenant entry))"

text \<open>The loop of \<open>TenantOf\<close> over the entries, with its variables \<open>found\<close> and \<open>matched\<close>.\<close>

fun tenant_loop :: "string \<Rightarrow> registeredEntry list \<Rightarrow> string \<Rightarrow> bool \<Rightarrow> string option" where
  "tenant_loop identity [] found matched = (if \<not> matched then None else Some found)"
| "tenant_loop identity (entry # es) found matched =
     (if en_identity entry \<noteq> identity then tenant_loop identity es found matched
      else if \<not> matched then tenant_loop identity es (en_tenant entry) True
      else if en_tenant entry \<noteq> found then None
      else tenant_loop identity es found matched)"

definition Bootstrapper_TenantOf :: "string list \<Rightarrow> (string \<rightharpoonup> registeredEntry) \<Rightarrow> string \<Rightarrow> string option" where
  "Bootstrapper_TenantOf ks bySecret identity =
     tenant_loop identity (map snd (range_entries ks bySecret)) '''' False"

section \<open>The SPIFFE-ID registry\<close>

fun load_spiffe ::
  "RegisteredIdentity list \<Rightarrow> (string \<rightharpoonup> registeredEntry) \<Rightarrow> load_error + (string \<rightharpoonup> registeredEntry)" where
  "load_spiffe [] bySpiffeID = Inr bySpiffeID"
| "load_spiffe (e # es) bySpiffeID =
     (if ri_Name e = '''' \<or> ri_SpiffeID e = '''' then Inl MissingNameOrKey
      else case bySpiffeID (ri_SpiffeID e) of
             Some existing \<Rightarrow> Inl (DuplicateKey (en_identity existing) (ri_Name e))
           | None \<Rightarrow> load_spiffe es (bySpiffeID(ri_SpiffeID e \<mapsto> entry_of e)))"

definition LoadMTLSBootstrapper :: "RegisteredIdentity list \<Rightarrow> load_error + (string \<rightharpoonup> registeredEntry)" where
  "LoadMTLSBootstrapper es = load_spiffe es Map.empty"

definition MTLS_Authenticate :: "(string \<rightharpoonup> registeredEntry) \<Rightarrow> string \<Rightarrow> (string \<times> string) option" where
  "MTLS_Authenticate bySpiffeID spiffeID =
     (case bySpiffeID spiffeID of None \<Rightarrow> None | Some entry \<Rightarrow> Some (en_identity entry, en_tenant entry))"

definition MTLS_TenantOf :: "string list \<Rightarrow> (string \<rightharpoonup> registeredEntry) \<Rightarrow> string \<Rightarrow> string option" where
  "MTLS_TenantOf ks bySpiffeID identity =
     tenant_loop identity (map snd (range_entries ks bySpiffeID)) '''' False"

section \<open>What a loader promises\<close>

lemma tenant_loop_matched:
  "tenant_loop identity es found True =
     (if \<forall>en \<in> set es. en_identity en = identity \<longrightarrow> en_tenant en = found then Some found else None)"
  by (induction es) auto

lemma tenant_loop_Some:
  "tenant_loop identity es x False = Some t \<longleftrightarrow>
     (\<exists>en \<in> set es. en_identity en = identity) \<and> (\<forall>en \<in> set es. en_identity en = identity \<longrightarrow> en_tenant en = t)"
  by (induction es) (auto simp: tenant_loop_matched)

lemma tenant_of_map:
  assumes "range_order ks m"
  shows "tenant_loop identity (map snd (range_entries ks m)) '''' False = Some t \<longleftrightarrow>
     (\<exists>k en. m k = Some en \<and> en_identity en = identity) \<and>
     (\<forall>k en. m k = Some en \<longrightarrow> en_identity en = identity \<longrightarrow> en_tenant en = t)"
  unfolding tenant_loop_Some using set_range_entries [OF assms] by (auto simp: image_iff)

lemma resolved_iff:
  "(case oe of None \<Rightarrow> None | Some entry \<Rightarrow> Some (en_identity entry, en_tenant entry)) = Some (i, t) \<longleftrightarrow>
     oe = Some \<lparr>en_identity = i, en_tenant = t\<rparr>"
  by (cases oe) auto

locale registry_loader =
  fixes key :: "RegisteredIdentity \<Rightarrow> string"
    and load :: "RegisteredIdentity list \<Rightarrow> (string \<rightharpoonup> registeredEntry) \<Rightarrow> load_error + (string \<rightharpoonup> registeredEntry)"
  assumes load_Nil: "load [] m = Inr m"
    and load_Cons: "load (e # es) m = Inr m' \<longleftrightarrow>
      ri_Name e \<noteq> '''' \<and> key e \<noteq> '''' \<and> m (key e) = None \<and> load es (m(key e \<mapsto> entry_of e)) = Inr m'"
begin

lemma load_Inr:
  "load es m = Inr m' \<Longrightarrow>
     distinct (map key es) \<and> (\<forall>e \<in> set es. ri_Name e \<noteq> '''' \<and> key e \<noteq> '''' \<and> m (key e) = None) \<and>
     m' = m ++ map_of (map (\<lambda>e. (key e, entry_of e)) es)"
proof (induction es arbitrary: m)
  case (Cons e es)
  then have e: "ri_Name e \<noteq> ''''" "key e \<noteq> ''''" "m (key e) = None"
    and es: "load es (m(key e \<mapsto> entry_of e)) = Inr m'"
    by (auto simp: load_Cons)
  note hyp = Cons.IH [OF es]
  then have IH: "distinct (map key es)" "\<forall>e' \<in> set es. ri_Name e' \<noteq> '''' \<and> key e' \<noteq> '''' \<and> (m(key e \<mapsto> entry_of e)) (key e') = None"
    "m' = m(key e \<mapsto> entry_of e) ++ map_of (map (\<lambda>e. (key e, entry_of e)) es)"
    by blast+
  from IH(2) have "key e \<notin> key ` set es" by fastforce
  moreover from this have "m(key e \<mapsto> entry_of e) ++ map_of (map (\<lambda>e. (key e, entry_of e)) es) =
      m ++ map_of (map (\<lambda>e. (key e, entry_of e)) (e # es))"
    by (simp add: map_add_upd_left dom_map_of_conv_image_fst image_image)
  ultimately have "m' = m ++ map_of (map (\<lambda>e. (key e, entry_of e)) (e # es))" "distinct (map key (e # es))"
    using IH(1,3) by auto
  moreover have "\<forall>e' \<in> set (e # es). ri_Name e' \<noteq> '''' \<and> key e' \<noteq> '''' \<and> m (key e') = None"
    using IH(2) e by (auto split: if_splits)
  ultimately show ?case by blast
qed (simp add: load_Nil)

lemma loaded_lookup:
  assumes "load es Map.empty = Inr m"
  shows "m k = Some en \<longleftrightarrow> (\<exists>e \<in> set es. key e = k \<and> en = entry_of e)"
proof -
  have "distinct (map key es)" "m = map_of (map (\<lambda>e. (key e, entry_of e)) es)"
    using load_Inr [OF assms] by auto
  moreover from this(1) have "distinct (map fst (map (\<lambda>e. (key e, entry_of e)) es))" by (simp add: comp_def)
  ultimately show ?thesis using map_of_eq_Some_iff [of "map (\<lambda>e. (key e, entry_of e)) es" k en] by auto
qed

lemma loaded_resolve:
  assumes "load es Map.empty = Inr m"
  shows "(case m k of None \<Rightarrow> None | Some entry \<Rightarrow> Some (en_identity entry, en_tenant entry)) = Some (i, t) \<longleftrightarrow>
     (\<exists>e \<in> set es. key e = k \<and> i = ri_Name e \<and> t = (if ri_Tenant e = '''' then tenant_Default else ri_Tenant e))"
  unfolding resolved_iff loaded_lookup [OF assms] by (simp add: entry_of_def)

lemma loaded_tenant:
  assumes "load es Map.empty = Inr m" and "range_order ks m"
  shows "tenant_loop identity (map snd (range_entries ks m)) '''' False = Some t \<longleftrightarrow>
     (\<exists>e \<in> set es. ri_Name e = identity) \<and>
     (\<forall>e \<in> set es. ri_Name e = identity \<longrightarrow> (if ri_Tenant e = '''' then tenant_Default else ri_Tenant e) = t)"
proof -
  have "en_identity (entry_of e) = ri_Name e"
    "en_tenant (entry_of e) = (if ri_Tenant e = '''' then tenant_Default else ri_Tenant e)" for e
    by (simp_all add: entry_of_def)
  moreover have "(\<forall>k en. (\<exists>e \<in> set es. key e = k \<and> en = entry_of e) \<longrightarrow> P en) \<longleftrightarrow> (\<forall>e \<in> set es. P (entry_of e))" for P
    by blast
  moreover have "(\<exists>k en. (\<exists>e \<in> set es. key e = k \<and> en = entry_of e) \<and> P en) \<longleftrightarrow> (\<exists>e \<in> set es. P (entry_of e))" for P
    by blast
  ultimately show ?thesis unfolding tenant_of_map [OF assms(2)] loaded_lookup [OF assms(1)] by simp
qed

end

interpretation secrets: registry_loader ri_Secret load_secrets
  by unfold_locales (auto split: option.split)

interpretation spiffe: registry_loader ri_SpiffeID load_spiffe
  by unfold_locales (auto split: option.split)



section \<open>Properties of the registries\<close>

text \<open>
  Registration is exact: an accepted credentials file resolves a secret to an identity and a
  tenant if and only if one of its entries has that secret, and then to that entry's name and tenant
  (the default tenant when it names none); no two entries share a secret, and the empty secret
  resolves to nothing.
\<close>

theorem bootstrap_authenticate_exact:
  assumes "LoadBootstrapper es = Inr reg"
  shows "(Bootstrapper_Authenticate reg secret = Some (i, t) \<longleftrightarrow>
            (\<exists>e \<in> set es. ri_Secret e = secret \<and> i = ri_Name e \<and>
               t = (if ri_Tenant e = '''' then tenant_Default else ri_Tenant e))) \<and>
         distinct (map ri_Secret es) \<and> Bootstrapper_Authenticate reg '''' = None"
proof (intro conjI)
  have reg: "load_secrets es Map.empty = Inr reg" using assms by (simp add: LoadBootstrapper_def)
  show "Bootstrapper_Authenticate reg secret = Some (i, t) \<longleftrightarrow>
      (\<exists>e \<in> set es. ri_Secret e = secret \<and> i = ri_Name e \<and>
         t = (if ri_Tenant e = '''' then tenant_Default else ri_Tenant e))"
    unfolding Bootstrapper_Authenticate_def by (rule secrets.loaded_resolve [OF reg])
  show "distinct (map ri_Secret es)" using secrets.load_Inr [OF reg] by simp
  have "reg '''' \<noteq> Some en" for en
    using secrets.loaded_lookup [OF reg, of "''''" en] secrets.load_Inr [OF reg] by auto
  then show "Bootstrapper_Authenticate reg '''' = None"
    by (simp add: Bootstrapper_Authenticate_def split: option.split)
qed

definition example_identities :: "RegisteredIdentity list" where
  "example_identities =
     [\<lparr>ri_Name = ''alice'', ri_Secret = ''s1'', ri_Tenant = ''acme'', ri_SpiffeID = ''''\<rparr>,
      \<lparr>ri_Name = ''bob'', ri_Secret = ''s2'', ri_Tenant = '''', ri_SpiffeID = ''''\<rparr>,
      \<lparr>ri_Name = ''alice'', ri_Secret = ''s3'', ri_Tenant = ''globex'', ri_SpiffeID = ''''\<rparr>]"

definition example_registry :: "string \<rightharpoonup> registeredEntry" where
  "example_registry = map_of (map (\<lambda>e. (ri_Secret e, entry_of e)) example_identities)"

lemma example_registry_loaded: "LoadBootstrapper example_identities = Inr example_registry"
  by (simp add: LoadBootstrapper_def example_identities_def example_registry_def fun_upd_twist)

theorem bootstrap_authenticate_exact_witness:
  "LoadBootstrapper example_identities = Inr example_registry \<and>
   Bootstrapper_Authenticate example_registry ''s2'' = Some (''bob'', tenant_Default) \<and>
   Bootstrapper_Authenticate example_registry '''' = None"
  using bootstrap_authenticate_exact [OF example_registry_loaded, of "''s2''" "''bob''" tenant_Default]
    example_registry_loaded by (simp add: example_identities_def)

text \<open>
  The tenant an identity name belongs to does not depend on the order in which the registry
  is traversed, and an ambiguous name has none: the lookup answers a tenant exactly when the file
  registers the name and every entry with that name is in that tenant.
\<close>

theorem tenant_of_unambiguous:
  assumes "LoadBootstrapper es = Inr reg" and "range_order ks reg"
  shows "Bootstrapper_TenantOf ks reg identity = Some t \<longleftrightarrow>
     (\<exists>e \<in> set es. ri_Name e = identity) \<and>
     (\<forall>e \<in> set es. ri_Name e = identity \<longrightarrow> (if ri_Tenant e = '''' then tenant_Default else ri_Tenant e) = t)"
  using secrets.loaded_tenant assms by (simp add: Bootstrapper_TenantOf_def LoadBootstrapper_def)

theorem tenant_of_unambiguous_witness:
  "range_order [''s1'', ''s2'', ''s3''] example_registry \<and>
   Bootstrapper_TenantOf [''s1'', ''s2'', ''s3''] example_registry ''bob'' = Some tenant_Default \<and>
   (\<forall>t. Bootstrapper_TenantOf [''s1'', ''s2'', ''s3''] example_registry ''alice'' \<noteq> Some t)"
proof -
  have ks: "range_order [''s1'', ''s2'', ''s3''] example_registry"
    by (auto simp: range_order_def example_registry_def example_identities_def)
  show ?thesis
    using ks tenant_of_unambiguous [OF example_registry_loaded ks, of "''bob''" tenant_Default]
      tenant_of_unambiguous [OF example_registry_loaded ks, of "''alice''"]
    by (simp add: example_identities_def)
qed

text \<open>The SPIFFE registry keeps the same promises.\<close>

lemma mtls_authenticate_exact:
  assumes "LoadMTLSBootstrapper es = Inr reg"
  shows "MTLS_Authenticate reg k = Some (i, t) \<longleftrightarrow>
     (\<exists>e \<in> set es. ri_SpiffeID e = k \<and> i = ri_Name e \<and>
        t = (if ri_Tenant e = '''' then tenant_Default else ri_Tenant e))"
  using spiffe.loaded_resolve assms by (simp add: MTLS_Authenticate_def LoadMTLSBootstrapper_def)

lemma mtls_tenant_of_unambiguous:
  assumes "LoadMTLSBootstrapper es = Inr reg" and "range_order ks reg"
  shows "MTLS_TenantOf ks reg identity = Some t \<longleftrightarrow>
     (\<exists>e \<in> set es. ri_Name e = identity) \<and>
     (\<forall>e \<in> set es. ri_Name e = identity \<longrightarrow> (if ri_Tenant e = '''' then tenant_Default else ri_Tenant e) = t)"
  using spiffe.loaded_tenant assms by (simp add: MTLS_TenantOf_def LoadMTLSBootstrapper_def)

end
