(* ===== verification/Scim_Filter.thy ===== *)
theory Scim_Filter
  imports Proxy_Request
begin

text \<open>
  The SCIM filter language (\<open>internal/features/scim/adapter/filter.go\<close>): tokenizer, recursive-descent
  parser and evaluator.

  The parser walks a token list with \<open>peek\<close> and \<open>next\<close>, which index a slice: past its end they panic,
  and the model says so (\<open>FilterPanic\<close>). The mutually recursive parse functions take fuel, and running out of it is
  the value \<open>OutOfFuel\<close>; \<open>parse_enough_fuel\<close> shows that the fuel the entry point gives is always enough.
  Floating-point numbers are values of an arbitrary linearly ordered type, read by a parameter
  that stands for \<open>strconv.ParseFloat\<close> on digits and dots.
\<close>

section \<open>Expressions and their evaluation\<close>

datatype 'f filter_value =
    FString string
  | FNumber 'f
  | FBool bool
  | FNull

datatype 'f filterNode =
    andNode "'f filterNode" "'f filterNode"
  | orNode "'f filterNode" "'f filterNode"
  | notNode "'f filterNode"
  | attrNode string string "'f filter_value"

definition compareEqual :: "'f :: linorder filter_value \<Rightarrow> 'f filter_value \<Rightarrow> bool" where
  "compareEqual got want =
     (case got of
        FString g \<Rightarrow> (case want of FString w \<Rightarrow> g = w | _ \<Rightarrow> False)
      | FBool g \<Rightarrow> (case want of FBool w \<Rightarrow> g = w | _ \<Rightarrow> False)
      | FNumber g \<Rightarrow> (case want of FNumber w \<Rightarrow> g = w | _ \<Rightarrow> False)
      | FNull \<Rightarrow> want = FNull)"

definition compareOrdered :: "'f :: linorder filter_value \<Rightarrow> 'f filter_value \<Rightarrow> string \<Rightarrow> bool" where
  "compareOrdered got want op =
     (case (got, want) of
        (FNumber g, FNumber w) \<Rightarrow>
          if op = ''gt'' then w < g else if op = ''lt'' then g < w else if op = ''ge'' then w \<le> g else g \<le> w
      | _ \<Rightarrow> False)"

definition compareStrings :: "'f filter_value \<Rightarrow> 'f filter_value \<Rightarrow> string \<Rightarrow> bool" where
  "compareStrings got want op =
     (case (got, want) of
        (FString g, FString w) \<Rightarrow>
          if op = ''co'' then sublist w g else if op = ''sw'' then prefix w g else suffix w g
      | _ \<Rightarrow> False)"

definition evaluate_attr ::
  "string \<Rightarrow> string \<Rightarrow> 'f :: linorder filter_value \<Rightarrow> (string \<rightharpoonup> 'f filter_value) \<Rightarrow> bool" where
  "evaluate_attr attr op value attrs =
     (case attrs attr of
        None \<Rightarrow> False
      | Some got \<Rightarrow>
          if op = ''pr'' then (case got of FString s \<Rightarrow> s \<noteq> '''' | _ \<Rightarrow> True)
          else if op = ''eq'' then compareEqual got value
          else if op = ''ne'' then \<not> compareEqual got value
          else if op \<in> {''co'', ''sw'', ''ew''} then compareStrings got value op
          else if op \<in> {''gt'', ''lt'', ''ge'', ''le''} then compareOrdered got value op
          else False)"

fun evaluate :: "'f :: linorder filterNode \<Rightarrow> (string \<rightharpoonup> 'f filter_value) \<Rightarrow> bool" where
  "evaluate (andNode l r) attrs = (evaluate l attrs \<and> evaluate r attrs)"
| "evaluate (orNode l r) attrs = (evaluate l attrs \<or> evaluate r attrs)"
| "evaluate (notNode n) attrs = (\<not> evaluate n attrs)"
| "evaluate (attrNode attr op value) attrs = evaluate_attr attr op value attrs"

section \<open>Tokens\<close>

datatype 'f token =
    tokIdent string
  | tokString string
  | tokNumber 'f
  | tokLParen
  | tokRParen
  | tokEOF

datatype filter_error =
    UnterminatedString
  | InvalidNumber string
  | UnexpectedCharacter char
  | ExpectedClosingParenthesis
  | ExpectedAttributeName
  | ExpectedOperator string
  | UnsupportedOperator string
  | ExpectedValue string
  | TrailingInput
  | FilterPanic
  | OutOfFuel

definition isIdentStart :: "char \<Rightarrow> bool" where
  "isIdentStart c \<longleftrightarrow> is_lower c \<or> is_upper c \<or> c = CHR ''_'' \<or> c = CHR ''$''"

definition isIdentPart :: "char \<Rightarrow> bool" where
  "isIdentPart c \<longleftrightarrow> isIdentStart c \<or> is_digit c \<or> c = CHR ''.'' \<or> c = CHR '':''"

definition isNumberPart :: "char \<Rightarrow> bool" where
  "isNumberPart c \<longleftrightarrow> c = CHR ''.'' \<or> is_digit c"

text \<open>A string literal after its opening quote: its unescaped text and what follows it.\<close>

fun filter_string :: "string \<Rightarrow> (string \<times> string) option" where
  "filter_string [] = None"
| "filter_string (c # cs) =
     (if c = CHR 0x5C \<and> cs \<noteq> [] then map_option (\<lambda>(s, r). (hd cs # s, r)) (filter_string (tl cs))
      else if c = CHR 0x22 then Some ([], cs)
      else map_option (\<lambda>(s, r). (c # s, r)) (filter_string cs))"

lemma filter_string_length: "filter_string s = Some (x, r) \<Longrightarrow> length r < length s"
  by (induction s arbitrary: x r rule: filter_string.induct) (fastforce split: if_splits)+

function tokenizeFilter :: "(string \<Rightarrow> 'f option) \<Rightarrow> string \<Rightarrow> filter_error + 'f token list" where
  "tokenizeFilter pf [] = Inr [tokEOF]"
| "tokenizeFilter pf (c # cs) =
     (if c = CHR '' '' \<or> byte c = 9 then tokenizeFilter pf cs
      else if c = CHR ''('' then map_sum id ((#) tokLParen) (tokenizeFilter pf cs)
      else if c = CHR '')'' then map_sum id ((#) tokRParen) (tokenizeFilter pf cs)
      else if c = CHR 0x22 then
        (case filter_string cs of
           None \<Rightarrow> Inl UnterminatedString
         | Some (text, rest) \<Rightarrow> map_sum id ((#) (tokString text)) (tokenizeFilter pf rest))
      else if is_digit c \<or> (c = CHR ''-'' \<and> cs \<noteq> [] \<and> is_digit (hd cs)) then
        (case pf (c # takeWhile isNumberPart cs) of
           None \<Rightarrow> Inl (InvalidNumber (c # takeWhile isNumberPart cs))
         | Some v \<Rightarrow> map_sum id ((#) (tokNumber v)) (tokenizeFilter pf (dropWhile isNumberPart cs)))
      else if isIdentStart c then
        map_sum id ((#) (tokIdent (c # takeWhile isIdentPart cs))) (tokenizeFilter pf (dropWhile isIdentPart cs))
      else Inl (UnexpectedCharacter c))"
  by pat_completeness auto
termination
  by (relation "measure (\<lambda>(pf, s). length s)")
    (auto dest: filter_string_length simp: le_imp_less_Suc length_dropWhile_le)

section \<open>The parser\<close>

text \<open>The parser's state is the tokens from its position on; \<open>peek\<close> and \<open>next\<close> fail at their end.\<close>

type_synonym 'f parse_result = "filter_error + 'f filterNode \<times> 'f token list"

definition ascii_lower :: "char \<Rightarrow> char" where
  "ascii_lower c = (if is_upper c then char_of (byte c + 32) else c)"

text \<open>\<open>strings.EqualFold\<close> on the ASCII texts identifiers are made of.\<close>

definition EqualFold :: "string \<Rightarrow> string \<Rightarrow> bool" where
  "EqualFold s t \<longleftrightarrow> map ascii_lower s = map ascii_lower t"

fun isKeyword :: "'f token \<Rightarrow> string \<Rightarrow> bool" where
  "isKeyword (tokIdent text) want = EqualFold text want"
| "isKeyword _ want = False"

definition compareOps :: "string list" where
  "compareOps = [''eq'', ''ne'', ''co'', ''sw'', ''ew'', ''gt'', ''lt'', ''ge'', ''le'']"

definition filter_value_of :: "'f token \<Rightarrow> 'f filter_value option" where
  "filter_value_of t =
     (case t of
        tokString s \<Rightarrow> Some (FString s)
      | tokNumber v \<Rightarrow> Some (FNumber v)
      | _ \<Rightarrow> if isKeyword t ''true'' then Some (FBool True)
             else if isKeyword t ''false'' then Some (FBool False)
             else if isKeyword t ''null'' then Some FNull
             else None)"

fun parseAttrExpr :: "'f token list \<Rightarrow> 'f parse_result" where
  "parseAttrExpr [] = Inl FilterPanic"
| "parseAttrExpr (attrTok # ts) =
     (case attrTok of
        tokIdent attr \<Rightarrow>
          if isKeyword attrTok ''and'' \<or> isKeyword attrTok ''or'' \<or> isKeyword attrTok ''not''
          then Inl ExpectedAttributeName
          else (case ts of
                  [] \<Rightarrow> Inl FilterPanic
                | opTok # ts \<Rightarrow>
                    (case opTok of
                       tokIdent opText \<Rightarrow>
                         let op = ToLower opText
                         in if op = ''pr'' then Inr (attrNode attr ''pr'' FNull, ts)
                            else if op \<notin> set compareOps then Inl (UnsupportedOperator opText)
                            else (case ts of
                                    [] \<Rightarrow> Inl FilterPanic
                                  | valTok # ts \<Rightarrow>
                                      (case filter_value_of valTok of
                                         None \<Rightarrow> Inl (ExpectedValue op)
                                       | Some value \<Rightarrow> Inr (attrNode attr op value, ts)))
                     | _ \<Rightarrow> Inl (ExpectedOperator attr)))
      | _ \<Rightarrow> Inl ExpectedAttributeName)"

text \<open>
  The parse functions call each other in a circle: \<open>parseOr\<close>, \<open>parseAnd\<close>, \<open>parseNot\<close>, \<open>parsePrimary\<close> and back for a
  parenthesis. The circle is cut at \<open>parsePrimary\<close>, which the others take as an argument; the fuel counts the
  nested parentheses and the turns of each loop.
\<close>

definition parseNot :: "('f token list \<Rightarrow> 'f parse_result) \<Rightarrow> 'f token list \<Rightarrow> 'f parse_result" where
  "parseNot primary ts =
     (case ts of
        [] \<Rightarrow> Inl FilterPanic
      | t # ts' \<Rightarrow>
          if isKeyword t ''not''
          then (case primary ts' of Inl e \<Rightarrow> Inl e | Inr (inner, ts) \<Rightarrow> Inr (notNode inner, ts))
          else primary ts)"

text \<open>The loop of \<open>parseAnd\<close> and of \<open>parseOr\<close>: operands separated by a keyword, combined to the left.\<close>

primrec operand_loop ::
  "string \<Rightarrow> ('f filterNode \<Rightarrow> 'f filterNode \<Rightarrow> 'f filterNode) \<Rightarrow> ('f token list \<Rightarrow> 'f parse_result) \<Rightarrow>
   nat \<Rightarrow> 'f filterNode \<Rightarrow> 'f token list \<Rightarrow> 'f parse_result" where
  "operand_loop kw node operand 0 left ts = Inl OutOfFuel"
| "operand_loop kw node operand (Suc n) left ts =
     (case ts of
        [] \<Rightarrow> Inl FilterPanic
      | t # ts' \<Rightarrow>
          if isKeyword t kw
          then (case operand ts' of
                  Inl e \<Rightarrow> Inl e | Inr (right, ts) \<Rightarrow> operand_loop kw node operand n (node left right) ts)
          else Inr (left, ts))"

definition parseAnd :: "('f token list \<Rightarrow> 'f parse_result) \<Rightarrow> nat \<Rightarrow> 'f token list \<Rightarrow> 'f parse_result" where
  "parseAnd primary n ts =
     (case parseNot primary ts of
        Inl e \<Rightarrow> Inl e | Inr (left, ts) \<Rightarrow> operand_loop ''and'' andNode (parseNot primary) n left ts)"

definition parseOr :: "('f token list \<Rightarrow> 'f parse_result) \<Rightarrow> nat \<Rightarrow> 'f token list \<Rightarrow> 'f parse_result" where
  "parseOr primary n ts =
     (case parseAnd primary n ts of
        Inl e \<Rightarrow> Inl e | Inr (left, ts) \<Rightarrow> operand_loop ''or'' orNode (parseAnd primary n) n left ts)"


primrec parsePrimary :: "nat \<Rightarrow> 'f token list \<Rightarrow> 'f parse_result" where
  "parsePrimary 0 ts = Inl OutOfFuel"
| "parsePrimary (Suc n) ts =
     (case ts of
        [] \<Rightarrow> Inl FilterPanic
      | t # ts' \<Rightarrow>
          if t = tokLParen
          then (case parseOr (parsePrimary n) n ts' of
                  Inl e \<Rightarrow> Inl e
                | Inr (inner, []) \<Rightarrow> Inl FilterPanic
                | Inr (inner, t # ts) \<Rightarrow>
                    if t \<noteq> tokRParen then Inl ExpectedClosingParenthesis else Inr (inner, ts))
          else parseAttrExpr ts)"

text \<open>No filter is requested (\<open>Inr None\<close>), a filter, or an error.\<close>

definition parseSCIMFilter :: "(string \<Rightarrow> 'f option) \<Rightarrow> string \<Rightarrow> filter_error + 'f filterNode option" where
  "parseSCIMFilter pf rawFilter =
     (let rawFilter = TrimSpace rawFilter
      in if rawFilter = '''' then Inr None
         else case tokenizeFilter pf rawFilter of
                Inl e \<Rightarrow> Inl e
              | Inr toks \<Rightarrow>
                  (let fuel = Suc (length toks)
                   in case parseOr (parsePrimary fuel) fuel toks of
                     Inl e \<Rightarrow> Inl e
                   | Inr (n, []) \<Rightarrow> Inl FilterPanic
                   | Inr (n, t # _) \<Rightarrow> if t \<noteq> tokEOF then Inl TrailingInput else Inr (Some n)))"


section \<open>The parser consumes, terminates and never panics\<close>

lemma parseAttrExpr_length: "parseAttrExpr ts = Inr (n, ts') \<Longrightarrow> length ts' < length ts"
  by (induction ts rule: parseAttrExpr.induct)
    (auto simp: Let_def split: token.splits list.splits if_splits option.splits)

text \<open>
  A good parser of one syntactic class, up to a number of tokens: given tokens that end in \<open>tokEOF\<close> it neither
  panics nor runs out of fuel, and on success it has consumed at least one token and has not passed the last.
\<close>

definition terminated :: "'f token list \<Rightarrow> bool" where
  "terminated ts \<longleftrightarrow> (\<exists>ts'. ts = ts' @ [tokEOF] \<and> tokEOF \<notin> set ts')"

definition good_result :: "nat \<Rightarrow> 'f parse_result \<Rightarrow> bool" where
  "good_result n res \<longleftrightarrow>
     (case res of
        Inl e \<Rightarrow> e \<noteq> FilterPanic \<and> e \<noteq> OutOfFuel
      | Inr (node, ts) \<Rightarrow> terminated ts \<and> length ts < n)"

definition good_parser :: "nat \<Rightarrow> ('f token list \<Rightarrow> 'f parse_result) \<Rightarrow> bool" where
  "good_parser n p \<longleftrightarrow> (\<forall>ts. terminated ts \<and> length ts \<le> n \<longrightarrow> good_result (length ts) (p ts))"

lemma terminated_Cons: "terminated (t # ts) \<longleftrightarrow> (if t = tokEOF then ts = [] else terminated ts)"
  by (auto simp: terminated_def Cons_eq_append_conv)

lemma terminated_Nil [simp]: "\<not> terminated []"
  by (simp add: terminated_def)

lemma good_result_mono: "good_result n r \<Longrightarrow> n \<le> m \<Longrightarrow> good_result m r"
  by (auto simp: good_result_def split: sum.splits)

lemma good_result_cases:
  assumes "good_result n r"
  obtains e where "r = Inl e" "e \<noteq> FilterPanic" "e \<noteq> OutOfFuel"
  | node ts where "r = Inr (node, ts)" "terminated ts" "length ts < n"
  using assms by (auto simp: good_result_def split: sum.splits prod.splits)

lemma good_parserD: "good_parser n p \<Longrightarrow> terminated ts \<Longrightarrow> length ts \<le> n \<Longrightarrow> good_result (length ts) (p ts)"
  by (simp add: good_parser_def)

lemma keyword_not_EOF: "isKeyword t w \<Longrightarrow> t \<noteq> tokEOF"
  by auto

lemma filter_value_not_EOF: "filter_value_of t = Some v \<Longrightarrow> t \<noteq> tokEOF"
  by (auto simp: filter_value_of_def)

lemma good_parseAttrExpr: "good_parser n parseAttrExpr"
proof -
  have "good_result (length ts) (parseAttrExpr ts)" if "terminated ts" for ts :: "'a token list"
    using that
    by (cases ts rule: parseAttrExpr.cases)
      (auto simp: good_result_def terminated_Cons Let_def dest: filter_value_not_EOF
        split: token.splits list.splits if_splits option.splits)
  then show ?thesis
    by (simp add: good_parser_def)
qed

lemma good_parseNot:
  assumes "good_parser n p"
  shows "good_parser n (parseNot p)"
  unfolding good_parser_def
proof (intro allI impI)
  fix ts :: "'a token list"
  assume ts: "terminated ts \<and> length ts \<le> n"
  then obtain t ts' where c: "ts = t # ts'"
    by (cases ts) auto
  show "good_result (length ts) (parseNot p ts)"
  proof (cases "isKeyword t ''not''")
    case True
    then have "terminated ts'" "length ts' \<le> n"
      using ts c keyword_not_EOF [OF True] by (simp_all add: terminated_Cons)
    from good_parserD [OF assms this] show ?thesis
      using True c by (cases rule: good_result_cases) (simp_all add: parseNot_def good_result_def)
  next
    case False
    then show ?thesis
      using good_parserD [OF assms, of ts] ts c by (simp add: parseNot_def)
  qed
qed

lemma good_operand_loop:
  assumes "good_parser n p" and "terminated ts" and "length ts \<le> n" and "length ts \<le> k"
  shows "good_result (Suc (length ts)) (operand_loop kw node p k l ts)"
  using assms(2-)
proof (induction k arbitrary: l ts)
  case (Suc k)
  obtain t ts' where ts: "ts = t # ts'"
    using Suc.prems(1) by (cases ts) simp_all
  show ?case
  proof (cases "isKeyword t kw")
    case True
    then have "terminated ts'" "length ts' \<le> n"
      using Suc.prems ts keyword_not_EOF [OF True] by (simp_all add: terminated_Cons)
    from good_parserD [OF assms(1) this] show ?thesis
    proof (cases rule: good_result_cases)
      case (2 r ts'')
      then have "good_result (Suc (length ts'')) (operand_loop kw node p k (node l r) ts'')"
        using Suc.prems ts by (intro Suc.IH) simp_all
      then show ?thesis
        using True ts 2 by (auto intro: good_result_mono)
    qed (use True ts in \<open>simp add: good_result_def\<close>)
  next
    case False
    then show ?thesis using ts Suc.prems(1) by (simp add: good_result_def)
  qed
qed simp

lemma good_operands:
  assumes "good_parser n p" and "n \<le> k"
  shows "good_parser n (\<lambda>ts. case p ts of Inl e \<Rightarrow> Inl e | Inr (left, ts) \<Rightarrow> operand_loop kw node p k left ts)"
  unfolding good_parser_def
proof (intro allI impI)
  fix ts :: "'a token list"
  assume ts: "terminated ts \<and> length ts \<le> n"
  then have "good_result (length ts) (p ts)"
    by (intro good_parserD [OF assms(1)]) simp_all
  then show "good_result (length ts) (case p ts of Inl e \<Rightarrow> Inl e | Inr (left, ts) \<Rightarrow> operand_loop kw node p k left ts)"
  proof (cases rule: good_result_cases)
    case (2 r ts')
    then show ?thesis
      using good_operand_loop [OF assms(1), of ts' k kw node r] good_result_mono [of "Suc (length ts')" _ "length ts"]
        ts assms(2) by simp
  qed (simp add: good_result_def)
qed

lemma good_parseOr: "good_parser n p \<Longrightarrow> n \<le> k \<Longrightarrow> good_parser n (parseOr p k)"
proof -
  assume p: "good_parser n p" "n \<le> k"
  have "parseAnd p k = (\<lambda>ts. case parseNot p ts of Inl e \<Rightarrow> Inl e
      | Inr (left, ts) \<Rightarrow> operand_loop ''and'' andNode (parseNot p) k left ts)"
    by (rule ext) (simp add: parseAnd_def)
  with good_operands [OF good_parseNot [OF p(1)] p(2)] have "good_parser n (parseAnd p k)"
    by simp
  from good_operands [OF this p(2)] show ?thesis
    by (simp add: parseOr_def [abs_def])
qed

lemma good_parsePrimary: "good_parser n (parsePrimary (Suc n))"
proof (induction n)
  case 0
  then show ?case
    by (auto simp: good_parser_def)
next
  case (Suc n)
  show ?case
    unfolding good_parser_def
  proof (intro allI impI)
    fix ts :: "'a token list"
    assume ts: "terminated ts \<and> length ts \<le> Suc n"
    then obtain t ts' where c: "ts = t # ts'"
      by (cases ts) auto
    show "good_result (length ts) (parsePrimary (Suc (Suc n)) ts)"
    proof (cases "t = tokLParen")
      case True
      then have "terminated ts'" "length ts' \<le> n"
        using ts c by (simp_all add: terminated_Cons)
      then have "good_result (length ts') (parseOr (parsePrimary (Suc n)) (Suc n) ts')"
        by (intro good_parserD [OF good_parseOr [OF Suc.IH]]) simp_all
      then show ?thesis
        using True c by (cases rule: good_result_cases) (auto simp: good_result_def terminated_Cons split: list.splits)
    next
      case False
      then show ?thesis
        using good_parserD [OF good_parseAttrExpr, of ts "length ts"] ts c by (simp del: parseAttrExpr.simps)
    qed
  qed
qed

lemma map_sum_eq_Inr_iff: "map_sum f g x = Inr y \<longleftrightarrow> (\<exists>z. x = Inr z \<and> y = g z)"
  by (cases x) auto

lemma map_sum_eq_Inl_iff: "map_sum f g x = Inl y \<longleftrightarrow> (\<exists>z. x = Inl z \<and> y = f z)"
  by (cases x) auto

lemma tokenizeFilter_terminated: "tokenizeFilter pf s = Inr ts \<Longrightarrow> terminated ts"
  by (induction pf s arbitrary: ts rule: tokenizeFilter.induct)
    (auto simp: terminated_Cons map_sum_eq_Inr_iff split: if_splits option.splits)

lemma tokenizeFilter_error: "tokenizeFilter pf s = Inl e \<Longrightarrow> e \<noteq> FilterPanic \<and> e \<noteq> OutOfFuel"
proof (induction pf s rule: tokenizeFilter.induct)
  case (2 pf c cs)
  then show ?case
  proof (cases "filter_string cs")
    case (Some p)
    obtain x r where "p = (x, r)" by (cases p)
    then show ?thesis
      using 2 Some by (auto simp: map_sum_eq_Inl_iff split: if_splits option.splits)
  qed (auto simp: map_sum_eq_Inl_iff split: if_splits option.splits)
qed simp

text \<open>
  C26. The filter parser is total: on every query text, whatever the bytes, it answers no filter, a filter
  or one of the documented errors. It never reads past the end of its tokens (which would crash the
  server) and it always stops, the nesting of parentheses being the only recursion.
\<close>

theorem filter_parser_total:
  "parseSCIMFilter pf rawFilter \<noteq> Inl FilterPanic \<and> parseSCIMFilter pf rawFilter \<noteq> Inl OutOfFuel"
proof (cases "tokenizeFilter pf (TrimSpace rawFilter)")
  case (Inl e)
  then show ?thesis
    using tokenizeFilter_error [OF Inl] by (simp add: parseSCIMFilter_def)
next
  case (Inr toks)
  then have "good_result (length toks) (parseOr (parsePrimary (Suc (length toks))) (Suc (length toks)) toks)"
    by (intro good_parserD [OF good_parseOr [OF good_parsePrimary]]) (simp_all add: tokenizeFilter_terminated)
  then show ?thesis
    using Inr by (cases rule: good_result_cases) (auto simp: parseSCIMFilter_def Let_def split: list.splits)
qed

section \<open>Precedence\<close>

text \<open>
  The tokens of an expression, with parentheses only where the precedence of its context needs them: an operand of
  \<open>or\<close> stands at level 0 (left) or 1 (right), one of \<open>and\<close> at 1 or 2, one of \<open>not\<close> at 3.
\<close>

definition parens :: "bool \<Rightarrow> 'f token list \<Rightarrow> 'f token list" where
  "parens b ts = (if b then tokLParen # ts @ [tokRParen] else ts)"

fun value_token :: "'f filter_value \<Rightarrow> 'f token" where
  "value_token (FString s) = tokString s"
| "value_token (FNumber v) = tokNumber v"
| "value_token (FBool b) = tokIdent (if b then ''true'' else ''false'')"
| "value_token FNull = tokIdent ''null''"

fun filter_tokens :: "nat \<Rightarrow> 'f filterNode \<Rightarrow> 'f token list" where
  "filter_tokens p (orNode l r) = parens (0 < p) (filter_tokens 0 l @ tokIdent ''or'' # filter_tokens 1 r)"
| "filter_tokens p (andNode l r) = parens (1 < p) (filter_tokens 1 l @ tokIdent ''and'' # filter_tokens 2 r)"
| "filter_tokens p (notNode n) = parens (2 < p) (tokIdent ''not'' # filter_tokens 3 n)"
| "filter_tokens p (attrNode attr op value) =
     tokIdent attr # tokIdent op # (if op = ''pr'' then [] else [value_token value])"

definition reserved :: "string \<Rightarrow> bool" where
  "reserved s \<longleftrightarrow> EqualFold s ''and'' \<or> EqualFold s ''or'' \<or> EqualFold s ''not''"

fun filter_wf :: "'f filterNode \<Rightarrow> bool" where
  "filter_wf (orNode l r) \<longleftrightarrow> filter_wf l \<and> filter_wf r"
| "filter_wf (andNode l r) \<longleftrightarrow> filter_wf l \<and> filter_wf r"
| "filter_wf (notNode n) \<longleftrightarrow> filter_wf n"
| "filter_wf (attrNode attr op value) \<longleftrightarrow>
     \<not> reserved attr \<and> attr \<noteq> [] \<and> isIdentStart (hd attr) \<and> list_all isIdentPart (tl attr) \<and>
     (op \<in> set compareOps \<or> op = ''pr'' \<and> value = FNull)"

primrec nodes :: "'f filterNode \<Rightarrow> nat" where
  "nodes (orNode l r) = Suc (nodes l + nodes r)"
| "nodes (andNode l r) = Suc (nodes l + nodes r)"
| "nodes (notNode n) = Suc (nodes n)"
| "nodes (attrNode attr op value) = 1"

text \<open>How many turns the loops of \<open>parseAnd\<close> and \<open>parseOr\<close> take for an expression.\<close>

fun ands :: "'f filterNode \<Rightarrow> nat" where
  "ands (andNode l r) = Suc (ands l)"
| "ands _ = 0"

fun ors :: "'f filterNode \<Rightarrow> nat" where
  "ors (orNode l r) = Suc (ors l)"
| "ors _ = 0"

lemma turns_less_nodes: "ands n < nodes n" "ors n < nodes n"
  by (induction n) auto

lemma nodes_le_tokens: "nodes n \<le> length (filter_tokens p n)"
  by (induction p n rule: filter_tokens.induct) (auto simp: parens_def)

lemma keyword_text:
  "EqualFold ''or'' ''or''" "EqualFold ''and'' ''and''" "EqualFold ''not'' ''not''"
  "\<not> EqualFold ''or'' ''and''"
  by (simp_all add: EqualFold_def ascii_lower_def is_upper_def byte_def)

definition primary_reads :: "nat \<Rightarrow> 'f filterNode \<Rightarrow> bool" where
  "primary_reads f n \<longleftrightarrow> (\<forall>rest. parsePrimary (Suc f) (filter_tokens 3 n @ rest) = Inr (n, rest))"

definition not_reads :: "nat \<Rightarrow> 'f filterNode \<Rightarrow> bool" where
  "not_reads f n \<longleftrightarrow> (\<forall>rest. parseNot (parsePrimary (Suc f)) (filter_tokens 2 n @ rest) = Inr (n, rest))"

definition and_reads :: "nat \<Rightarrow> 'f filterNode \<Rightarrow> bool" where
  "and_reads f n \<longleftrightarrow> (\<forall>rest. parseAnd (parsePrimary (Suc f)) (Suc f) (filter_tokens 1 n @ rest) =
     operand_loop ''and'' andNode (parseNot (parsePrimary (Suc f))) (Suc f - ands n) n rest)"

definition or_reads :: "nat \<Rightarrow> 'f filterNode \<Rightarrow> bool" where
  "or_reads f n \<longleftrightarrow> (\<forall>t rest. \<not> isKeyword t ''and'' \<longrightarrow>
     parseOr (parsePrimary (Suc f)) (Suc f) (filter_tokens 0 n @ t # rest) =
     operand_loop ''or'' orNode (parseAnd (parsePrimary (Suc f)) (Suc f)) (Suc f - ors n) n (t # rest))"

lemmas reads_defs = primary_reads_def not_reads_def and_reads_def or_reads_def

lemma not_reads_and: "not_reads f n \<Longrightarrow> filter_tokens 1 n = filter_tokens 2 n \<Longrightarrow> ands n = 0 \<Longrightarrow> and_reads f n"
  by (simp add: reads_defs parseAnd_def)

lemma and_reads_stop:
  assumes "and_reads f n" and "nodes n \<le> Suc f" and "\<not> isKeyword t ''and''"
  shows "parseAnd (parsePrimary (Suc f)) (Suc f) (filter_tokens 1 n @ t # rest) = Inr (n, t # rest)"
proof -
  obtain k where "Suc f - ands n = Suc k"
    using assms(2) turns_less_nodes(1) [of n] by (metis Suc_diff_le less_Suc_eq_le less_le_trans)
  then show ?thesis
    using assms(1,3) by (simp add: and_reads_def)
qed

lemma and_reads_or:
  assumes "and_reads f n" and "nodes n \<le> Suc f" and "filter_tokens 0 n = filter_tokens 1 n" and "ors n = 0"
  shows "or_reads f n"
  using and_reads_stop [OF assms(1,2)] assms(3,4) by (simp add: or_reads_def parseOr_def)

lemma or_reads_primary:
  assumes "or_reads f n" and "nodes n \<le> Suc f" and "filter_tokens 3 n = tokLParen # filter_tokens 0 n @ [tokRParen]"
  shows "primary_reads (Suc f) n"
proof -
  obtain k where "Suc f - ors n = Suc k"
    using assms(2) turns_less_nodes(2) [of n] by (metis Suc_diff_le less_Suc_eq_le less_le_trans)
  then show ?thesis
    using assms(1,3) by (simp add: primary_reads_def or_reads_def)
qed

lemma primary_reads_not:
  assumes "primary_reads f n" and "filter_tokens 2 n = filter_tokens 3 n"
    and "filter_tokens 3 n = t # ts" and "\<not> isKeyword t ''not''"
  shows "not_reads f n"
  using assms by (simp add: not_reads_def parseNot_def primary_reads_def)

lemma and_reads_andNode:
  assumes "and_reads f l" and "not_reads f r" and "nodes (andNode l r) \<le> Suc f"
  shows "and_reads f (andNode l r)"
proof -
  obtain k where "Suc f - ands l = Suc k" "Suc f - ands (andNode l r) = k"
    using assms(3) turns_less_nodes(1) [of l] by (simp add: Suc_diff_le)
  then show ?thesis
    using assms(1,2) by (simp add: reads_defs parens_def keyword_text)
qed

lemma or_reads_orNode:
  assumes "or_reads f l" and "and_reads f r" and "nodes (orNode l r) \<le> Suc f"
  shows "or_reads f (orNode l r)"
proof -
  obtain k where "Suc f - ors l = Suc k" "Suc f - ors (orNode l r) = k"
    using assms(3) turns_less_nodes(2) [of l] by (simp add: Suc_diff_le)
  then show ?thesis
    using assms(1) and_reads_stop [OF assms(2)] assms(3) by (simp add: or_reads_def parens_def keyword_text)
qed

lemma ops_lower: "op \<in> set compareOps \<Longrightarrow> ToLower op = op \<and> op \<noteq> ''pr''"
  by (auto simp: compareOps_def is_upper_def byte_def)

lemma value_token_read: "filter_value_of (value_token v) = Some v"
  by (cases v) (simp_all add: filter_value_of_def EqualFold_def ascii_lower_def is_upper_def byte_def)

lemma primary_reads_attr:
  assumes "filter_wf (attrNode attr op value)"
  shows "primary_reads f (attrNode attr op value)"
proof -
  have "ToLower ''pr'' = ''pr''"
    by (simp add: is_upper_def byte_def)
  then show ?thesis
    using assms ops_lower [of op] by (auto simp: primary_reads_def reserved_def value_token_read)
qed

lemma filter_reads:
  "filter_wf n \<Longrightarrow> nodes n \<le> f \<Longrightarrow> primary_reads f n \<and> not_reads f n \<and> and_reads f n \<and> or_reads f n"
proof (induction n arbitrary: f)
  case (orNode l r)
  then obtain g where g: "f = Suc g" by (cases f) auto
  have own: "or_reads h (orNode l r)" if "nodes (orNode l r) \<le> Suc h" for h
    using orNode that by (intro or_reads_orNode) auto
  have "primary_reads f (orNode l r)"
    unfolding g using orNode.prems g by (intro or_reads_primary own) (simp_all add: parens_def)
  moreover from this have "not_reads f (orNode l r)"
    by (rule primary_reads_not [where t = tokLParen]) (simp_all add: parens_def)
  moreover from this have "and_reads f (orNode l r)"
    by (rule not_reads_and) (simp_all add: parens_def)
  ultimately show ?case using own orNode.prems by simp
next
  case (andNode l r)
  then obtain g where g: "f = Suc g" by (cases f) auto
  have own: "and_reads h (andNode l r)" if "nodes (andNode l r) \<le> Suc h" for h
    using andNode that by (intro and_reads_andNode) auto
  have or: "or_reads h (andNode l r)" if "nodes (andNode l r) \<le> Suc h" for h
    using own that by (intro and_reads_or) (simp_all add: parens_def)
  have "primary_reads f (andNode l r)"
    unfolding g using andNode.prems g by (intro or_reads_primary or) (simp_all add: parens_def)
  moreover from this have "not_reads f (andNode l r)"
    by (rule primary_reads_not [where t = tokLParen]) (simp_all add: parens_def)
  ultimately show ?case using own or andNode.prems by simp
next
  case (notNode n)
  then obtain g where g: "f = Suc g" by (cases f) auto
  have own: "not_reads h (notNode n)" if "nodes (notNode n) \<le> Suc h" for h
    using notNode.IH [of h] notNode.prems that
    by (simp add: not_reads_def primary_reads_def parseNot_def parens_def keyword_text)
  have "and": "and_reads h (notNode n)" if "nodes (notNode n) \<le> Suc h" for h
    using own that by (intro not_reads_and) (simp_all add: parens_def)
  have or: "or_reads h (notNode n)" if "nodes (notNode n) \<le> Suc h" for h
    using "and" that by (intro and_reads_or) (simp_all add: parens_def)
  have "primary_reads f (notNode n)"
    unfolding g using notNode.prems g by (intro or_reads_primary or) (simp_all add: parens_def)
  then show ?case using own "and" or notNode.prems by simp
next
  case (attrNode attr op v)
  have p: "primary_reads f (attrNode attr op v)"
    using attrNode.prems(1) by (rule primary_reads_attr)
  moreover from p have "not_reads f (attrNode attr op v)"
    by (rule primary_reads_not [where t = "tokIdent attr"]) (use attrNode.prems(1) in \<open>simp_all add: reserved_def\<close>)
  moreover from this have "and_reads f (attrNode attr op v)"
    by (rule not_reads_and) simp_all
  moreover from this have "or_reads f (attrNode attr op v)"
    using attrNode.prems by (intro and_reads_or) simp_all
  ultimately show ?case by simp
qed

section \<open>Texts\<close>

text \<open>The text of a token, as a client writes it; numbers are written by a parameter.\<close>

definition escape_quotes :: "string \<Rightarrow> string" where
  "escape_quotes s = concat (map (\<lambda>c. if c = CHR 0x22 \<or> c = CHR 0x5C then [CHR 0x5C, c] else [c]) s)"

fun token_text :: "('f \<Rightarrow> string) \<Rightarrow> 'f token \<Rightarrow> string" where
  "token_text pn (tokIdent s) = s"
| "token_text pn (tokString s) = CHR 0x22 # escape_quotes s @ [CHR 0x22]"
| "token_text pn (tokNumber v) = pn v"
| "token_text pn tokLParen = ''(''"
| "token_text pn tokRParen = '')''"
| "token_text pn tokEOF = ''''"

fun tokens_text :: "('f \<Rightarrow> string) \<Rightarrow> 'f token list \<Rightarrow> string" where
  "tokens_text pn [] = ''''"
| "tokens_text pn [t] = token_text pn t"
| "tokens_text pn (t # ts) = token_text pn t @ CHR '' '' # tokens_text pn ts"

definition number_text :: "string \<Rightarrow> bool" where
  "number_text s \<longleftrightarrow> s \<noteq> [] \<and> list_all isNumberPart (tl s) \<and>
     (is_digit (hd s) \<or> hd s = CHR ''-'' \<and> tl s \<noteq> [] \<and> is_digit (hd (tl s)))"

definition reads_numbers :: "(string \<Rightarrow> 'f option) \<Rightarrow> ('f \<Rightarrow> string) \<Rightarrow> bool" where
  "reads_numbers pf pn \<longleftrightarrow> (\<forall>v. number_text (pn v) \<and> pf (pn v) = Some v)"

fun token_wf :: "'f token \<Rightarrow> bool" where
  "token_wf (tokIdent s) \<longleftrightarrow> s \<noteq> [] \<and> isIdentStart (hd s) \<and> list_all isIdentPart (tl s)"
| "token_wf tokEOF \<longleftrightarrow> False"
| "token_wf _ \<longleftrightarrow> True"

lemma filter_string_escape: "filter_string (escape_quotes s @ CHR 0x22 # r) = Some (s, r)"
  by (induction s) (simp_all add: escape_quotes_def)

lemma takeWhile_stop: "list_all P xs \<Longrightarrow> \<not> P y \<Longrightarrow> takeWhile P (xs @ y # ys) = xs \<and> dropWhile P (xs @ y # ys) = y # ys"
  by (induction xs) simp_all

lemma takeWhile_all: "list_all P xs \<Longrightarrow> takeWhile P xs = xs \<and> dropWhile P xs = []"
  by (induction xs) simp_all

lemma ident_first:
  "isIdentStart c \<Longrightarrow> c \<notin> {CHR '' '', CHR ''('', CHR '')'', CHR 0x22, CHR ''-''} \<and> byte c \<noteq> 9 \<and> \<not> is_digit c"
  by (auto simp: isIdentStart_def is_lower_def is_upper_def is_digit_def byte_def)

lemma number_first: "is_digit c \<Longrightarrow> c \<notin> {CHR '' '', CHR ''('', CHR '')'', CHR 0x22} \<and> byte c \<noteq> 9"
  by (auto simp: is_digit_def byte_def)

lemma space_ends_words: "\<not> isIdentPart CHR '' ''" "\<not> isNumberPart CHR '' ''"
  by (simp_all add: isIdentPart_def isIdentStart_def isNumberPart_def is_lower_def is_upper_def is_digit_def byte_def)

lemma word_then:
  assumes "list_all P xs" and "\<not> P CHR '' ''" and "rest = [] \<or> (\<exists>r. rest = CHR '' '' # r)"
  shows "takeWhile P (xs @ rest) = xs" and "dropWhile P (xs @ rest) = rest"
  using assms takeWhile_stop [of P xs "CHR '' ''"] takeWhile_all [of P xs] by auto

lemma tokenize_token:
  assumes "token_wf t" and "reads_numbers pf pn" and "rest = [] \<or> (\<exists>r. rest = CHR '' '' # r)"
  shows "tokenizeFilter pf (token_text pn t @ rest) = map_sum id ((#) t) (tokenizeFilter pf rest)"
proof (cases t)
  case (tokIdent s)
  then obtain c cs where s: "s = c # cs" "isIdentStart c" "list_all isIdentPart cs"
    using assms(1) by (cases s) auto
  note word = word_then [OF s(3) space_ends_words(1) assms(3)]
  show ?thesis
    using ident_first [OF s(2)] by (simp add: tokIdent s(1,2) word)
next
  case (tokNumber v)
  obtain c cs where s: "pn v = c # cs" "list_all isNumberPart cs" "pf (c # cs) = Some v"
    "is_digit c \<or> c = CHR ''-'' \<and> cs \<noteq> [] \<and> is_digit (hd cs)"
    using assms(2) that [of "hd (pn v)" "tl (pn v)"] by (auto simp: reads_numbers_def number_text_def)
  note word = word_then [OF s(2) space_ends_words(2) assms(3)]
  have "c \<notin> {CHR '' '', CHR ''('', CHR '')'', CHR 0x22}" "byte c \<noteq> 9"
    using s(4) number_first [of c] by (auto simp: byte_def)
  moreover have "is_digit c \<or> c = CHR ''-'' \<and> cs @ rest \<noteq> [] \<and> is_digit (hd (cs @ rest))"
    using s(4) by (cases cs) auto
  ultimately show ?thesis
    by (simp add: tokNumber s(1,3) word)
qed (use assms(1) in \<open>simp_all add: filter_string_escape byte_def\<close>)

lemma tokenize_tokens:
  "reads_numbers pf pn \<Longrightarrow> list_all token_wf ts \<Longrightarrow> tokenizeFilter pf (tokens_text pn ts) = Inr (ts @ [tokEOF])"
proof (induction pn ts rule: tokens_text.induct)
  case (2 pn t)
  then show ?case
    using tokenize_token [of t pf pn "[]"] by simp
next
  case (3 pn t u ts)
  then show ?case
    using tokenize_token [of t pf pn "CHR '' '' # tokens_text pn (u # ts)"] by simp
qed simp

text \<open>Trimming changes nothing when a text starts and ends with a printable ASCII character.\<close>

lemma space_chars_ends:
  "w \<in> set space_chars \<Longrightarrow> w \<noteq> [] \<and> (byte (hd w) < 33 \<or> 127 < byte (hd w)) \<and> (byte (last w) < 33 \<or> 127 < byte (last w))"
  by (auto simp: space_chars_def utf8_encode_def byte_def upt_rec)

lemma trim_prefixes_id: "(\<And>w. w \<in> set ws \<Longrightarrow> w \<noteq> [] \<Longrightarrow> \<not> prefix w s) \<Longrightarrow> trim_prefixes ws s = s"
  by (subst trim_prefixes.simps) (auto simp: find_Some_iff split: option.split)

lemma TrimSpace_id:
  assumes "s \<noteq> []" and "33 \<le> byte (hd s)" and "byte (hd s) \<le> 127" and "33 \<le> byte (last s)" and "byte (last s) \<le> 127"
  shows "TrimSpace s = s"
proof -
  have "\<not> prefix w s" if "w \<in> set space_chars" for w
    using space_chars_ends [OF that] assms by (auto simp: prefix_def)
  then have "trim_prefixes space_chars s = s"
    by (intro trim_prefixes_id)
  moreover have "\<not> prefix (rev w) (rev s)" if "w \<in> set space_chars" for w
    using space_chars_ends [OF that] assms by (auto simp: prefix_def hd_append rev_eq_append_conv)
  then have "trim_prefixes (map rev space_chars) (rev s) = rev s"
    by (intro trim_prefixes_id) auto
  ultimately show ?thesis
    by (simp add: TrimSpace_def)
qed

lemma filter_tokens_wf: "filter_wf n \<Longrightarrow> list_all token_wf (filter_tokens p n)"
proof (induction p n rule: filter_tokens.induct)
  case (4 p attr op v)
  have "token_wf (value_token v)"
    by (cases v) (simp_all add: isIdentStart_def isIdentPart_def is_lower_def byte_def)
  moreover have "token_wf (tokIdent op)" if "op \<in> insert ''pr'' (set compareOps)"
    using that by (auto simp: compareOps_def isIdentStart_def isIdentPart_def is_lower_def byte_def)
  ultimately show ?case
    using 4 by auto
qed (auto simp: parens_def isIdentStart_def isIdentPart_def is_lower_def byte_def)

definition printable :: "char \<Rightarrow> bool" where
  "printable c \<longleftrightarrow> 33 \<le> byte c \<and> byte c \<le> 127"

lemma ident_printable: "isIdentPart c \<Longrightarrow> printable c"
  by (auto simp: printable_def isIdentPart_def isIdentStart_def is_lower_def is_upper_def is_digit_def byte_def)

lemma number_printable: "isNumberPart c \<or> c = CHR ''-'' \<Longrightarrow> printable c"
  by (auto simp: printable_def isNumberPart_def is_digit_def byte_def)

lemma printable_ends: "list_all printable s \<Longrightarrow> s \<noteq> [] \<Longrightarrow> printable (hd s) \<and> printable (last s)"
  by (simp add: list_all_iff)

lemma token_text_printable:
  assumes "token_wf t" and "reads_numbers pf pn"
  shows "token_text pn t \<noteq> [] \<and> printable (hd (token_text pn t)) \<and> printable (last (token_text pn t))"
proof (cases t)
  case (tokIdent s)
  then have "list_all printable s" "s \<noteq> []"
    using assms(1) ident_printable by (cases s; auto simp: list_all_iff isIdentPart_def)+
  then show ?thesis
    using tokIdent printable_ends by auto
next
  case (tokNumber v)
  have "number_text (pn v)"
    using assms(2) by (simp add: reads_numbers_def)
  then have "list_all printable (pn v)" "pn v \<noteq> []"
    using number_printable by (cases "pn v"; auto simp: number_text_def list_all_iff isNumberPart_def)+
  then show ?thesis
    using tokNumber printable_ends by auto
qed (use assms(1) in \<open>auto simp: printable_def byte_def\<close>)

lemma tokens_text_printable:
  "list_all token_wf ts \<Longrightarrow> reads_numbers pf pn \<Longrightarrow> ts \<noteq> [] \<Longrightarrow>
     tokens_text pn ts \<noteq> [] \<and> printable (hd (tokens_text pn ts)) \<and> printable (last (tokens_text pn ts))"
  by (induction pn ts rule: tokens_text.induct) (use token_text_printable in \<open>auto simp: hd_append\<close>)

lemma filter_tokens_nonempty: "filter_tokens p n \<noteq> []"
  by (induction p n rule: filter_tokens.induct) (auto simp: parens_def)

text \<open>
  C25. The filter language round-trips with the precedence RFC 7644 implies: any well-formed expression, written
  with parentheses only where they are needed for \<open>not\<close> to bind tighter than \<open>and\<close>, \<open>and\<close> tighter than \<open>or\<close>, and
  operators of one kind to group to the left, is parsed back to the same expression, with string values escaped as
  the tokenizer expects. Numbers are only assumed to be written so that the number reader reads them back.
\<close>

theorem filter_roundtrip:
  assumes "filter_wf n" and "reads_numbers pf pn"
  shows "parseSCIMFilter pf (tokens_text pn (filter_tokens 0 n)) = Inr (Some n)"
proof -
  let ?ts = "filter_tokens 0 n" and ?s = "tokens_text pn (filter_tokens 0 n)"
  have wf: "list_all token_wf ?ts"
    by (rule filter_tokens_wf [OF assms(1)])
  have s: "?s \<noteq> []" "printable (hd ?s)" "printable (last ?s)"
    using tokens_text_printable [OF wf assms(2) filter_tokens_nonempty] by auto
  then have trim: "TrimSpace ?s = ?s"
    by (intro TrimSpace_id) (simp_all add: printable_def)
  let ?f = "length (?ts @ [tokEOF])"
  have "or_reads ?f n"
    using filter_reads [OF assms(1), of ?f] nodes_le_tokens [of n 0] by simp
  then have "parseOr (parsePrimary (Suc ?f)) (Suc ?f) (?ts @ [tokEOF]) =
      operand_loop ''or'' orNode (parseAnd (parsePrimary (Suc ?f)) (Suc ?f)) (Suc ?f - ors n) n [tokEOF]"
    by (simp add: or_reads_def)
  also have "\<dots> = Inr (n, [tokEOF])"
  proof -
    obtain k where "Suc ?f - ors n = Suc k"
      using turns_less_nodes(2) [of n] nodes_le_tokens [of n 0] by (metis Suc_diff_le length_append_singleton less_imp_le less_le_trans le_Suc_eq)
    then show ?thesis by (simp only: operand_loop.simps) simp
  qed
  finally show ?thesis
    using s(1) trim tokenize_tokens [OF assms(2) wf] by (simp add: parseSCIMFilter_def Let_def del: operand_loop.simps)
qed

theorem filter_roundtrip_witness:
  "parseSCIMFilter (\<lambda>s. if s = ''0'' then Some False else if s = ''1'' then Some True else None)
     (''userName sw '' @ [CHR 0x22] @ ''al'' @ [CHR 0x22] @ '' or not ( id pr or active eq true ) and id gt 1'') =
   Inr (Some (orNode (attrNode ''userName'' ''sw'' (FString ''al''))
     (andNode (notNode (orNode (attrNode ''id'' ''pr'' FNull) (attrNode ''active'' ''eq'' (FBool True))))
        (attrNode ''id'' ''gt'' (FNumber True)))))"
proof -
  let ?pf = "\<lambda>s. if s = ''0'' then Some False else if s = ''1'' then Some True else None"
  let ?pn = "\<lambda>b. if b then ''1'' else ''0''"
  let ?n = "orNode (attrNode ''userName'' ''sw'' (FString ''al''))
     (andNode (notNode (orNode (attrNode ''id'' ''pr'' FNull) (attrNode ''active'' ''eq'' (FBool True))))
        (attrNode ''id'' ''gt'' (FNumber True)))"
  have "reads_numbers ?pf ?pn"
    by (simp add: reads_numbers_def number_text_def is_digit_def byte_def)
  moreover have "filter_wf ?n"
    by (simp add: reserved_def EqualFold_def ascii_lower_def isIdentStart_def isIdentPart_def is_lower_def is_upper_def
        is_digit_def byte_def compareOps_def)
  ultimately show ?thesis
    using filter_roundtrip [of ?n ?pf ?pn] by (simp add: parens_def escape_quotes_def)
qed

end
