(* ===== verification/Scim_Provisioning.thy ===== *)
theory Scim_Provisioning
  imports RBAC
begin

text \<open>
  SCIM provisioning (\<open>internal/features/scim\<close>): users and groups as an identity provider pushes them, the group
  naming convention that carries a role and a tenant, and the store of the role bindings derived from group
  membership that the composite authorizer of \<open>RBAC\<close> reads.

  The locale \<open>binding_sink\<close> is what the service relies on in the store; the service's lemmas are proved
  in it and used through its interpretation on \<open>BindingStore\<close>. A fresh random id is an argument
  (\<open>None\<close>: the system has no entropy left), and so is the iteration order of a Go map.
\<close>

section \<open>Groups and their names\<close>

record User =
  u_ID :: string
  u_UserName :: string
  u_Active :: bool

record Group =
  gr_ID :: string
  gr_DisplayName :: string
  gr_Members :: "string list"

datatype scim_error = ErrNotFound | ErrConflict | ErrNoEntropy

text \<open>\<open>strings.SplitN(s, sep, 2)\<close>: what is before and after the first occurrence, if there is one.\<close>

fun cut :: "string \<Rightarrow> string \<Rightarrow> (string \<times> string) option" where
  "cut sep [] = (if sep = [] then Some ([], []) else None)"
| "cut sep (c # cs) =
     (if prefix sep (c # cs) then Some ([], drop (length sep) (c # cs))
      else map_option (\<lambda>(a, b). (c # a, b)) (cut sep cs))"

record groupGrant =
  gg_tenant :: string
  gg_role :: string
  gg_isGlobal :: bool

definition TrimPrefix :: "string \<Rightarrow> string \<Rightarrow> string" where
  "TrimPrefix p s = (if prefix p s then drop (length p) s else s)"

definition ParseGroupName :: "string \<Rightarrow> groupGrant option" where
  "ParseGroupName name =
     (if \<not> prefix ''wardline:'' name then None
      else let rest = TrimPrefix ''wardline:'' name
      in if prefix ''role-'' rest then
           (let role = TrimPrefix ''role-'' rest
            in if role = '''' then None else Some \<lparr>gg_tenant = '''', gg_role = role, gg_isGlobal = True\<rparr>)
         else if \<not> prefix ''tenant-'' rest then None
         else (case cut '':role-'' (TrimPrefix ''tenant-'' rest) of
                 None \<Rightarrow> None
               | Some (tenantName, role) \<Rightarrow>
                   if tenantName = '''' \<or> role = '''' then None
                   else Some \<lparr>gg_tenant = tenantName, gg_role = role, gg_isGlobal = False\<rparr>))"

section \<open>The binding store\<close>

record 'b bindingSink =
  bs_SetGroupMembers :: "string \<Rightarrow> string list \<Rightarrow> 'b \<Rightarrow> 'b"
  bs_RemoveGroup :: "string \<Rightarrow> 'b \<Rightarrow> 'b"

record BindingStore =
  bst_groupMembers :: "string \<rightharpoonup> string list"
  bst_groupGrants :: "string \<rightharpoonup> groupGrant"

definition NewBindingStore :: BindingStore where
  "NewBindingStore = \<lparr>bst_groupMembers = Map.empty, bst_groupGrants = Map.empty\<rparr>"

definition SetGroupMembers :: "string \<Rightarrow> string list \<Rightarrow> BindingStore \<Rightarrow> BindingStore" where
  "SetGroupMembers groupName memberUserNames s =
     (case ParseGroupName groupName of
        None \<Rightarrow> s
      | Some grant \<Rightarrow>
          s\<lparr>bst_groupMembers := (bst_groupMembers s)(groupName \<mapsto> memberUserNames),
            bst_groupGrants := (bst_groupGrants s)(groupName \<mapsto> grant)\<rparr>)"

definition RemoveGroup :: "string \<Rightarrow> BindingStore \<Rightarrow> BindingStore" where
  "RemoveGroup groupName s =
     s\<lparr>bst_groupMembers := (bst_groupMembers s)(groupName := None),
       bst_groupGrants := (bst_groupGrants s)(groupName := None)\<rparr>"

definition zero_groupGrant :: groupGrant where
  "zero_groupGrant = \<lparr>gg_tenant = '''', gg_role = '''', gg_isGlobal = False\<rparr>"

definition stored_grant :: "BindingStore \<Rightarrow> string \<Rightarrow> groupGrant" where
  "stored_grant s name = (case bst_groupGrants s name of Some g \<Rightarrow> g | None \<Rightarrow> zero_groupGrant)"

fun bindings_loop ::
  "BindingStore \<Rightarrow> string \<Rightarrow> (string \<times> string list) list \<Rightarrow> ClusterRoleBinding list \<times> RoleBinding list" where
  "bindings_loop s identity [] = ([], [])"
| "bindings_loop s identity ((groupName, members) # es) =
     (let (cluster, scoped) = bindings_loop s identity es
      in if identity \<notin> set members then (cluster, scoped)
         else let grant = stored_grant s groupName
              in if gg_isGlobal grant
                 then (\<lparr>crb_Subject = identity, crb_RoleName = gg_role grant\<rparr> # cluster, scoped)
                 else (cluster, \<lparr>rb_Subject = identity, rb_RoleName = gg_role grant, rb_Tenant = gg_tenant grant\<rparr> # scoped))"

definition Bindings :: "string list \<Rightarrow> BindingStore \<Rightarrow> binding_source" where
  "Bindings ks s identity = bindings_loop s identity (range_entries ks (bst_groupMembers s))"

definition inmemory_bindingSink :: "BindingStore bindingSink" where
  "inmemory_bindingSink = \<lparr>bs_SetGroupMembers = SetGroupMembers, bs_RemoveGroup = RemoveGroup\<rparr>"

section \<open>The provisioning service\<close>

record 'b ProvisioningService =
  ps_users :: "string \<rightharpoonup> User"
  ps_groups :: "string \<rightharpoonup> Group"
  ps_userNameToID :: "string \<rightharpoonup> string"
  ps_groupNameToID :: "string \<rightharpoonup> string"
  ps_bindings :: "'b option"

definition NewProvisioningService :: "'b ProvisioningService" where
  "NewProvisioningService = \<lparr>ps_users = Map.empty, ps_groups = Map.empty, ps_userNameToID = Map.empty,
     ps_groupNameToID = Map.empty, ps_bindings = None\<rparr>"

definition SetBindingStore :: "'b \<Rightarrow> 'b ProvisioningService \<Rightarrow> 'b ProvisioningService" where
  "SetBindingStore store s = s\<lparr>ps_bindings := Some store\<rparr>"

definition active_names :: "(string \<rightharpoonup> User) \<Rightarrow> string list \<Rightarrow> string list" where
  "active_names users ids =
     List.map_filter (\<lambda>i. case users i of Some u \<Rightarrow> if u_Active u then Some (u_UserName u) else None | None \<Rightarrow> None) ids"

definition syncBindingLocked :: "'b bindingSink \<Rightarrow> Group \<Rightarrow> 'b ProvisioningService \<Rightarrow> 'b ProvisioningService" where
  "syncBindingLocked sink g s =
     (case ps_bindings s of
        None \<Rightarrow> s
      | Some b \<Rightarrow>
          s\<lparr>ps_bindings := Some (bs_SetGroupMembers sink (gr_DisplayName g) (active_names (ps_users s) (gr_Members g)) b)\<rparr>)"

definition resyncAllGroupsLocked ::
  "'b bindingSink \<Rightarrow> string list \<Rightarrow> 'b ProvisioningService \<Rightarrow> 'b ProvisioningService" where
  "resyncAllGroupsLocked sink ks s =
     (if ps_bindings s = None then s
      else fold (\<lambda>(_, g). syncBindingLocked sink g) (range_entries ks (ps_groups s)) s)"

definition CreateUser ::
  "string option \<Rightarrow> string \<Rightarrow> bool \<Rightarrow> 'b ProvisioningService \<Rightarrow> (scim_error + User) \<times> 'b ProvisioningService" where
  "CreateUser randomID userName active s =
     (if ps_userNameToID s userName \<noteq> None then (Inl ErrConflict, s)
      else case randomID of
             None \<Rightarrow> (Inl ErrNoEntropy, s)
           | Some i \<Rightarrow>
               let u = \<lparr>u_ID = i, u_UserName = userName, u_Active = active\<rparr>
               in (Inr u, s\<lparr>ps_users := (ps_users s)(i \<mapsto> u), ps_userNameToID := (ps_userNameToID s)(userName \<mapsto> i)\<rparr>))"

definition GetUser :: "'b ProvisioningService \<Rightarrow> string \<Rightarrow> scim_error + User" where
  "GetUser s i = (case ps_users s i of None \<Rightarrow> Inl ErrNotFound | Some u \<Rightarrow> Inr u)"

definition zero_User :: User where
  "zero_User = \<lparr>u_ID = '''', u_UserName = '''', u_Active = False\<rparr>"

definition GetUserByName :: "'b ProvisioningService \<Rightarrow> string \<Rightarrow> User option" where
  "GetUserByName s userName =
     (case ps_userNameToID s userName of
        None \<Rightarrow> None
      | Some i \<Rightarrow> Some (case ps_users s i of Some u \<Rightarrow> u | None \<Rightarrow> zero_User))"

definition ListUsers :: "string list \<Rightarrow> 'b ProvisioningService \<Rightarrow> User list" where
  "ListUsers ks s = map snd (range_entries ks (ps_users s))"

definition DeleteUser ::
  "'b bindingSink \<Rightarrow> string list \<Rightarrow> string \<Rightarrow> 'b ProvisioningService \<Rightarrow> scim_error option \<times> 'b ProvisioningService" where
  "DeleteUser sink ks i s =
     (case ps_users s i of
        None \<Rightarrow> (Some ErrNotFound, s)
      | Some u \<Rightarrow>
          (None, resyncAllGroupsLocked sink ks
             (s\<lparr>ps_users := (ps_users s)(i := None), ps_userNameToID := (ps_userNameToID s)(u_UserName u := None)\<rparr>)))"

definition PatchUserActive ::
  "'b bindingSink \<Rightarrow> string list \<Rightarrow> string \<Rightarrow> bool \<Rightarrow> 'b ProvisioningService \<Rightarrow>
   scim_error option \<times> 'b ProvisioningService" where
  "PatchUserActive sink ks i active s =
     (case ps_users s i of
        None \<Rightarrow> (Some ErrNotFound, s)
      | Some u \<Rightarrow>
          (None, resyncAllGroupsLocked sink ks (s\<lparr>ps_users := (ps_users s)(i \<mapsto> u\<lparr>u_Active := active\<rparr>)\<rparr>)))"

text \<open>The members without repetition, in the order of their first occurrence, appended to those already there.\<close>

fun add_members :: "string list \<Rightarrow> string list \<Rightarrow> string list" where
  "add_members members [] = members"
| "add_members members (m # ms) = add_members (if m \<in> set members then members else members @ [m]) ms"

definition CreateGroup ::
  "'b bindingSink \<Rightarrow> string option \<Rightarrow> string \<Rightarrow> string list \<Rightarrow> 'b ProvisioningService \<Rightarrow>
   (scim_error + Group) \<times> 'b ProvisioningService" where
  "CreateGroup sink randomID displayName memberUserIDs s =
     (if ps_groupNameToID s displayName \<noteq> None then (Inl ErrConflict, s)
      else case randomID of
             None \<Rightarrow> (Inl ErrNoEntropy, s)
           | Some i \<Rightarrow>
               let g = \<lparr>gr_ID = i, gr_DisplayName = displayName, gr_Members = add_members [] memberUserIDs\<rparr>
               in (Inr g, syncBindingLocked sink g
                     (s\<lparr>ps_groups := (ps_groups s)(i \<mapsto> g), ps_groupNameToID := (ps_groupNameToID s)(displayName \<mapsto> i)\<rparr>)))"

definition GetGroup :: "'b ProvisioningService \<Rightarrow> string \<Rightarrow> scim_error + Group" where
  "GetGroup s i = (case ps_groups s i of None \<Rightarrow> Inl ErrNotFound | Some g \<Rightarrow> Inr g)"

definition ListGroups :: "string list \<Rightarrow> 'b ProvisioningService \<Rightarrow> Group list" where
  "ListGroups ks s = map snd (range_entries ks (ps_groups s))"

definition DeleteGroup ::
  "'b bindingSink \<Rightarrow> string \<Rightarrow> 'b ProvisioningService \<Rightarrow> scim_error option \<times> 'b ProvisioningService" where
  "DeleteGroup sink i s =
     (case ps_groups s i of
        None \<Rightarrow> (Some ErrNotFound, s)
      | Some g \<Rightarrow>
          (None, s\<lparr>ps_bindings := map_option (bs_RemoveGroup sink (gr_DisplayName g)) (ps_bindings s),
                   ps_groups := (ps_groups s)(i := None),
                   ps_groupNameToID := (ps_groupNameToID s)(gr_DisplayName g := None)\<rparr>))"

definition PatchGroupMembers ::
  "'b bindingSink \<Rightarrow> string \<Rightarrow> string list \<Rightarrow> string list \<Rightarrow> 'b ProvisioningService \<Rightarrow>
   scim_error option \<times> 'b ProvisioningService" where
  "PatchGroupMembers sink i addUserIDs removeUserIDs s =
     (case ps_groups s i of
        None \<Rightarrow> (Some ErrNotFound, s)
      | Some g \<Rightarrow>
          let g = g\<lparr>gr_Members := filter (\<lambda>m. m \<notin> set removeUserIDs) (add_members (gr_Members g) addUserIDs)\<rparr>
          in (None, syncBindingLocked sink g (s\<lparr>ps_groups := (ps_groups s)(i \<mapsto> g)\<rparr>)))"

section \<open>Histories\<close>

datatype scim_op =
    OpCreateUser "string option" string bool
  | OpDeleteUser "string list" string
  | OpPatchUserActive "string list" string bool
  | OpCreateGroup "string option" string "string list"
  | OpDeleteGroup string
  | OpPatchGroupMembers string "string list" "string list"

fun scim_step :: "'b bindingSink \<Rightarrow> scim_op \<Rightarrow> 'b ProvisioningService \<Rightarrow> 'b ProvisioningService" where
  "scim_step sink (OpCreateUser i n a) s = snd (CreateUser i n a s)"
| "scim_step sink (OpDeleteUser ks i) s = snd (DeleteUser sink ks i s)"
| "scim_step sink (OpPatchUserActive ks i a) s = snd (PatchUserActive sink ks i a s)"
| "scim_step sink (OpCreateGroup i n ms) s = snd (CreateGroup sink i n ms s)"
| "scim_step sink (OpDeleteGroup i) s = snd (DeleteGroup sink i s)"
| "scim_step sink (OpPatchGroupMembers i add rem) s = snd (PatchGroupMembers sink i add rem s)"

text \<open>
  A random id is not in use and nobody has guessed it; an iteration order is one of the group map.
\<close>

fun op_ok :: "scim_op \<Rightarrow> 'b ProvisioningService \<Rightarrow> bool" where
  "op_ok (OpCreateUser (Some i) n a) s \<longleftrightarrow> ps_users s i = None \<and> (\<forall>g \<in> ran (ps_groups s). i \<notin> set (gr_Members g))"
| "op_ok (OpCreateGroup (Some i) n ms) s \<longleftrightarrow> ps_groups s i = None"
| "op_ok (OpDeleteUser ks i) s \<longleftrightarrow> range_order ks (ps_groups s)"
| "op_ok (OpPatchUserActive ks i a) s \<longleftrightarrow> range_order ks (ps_groups s)"
| "op_ok _ s \<longleftrightarrow> True"

section \<open>The index invariant\<close>

definition indexed :: "(string \<rightharpoonup> 'v) \<Rightarrow> ('v \<Rightarrow> string) \<Rightarrow> (string \<rightharpoonup> string) \<Rightarrow> bool" where
  "indexed m name index \<longleftrightarrow> (\<forall>n i. index n = Some i \<longleftrightarrow> (\<exists>v. m i = Some v \<and> name v = n))"

lemma indexed_insert:
  assumes "indexed m name index" and "m i = None" and "index (name v) = None"
  shows "indexed (m(i \<mapsto> v)) name (index(name v \<mapsto> i))"
  unfolding indexed_def
proof (intro allI)
  fix n j
  have "index n = Some j \<longleftrightarrow> (\<exists>w. m j = Some w \<and> name w = n)" for n j
    using assms(1) by (simp add: indexed_def)
  from this [of n j] this [of "name v" j]
  show "(index(name v \<mapsto> i)) n = Some j \<longleftrightarrow> (\<exists>w. (m(i \<mapsto> v)) j = Some w \<and> name w = n)"
    using assms(2,3) by auto
qed

lemma indexed_remove:
  assumes "indexed m name index" and "m i = Some v"
  shows "indexed (m(i := None)) name (index(name v := None))"
  unfolding indexed_def
proof (intro allI)
  fix n j
  have ix: "index n = Some j \<longleftrightarrow> (\<exists>w. m j = Some w \<and> name w = n)" for n j
    using assms(1) by (simp add: indexed_def)
  then have "index (name v) = Some i"
    using assms(2) by blast
  with ix [of n j] ix [of "name v" j]
  show "(index(name v := None)) n = Some j \<longleftrightarrow> (\<exists>w. (m(i := None)) j = Some w \<and> name w = n)"
    using assms(2) by auto
qed

lemma indexed_update:
  assumes "indexed m name index" and "m i = Some v" and "name v' = name v"
  shows "indexed (m(i \<mapsto> v')) name index"
  unfolding indexed_def
proof (intro allI)
  fix n j
  have "index n = Some j \<longleftrightarrow> (\<exists>w. m j = Some w \<and> name w = n)"
    using assms(1) by (simp add: indexed_def)
  then show "index n = Some j \<longleftrightarrow> (\<exists>w. (m(i \<mapsto> v')) j = Some w \<and> name w = n)"
    using assms(2,3) by auto
qed

lemma indexed_unique: "indexed m name index \<Longrightarrow> m i = Some v \<Longrightarrow> m j = Some w \<Longrightarrow> name v = name w \<Longrightarrow> i = j"
  unfolding indexed_def by (metis option.inject)

section \<open>The contract of a binding sink\<close>

locale binding_sink =
  fixes sink :: "'b bindingSink" and members :: "'b \<Rightarrow> string \<rightharpoonup> string list" and sink_ok :: "'b \<Rightarrow> bool"
  assumes members_set: "members (bs_SetGroupMembers sink g ns b) =
      (if ParseGroupName g = None then members b else (members b)(g \<mapsto> ns))"
    and members_remove: "members (bs_RemoveGroup sink g b) = (members b)(g := None)"
    and ok_set: "sink_ok b \<Longrightarrow> sink_ok (bs_SetGroupMembers sink g ns b)"
    and ok_remove: "sink_ok b \<Longrightarrow> sink_ok (bs_RemoveGroup sink g b)"
begin

text \<open>What the sink should hold for a group name, given the service's users and groups.\<close>

definition derived :: "(string \<rightharpoonup> User) \<Rightarrow> (string \<rightharpoonup> Group) \<Rightarrow> (string \<rightharpoonup> string) \<Rightarrow> string \<rightharpoonup> string list" where
  "derived users groups index name =
     (case index name of
        None \<Rightarrow> None
      | Some i \<Rightarrow> if ParseGroupName name = None then None
                  else map_option (\<lambda>g. active_names users (gr_Members g)) (groups i))"

definition prov_inv :: "'b ProvisioningService \<Rightarrow> bool" where
  "prov_inv s \<longleftrightarrow> indexed (ps_users s) u_UserName (ps_userNameToID s) \<and>
     indexed (ps_groups s) gr_DisplayName (ps_groupNameToID s) \<and>
     (\<exists>b. ps_bindings s = Some b \<and> sink_ok b \<and> members b = derived (ps_users s) (ps_groups s) (ps_groupNameToID s))"

lemma sync_frame [simp]:
  "ps_users (syncBindingLocked sink g s) = ps_users s"
  "ps_groups (syncBindingLocked sink g s) = ps_groups s"
  "ps_userNameToID (syncBindingLocked sink g s) = ps_userNameToID s"
  "ps_groupNameToID (syncBindingLocked sink g s) = ps_groupNameToID s"
  by (simp_all add: syncBindingLocked_def split: option.split)

lemma sync_bindings:
  assumes "ps_bindings s = Some b" and "sink_ok b"
  obtains b' where "ps_bindings (syncBindingLocked sink g s) = Some b'" and "sink_ok b'"
    and "members b' = (if ParseGroupName (gr_DisplayName g) = None then members b
           else (members b)(gr_DisplayName g \<mapsto> active_names (ps_users s) (gr_Members g)))"
  using assms that by (simp add: syncBindingLocked_def members_set ok_set)

text \<open>A synced group is up to date afterwards; the others are as they were.\<close>

lemma sync_inv:
  assumes "indexed (ps_users s) u_UserName (ps_userNameToID s)"
    and "indexed (ps_groups s) gr_DisplayName (ps_groupNameToID s)"
    and "ps_bindings s = Some b" and "sink_ok b" and "ps_groups s i = Some g"
    and "\<And>name. name \<noteq> gr_DisplayName g \<Longrightarrow> members b name = derived (ps_users s) (ps_groups s) (ps_groupNameToID s) name"
    and "ParseGroupName (gr_DisplayName g) = None \<Longrightarrow> members b (gr_DisplayName g) = None"
  shows "prov_inv (syncBindingLocked sink g s)"
proof -
  have "ps_groupNameToID s (gr_DisplayName g) = Some i"
    using assms(2,5) by (auto simp: indexed_def)
  then have "derived (ps_users s) (ps_groups s) (ps_groupNameToID s) (gr_DisplayName g) =
      (if ParseGroupName (gr_DisplayName g) = None then None else Some (active_names (ps_users s) (gr_Members g)))"
    using assms(5) by (simp add: derived_def)
  moreover obtain b' where b': "ps_bindings (syncBindingLocked sink g s) = Some b'" "sink_ok b'"
    "members b' = (if ParseGroupName (gr_DisplayName g) = None then members b
       else (members b)(gr_DisplayName g \<mapsto> active_names (ps_users s) (gr_Members g)))"
    using sync_bindings [OF assms(3,4)] .
  ultimately have "members b' name = derived (ps_users s) (ps_groups s) (ps_groupNameToID s) name" for name
    using assms(6,7) by (cases "name = gr_DisplayName g") auto
  then show ?thesis
    using assms(1,2) b'(1,2) by (auto simp: prov_inv_def)
qed

lemma fold_sync_frame:
  "ps_users (fold (\<lambda>(_, g). syncBindingLocked sink g) es s) = ps_users s \<and>
   ps_groups (fold (\<lambda>(_, g). syncBindingLocked sink g) es s) = ps_groups s \<and>
   ps_userNameToID (fold (\<lambda>(_, g). syncBindingLocked sink g) es s) = ps_userNameToID s \<and>
   ps_groupNameToID (fold (\<lambda>(_, g). syncBindingLocked sink g) es s) = ps_groupNameToID s"
  by (induction es arbitrary: s) (auto simp: case_prod_beta)

lemma fold_sync_bindings:
  assumes "ps_bindings s = Some b" and "sink_ok b"
  shows "\<exists>b'. ps_bindings (fold (\<lambda>(_, g). syncBindingLocked sink g) es s) = Some b' \<and> sink_ok b' \<and>
     (\<forall>name. members b' name =
        (if ParseGroupName name = None \<or> name \<notin> gr_DisplayName ` snd ` set es then members b name
         else Some (active_names (ps_users s) (gr_Members (last (filter (\<lambda>g. gr_DisplayName g = name) (map snd es)))))))"
  using assms
proof (induction es arbitrary: s b)
  case (Cons e es)
  obtain k g where e: "e = (k, g)" by (cases e)
  obtain b1 where b1: "ps_bindings (syncBindingLocked sink g s) = Some b1" "sink_ok b1"
    "members b1 = (if ParseGroupName (gr_DisplayName g) = None then members b
       else (members b)(gr_DisplayName g \<mapsto> active_names (ps_users s) (gr_Members g)))"
    using sync_bindings [OF Cons.prems] .
  have none: "filter (\<lambda>g. gr_DisplayName g = name) (map snd es) = []" if "name \<notin> gr_DisplayName ` snd ` set es" for name
    using that by (auto simp: filter_empty_conv)
  have some: "filter (\<lambda>g. gr_DisplayName g = name) (map snd es) \<noteq> []" if "name \<in> gr_DisplayName ` snd ` set es" for name
    using that by (auto simp: filter_empty_conv)
  from Cons.IH [OF b1(1,2)] show ?case
    by (auto simp: e b1(3) none some)
qed auto

lemma resync_inv:
  assumes "indexed (ps_users s) u_UserName (ps_userNameToID s)"
    and "indexed (ps_groups s) gr_DisplayName (ps_groupNameToID s)"
    and "ps_bindings s = Some b" and "sink_ok b" and "range_order ks (ps_groups s)"
    and "\<And>name. ps_groupNameToID s name = None \<or> ParseGroupName name = None \<Longrightarrow> members b name = None"
  shows "prov_inv (resyncAllGroupsLocked sink ks s)"
proof -
  let ?es = "range_entries ks (ps_groups s)" and ?d = "derived (ps_users s) (ps_groups s) (ps_groupNameToID s)"
  have es: "set ?es = {(k, g). ps_groups s k = Some g}"
    by (rule set_range_entries [OF assms(5)])
  obtain b' where b': "ps_bindings (fold (\<lambda>(_, g). syncBindingLocked sink g) ?es s) = Some b'" "sink_ok b'"
    "\<And>name. members b' name = (if ParseGroupName name = None \<or> name \<notin> gr_DisplayName ` snd ` set ?es then members b name
       else Some (active_names (ps_users s) (gr_Members (last (filter (\<lambda>g. gr_DisplayName g = name) (map snd ?es))))))"
    using fold_sync_bindings [OF assms(3,4)] by blast
  have named: "ps_groupNameToID s (gr_DisplayName g) = Some k" if "ps_groups s k = Some g" for k g
    using assms(2) that by (auto simp: indexed_def)
  have "members b' name = ?d name" for name
  proof (cases "ps_groupNameToID s name")
    case None
    then have "name \<notin> gr_DisplayName ` snd ` set ?es"
      using named es by force
    then show ?thesis
      using None assms(6) b'(3) by (simp add: derived_def)
  next
    case (Some i)
    then obtain g where g: "ps_groups s i = Some g" "gr_DisplayName g = name"
      using assms(2) by (auto simp: indexed_def)
    let ?fs = "filter (\<lambda>g. gr_DisplayName g = name) (map snd ?es)"
    have "g \<in> set ?fs"
      using g es by force
    moreover have "g' = g" if "g' \<in> set ?fs" for g'
      using that es g indexed_unique [OF assms(2)] by fastforce
    ultimately have "last ?fs = g" "name \<in> gr_DisplayName ` snd ` set ?es"
      by (metis last_in_set empty_iff list.set(1)) (use es g in force)
    then show ?thesis
      using Some g assms(6) b'(3) by (simp add: derived_def)
  qed
  then show ?thesis
    using assms(1-3) b'(1,2) fold_sync_frame [of ?es s]
    by (auto simp: prov_inv_def resyncAllGroupsLocked_def)
qed

lemma active_names_fresh: "i \<notin> set ms \<Longrightarrow> active_names (users(i := x)) ms = active_names users ms"
  by (induction ms) (auto simp: active_names_def List.map_filter_simps split: option.split)

lemma derived_fresh:
  assumes "\<And>g. g \<in> ran groups \<Longrightarrow> i \<notin> set (gr_Members g)"
  shows "derived (users(i := x)) groups index = derived users groups index"
proof
  fix name
  have "active_names (users(i := x)) (gr_Members g) = active_names users (gr_Members g)" if "groups j = Some g" for j g
    using assms [OF ranI [of groups j, OF that]] by (rule active_names_fresh)
  then show "derived (users(i := x)) groups index name = derived users groups index name"
    by (auto simp: derived_def split: option.split intro: option.map_cong)
qed

lemma create_user_inv:
  assumes "prov_inv s" and "op_ok (OpCreateUser rid n a) s"
  shows "prov_inv (snd (CreateUser rid n a s))"
proof (cases "ps_userNameToID s n = None \<and> rid \<noteq> None")
  case True
  then obtain i where i: "rid = Some i" "ps_users s i = None" "\<And>g. g \<in> ran (ps_groups s) \<Longrightarrow> i \<notin> set (gr_Members g)"
    using assms(2) by auto
  then have "derived ((ps_users s)(i \<mapsto> u)) (ps_groups s) (ps_groupNameToID s) = derived (ps_users s) (ps_groups s) (ps_groupNameToID s)" for u
    by (intro derived_fresh)
  moreover have "indexed ((ps_users s)(i \<mapsto> \<lparr>u_ID = i, u_UserName = n, u_Active = a\<rparr>)) u_UserName ((ps_userNameToID s)(n \<mapsto> i))"
    using indexed_insert [of "ps_users s" u_UserName "ps_userNameToID s" i "\<lparr>u_ID = i, u_UserName = n, u_Active = a\<rparr>"]
      assms(1) i True by (simp add: prov_inv_def)
  ultimately show ?thesis
    using assms(1) True i(1) by (simp add: CreateUser_def prov_inv_def)
qed (use assms(1) in \<open>auto simp: CreateUser_def split: option.split\<close>)

lemma prov_invE:
  assumes "prov_inv s"
  obtains b where "indexed (ps_users s) u_UserName (ps_userNameToID s)"
    and "indexed (ps_groups s) gr_DisplayName (ps_groupNameToID s)"
    and "ps_bindings s = Some b" and "sink_ok b"
    and "members b = derived (ps_users s) (ps_groups s) (ps_groupNameToID s)"
  using assms by (auto simp: prov_inv_def)

lemma derived_None: "ps_groupNameToID s name = None \<or> ParseGroupName name = None \<Longrightarrow> derived us (ps_groups s) (ps_groupNameToID s) name = None"
  by (auto simp: derived_def split: option.split)

lemma delete_user_inv:
  assumes "prov_inv s" and "range_order ks (ps_groups s)"
  shows "prov_inv (snd (DeleteUser sink ks i s))"
proof (cases "ps_users s i")
  case (Some u)
  obtain b where b: "indexed (ps_users s) u_UserName (ps_userNameToID s)"
    "indexed (ps_groups s) gr_DisplayName (ps_groupNameToID s)" "ps_bindings s = Some b" "sink_ok b"
    "members b = derived (ps_users s) (ps_groups s) (ps_groupNameToID s)"
    using assms(1) by (rule prov_invE)
  show ?thesis
    using Some indexed_remove [OF b(1) Some] b assms(2)
    by (auto simp: DeleteUser_def intro!: resync_inv derived_None)
qed (use assms(1) in \<open>simp add: DeleteUser_def\<close>)

lemma patch_user_inv:
  assumes "prov_inv s" and "range_order ks (ps_groups s)"
  shows "prov_inv (snd (PatchUserActive sink ks i a s))"
proof (cases "ps_users s i")
  case (Some u)
  obtain b where b: "indexed (ps_users s) u_UserName (ps_userNameToID s)"
    "indexed (ps_groups s) gr_DisplayName (ps_groupNameToID s)" "ps_bindings s = Some b" "sink_ok b"
    "members b = derived (ps_users s) (ps_groups s) (ps_groupNameToID s)"
    using assms(1) by (rule prov_invE)
  show ?thesis
    using Some indexed_update [OF b(1) Some, of "u\<lparr>u_Active := a\<rparr>"] b assms(2)
    by (auto simp: PatchUserActive_def intro!: resync_inv derived_None)
qed (use assms(1) in \<open>simp add: PatchUserActive_def\<close>)

end

context binding_sink
begin

lemma derived_other:
  assumes "indexed (ps_groups s) gr_DisplayName (ps_groupNameToID s)" and "name \<noteq> n"
    and "\<And>g. ps_groups s i = Some g \<Longrightarrow> gr_DisplayName g = n"
  shows "derived us ((ps_groups s)(i := x)) ((ps_groupNameToID s)(n := y)) name =
     derived us (ps_groups s) (ps_groupNameToID s) name"
proof -
  have "ps_groupNameToID s name \<noteq> Some i"
    using assms by (auto simp: indexed_def)
  then show ?thesis
    using assms(2) by (auto simp: derived_def split: option.split)
qed

lemma create_group_inv:
  assumes "prov_inv s" and "op_ok (OpCreateGroup rid n ms) s"
  shows "prov_inv (snd (CreateGroup sink rid n ms s))"
proof (cases "ps_groupNameToID s n = None \<and> rid \<noteq> None")
  case True
  then obtain i where i: "rid = Some i" "ps_groups s i = None"
    using assms(2) by auto
  obtain b where b: "indexed (ps_users s) u_UserName (ps_userNameToID s)"
    "indexed (ps_groups s) gr_DisplayName (ps_groupNameToID s)" "ps_bindings s = Some b" "sink_ok b"
    "members b = derived (ps_users s) (ps_groups s) (ps_groupNameToID s)"
    using assms(1) by (rule prov_invE)
  let ?g = "\<lparr>gr_ID = i, gr_DisplayName = n, gr_Members = add_members [] ms\<rparr>"
  let ?s = "s\<lparr>ps_groups := (ps_groups s)(i \<mapsto> ?g), ps_groupNameToID := (ps_groupNameToID s)(n \<mapsto> i)\<rparr>"
  have "members b n = None"
    using True b(5) by (simp add: derived_def)
  moreover have "indexed (ps_groups ?s) gr_DisplayName (ps_groupNameToID ?s)"
    using indexed_insert [OF b(2) i(2), of ?g] True by simp
  moreover have "members b name = derived (ps_users ?s) (ps_groups ?s) (ps_groupNameToID ?s) name" if "name \<noteq> n" for name
    using derived_other [OF b(2) that, of i] i(2) b(5) by simp
  ultimately have "prov_inv (syncBindingLocked sink ?g ?s)"
    using b(1,3,4) by (intro sync_inv [where i = i]) simp_all
  then show ?thesis
    using True i(1) by (simp add: CreateGroup_def)
qed (use assms(1) in \<open>auto simp: CreateGroup_def split: option.split\<close>)

lemma delete_group_inv:
  assumes "prov_inv s"
  shows "prov_inv (snd (DeleteGroup sink i s))"
proof (cases "ps_groups s i")
  case (Some g)
  obtain b where b: "indexed (ps_users s) u_UserName (ps_userNameToID s)"
    "indexed (ps_groups s) gr_DisplayName (ps_groupNameToID s)" "ps_bindings s = Some b" "sink_ok b"
    "members b = derived (ps_users s) (ps_groups s) (ps_groupNameToID s)"
    using assms by (rule prov_invE)
  let ?n = "gr_DisplayName g"
  have "members (bs_RemoveGroup sink ?n b) =
      derived (ps_users s) ((ps_groups s)(i := None)) ((ps_groupNameToID s)(?n := None))" (is "_ = ?d")
  proof
    fix name
    show "members (bs_RemoveGroup sink ?n b) name = ?d name"
    proof (cases "name = ?n")
      case True
      then show ?thesis by (simp add: members_remove derived_def)
    next
      case False
      then have "?d name = derived (ps_users s) (ps_groups s) (ps_groupNameToID s) name"
        using Some by (intro derived_other [OF b(2)]) simp_all
      then show ?thesis using False by (simp add: members_remove b(5))
    qed
  qed
  moreover have "indexed ((ps_groups s)(i := None)) gr_DisplayName ((ps_groupNameToID s)(?n := None))"
    by (rule indexed_remove [OF b(2) Some])
  ultimately show ?thesis
    using b(1) ok_remove [OF b(4), of ?n] by (simp add: DeleteGroup_def prov_inv_def Some b(3))
qed (use assms in \<open>simp add: DeleteGroup_def\<close>)

lemma patch_group_inv:
  assumes "prov_inv s"
  shows "prov_inv (snd (PatchGroupMembers sink i add rem s))"
proof (cases "ps_groups s i")
  case (Some g)
  obtain b where b: "indexed (ps_users s) u_UserName (ps_userNameToID s)"
    "indexed (ps_groups s) gr_DisplayName (ps_groupNameToID s)" "ps_bindings s = Some b" "sink_ok b"
    "members b = derived (ps_users s) (ps_groups s) (ps_groupNameToID s)"
    using assms by (rule prov_invE)
  define g' where "g' = g\<lparr>gr_Members := filter (\<lambda>m. m \<notin> set rem) (add_members (gr_Members g) add)\<rparr>"
  let ?s = "s\<lparr>ps_groups := (ps_groups s)(i \<mapsto> g')\<rparr>"
  have n: "gr_DisplayName g' = gr_DisplayName g" "ps_groupNameToID s (gr_DisplayName g) = Some i"
    using b(2) Some by (auto simp: g'_def indexed_def)
  have "indexed (ps_groups ?s) gr_DisplayName (ps_groupNameToID ?s)"
    using indexed_update [OF b(2) Some n(1)] by simp
  moreover have "members b name = derived (ps_users ?s) (ps_groups ?s) (ps_groupNameToID ?s) name"
    if "name \<noteq> gr_DisplayName g'" for name
  proof -
    have "(ps_groupNameToID s)(gr_DisplayName g := Some i) = ps_groupNameToID s"
      using n(2) by (rule map_upd_triv)
    moreover have "derived (ps_users s) ((ps_groups s)(i := Some g')) ((ps_groupNameToID s)(gr_DisplayName g := Some i)) name =
        derived (ps_users s) (ps_groups s) (ps_groupNameToID s) name"
      using that n(1) Some by (intro derived_other [OF b(2)]) simp_all
    ultimately show ?thesis by (simp add: b(5))
  qed
  moreover have "ParseGroupName (gr_DisplayName g') = None \<Longrightarrow> members b (gr_DisplayName g') = None"
    using b(5) by (simp add: derived_None)
  ultimately have "prov_inv (syncBindingLocked sink g' ?s)"
    using b(1,3,4) by (intro sync_inv [where i = i]) simp_all
  then show ?thesis
    using Some by (simp add: PatchGroupMembers_def g'_def Let_def)
qed (use assms in \<open>simp add: PatchGroupMembers_def\<close>)

lemma scim_step_inv: "prov_inv s \<Longrightarrow> op_ok op s \<Longrightarrow> prov_inv (scim_step sink op s)"
  using create_user_inv create_group_inv delete_user_inv patch_user_inv delete_group_inv patch_group_inv
  by (cases op) auto

lemma initial_inv: "sink_ok b \<Longrightarrow> members b = Map.empty \<Longrightarrow> prov_inv (SetBindingStore b NewProvisioningService)"
  by (simp add: prov_inv_def SetBindingStore_def NewProvisioningService_def indexed_def derived_def fun_eq_iff)

end

section \<open>The in-memory store keeps the contract\<close>

definition store_ok :: "BindingStore \<Rightarrow> bool" where
  "store_ok b \<longleftrightarrow> bst_groupGrants b = (\<lambda>name. if bst_groupMembers b name = None then None else ParseGroupName name) \<and>
     (\<forall>name. bst_groupMembers b name \<noteq> None \<longrightarrow> ParseGroupName name \<noteq> None)"

interpretation inmemory_bindings: binding_sink inmemory_bindingSink bst_groupMembers store_ok
  by unfold_locales
    (auto simp: inmemory_bindingSink_def SetGroupMembers_def RemoveGroup_def store_ok_def fun_eq_iff split: option.splits)

inductive scim_reachable :: "BindingStore ProvisioningService \<Rightarrow> bool" where
  start: "scim_reachable (SetBindingStore NewBindingStore NewProvisioningService)"
| step: "scim_reachable s \<Longrightarrow> op_ok op s \<Longrightarrow> scim_reachable (scim_step inmemory_bindingSink op s)"

lemma scim_reachable_inv: "scim_reachable s \<Longrightarrow> inmemory_bindings.prov_inv s"
proof (induction rule: scim_reachable.induct)
  case start
  then show ?case
    by (intro inmemory_bindings.initial_inv) (simp_all add: NewBindingStore_def store_ok_def)
qed (rule inmemory_bindings.scim_step_inv)

text \<open>An active user of the given name is among the members of a group with the given grant.\<close>

definition holds_grant :: "'b ProvisioningService \<Rightarrow> string \<Rightarrow> groupGrant \<Rightarrow> bool" where
  "holds_grant s identity grant \<longleftrightarrow>
     (\<exists>g \<in> ran (ps_groups s). ParseGroupName (gr_DisplayName g) = Some grant \<and>
        (\<exists>i \<in> set (gr_Members g). \<exists>u. ps_users s i = Some u \<and> u_Active u \<and> u_UserName u = identity))"

lemma set_active_names: "set (active_names users ms) = {u_UserName u | u i. i \<in> set ms \<and> users i = Some u \<and> u_Active u}"
  by (force simp: active_names_def List.map_filter_def split: option.splits if_splits)

lemma bindings_loop_eq:
  "bindings_loop s identity es =
     (map (\<lambda>(name, _). \<lparr>crb_Subject = identity, crb_RoleName = gg_role (stored_grant s name)\<rparr>)
        (filter (\<lambda>(name, ms). identity \<in> set ms \<and> gg_isGlobal (stored_grant s name)) es),
      map (\<lambda>(name, _). \<lparr>rb_Subject = identity, rb_RoleName = gg_role (stored_grant s name), rb_Tenant = gg_tenant (stored_grant s name)\<rparr>)
        (filter (\<lambda>(name, ms). identity \<in> set ms \<and> \<not> gg_isGlobal (stored_grant s name)) es))"
  by (induction s identity es rule: bindings_loop.induct) (simp_all add: Let_def)

text \<open>The entries of a synced store are the recognized groups with their active members.\<close>

lemma synced_entry:
  assumes "inmemory_bindings.prov_inv s" and "ps_bindings s = Some b"
  shows "(\<exists>ms. bst_groupMembers b name = Some ms \<and> identity \<in> set ms \<and> stored_grant b name = grant) \<longleftrightarrow>
     (\<exists>g \<in> ran (ps_groups s). gr_DisplayName g = name \<and> ParseGroupName name = Some grant \<and>
        (\<exists>i \<in> set (gr_Members g). \<exists>u. ps_users s i = Some u \<and> u_Active u \<and> u_UserName u = identity))"
proof -
  have ix: "indexed (ps_groups s) gr_DisplayName (ps_groupNameToID s)" and ok: "store_ok b"
    and m: "bst_groupMembers b = inmemory_bindings.derived (ps_users s) (ps_groups s) (ps_groupNameToID s)"
    using assms by (auto simp: inmemory_bindings.prov_inv_def)
  have named: "ps_groupNameToID s (gr_DisplayName g) = Some k" if "ps_groups s k = Some g" for k g
    using ix that by (auto simp: indexed_def)
  have entry: "bst_groupMembers b name = Some ms \<longleftrightarrow>
      (\<exists>g \<in> ran (ps_groups s). gr_DisplayName g = name \<and> ParseGroupName name \<noteq> None \<and> ms = active_names (ps_users s) (gr_Members g))" for ms
  proof (cases "ps_groupNameToID s name")
    case None
    then show ?thesis
      using named unfolding m by (auto simp: inmemory_bindings.derived_def ran_def)
  next
    case (Some i)
    then obtain g where g: "ps_groups s i = Some g" "gr_DisplayName g = name"
      using ix by (auto simp: indexed_def)
    then have "g' = g" if "g' \<in> ran (ps_groups s)" "gr_DisplayName g' = name" for g'
      using that indexed_unique [OF ix] by (fastforce simp: ran_def)
    then show ?thesis
      using Some g unfolding m by (auto simp: inmemory_bindings.derived_def ran_def)
  qed
  have grant: "stored_grant b name = the (ParseGroupName name)" if "bst_groupMembers b name = Some ms" for ms
    using ok that by (auto simp: store_ok_def stored_grant_def split: option.split)
  have member: "identity \<in> set (active_names (ps_users s) ms) \<longleftrightarrow>
      (\<exists>i \<in> set ms. \<exists>u. ps_users s i = Some u \<and> u_Active u \<and> u_UserName u = identity)" for ms
    by (auto simp: set_active_names)
  show ?thesis
  proof
    assume "\<exists>ms. bst_groupMembers b name = Some ms \<and> identity \<in> set ms \<and> stored_grant b name = grant"
    then obtain ms where ms: "bst_groupMembers b name = Some ms" "identity \<in> set ms" "stored_grant b name = grant"
      by blast
    then obtain g where g: "g \<in> ran (ps_groups s)" "gr_DisplayName g = name" "ParseGroupName name \<noteq> None"
      "ms = active_names (ps_users s) (gr_Members g)"
      using entry by blast
    then have "ParseGroupName name = Some grant"
      using grant [OF ms(1)] ms(3) by auto
    then show "\<exists>g \<in> ran (ps_groups s). gr_DisplayName g = name \<and> ParseGroupName name = Some grant \<and>
        (\<exists>i \<in> set (gr_Members g). \<exists>u. ps_users s i = Some u \<and> u_Active u \<and> u_UserName u = identity)"
      using g ms(2) member by blast
  next
    assume "\<exists>g \<in> ran (ps_groups s). gr_DisplayName g = name \<and> ParseGroupName name = Some grant \<and>
        (\<exists>i \<in> set (gr_Members g). \<exists>u. ps_users s i = Some u \<and> u_Active u \<and> u_UserName u = identity)"
    then obtain g where g: "g \<in> ran (ps_groups s)" "gr_DisplayName g = name" "ParseGroupName name = Some grant"
      "identity \<in> set (active_names (ps_users s) (gr_Members g))"
      using member by blast
    then have "bst_groupMembers b name = Some (active_names (ps_users s) (gr_Members g))"
      using entry by (metis option.distinct(1))
    then show "\<exists>ms. bst_groupMembers b name = Some ms \<and> identity \<in> set ms \<and> stored_grant b name = grant"
      using g grant by auto
  qed
qed

lemma set_map_filter_entries:
  assumes "range_order ks m"
  shows "set (map (\<lambda>(k, _). f k) (filter (\<lambda>(k, v). P k v) (range_entries ks m))) = {f k | k v. m k = Some v \<and> P k v}"
  using set_range_entries [OF assms] by auto

lemma bindings_of_grants:
  assumes "scim_reachable s" and "ps_bindings s = Some b" and "range_order ks (bst_groupMembers b)"
  shows "set (fst (Bindings ks b identity)) =
       {\<lparr>crb_Subject = identity, crb_RoleName = gg_role grant\<rparr> | grant. holds_grant s identity grant \<and> gg_isGlobal grant}"
    and "set (snd (Bindings ks b identity)) =
       {\<lparr>rb_Subject = identity, rb_RoleName = gg_role grant, rb_Tenant = gg_tenant grant\<rparr> | grant.
          holds_grant s identity grant \<and> \<not> gg_isGlobal grant}"
proof -
  have holds: "holds_grant s identity grant \<longleftrightarrow>
      (\<exists>name ms. bst_groupMembers b name = Some ms \<and> identity \<in> set ms \<and> stored_grant b name = grant)" for grant
    unfolding synced_entry [OF scim_reachable_inv [OF assms(1)] assms(2)] holds_grant_def by auto
  show "set (fst (Bindings ks b identity)) =
       {\<lparr>crb_Subject = identity, crb_RoleName = gg_role grant\<rparr> | grant. holds_grant s identity grant \<and> gg_isGlobal grant}"
    unfolding Bindings_def bindings_loop_eq fst_conv set_map_filter_entries [OF assms(3)] holds by auto
  show "set (snd (Bindings ks b identity)) =
       {\<lparr>rb_Subject = identity, rb_RoleName = gg_role grant, rb_Tenant = gg_tenant grant\<rparr> | grant.
          holds_grant s identity grant \<and> \<not> gg_isGlobal grant}"
    unfolding Bindings_def bindings_loop_eq snd_conv set_map_filter_entries [OF assms(3)] holds by auto
qed

section \<open>Properties of provisioning\<close>

text \<open>
  C24. Provisioned authority is exactly group membership: after any sequence of SCIM operations, the composite
  authorizer over the provisioned bindings grants a permission in a tenant if and only if the static one does, or the
  identity is the user name of an active provisioned user who is a member of a group whose name carries a
  role with that permission, for every tenant or for that one. Deactivated and deleted users, removed members,
  deleted groups and groups whose names do not follow the convention give nothing, whatever the order in which the maps are traversed.
\<close>

theorem scim_authority_is_membership:
  assumes "scim_reachable s" and "ps_bindings s = Some b" and "range_order ks (bst_groupMembers b)"
  shows "Composite_Authorize \<lparr>ca_static = static, ca_dynamic = Bindings ks b, ca_dynamicRoleHasPerm = hasPerm\<rparr> identity tenant perm \<longleftrightarrow>
     az_Authorize static identity tenant perm \<or>
     (\<exists>grant. holds_grant s identity grant \<and> hasPerm (gg_role grant) perm \<and> (gg_isGlobal grant \<or> gg_tenant grant = tenant))"
proof -
  have "(\<exists>x \<in> set (fst (Bindings ks b identity)). hasPerm (crb_RoleName x) perm) \<longleftrightarrow>
      (\<exists>grant. holds_grant s identity grant \<and> hasPerm (gg_role grant) perm \<and> gg_isGlobal grant)"
    unfolding bindings_of_grants(1) [OF assms] by auto
  moreover have "(\<exists>x \<in> set (snd (Bindings ks b identity)). rb_Tenant x = tenant \<and> hasPerm (rb_RoleName x) perm) \<longleftrightarrow>
      (\<exists>grant. holds_grant s identity grant \<and> hasPerm (gg_role grant) perm \<and> \<not> gg_isGlobal grant \<and> gg_tenant grant = tenant)"
    unfolding bindings_of_grants(2) [OF assms] by auto
  ultimately show ?thesis
    by (auto simp: Composite_Authorize_def case_prod_beta list_ex_iff)
qed



lemma example_group_names:
  "ParseGroupName ''wardline:tenant-acme:role-admin'' = Some \<lparr>gg_tenant = ''acme'', gg_role = ''admin'', gg_isGlobal = False\<rparr>"
  "ParseGroupName ''everyone'' = None"
  by (simp_all add: ParseGroupName_def TrimPrefix_def)

definition example_admins :: Group where
  "example_admins = \<lparr>gr_ID = ''g1'', gr_DisplayName = ''wardline:tenant-acme:role-admin'', gr_Members = [''u1'', ''u2'']\<rparr>"

definition example_everyone :: Group where
  "example_everyone = \<lparr>gr_ID = ''g2'', gr_DisplayName = ''everyone'', gr_Members = [''u2'']\<rparr>"

definition example_scim :: "bool \<Rightarrow> BindingStore ProvisioningService" where
  "example_scim bob_active =
     \<lparr>ps_users = [''u1'' \<mapsto> \<lparr>u_ID = ''u1'', u_UserName = ''alice'', u_Active = True\<rparr>,
        ''u2'' \<mapsto> \<lparr>u_ID = ''u2'', u_UserName = ''bob'', u_Active = bob_active\<rparr>],
      ps_groups = [''g1'' \<mapsto> example_admins, ''g2'' \<mapsto> example_everyone],
      ps_userNameToID = [''alice'' \<mapsto> ''u1'', ''bob'' \<mapsto> ''u2''],
      ps_groupNameToID = [''wardline:tenant-acme:role-admin'' \<mapsto> ''g1'', ''everyone'' \<mapsto> ''g2''],
      ps_bindings = Some \<lparr>bst_groupMembers = [''wardline:tenant-acme:role-admin'' \<mapsto> ''alice'' # (if bob_active then [''bob''] else [])],
        bst_groupGrants = [''wardline:tenant-acme:role-admin'' \<mapsto> \<lparr>gg_tenant = ''acme'', gg_role = ''admin'', gg_isGlobal = False\<rparr>]\<rparr>\<rparr>"

lemmas scim_defs = CreateUser_def CreateGroup_def PatchUserActive_def resyncAllGroupsLocked_def syncBindingLocked_def
  SetBindingStore_def NewBindingStore_def NewProvisioningService_def inmemory_bindingSink_def SetGroupMembers_def
  active_names_def List.map_filter_simps example_group_names example_admins_def example_everyone_def

lemma example_scim_built:
  "example_scim True = fold (scim_step inmemory_bindingSink)
     [OpCreateUser (Some ''u1'') ''alice'' True, OpCreateUser (Some ''u2'') ''bob'' True,
      OpCreateGroup (Some ''g1'') ''wardline:tenant-acme:role-admin'' [''u1'', ''u2'', ''u1''],
      OpCreateGroup (Some ''g2'') ''everyone'' [''u2'']]
     (SetBindingStore NewBindingStore NewProvisioningService)"
  by (simp add: scim_defs example_scim_def)

lemma example_scim_patched:
  "example_scim False = snd (PatchUserActive inmemory_bindingSink [''g2'', ''g1''] ''u2'' False (example_scim True))"
  by (simp add: scim_defs example_scim_def range_entries_def fun_upd_twist)

lemma example_scim_reachable: "scim_reachable (example_scim True)"
  unfolding example_scim_built fold.simps comp_apply id_apply
  by (intro scim_reachable.intros) (auto simp: scim_defs ran_def)

theorem scim_authority_is_membership_witness:
  "\<exists>b. ps_bindings (example_scim True) = Some b \<and>
     Composite_Authorize \<lparr>ca_static = \<lparr>az_Authorize = (\<lambda>_ _ _. False), az_IsGlobal = (\<lambda>_ _. False)\<rparr>,
       ca_dynamic = Bindings [''wardline:tenant-acme:role-admin''] b, ca_dynamicRoleHasPerm = (\<lambda>r _. r = ''admin'')\<rparr>
       ''bob'' ''acme'' PermissionConfigEdit \<and>
     \<not> Composite_Authorize \<lparr>ca_static = \<lparr>az_Authorize = (\<lambda>_ _ _. False), az_IsGlobal = (\<lambda>_ _. False)\<rparr>,
       ca_dynamic = Bindings [''wardline:tenant-acme:role-admin''] b, ca_dynamicRoleHasPerm = (\<lambda>r _. r = ''admin'')\<rparr>
       ''bob'' ''other'' PermissionConfigEdit"
proof -
  obtain b where b: "ps_bindings (example_scim True) = Some b" "range_order [''wardline:tenant-acme:role-admin''] (bst_groupMembers b)"
    by (simp add: example_scim_def range_order_def)
  have groups: "ran (ps_groups (example_scim True)) = {example_admins, example_everyone}"
    by (simp add: example_scim_def ran_map_upd insert_commute)
  have users: "ps_users (example_scim True) ''u1'' = Some \<lparr>u_ID = ''u1'', u_UserName = ''alice'', u_Active = True\<rparr>"
    "ps_users (example_scim True) ''u2'' = Some \<lparr>u_ID = ''u2'', u_UserName = ''bob'', u_Active = True\<rparr>"
    by (simp_all add: example_scim_def)
  have "holds_grant (example_scim True) ''bob'' grant \<longleftrightarrow> grant = \<lparr>gg_tenant = ''acme'', gg_role = ''admin'', gg_isGlobal = False\<rparr>" for grant
    unfolding holds_grant_def groups by (auto simp: example_admins_def example_everyone_def example_group_names users)
  then have "\<exists>grant. holds_grant (example_scim True) ''bob'' grant \<and> gg_role grant = ''admin'' \<and> (gg_isGlobal grant \<or> gg_tenant grant = ''acme'')"
    "\<nexists>grant. holds_grant (example_scim True) ''bob'' grant \<and> gg_role grant = ''admin'' \<and> (gg_isGlobal grant \<or> gg_tenant grant = ''other'')"
    by simp_all
  note authorize = this
  show ?thesis
    by (intro exI [of _ b] conjI b(1); subst scim_authority_is_membership [OF example_scim_reachable b])
      (use authorize in simp_all)
qed

lemma deactivated_holds_nothing:
  assumes "scim_reachable s" and "ps_users s i = Some u" and "range_order gs (ps_groups s)"
    and "s' = snd (PatchUserActive inmemory_bindingSink gs i False s) \<or> s' = snd (DeleteUser inmemory_bindingSink gs i s)"
  shows "scim_reachable s' \<and> \<not> holds_grant s' (u_UserName u) grant"
proof
  have "scim_reachable (scim_step inmemory_bindingSink (OpPatchUserActive gs i False) s)"
    "scim_reachable (scim_step inmemory_bindingSink (OpDeleteUser gs i) s)"
    using assms(1,3) by (auto intro!: scim_reachable.step simp del: scim_step.simps)
  with assms(4) show reach: "scim_reachable s'"
    by auto
  have ix: "indexed (ps_users s) u_UserName (ps_userNameToID s)"
    using scim_reachable_inv [OF assms(1)] by (simp add: inmemory_bindings.prov_inv_def)
  have users: "ps_users s' = (ps_users s)(i := Some (u\<lparr>u_Active := False\<rparr>)) \<or> ps_users s' = (ps_users s)(i := None)"
    using assms(2,4)
    by (auto simp: PatchUserActive_def DeleteUser_def resyncAllGroupsLocked_def inmemory_bindings.fold_sync_frame)
  then have "\<not> u_Active v" if "ps_users s' j = Some v" "u_UserName v = u_UserName u" for j v
    using that indexed_unique [OF ix _ assms(2), of j] by (cases "j = i") auto
  then show "\<not> holds_grant s' (u_UserName u) grant"
    unfolding holds_grant_def by blast
qed

text \<open>
  Offboarding takes effect at once: when the identity provider deactivates or deletes a user, no provisioned
  binding of that user's name is left, in whatever groups the user still is.
\<close>

theorem offboarding_revokes_bindings:
  assumes "scim_reachable s" and "ps_users s i = Some u" and "range_order gs (ps_groups s)"
    and "s' = snd (PatchUserActive inmemory_bindingSink gs i False s) \<or> s' = snd (DeleteUser inmemory_bindingSink gs i s)"
    and "ps_bindings s' = Some b" and "range_order ks (bst_groupMembers b)"
  shows "Bindings ks b (u_UserName u) = ([], [])"
proof -
  have "scim_reachable s'" and none: "\<And>grant. \<not> holds_grant s' (u_UserName u) grant"
    using deactivated_holds_nothing [OF assms(1-4)] by auto
  from bindings_of_grants [OF this(1) assms(5,6), of "u_UserName u"] none
  have "set (fst (Bindings ks b (u_UserName u))) = {}" "set (snd (Bindings ks b (u_UserName u))) = {}"
    by auto
  then show ?thesis
    by (simp add: prod_eq_iff)
qed

theorem offboarding_revokes_bindings_witness:
  "\<exists>b b'. ps_bindings (example_scim True) = Some b \<and> Bindings [''wardline:tenant-acme:role-admin''] b ''bob'' \<noteq> ([], []) \<and>
     ps_bindings (snd (PatchUserActive inmemory_bindingSink [''g2'', ''g1''] ''u2'' False (example_scim True))) = Some b' \<and>
     Bindings [''wardline:tenant-acme:role-admin''] b' ''bob'' = ([], [])"
proof -
  obtain b where b: "ps_bindings (example_scim True) = Some b" "Bindings [''wardline:tenant-acme:role-admin''] b ''bob'' \<noteq> ([], [])"
    by (simp add: example_scim_def Bindings_def range_entries_def List.map_filter_simps stored_grant_def)
  obtain b' where b': "ps_bindings (example_scim False) = Some b'" "range_order [''wardline:tenant-acme:role-admin''] (bst_groupMembers b')"
    by (simp add: example_scim_def range_order_def)
  have u: "ps_users (example_scim True) ''u2'' = Some \<lparr>u_ID = ''u2'', u_UserName = ''bob'', u_Active = True\<rparr>"
    and gs: "range_order [''g2'', ''g1''] (ps_groups (example_scim True))"
    by (auto simp: example_scim_def range_order_def)
  have "Bindings [''wardline:tenant-acme:role-admin''] b' ''bob'' = ([], [])"
    using offboarding_revokes_bindings [OF example_scim_reachable u gs disjI1 [OF example_scim_patched] b'] by simp
  then show ?thesis
    using b b'(1) example_scim_patched by auto
qed

end
