(* ===== verification/Federation.thy ===== *)
theory Federation
  imports Keys Ring_Buffer "HOL-Library.Char_ord" "HOL-Library.List_Lexorder"
begin

text \<open>
  Cross-instance anomaly correlation, \<open>internal/features/federation\<close>: an instance aggregates its local alerts into
  pseudonymous summaries (\<open>usecase/aggregator.go\<close>), signs and pushes them to its peers (\<open>usecase/publisher.go\<close>), accepts
  the batches of its peers (\<open>adapter/handler.go\<close>), and correlates the sightings of all instances
  (\<open>usecase/correlator.go\<close>, \<open>usecase/gc.go\<close>) into alerts kept in a bounded buffer (\<open>usecase/alert_buffer.go\<close>).

  The keyed hash, the signature scheme, the JSON codec of a batch and the transport are parameters: \<open>fp\<close> is
  \<open>Fingerprint\<close> under the group's secret, \<open>marshal\<close>, \<open>sign\<close>, \<open>verify\<close> and \<open>send\<close> are what the code calls. A request body
  is given as what the decoder makes of it.
\<close>

section \<open>Summaries\<close>

fun kind_text :: "Kind \<Rightarrow> string" where
  "kind_text KindRateSpike = ''rate_spike''"
| "kind_text KindNovelTool = ''novel_tool''"
| "kind_text KindDenyRateSpike = ''deny_rate_spike''"
| "kind_text KindMLScore = ''ml_score''"
| "kind_text KindDrift = ''drift_detection''"
| "kind_text KindTenantDrift = ''tenant_aggregate_spike''"
| "kind_text KindIdentityChurn = ''identity_churn''"

text \<open>The kind in a summary is any string: it may come from a peer.\<close>

record AnomalySummary =
  as_Fingerprint :: string
  as_Tenant :: string
  as_Kind :: string
  as_Count :: int
  as_WindowStart :: go_time
  as_WindowEnd :: go_time

type_synonym summary_key = "string \<times> string \<times> string" \<comment> \<open>tenant, fingerprint, kind\<close>

definition aggregate_key :: "(string \<Rightarrow> string) \<Rightarrow> 'f Anomaly \<Rightarrow> summary_key" where
  "aggregate_key fp a = (an_Tenant a, fp (an_Identity a), kind_text (an_Kind a))"

definition in_window :: "go_time \<Rightarrow> go_time \<Rightarrow> go_time \<Rightarrow> bool" where
  "in_window windowStart windowEnd t \<longleftrightarrow> \<not> (t < windowStart \<or> \<not> t < windowEnd)"

fun aggregate_loop ::
  "(string \<Rightarrow> string) \<Rightarrow> go_time \<Rightarrow> go_time \<Rightarrow> 'f Anomaly list \<Rightarrow> (summary_key \<rightharpoonup> int) \<Rightarrow> summary_key list \<Rightarrow>
   (summary_key \<rightharpoonup> int) \<times> summary_key list" where
  "aggregate_loop fp windowStart windowEnd [] counts order = (counts, order)"
| "aggregate_loop fp windowStart windowEnd (a # anomalies) counts order =
     (if \<not> in_window windowStart windowEnd (an_Timestamp a)
      then aggregate_loop fp windowStart windowEnd anomalies counts order
      else let k = aggregate_key fp a;
               order = (if counts k = None then order @ [k] else order)
           in aggregate_loop fp windowStart windowEnd anomalies (counts(k \<mapsto> lookup0 counts k + 1)) order)"

definition Aggregate :: "(string \<Rightarrow> string) \<Rightarrow> 'f Anomaly list \<Rightarrow> go_time \<Rightarrow> go_time \<Rightarrow> AnomalySummary list" where
  "Aggregate fp anomalies windowStart windowEnd =
     (let (counts, order) = aggregate_loop fp windowStart windowEnd anomalies Map.empty []
      in map (\<lambda>(tenant, fingerprint, kind).
           \<lparr>as_Fingerprint = fingerprint, as_Tenant = tenant, as_Kind = kind,
            as_Count = lookup0 counts (tenant, fingerprint, kind), as_WindowStart = windowStart, as_WindowEnd = windowEnd\<rparr>)
         order)"

section \<open>Publishing\<close>

record 'k Peer =
  pe_ID :: string
  pe_Endpoint :: string
  pe_PublicKey :: 'k

record SignedSummaryBatch =
  sb_InstanceID :: string
  sb_Summaries :: "AnomalySummary list"
  sb_Signature :: string

datatype publish_error = MarshalError string | SignError string | SendError string string

record ('f, 'k, 's) Publisher =
  pu_instanceID :: string
  pu_reader :: "int \<Rightarrow> int \<Rightarrow> string \<Rightarrow> 's \<Rightarrow> 'f Alert list"
  pu_peers :: "'k Peer list"
  pu_fingerprint :: "string \<Rightarrow> string"
  pu_marshal :: "string \<Rightarrow> AnomalySummary list \<Rightarrow> string + string"
  pu_sign :: "string \<Rightarrow> string + string"
  pu_send :: "string \<Rightarrow> SignedSummaryBatch \<Rightarrow> 's \<Rightarrow> string option \<times> 's"
  pu_windowSecs :: int

fun max_alert_id :: "'f Alert list \<Rightarrow> int \<Rightarrow> int" where
  "max_alert_id [] maxID = maxID"
| "max_alert_id (a # alerts) maxID = max_alert_id alerts (if al_ID a > maxID then al_ID a else maxID)"

fun extend_window :: "'f Anomaly list \<Rightarrow> go_time \<Rightarrow> go_time" where
  "extend_window [] windowStart = windowStart"
| "extend_window (a # anomalies) windowStart =
     extend_window anomalies (if an_Timestamp a < windowStart then an_Timestamp a else windowStart)"

fun send_all ::
  "(string \<Rightarrow> SignedSummaryBatch \<Rightarrow> 's \<Rightarrow> string option \<times> 's) \<Rightarrow> SignedSummaryBatch \<Rightarrow> 'k Peer list \<Rightarrow> 's \<Rightarrow>
   publish_error list \<times> 's" where
  "send_all send batch [] s = ([], s)"
| "send_all send batch (peer # peers) s =
     (let (err, s) = send (pe_Endpoint peer) batch s;
          (errs, s) = send_all send batch peers s
      in ((case err of None \<Rightarrow> errs | Some e \<Rightarrow> SendError (pe_ID peer) e # errs), s))"

text \<open>The first component of the state is the publisher's read cursor \<open>lastReadID\<close>.\<close>

definition PublishOnce ::
  "('f, 'k, 's) Publisher \<Rightarrow> go_time \<Rightarrow> int \<times> 's \<Rightarrow> (AnomalySummary list \<times> publish_error list) \<times> int \<times> 's" where
  "PublishOnce p now st =
     (let (lastReadID, s) = st; alerts = pu_reader p lastReadID 0 [] s
      in if alerts = [] then (([], []), lastReadID, s)
         else
           let anomalies = map al_Anomaly alerts;
               lastReadID = max_alert_id alerts 0;
               windowStart = extend_window anomalies (now + wrap64 (- wrap64 (pu_windowSecs p * second)));
               summaries = Aggregate (pu_fingerprint p) anomalies windowStart now
           in if summaries = [] then (([], []), lastReadID, s)
              else case pu_marshal p (pu_instanceID p) summaries of
                     Inl e \<Rightarrow> ((summaries, [MarshalError e]), lastReadID, s)
                   | Inr payload \<Rightarrow>
                       (case pu_sign p payload of
                          Inl e \<Rightarrow> ((summaries, [SignError e]), lastReadID, s)
                        | Inr sig \<Rightarrow>
                            let (errs, s) = send_all (pu_send p)
                                  \<lparr>sb_InstanceID = pu_instanceID p, sb_Summaries = summaries, sb_Signature = sig\<rparr> (pu_peers p) s
                            in ((summaries, errs), lastReadID, s)))"

section \<open>Correlation\<close>

record FederationConfig =
  fc_PublishIntervalSeconds :: int
  fc_MinInstancesForCorrelation :: int
  fc_CorrelationWindowSeconds :: int
  fc_GCIntervalSeconds :: int

record CorrelatedAlert =
  ca_Fingerprint :: string
  ca_Tenant :: string
  ca_Kind :: string
  ca_InstanceIDs :: "string list"
  ca_FirstSeen :: go_time
  ca_LastSeen :: go_time

record fingerprintState =
  fs_instances :: "string \<rightharpoonup> go_time"
  fs_flaggedAt :: go_time

record Correlator =
  co_cfg :: FederationConfig
  co_state :: "string \<rightharpoonup> (string \<rightharpoonup> fingerprintState)"

definition NewCorrelator :: "FederationConfig \<Rightarrow> Correlator" where
  "NewCorrelator cfg = \<lparr>co_cfg = cfg, co_state = Map.empty\<rparr>"

definition fresh_fingerprintState :: fingerprintState where
  "fresh_fingerprintState = \<lparr>fs_instances = Map.empty, fs_flaggedAt = 0\<rparr>"

fun recent_instances :: "go_time \<Rightarrow> (string \<times> go_time) list \<Rightarrow> string list \<Rightarrow> go_time \<Rightarrow> string list \<times> go_time" where
  "recent_instances cutoff [] found firstSeen = (found, firstSeen)"
| "recent_instances cutoff ((i, seen) # es) found firstSeen =
     (if time_after seen cutoff
      then recent_instances cutoff es (found @ [i])
             (if time_is_zero firstSeen \<or> seen < firstSeen then seen else firstSeen)
      else recent_instances cutoff es found firstSeen)"

definition correlation_window :: "FederationConfig \<Rightarrow> duration" where
  "correlation_window cfg = wrap64 (fc_CorrelationWindowSeconds cfg * second)"

text \<open>\<open>ks\<close> is the order in which the loop visits the instances of the pair.\<close>

definition recordAndCheck ::
  "go_time \<Rightarrow> string list \<Rightarrow> string \<Rightarrow> AnomalySummary \<Rightarrow> Correlator \<Rightarrow> CorrelatedAlert option \<times> Correlator" where
  "recordAndCheck now ks instanceID s c =
     (let stateKey = tenant_Key (as_Tenant s) (as_Fingerprint s);
          byKind = (case co_state c stateKey of Some m \<Rightarrow> m | None \<Rightarrow> Map.empty);
          st = (case byKind (as_Kind s) of Some st \<Rightarrow> st | None \<Rightarrow> fresh_fingerprintState);
          st = st\<lparr>fs_instances := (fs_instances st)(instanceID \<mapsto> now)\<rparr>;
          store = (\<lambda>st. c\<lparr>co_state := (co_state c)(stateKey \<mapsto> byKind(as_Kind s \<mapsto> st))\<rparr>);
          window = correlation_window (co_cfg c)
      in if \<not> time_is_zero (fs_flaggedAt st) \<and> time_sub now (fs_flaggedAt st) < window then (None, store st)
         else
           let (found, firstSeen) = recent_instances (now + wrap64 (- window)) (range_entries ks (fs_instances st)) [] 0
           in if int (length found) < fc_MinInstancesForCorrelation (co_cfg c) then (None, store st)
              else (Some \<lparr>ca_Fingerprint = as_Fingerprint s, ca_Tenant = as_Tenant s, ca_Kind = as_Kind s,
                       ca_InstanceIDs = sort found, ca_FirstSeen = firstSeen, ca_LastSeen = now\<rparr>,
                    store (st\<lparr>fs_flaggedAt := now\<rparr>)))"

definition Ingest ::
  "(CorrelatedAlert \<Rightarrow> 's \<Rightarrow> 's) \<Rightarrow> go_time \<Rightarrow> string list \<Rightarrow> string \<Rightarrow> AnomalySummary \<Rightarrow> Correlator \<times> 's \<Rightarrow> Correlator \<times> 's" where
  "Ingest onAlert now ks instanceID s cs =
     (case recordAndCheck now ks instanceID s (fst cs) of
        (Some alert, c) \<Rightarrow> (c, onAlert alert (snd cs))
      | (None, c) \<Rightarrow> (c, snd cs))"

text \<open>
  \<open>kinds\<close> and \<open>ids\<close> are the orders of the inner loops. \<open>len (byKind) = 0\<close> is that no kind is left to visit.
\<close>

definition GCCorrelatorOnce ::
  "(string \<Rightarrow> string list) \<Rightarrow> (string \<Rightarrow> string \<Rightarrow> string list) \<Rightarrow> go_time \<Rightarrow> duration \<Rightarrow> Correlator \<Rightarrow> Correlator" where
  "GCCorrelatorOnce kinds ids now interval c =
     (let cutoff = now + wrap64 (- 2 * interval);
          stillFresh = (\<lambda>stateKey kind st. list_ex (\<lambda>(_, seen). time_after seen cutoff)
                          (range_entries (ids stateKey kind) (fs_instances st)))
      in c\<lparr>co_state := (\<lambda>stateKey.
           case co_state c stateKey of
             None \<Rightarrow> None
           | Some byKind \<Rightarrow>
               let byKind = map_keep (stillFresh stateKey) byKind
               in if range_entries (kinds stateKey) byKind = [] then None else Some byKind)\<rparr>)"

definition CorrelatorHasFingerprint :: "Correlator \<Rightarrow> string \<Rightarrow> string \<Rightarrow> bool" where
  "CorrelatorHasFingerprint c tenantName fingerprint \<longleftrightarrow> co_state c (tenant_Key tenantName fingerprint) \<noteq> None"

section \<open>The buffer of correlated alerts\<close>

record CorrelatedAlertEntry =
  ce_ID :: int
  ce_Alert :: CorrelatedAlert

record CorrelatedAlertBuffer =
  cb_cap :: int
  cb_entries :: "CorrelatedAlertEntry list"
  cb_nextID :: int

definition NewCorrelatedAlertBuffer :: "int \<Rightarrow> CorrelatedAlertBuffer" where
  "NewCorrelatedAlertBuffer capacity =
     (let capacity = (if capacity < 1 then 1 else capacity)
      in \<lparr>cb_cap = capacity, cb_entries = [], cb_nextID = 0\<rparr>)"

definition CorrelatedAlertBuffer_Add :: "CorrelatedAlert \<Rightarrow> CorrelatedAlertBuffer \<Rightarrow> CorrelatedAlertBuffer" where
  "CorrelatedAlertBuffer_Add a b =
     (let b = b\<lparr>cb_nextID := cb_nextID b + 1\<rparr>;
          entry = \<lparr>ce_ID = cb_nextID b, ce_Alert = a\<rparr>;
          b = (if cb_cap b \<le> int (length (cb_entries b)) then b\<lparr>cb_entries := drop 1 (cb_entries b)\<rparr> else b)
      in b\<lparr>cb_entries := cb_entries b @ [entry]\<rparr>)"

definition CorrelatedAlertBuffer_Since :: "CorrelatedAlertBuffer \<Rightarrow> int \<Rightarrow> int \<Rightarrow> string \<Rightarrow> CorrelatedAlertEntry list" where
  "CorrelatedAlertBuffer_Since b afterID limit tenantFilter =
     (let afterID = (if afterID > cb_nextID b then 0 else afterID);
          out = filter (\<lambda>e. ce_ID e > afterID \<and> (tenantFilter = [] \<or> ca_Tenant (ce_Alert e) = tenantFilter)) (cb_entries b)
      in keep_last limit out)"

section \<open>Accepting a peer's batch\<close>

record federation_request =
  fr_Method :: string
  fr_Body :: "SignedSummaryBatch option" \<comment> \<open>what the decoder reads, within the size limit\<close>

definition maxBatchAge :: duration where
  "maxBatchAge = 600 * second"

fun latest_window_end :: "AnomalySummary list \<Rightarrow> go_time \<Rightarrow> go_time" where
  "latest_window_end [] maxWindowEnd = maxWindowEnd"
| "latest_window_end (s # ss) maxWindowEnd =
     latest_window_end ss (if time_after (as_WindowEnd s) maxWindowEnd then as_WindowEnd s else maxWindowEnd)"

definition isStale :: "go_time \<Rightarrow> AnomalySummary list \<Rightarrow> bool" where
  "isStale now summaries =
     (let maxWindowEnd = latest_window_end summaries 0
      in if time_is_zero maxWindowEnd then False else time_sub now maxWindowEnd > maxBatchAge)"

definition NewHandler_peers :: "'k Peer list \<Rightarrow> (string \<rightharpoonup> 'k Peer)" where
  "NewHandler_peers peers = fold (\<lambda>p m. m(pe_ID p \<mapsto> p)) peers Map.empty"

definition federation_ServeHTTP ::
  "('k Peer list) \<Rightarrow> (string \<Rightarrow> AnomalySummary \<Rightarrow> 's \<Rightarrow> 's) \<Rightarrow> (string \<Rightarrow> AnomalySummary list \<Rightarrow> string + string) \<Rightarrow>
   (string \<Rightarrow> string \<Rightarrow> 'k \<Rightarrow> bool) \<Rightarrow> go_time \<Rightarrow> federation_request \<Rightarrow> 's \<Rightarrow> int \<times> 's" where
  "federation_ServeHTTP peers ingest marshal verify now r s =
     (if fr_Method r \<noteq> ''POST'' then (405, s)
      else case fr_Body r of
             None \<Rightarrow> (400, s)
           | Some body \<Rightarrow>
               (case NewHandler_peers peers (sb_InstanceID body) of
                  None \<Rightarrow> (401, s)
                | Some peer \<Rightarrow>
                    (case marshal (sb_InstanceID body) (sb_Summaries body) of
                       Inl _ \<Rightarrow> (500, s)
                     | Inr payload \<Rightarrow>
                         if \<not> verify payload (sb_Signature body) (pe_PublicKey peer) then (401, s)
                         else if isStale now (sb_Summaries body) then (401, s)
                         else (200, fold (ingest (sb_InstanceID body)) (sb_Summaries body) s))))"

text \<open>Loading the peers: \<open>readKey\<close> reads and parses a public key file.\<close>

record peerEntry =
  pf_ID :: string
  pf_Endpoint :: string
  pf_PublicKeyFile :: string

datatype peers_error = PeersFileUnreadable | DuplicatePeer string | PeerKeyUnreadable string string

fun load_peers :: "(string \<Rightarrow> 'k option) \<Rightarrow> peerEntry list \<Rightarrow> string set \<Rightarrow> 'k Peer list \<Rightarrow> peers_error + 'k Peer list" where
  "load_peers readKey [] seen peers = Inr peers"
| "load_peers readKey (e # es) seen peers =
     (if pf_ID e \<in> seen then Inl (DuplicatePeer (pf_ID e))
      else case readKey (pf_PublicKeyFile e) of
             None \<Rightarrow> Inl (PeerKeyUnreadable (pf_PublicKeyFile e) (pf_ID e))
           | Some k \<Rightarrow> load_peers readKey es (insert (pf_ID e) seen)
               (peers @ [\<lparr>pe_ID = pf_ID e, pe_Endpoint = pf_Endpoint e, pe_PublicKey = k\<rparr>]))"

definition LoadPeers :: "peerEntry list option \<Rightarrow> (string \<Rightarrow> 'k option) \<Rightarrow> peers_error + 'k Peer list" where
  "LoadPeers decoded readKey =
     (case decoded of None \<Rightarrow> Inl PeersFileUnreadable | Some es \<Rightarrow> load_peers readKey es {} [])"

section \<open>Summaries are exact and pseudonymous\<close>

definition summary_key_of :: "AnomalySummary \<Rightarrow> summary_key" where
  "summary_key_of s = (as_Tenant s, as_Fingerprint s, as_Kind s)"

definition windowed :: "(string \<Rightarrow> string) \<Rightarrow> go_time \<Rightarrow> go_time \<Rightarrow> 'f Anomaly list \<Rightarrow> summary_key list" where
  "windowed fp ws we xs = map (aggregate_key fp) (filter (\<lambda>a. in_window ws we (an_Timestamp a)) xs)"

lemma aggregate_loop_counts:
  "fst (aggregate_loop fp ws we xs counts order) k =
     (let n = count_list (windowed fp ws we xs) k in if n = 0 then counts k else Some (lookup0 counts k + int n))"
  by (induction xs arbitrary: counts order) (auto simp: windowed_def lookup0_def)

lemma aggregate_loop_order:
  assumes "set order = dom counts" "distinct order"
  shows "set (snd (aggregate_loop fp ws we xs counts order)) = dom counts \<union> set (windowed fp ws we xs) \<and>
    distinct (snd (aggregate_loop fp ws we xs counts order))"
  using assms
proof (induction xs arbitrary: counts order)
  case (Cons a xs)
  let ?k = "aggregate_key fp a"
  let ?order = "if counts ?k = None then order @ [?k] else order"
  have "set ?order = dom (counts(?k \<mapsto> lookup0 counts ?k + 1))" "distinct ?order"
    using Cons.prems by auto
  note IH = Cons.IH [OF this]
  show ?case
  proof (cases "in_window ws we (an_Timestamp a)")
    case True
    have "dom (counts(?k \<mapsto> lookup0 counts ?k + 1)) \<union> set (windowed fp ws we xs) = dom counts \<union> set (windowed fp ws we (a # xs))"
      using True by (auto simp: windowed_def)
    then show ?thesis
      using IH True by (simp del: fun_upd_apply dom_fun_upd)
  next
    case False
    then show ?thesis
      using Cons.IH [OF Cons.prems] by (simp add: windowed_def)
  qed
qed (simp add: windowed_def)

lemma Aggregate_keys:
  "map summary_key_of (Aggregate fp xs ws we) = snd (aggregate_loop fp ws we xs Map.empty [])"
  by (simp add: Aggregate_def case_prod_beta summary_key_of_def comp_def)

lemma Aggregate_counts:
  "s \<in> set (Aggregate fp xs ws we) \<Longrightarrow>
     as_Count s = int (count_list (windowed fp ws we xs) (summary_key_of s)) \<and> as_WindowStart s = ws \<and> as_WindowEnd s = we"
  using aggregate_loop_counts [of fp ws we xs Map.empty "[]"]
  by (auto simp: Aggregate_def case_prod_beta summary_key_of_def lookup0_def)

text \<open>What is left of an anomaly once its identity is replaced by the fingerprint and the rest is blanked.\<close>

definition pseudonym :: "(string \<Rightarrow> string) \<Rightarrow> Entry \<Rightarrow> 'f Anomaly \<Rightarrow> 'f Anomaly" where
  "pseudonym fp e a = a\<lparr>an_Identity := fp (an_Identity a), an_Detail := [], an_Entry := e, an_Score := None,
     an_AutoBlockSeconds := 0\<rparr>"

lemma Aggregate_pseudonym: "Aggregate id (map (pseudonym fp e) xs) ws we = Aggregate fp xs ws we"
proof -
  have "aggregate_loop id ws we (map (pseudonym fp e) xs) counts order = aggregate_loop fp ws we xs counts order" for counts order
    by (induction xs arbitrary: counts order) (simp_all add: pseudonym_def aggregate_key_def)
  then show ?thesis by (simp add: Aggregate_def)
qed

text \<open>
  The summaries of a window are exact and pseudonymous. There is one summary per tenant, fingerprint and kind
  that occurs among the anomalies of the window, its count is the number of these anomalies, and the result is
  what one gets from anomalies whose identity was replaced by its fingerprint and whose detail, audit entry and
  score were erased beforehand.
\<close>

theorem aggregate_exact:
  "set (map summary_key_of (Aggregate fp xs ws we)) = set (windowed fp ws we xs) \<and>
   distinct (map summary_key_of (Aggregate fp xs ws we)) \<and>
   list_all (\<lambda>s. as_Count s = int (count_list (windowed fp ws we xs) (summary_key_of s)) \<and>
     as_WindowStart s = ws \<and> as_WindowEnd s = we) (Aggregate fp xs ws we) \<and>
   Aggregate fp xs ws we = Aggregate id (map (pseudonym fp e) xs) ws we"
  using aggregate_loop_order [of "[]" Map.empty fp ws we xs]
  by (simp add: Aggregate_pseudonym Aggregate_keys del: set_map) (simp add: list_all_iff Aggregate_counts)

section \<open>The buffer of correlated alerts is a ring\<close>

interpretation correlated_ring: ring "NewCorrelatedAlertBuffer c" CorrelatedAlertBuffer_Add cb_entries cb_nextID
    "\<lambda>b. cb_cap b = int (effective_cap c)" "effective_cap c" "\<lambda>i a. \<lparr>ce_ID = i, ce_Alert = a\<rparr>"
  for c
  by unfold_locales (auto simp: NewCorrelatedAlertBuffer_def CorrelatedAlertBuffer_Add_def int_effective_cap effective_cap_def)

lemma correlated_view_exact:
  "CorrelatedAlertBuffer_Since (fold CorrelatedAlertBuffer_Add xs (NewCorrelatedAlertBuffer c)) afterID limit tenantFilter =
     keep_last limit
       (filter (\<lambda>e. (if int (length xs) < afterID then 0 else afterID) < ce_ID e \<and>
            (tenantFilter = [] \<or> ca_Tenant (ce_Alert e) = tenantFilter))
          (last_n (effective_cap c) (numbered (\<lambda>i a. \<lparr>ce_ID = i, ce_Alert = a\<rparr>) xs)))"
  using correlated_ring.after_adds [where c = c and xs = xs] by (simp add: CorrelatedAlertBuffer_Since_def)

section \<open>Only a registered peer's signed batch is ingested\<close>

lemma load_peers_Inr:
  assumes "load_peers readKey es seen peers = Inr ps" "pe_ID ` set peers \<subseteq> seen" "distinct (map pe_ID peers)"
  shows "distinct (map pe_ID ps) \<and>
    (\<exists>new. ps = peers @ new \<and> map (\<lambda>p. (pe_ID p, pe_Endpoint p, Some (pe_PublicKey p))) new =
       map (\<lambda>e. (pf_ID e, pf_Endpoint e, readKey (pf_PublicKeyFile e))) es)"
  using assms
proof (induction es arbitrary: seen peers)
  case (Cons e es)
  then obtain k where k: "readKey (pf_PublicKeyFile e) = Some k" "pf_ID e \<notin> seen"
    by (auto split: if_splits option.splits)
  let ?p = "\<lparr>pe_ID = pf_ID e, pe_Endpoint = pf_Endpoint e, pe_PublicKey = k\<rparr>"
  have "load_peers readKey es (insert (pf_ID e) seen) (peers @ [?p]) = Inr ps"
    using Cons.prems k by simp
  moreover have "pe_ID ` set (peers @ [?p]) \<subseteq> insert (pf_ID e) seen" "distinct (map pe_ID (peers @ [?p]))"
    using Cons.prems k by auto
  ultimately obtain new where "distinct (map pe_ID ps)" "ps = (peers @ [?p]) @ new"
    "map (\<lambda>p. (pe_ID p, pe_Endpoint p, Some (pe_PublicKey p))) new =
       map (\<lambda>e. (pf_ID e, pf_Endpoint e, readKey (pf_PublicKeyFile e))) es"
    using Cons.IH by blast
  then show ?case
    using k by (intro conjI exI [of _ "?p # new"]) auto
qed simp

lemma NewHandler_peers_lookup:
  assumes "distinct (map pe_ID peers)"
  shows "NewHandler_peers peers i = Some p \<longleftrightarrow> p \<in> set peers \<and> pe_ID p = i"
proof -
  have "fold (\<lambda>p m. m(pe_ID p \<mapsto> p)) ps m i = Some p \<longleftrightarrow>
      p \<in> set ps \<and> pe_ID p = i \<or> i \<notin> pe_ID ` set ps \<and> m i = Some p" if "distinct (map pe_ID ps)" for ps m
    using that by (induction ps arbitrary: m) (auto simp: image_iff split: if_splits)
  from this [OF assms] show ?thesis
    by (simp add: NewHandler_peers_def)
qed

text \<open>What a batch has to be, in terms of the peers file.\<close>

definition batch_accepted ::
  "peerEntry list \<Rightarrow> (string \<Rightarrow> 'k option) \<Rightarrow> (string \<Rightarrow> AnomalySummary list \<Rightarrow> string + string) \<Rightarrow>
   (string \<Rightarrow> string \<Rightarrow> 'k \<Rightarrow> bool) \<Rightarrow> go_time \<Rightarrow> federation_request \<Rightarrow> bool" where
  "batch_accepted es readKey marshal verify now r \<longleftrightarrow>
     fr_Method r = ''POST'' \<and>
     (case fr_Body r of
        None \<Rightarrow> False
      | Some body \<Rightarrow>
          \<not> isStale now (sb_Summaries body) \<and>
          (case marshal (sb_InstanceID body) (sb_Summaries body) of
             Inl _ \<Rightarrow> False
           | Inr payload \<Rightarrow>
               list_ex (\<lambda>e. pf_ID e = sb_InstanceID body \<and>
                 (case readKey (pf_PublicKeyFile e) of None \<Rightarrow> False | Some key \<Rightarrow> verify payload (sb_Signature body) key)) es))"

text \<open>
  C28. No partial trust. With a peers file that loads, a batch is accepted exactly when it is posted, decodes, names a
  configured peer, verifies under the public key the file gives for that peer, and is not stale; then every summary
  of it is ingested under that peer's id, and otherwise none is.
\<close>

theorem batch_ingested_iff_signed:
  assumes "LoadPeers (Some es) readKey = Inr peers"
  shows "snd (federation_ServeHTTP peers ingest marshal verify now r s) =
      (if batch_accepted es readKey marshal verify now r
       then fold (ingest (sb_InstanceID (the (fr_Body r)))) (sb_Summaries (the (fr_Body r))) s else s) \<and>
    (fst (federation_ServeHTTP peers ingest marshal verify now r s) = 200 \<longleftrightarrow> batch_accepted es readKey marshal verify now r)"
proof -
  have peers: "distinct (map pe_ID peers)" "map (\<lambda>p. (pe_ID p, pe_Endpoint p, Some (pe_PublicKey p))) peers =
      map (\<lambda>e. (pf_ID e, pf_Endpoint e, readKey (pf_PublicKeyFile e))) es"
    using load_peers_Inr [OF assms [unfolded LoadPeers_def, simplified]] by auto
  from peers(2) have entry: "(\<exists>p \<in> set peers. pe_ID p = i \<and> pe_PublicKey p = key) \<longleftrightarrow>
      (\<exists>e \<in> set es. pf_ID e = i \<and> readKey (pf_PublicKeyFile e) = Some key)" for i key
  proof (induction peers arbitrary: es)
    case (Cons p peers)
    then obtain e es' where "es = e # es'" "pe_ID p = pf_ID e" "Some (pe_PublicKey p) = readKey (pf_PublicKeyFile e)"
      "map (\<lambda>p. (pe_ID p, pe_Endpoint p, Some (pe_PublicKey p))) peers =
         map (\<lambda>e. (pf_ID e, pf_Endpoint e, readKey (pf_PublicKeyFile e))) es'"
      by (cases es) auto
    then show ?case
      using Cons.IH [of es'] by (simp, metis option.inject)
  qed simp
  have lookup: "(\<exists>p. NewHandler_peers peers i = Some p \<and> pe_PublicKey p = key) \<longleftrightarrow>
      (\<exists>e \<in> set es. pf_ID e = i \<and> readKey (pf_PublicKeyFile e) = Some key)" for i key
    using entry [of i key] NewHandler_peers_lookup [OF peers(1), of i] by blast
  show ?thesis
  proof (cases "fr_Body r")
    case None
    then show ?thesis by (simp add: federation_ServeHTTP_def batch_accepted_def)
  next
    case (Some body)
    note lookup = lookup [of "sb_InstanceID body"]
    show ?thesis
    proof (cases "NewHandler_peers peers (sb_InstanceID body)")
      case None
      then have "readKey (pf_PublicKeyFile e) = None" if "e \<in> set es" "pf_ID e = sb_InstanceID body" for e
        using lookup that by (cases "readKey (pf_PublicKeyFile e)") auto
      then show ?thesis
        using None Some by (auto simp: federation_ServeHTTP_def batch_accepted_def list_ex_iff split: sum.splits)
    next
      case peer: (Some peer)
      have uniq: "key = pe_PublicKey peer"
        if "e \<in> set es" "pf_ID e = sb_InstanceID body" "readKey (pf_PublicKeyFile e) = Some key" for e key
        using lookup [of key] peer that by auto
      obtain e where "e \<in> set es" "pf_ID e = sb_InstanceID body" "readKey (pf_PublicKeyFile e) = Some (pe_PublicKey peer)"
        using lookup [of "pe_PublicKey peer"] peer by auto
      then show ?thesis
        using Some peer by (cases "marshal (sb_InstanceID body) (sb_Summaries body)")
          (auto simp: federation_ServeHTTP_def batch_accepted_def list_ex_iff split: option.splits dest: uniq)
    qed
  qed
qed

definition example_summary :: "string \<Rightarrow> go_time \<Rightarrow> AnomalySummary" where
  "example_summary tenant we = \<lparr>as_Fingerprint = ''f1'', as_Tenant = tenant, as_Kind = ''rate_spike'', as_Count = 1,
     as_WindowStart = 0, as_WindowEnd = we\<rparr>"

text \<open>A toy signature for the concrete instance: the payload under the key's name.\<close>

theorem batch_ingested_iff_signed_witness:
  "let es = [\<lparr>pf_ID = ''eu'', pf_Endpoint = ''e'', pf_PublicKeyFile = ''eu.pem''\<rparr>];
       r = (\<lambda>sig. \<lparr>fr_Method = ''POST'', fr_Body = Some \<lparr>sb_InstanceID = ''eu'', sb_Summaries = [example_summary ''acme'' 5],
             sb_Signature = sig\<rparr>\<rparr>);
       serve = (\<lambda>sig. federation_ServeHTTP [\<lparr>pe_ID = ''eu'', pe_Endpoint = ''e'', pe_PublicKey = ''K''\<rparr>]
         (\<lambda>i s n. n + 1) (\<lambda>i ss. Inr i) (\<lambda>payload sig key. sig = key @ payload) 10 (r sig) (0 :: nat))
   in fst (serve ''Keu'') = 200 \<and> snd (serve ''Keu'') = 1 \<and> fst (serve ''forged'') \<noteq> 200 \<and> snd (serve ''forged'') = 0"
proof -
  let ?es = "[\<lparr>pf_ID = ''eu'', pf_Endpoint = ''e'', pf_PublicKeyFile = ''eu.pem''\<rparr>]"
  have "LoadPeers (Some ?es) (\<lambda>f. Some ''K'') = Inr [\<lparr>pe_ID = ''eu'', pe_Endpoint = ''e'', pe_PublicKey = ''K''\<rparr>]"
    by (simp add: LoadPeers_def)
  note * = batch_ingested_iff_signed [OF this, where marshal = "\<lambda>i ss. Inr i" and verify = "\<lambda>payload sig key. sig = key @ payload"
      and ingest = "\<lambda>i s n. n + 1" and now = 10 and s = "0 :: nat"]
  have fresh: "\<not> isStale 10 [example_summary ''acme'' 5]"
    by (simp add: isStale_def example_summary_def time_after_def time_is_zero_def time_sub_def maxBatchAge_def second_def
        min_duration_def max_duration_def)
  have "batch_accepted ?es (\<lambda>f. Some ''K'') (\<lambda>i ss. Inr i) (\<lambda>payload sig key. sig = key @ payload) 10
      \<lparr>fr_Method = ''POST'', fr_Body = Some \<lparr>sb_InstanceID = ''eu'', sb_Summaries = [example_summary ''acme'' 5], sb_Signature = sig\<rparr>\<rparr>
      \<longleftrightarrow> sig = ''Keu''" for sig
    by (simp add: batch_accepted_def fresh)
  then show ?thesis
    using * [where r = "\<lparr>fr_Method = ''POST'', fr_Body = Some \<lparr>sb_InstanceID = ''eu'', sb_Summaries = [example_summary ''acme'' 5],
        sb_Signature = ''Keu''\<rparr>\<rparr>"]
    using * [where r = "\<lparr>fr_Method = ''POST'', fr_Body = Some \<lparr>sb_InstanceID = ''eu'', sb_Summaries = [example_summary ''acme'' 5],
        sb_Signature = ''forged''\<rparr>\<rparr>"]
    by (simp add: prod_eq_iff)
qed

section \<open>What a publish tick reports\<close>

lemma extend_window_le: "extend_window xs w \<le> w" "a \<in> set xs \<Longrightarrow> extend_window xs w \<le> an_Timestamp a"
proof -
  have le: "extend_window xs w \<le> w" for xs :: "'a Anomaly list" and w
  proof (induction xs arbitrary: w)
    case (Cons a xs)
    show ?case
      using Cons.IH [of w] Cons.IH [of "an_Timestamp a"] by simp
  qed simp
  show "extend_window xs w \<le> w" by (rule le)
  show "extend_window xs w \<le> an_Timestamp a" if "a \<in> set xs"
    using that
  proof (induction xs arbitrary: w)
    case (Cons b xs)
    show ?case
    proof (cases "a \<in> set xs")
      case False
      then have "a = b" using Cons.prems by simp
      then show ?thesis
        using le [of xs w] le [of xs "an_Timestamp b"] by simp
    qed (use Cons.IH in simp)
  qed simp
qed

lemma windowed_extended:
  "windowed fp (extend_window xs w) now xs = map (aggregate_key fp) (filter (\<lambda>a. an_Timestamp a < now) xs)"
proof -
  have "in_window (extend_window xs w) now (an_Timestamp a) \<longleftrightarrow> an_Timestamp a < now" if "a \<in> set xs" for a
    using extend_window_le(2) [OF that, of w] by (simp add: in_window_def)
  then show ?thesis
    by (simp add: windowed_def cong: filter_cong)
qed

lemma sum_counts:
  assumes "set keys = set ks" "distinct keys"
  shows "(\<Sum>k\<leftarrow>keys. count_list ks k) = length ks"
proof -
  have "(\<Sum>k\<leftarrow>keys. count_list ks k) = sum (count_list ks) (set keys)"
    using assms(2) by (simp add: sum_list_distinct_conv_sum_set)
  then show ?thesis
    by (simp add: assms(1) sum_count_set)
qed

lemma int_sum_list: "(\<Sum>k\<leftarrow>ks. int (f k)) = int (\<Sum>k\<leftarrow>ks. f k)"
  by (induction ks) simp_all

lemma Aggregate_total:
  "(\<Sum>s\<leftarrow>Aggregate fp xs ws we. as_Count s) = int (length (windowed fp ws we xs))"
proof -
  let ?S = "Aggregate fp xs ws we"
  have keys: "set (map summary_key_of ?S) = set (windowed fp ws we xs)" "distinct (map summary_key_of ?S)"
    using aggregate_loop_order [of "[]" Map.empty fp ws we xs] by (simp_all add: Aggregate_keys del: set_map)
  have "map as_Count ?S = map (\<lambda>s. int (count_list (windowed fp ws we xs) (summary_key_of s))) ?S"
    using Aggregate_counts [of _ fp xs ws we] by simp
  then have "(\<Sum>s\<leftarrow>?S. as_Count s) = (\<Sum>k\<leftarrow>map summary_key_of ?S. int (count_list (windowed fp ws we xs) k))"
    by (simp only: map_map comp_def)
  also have "\<dots> = int (\<Sum>k\<leftarrow>map summary_key_of ?S. count_list (windowed fp ws we xs) k)"
    by (rule int_sum_list)
  finally show ?thesis
    by (simp only: sum_counts [OF keys])
qed

lemma PublishOnce_summaries:
  "fst (fst (PublishOnce p now (c, s))) =
     Aggregate (pu_fingerprint p) (map al_Anomaly (pu_reader p c 0 [] s))
       (extend_window (map al_Anomaly (pu_reader p c 0 [] s)) (now + wrap64 (- wrap64 (pu_windowSecs p * second)))) now"
  "fst (snd (PublishOnce p now (c, s))) = (if pu_reader p c 0 [] s = [] then c else max_alert_id (pu_reader p c 0 [] s) 0)"
  by (simp_all add: PublishOnce_def case_prod_beta Aggregate_def split: sum.split)

lemma publish_total:
  "(\<Sum>s\<leftarrow>fst (fst (PublishOnce p now (c, s))). as_Count s) =
     int (length (filter (\<lambda>a. an_Timestamp (al_Anomaly a) < now) (pu_reader p c 0 [] s)))"
  by (simp add: PublishOnce_summaries(1) Aggregate_total windowed_extended filter_map comp_def)

lemma max_alert_id_bounds:
  "m \<le> max_alert_id xs m" "a \<in> set xs \<Longrightarrow> al_ID a \<le> max_alert_id xs m"
  "m \<le> n \<Longrightarrow> (\<And>b. b \<in> set xs \<Longrightarrow> al_ID b \<le> n) \<Longrightarrow> max_alert_id xs m \<le> n"
proof -
  have le: "m \<le> max_alert_id xs m" for xs :: "'b Alert list" and m
  proof (induction xs arbitrary: m)
    case (Cons b xs)
    show ?case using Cons.IH [of m] Cons.IH [of "al_ID b"] by simp
  qed simp
  show "m \<le> max_alert_id xs m" by (rule le)
  show "al_ID a \<le> max_alert_id xs m" if "a \<in> set xs"
    using that
  proof (induction xs arbitrary: m)
    case (Cons b xs)
    then show ?case
      using le [of m xs] le [of "al_ID b" xs] by (cases "a \<in> set xs") auto
  qed simp
  show "max_alert_id xs m \<le> n" if "m \<le> n" "\<And>b. b \<in> set xs \<Longrightarrow> al_ID b \<le> n"
    using that by (induction xs arbitrary: m) auto
qed

lemma AlertBuffer_Add_effect:
  "ab_nextID (AlertBuffer_Add y b) = ab_nextID b + 1"
  "a \<in> set (ab_entries (AlertBuffer_Add y b)) \<Longrightarrow> a \<in> set (ab_entries b) \<or> al_ID a = ab_nextID b + 1"
  by (auto simp: AlertBuffer_Add_def dest: in_set_dropD split: if_splits)

lemma alert_ids_bounded:
  "a \<in> set (ab_entries (fold AlertBuffer_Add ys (NewAlertBuffer cap))) \<Longrightarrow>
     al_ID a \<le> ab_nextID (fold AlertBuffer_Add ys (NewAlertBuffer cap))"
proof (induction ys rule: rev_induct)
  case (snoc y ys)
  then show ?case
    using AlertBuffer_Add_effect(2) [of a y "fold AlertBuffer_Add ys (NewAlertBuffer cap)"]
    by (auto simp: AlertBuffer_Add_effect(1))
qed (simp add: NewAlertBuffer_def)

lemma nextID_adds: "ab_nextID b \<le> ab_nextID (fold AlertBuffer_Add xs b)"
proof (induction xs arbitrary: b)
  case (Cons x xs)
  show ?case using Cons.IH [of "AlertBuffer_Add x b"] by (simp add: AlertBuffer_Add_effect(1))
qed simp

text \<open>
  A publish tick reports every alert it reads that is older than the tick, but an alert raised after the tick's
  own time is consumed and never reported: the cursor moves past it, the aggregation window ends before it, and
  no later tick reads it again. (A tick that waits behind a slow one carries the time it was due at.)
\<close>

theorem late_alert_never_published:
  assumes "pu_reader p = (\<lambda>after limit tenant b. AlertBuffer_Since b after limit tenant)"
    and "b = fold AlertBuffer_Add ys (NewAlertBuffer cap)"
    and "a \<in> set (AlertBuffer_Since b c 0 [])" and "now \<le> an_Timestamp (al_Anomaly a)"
  shows "let published = PublishOnce p now (c, b); c' = fst (snd published)
    in (\<Sum>s\<leftarrow>fst (fst published). as_Count s) =
         int (length (filter (\<lambda>a. an_Timestamp (al_Anomaly a) < now) (AlertBuffer_Since b c 0 []))) \<and>
       (\<Sum>s\<leftarrow>fst (fst published). as_Count s) < int (length (AlertBuffer_Since b c 0 [])) \<and>
       a \<notin> set (AlertBuffer_Since (fold AlertBuffer_Add xs b) c' 0 [])"
proof -
  let ?read = "AlertBuffer_Since b c 0 []"
  let ?c = "fst (snd (PublishOnce p now (c, b)))"
  have c: "?c = max_alert_id ?read 0"
    using assms(3) by (auto simp: PublishOnce_summaries(2) assms(1))
  have sub: "set ?read \<subseteq> set (ab_entries b)"
    by (auto simp: AlertBuffer_Since_def keep_last_def)
  have "0 \<le> ab_nextID b"
    using alert_ring.after_adds [where c = cap and xs = ys] assms(2) by simp
  then have "max_alert_id ?read 0 \<le> ab_nextID b"
    by (rule max_alert_id_bounds(3)) (use alert_ids_bounded [of _ ys cap] sub assms(2) in auto)
  then have "?c \<le> ab_nextID b"
    by (simp only: c)
  then have "\<not> ab_nextID (fold AlertBuffer_Add xs b) < ?c"
    using nextID_adds [of b xs] by simp
  moreover have "al_ID a \<le> ?c"
    using max_alert_id_bounds(2) [OF assms(3)] c by simp
  ultimately have "a \<notin> set (AlertBuffer_Since (fold AlertBuffer_Add xs b) ?c 0 [])"
    by (auto simp: AlertBuffer_Since_def keep_last_def)
  moreover have "length (filter (\<lambda>a. an_Timestamp (al_Anomaly a) < now) ?read) < length ?read"
    using assms(3,4) by (intro length_filter_less) auto
  ultimately show ?thesis
    using publish_total [of p now c b] by (simp add: assms(1))
qed

definition example_alert_entry :: Entry where
  "example_alert_entry = \<lparr>e_Timestamp = 20, e_Identity = ''alice'', e_Tenant = ''acme'', e_Tool = ''t'', e_Decision = ''allow'',
     e_LatencyMS = 0, e_Reason = [], e_TraceID = [], e_Effect = None, e_EffectStatus = EffectStatusEmpty, e_SessionID = [],
     e_TaintSources = []\<rparr>"

definition example_anomaly :: "go_time \<Rightarrow> unit Anomaly" where
  "example_anomaly at = \<lparr>an_Timestamp = at, an_Identity = ''alice'', an_Tenant = ''acme'', an_Kind = KindRateSpike, an_Detail = [],
     an_Entry = example_alert_entry, an_Score = None, an_AutoBlockSeconds = 0\<rparr>"

definition example_publisher :: "(unit, unit, unit AlertBuffer) Publisher" where
  "example_publisher = \<lparr>pu_instanceID = ''us'', pu_reader = (\<lambda>after limit tenant b. AlertBuffer_Since b after limit tenant),
     pu_peers = [], pu_fingerprint = id, pu_marshal = (\<lambda>_ _. Inr []), pu_sign = (\<lambda>_. Inr []), pu_send = (\<lambda>_ _ s. (None, s)),
     pu_windowSecs = 60\<rparr>"

theorem late_alert_never_published_witness:
  "let b = fold AlertBuffer_Add [example_anomaly 5, example_anomaly 20] (NewAlertBuffer 10);
       published = PublishOnce example_publisher 10 (0, b)
   in (\<Sum>s\<leftarrow>fst (fst published). as_Count s) = 1 \<and>
      \<lparr>al_ID = 2, al_Anomaly = example_anomaly 20\<rparr> \<notin>
        set (AlertBuffer_Since (fold AlertBuffer_Add [example_anomaly 30] b) (fst (snd published)) 0 [])"
proof -
  let ?b = "fold AlertBuffer_Add [example_anomaly 5, example_anomaly 20] (NewAlertBuffer 10)"
  have reader: "pu_reader example_publisher = (\<lambda>after limit tenant b. AlertBuffer_Since b after limit tenant)"
    by (simp add: example_publisher_def)
  have read: "AlertBuffer_Since ?b 0 0 [] = [\<lparr>al_ID = 1, al_Anomaly = example_anomaly 5\<rparr>, \<lparr>al_ID = 2, al_Anomaly = example_anomaly 20\<rparr>]"
    by (simp add: AlertBuffer_Since_def AlertBuffer_Add_def NewAlertBuffer_def keep_last_def)
  have times: "an_Timestamp (example_anomaly at) = at" for at
    by (simp add: example_anomaly_def)
  show ?thesis
    using late_alert_never_published [OF reader refl, where a = "\<lparr>al_ID = 2, al_Anomaly = example_anomaly 20\<rparr>" and c = 0
        and ys = "[example_anomaly 5, example_anomaly 20]" and cap = 10 and now = 10 and xs = "[example_anomaly 30]"]
    by (simp only: read Let_def list.set insertI1 insertI2 insert_iff Alert.select_convs times) (simp add: times)
qed

section \<open>Correlation refines the history of sightings\<close>

text \<open>
  The reference semantics keeps everything: every sighting and every alert so far. A sighting raises an alert when
  no alert for the same tenant, fingerprint and kind was raised less than a window ago, and enough instances
  have a sighting younger than a window.
\<close>

record sighting =
  sg_at :: go_time
  sg_instance :: string
  sg_key :: summary_key

definition sightings_of :: "sighting list \<Rightarrow> summary_key \<Rightarrow> string \<Rightarrow> go_time list" where
  "sightings_of hist k i = map sg_at (filter (\<lambda>g. sg_key g = k \<and> sg_instance g = i) hist)"

definition recently_seen :: "sighting list \<Rightarrow> summary_key \<Rightarrow> go_time \<Rightarrow> string list" where
  "recently_seen hist k cutoff =
     sort (remdups (map sg_instance (filter (\<lambda>g. sg_key g = k \<and> cutoff < sg_at g) hist)))"

definition alert_key :: "CorrelatedAlert \<Rightarrow> summary_key" where
  "alert_key a = (ca_Tenant a, ca_Fingerprint a, ca_Kind a)"

definition spec_ingest ::
  "duration \<Rightarrow> int \<Rightarrow> go_time \<Rightarrow> string \<Rightarrow> AnomalySummary \<Rightarrow> sighting list \<times> CorrelatedAlert list \<Rightarrow>
   sighting list \<times> CorrelatedAlert list" where
  "spec_ingest window minInstances now i s st =
     (let (hist, alerts) = st; k = summary_key_of s;
          hist = hist @ [\<lparr>sg_at = now, sg_instance = i, sg_key = k\<rparr>];
          ids = recently_seen hist k (now - window)
      in (hist,
          if list_ex (\<lambda>a. alert_key a = k \<and> now - ca_LastSeen a < window) alerts \<or> int (length ids) < minInstances then alerts
          else alerts @ [\<lparr>ca_Fingerprint = as_Fingerprint s, ca_Tenant = as_Tenant s, ca_Kind = as_Kind s,
                 ca_InstanceIDs = ids, ca_FirstSeen = Min (set (map (\<lambda>i. last (sightings_of hist k i)) ids)), ca_LastSeen = now\<rparr>]))"

datatype correlator_op = Sighted go_time "string list" string AnomalySummary
  | Collected go_time "string \<Rightarrow> string list" "string \<Rightarrow> string \<Rightarrow> string list"

fun correlator_op_at :: "correlator_op \<Rightarrow> go_time" where
  "correlator_op_at (Sighted now ks i s) = now"
| "correlator_op_at (Collected now kinds ids) = now"

fun correlator_step :: "duration \<Rightarrow> correlator_op \<Rightarrow> Correlator \<times> CorrelatedAlert list \<Rightarrow> Correlator \<times> CorrelatedAlert list" where
  "correlator_step interval (Sighted now ks i s) cs = Ingest (\<lambda>a as. as @ [a]) now ks i s cs"
| "correlator_step interval (Collected now kinds ids) cs = (GCCorrelatorOnce kinds ids now interval (fst cs), snd cs)"

fun spec_step :: "duration \<Rightarrow> int \<Rightarrow> correlator_op \<Rightarrow> sighting list \<times> CorrelatedAlert list \<Rightarrow> sighting list \<times> CorrelatedAlert list" where
  "spec_step window minInstances (Sighted now ks i s) st = spec_ingest window minInstances now i s st"
| "spec_step window minInstances (Collected now kinds ids) st = st"

text \<open>The orders given to the loops are orders of the maps they visit.\<close>

definition pair_state :: "Correlator \<Rightarrow> summary_key \<Rightarrow> fingerprintState option" where
  "pair_state c k = (case k of (tenant, fingerprint, kind) \<Rightarrow>
     (case co_state c (tenant_Key tenant fingerprint) of None \<Rightarrow> None | Some byKind \<Rightarrow> byKind kind))"

fun orders_ok :: "correlator_op \<Rightarrow> Correlator \<Rightarrow> bool" where
  "orders_ok (Sighted now ks i s) c \<longleftrightarrow>
     range_order ks ((case pair_state c (summary_key_of s) of None \<Rightarrow> Map.empty | Some st \<Rightarrow> fs_instances st)(i \<mapsto> now))"
| "orders_ok (Collected now kinds ids) c \<longleftrightarrow>
     (\<forall>sk byKind. co_state c sk = Some byKind \<longrightarrow>
        (\<forall>kind st. byKind kind = Some st \<longrightarrow> kind \<in> set (kinds sk) \<and> range_order (ids sk kind) (fs_instances st)))"

definition pair_or_fresh :: "Correlator \<Rightarrow> summary_key \<Rightarrow> fingerprintState" where
  "pair_or_fresh c k = (case pair_state c k of None \<Rightarrow> fresh_fingerprintState | Some st \<Rightarrow> st)"

text \<open>What the state of a pair knows of the history at time \<open>T\<close>: what it forgot is older than a window.\<close>

definition pair_rel :: "duration \<Rightarrow> go_time \<Rightarrow> sighting list \<Rightarrow> CorrelatedAlert list \<Rightarrow> summary_key \<Rightarrow> fingerprintState \<Rightarrow> bool" where
  "pair_rel W T hist alerts k st \<longleftrightarrow>
     (\<forall>i t. fs_instances st i = Some t \<longrightarrow> sightings_of hist k i \<noteq> [] \<and> last (sightings_of hist k i) = t) \<and>
     (\<forall>i. fs_instances st i = None \<longrightarrow> (\<forall>t \<in> set (sightings_of hist k i). t \<le> T - W)) \<and>
     (\<forall>a \<in> set alerts. alert_key a = k \<longrightarrow> ca_LastSeen a \<le> fs_flaggedAt st \<or> ca_LastSeen a \<le> T - W) \<and>
     (fs_flaggedAt st = 0 \<or> (\<exists>a \<in> set alerts. alert_key a = k \<and> ca_LastSeen a = fs_flaggedAt st)) \<and>
     (fs_flaggedAt st = 0 \<or> (\<exists>i t. fs_instances st i = Some t \<and> fs_flaggedAt st \<le> t))"

definition history_ok :: "go_time \<Rightarrow> sighting list \<Rightarrow> CorrelatedAlert list \<Rightarrow> bool" where
  "history_ok T hist alerts \<longleftrightarrow> sorted (map sg_at hist) \<and> (\<forall>g \<in> set hist. 0 < sg_at g \<and> sg_at g \<le> T) \<and>
     (\<forall>a \<in> set alerts. 0 < ca_LastSeen a \<and> ca_LastSeen a \<le> T)"

definition correlator_rel :: "FederationConfig \<Rightarrow> duration \<Rightarrow> go_time \<Rightarrow> Correlator \<Rightarrow> sighting list \<times> CorrelatedAlert list \<Rightarrow> bool" where
  "correlator_rel cfg W T c sp \<longleftrightarrow> co_cfg c = cfg \<and> history_ok T (fst sp) (snd sp) \<and>
     (\<forall>k. pair_rel W T (fst sp) (snd sp) k (pair_or_fresh c k))"

lemma pair_rel_later: "pair_rel W T hist alerts k st \<Longrightarrow> T \<le> T' \<Longrightarrow> pair_rel W T' hist alerts k st"
  unfolding pair_rel_def by (meson diff_right_mono order_trans)

lemma history_ok_later: "history_ok T hist alerts \<Longrightarrow> T \<le> T' \<Longrightarrow> history_ok T' hist alerts"
  unfolding history_ok_def by (meson order_trans)

lemma sightings_of_snoc:
  "sightings_of (hist @ [g]) k i = sightings_of hist k i @ (if sg_key g = k \<and> sg_instance g = i then [sg_at g] else [])"
  by (simp add: sightings_of_def)

lemma sightings_last:
  assumes "sorted (map sg_at hist)" "t \<in> set (sightings_of hist k i)"
  shows "t \<le> last (sightings_of hist k i)"
proof -
  have "sorted (sightings_of hist k i)"
    using assms(1) unfolding sightings_of_def by (rule sorted_filter)
  then show ?thesis
    using assms(2) by (metis in_set_conv_decomp last_appendR last_in_set list.distinct(1) sorted_append sorted_wrt.simps(2)
        order_refl last.simps append_is_Nil_conv)
qed

lemma recent_instances_found:
  "fst (recent_instances cutoff es found fs) = found @ map fst (filter (\<lambda>(_, seen). cutoff < seen) es)"
  by (induction es arbitrary: found fs) (auto simp: time_after_def)

lemma Min_insert_if: "finite S \<Longrightarrow> Min (insert t S) = (if S = {} then t else min t (Min S))"
  by auto

lemma first_seen_min:
  fixes f t m :: int
  shows "(if e then if f = 0 \<or> t < f then t else f else min (if f = 0 \<or> t < f then t else f) m) =
    (if f = 0 then if e then t else min t m else min f (if e then t else min t m))"
  by (auto simp: min_def)

lemma recent_instances_first:
  assumes "\<And>i t. (i, t) \<in> set es \<Longrightarrow> 0 < t" "0 \<le> fs"
  shows "snd (recent_instances cutoff es found fs) =
    (let seen = set (map snd (filter (\<lambda>(_, seen). cutoff < seen) es))
     in if seen = {} then fs else if fs = 0 then Min seen else min fs (Min seen))"
  using assms
proof (induction es arbitrary: found fs)
  case (Cons e es)
  obtain i t where e: "e = (i, t)" by (cases e)
  have t: "0 < t" using Cons.prems e by auto
  have pos: "\<And>i t. (i, t) \<in> set es \<Longrightarrow> 0 < t" using Cons.prems(1) by (meson list.set_intros(2))
  let ?S = "set (map snd (filter (\<lambda>(_, seen). cutoff < seen) es))"
  have fin: "finite ?S" by simp
  show ?case
  proof (cases "cutoff < t")
    case False
    then show ?thesis
      using Cons.IH [OF pos Cons.prems(2), where found = found] e by (simp add: time_after_def)
  next
    case True
    let ?fs = "if fs = 0 \<or> t < fs then t else fs"
    have "0 \<le> ?fs" "?fs \<noteq> 0"
      using t Cons.prems(2) by auto
    then have "snd (recent_instances cutoff es (found @ [i]) ?fs) = (if ?S = {} then ?fs else min ?fs (Min ?S))"
      using Cons.IH [OF pos, where fs = ?fs and found = "found @ [i]"] unfolding Let_def by (simp only: if_False)
    then have "snd (recent_instances cutoff (e # es) found fs) = (if ?S = {} then ?fs else min ?fs (Min ?S))"
      using e True by (simp only: recent_instances.simps time_after_def time_is_zero_def if_True)
    moreover have "set (map snd (filter (\<lambda>(_, seen). cutoff < seen) (e # es))) = insert t ?S"
      using True e by simp
    moreover have "Min (insert t ?S) = (if ?S = {} then t else min t (Min ?S))"
      by (rule Min_insert_if [OF fin])
    ultimately show ?thesis
      unfolding Let_def by (simp only: first_seen_min insert_not_empty if_False)
  qed
qed simp

lemma distinct_range_entries: "distinct ks \<Longrightarrow> distinct (map fst (filter P (range_entries ks m)))"
  by (induction ks) (auto simp: range_entries_def List.map_filter_def)

lemma mem_range_entries: "range_order ks m \<Longrightarrow> (i, t) \<in> set (range_entries ks m) \<longleftrightarrow> m i = Some t"
  by (simp add: set_range_entries)

lemma recently_seen_iff: "i \<in> set (recently_seen hist k cutoff) \<longleftrightarrow> (\<exists>t \<in> set (sightings_of hist k i). cutoff < t)"
  by (auto simp: recently_seen_def sightings_of_def)

text \<open>The instances the code counts are those of the reference semantics, and so is the earliest sighting.\<close>

lemma recent_instances_spec:
  assumes rel: "\<And>i t. m i = Some t \<Longrightarrow> sightings_of hist k i \<noteq> [] \<and> last (sightings_of hist k i) = t"
    and old: "\<And>i t. m i = None \<Longrightarrow> t \<in> set (sightings_of hist k i) \<Longrightarrow> t \<le> cutoff"
    and sorted: "sorted (map sg_at hist)" and pos: "\<And>g. g \<in> set hist \<Longrightarrow> 0 < sg_at g"
    and ks: "range_order ks m"
  shows "sort (fst (recent_instances cutoff (range_entries ks m) [] 0)) = recently_seen hist k cutoff"
    "length (fst (recent_instances cutoff (range_entries ks m) [] 0)) = length (recently_seen hist k cutoff)"
    "recently_seen hist k cutoff \<noteq> [] \<Longrightarrow> snd (recent_instances cutoff (range_entries ks m) [] 0) =
       Min (set (map (\<lambda>i. last (sightings_of hist k i)) (recently_seen hist k cutoff)))"
proof -
  let ?es = "range_entries ks m"
  let ?recent = "filter (\<lambda>(_, seen). cutoff < seen) ?es"
  have seen: "m i = Some t \<and> cutoff < t \<longleftrightarrow> i \<in> set (recently_seen hist k cutoff) \<and> t = last (sightings_of hist k i)" for i t
  proof
    assume *: "m i = Some t \<and> cutoff < t"
    then show "i \<in> set (recently_seen hist k cutoff) \<and> t = last (sightings_of hist k i)"
      using rel [of i t] last_in_set [of "sightings_of hist k i"] unfolding recently_seen_iff by metis
  next
    assume *: "i \<in> set (recently_seen hist k cutoff) \<and> t = last (sightings_of hist k i)"
    then obtain u where u: "u \<in> set (sightings_of hist k i)" "cutoff < u"
      by (auto simp: recently_seen_iff)
    then have "m i \<noteq> None" using old by force
    moreover have "cutoff < t" using sightings_last [OF sorted u(1)] u(2) * by simp
    ultimately show "m i = Some t \<and> cutoff < t" using rel * by auto
  qed
  have set: "set ?recent = (\<lambda>i. (i, last (sightings_of hist k i))) ` set (recently_seen hist k cutoff)"
  proof (rule set_eqI)
    fix x :: "string \<times> go_time"
    obtain i t where x: "x = (i, t)" by (cases x)
    have "x \<in> set ?recent \<longleftrightarrow> m i = Some t \<and> cutoff < t"
      using mem_range_entries [OF ks] x by simp
    then show "x \<in> set ?recent \<longleftrightarrow> x \<in> (\<lambda>i. (i, last (sightings_of hist k i))) ` set (recently_seen hist k cutoff)"
      unfolding seen x by auto
  qed
  have dist: "distinct (map fst ?recent)"
    using ks by (intro distinct_range_entries) (simp add: range_order_def)
  have ids: "set (map fst ?recent) = set (recently_seen hist k cutoff)"
    using arg_cong [OF set, of "image fst"] by (simp add: image_image)
  have found: "fst (recent_instances cutoff ?es [] 0) = map fst ?recent"
    by (simp add: recent_instances_found)
  show sorted: "sort (fst (recent_instances cutoff ?es [] 0)) = recently_seen hist k cutoff"
    unfolding found
    by (rule sorted_distinct_set_unique) (use dist ids in \<open>simp_all add: recently_seen_def\<close>)
  then show "length (fst (recent_instances cutoff ?es [] 0)) = length (recently_seen hist k cutoff)"
    by (metis length_sort)
  assume "recently_seen hist k cutoff \<noteq> []"
  then have "set ?recent \<noteq> {}" using set by simp
  moreover have "0 < t" if "(i, t) \<in> set ?es" for i t
    using rel [of i t] that mem_range_entries [OF ks] last_in_set [of "sightings_of hist k i"] pos
    by (auto simp: sightings_of_def)
  ultimately have "snd (recent_instances cutoff ?es [] 0) = Min (set (map snd ?recent))"
    using recent_instances_first [of ?es 0 cutoff "[]"] by (simp only: Let_def list.set_map image_is_empty) simp
  then show "snd (recent_instances cutoff ?es [] 0) = Min (set (map (\<lambda>i. last (sightings_of hist k i)) (recently_seen hist k cutoff)))"
    using arg_cong [OF set, of "image snd"] by (simp only: image_image list.set_map snd_conv)
qed

definition put_pair :: "summary_key \<Rightarrow> fingerprintState \<Rightarrow> Correlator \<Rightarrow> Correlator" where
  "put_pair k st c = (case k of (tenant, fingerprint, kind) \<Rightarrow>
     c\<lparr>co_state := (co_state c)(tenant_Key tenant fingerprint \<mapsto>
       (case co_state c (tenant_Key tenant fingerprint) of Some m \<Rightarrow> m | None \<Rightarrow> Map.empty)(kind \<mapsto> st))\<rparr>)"

lemma pair_or_fresh_put: "pair_or_fresh (put_pair k st c) k' = (if k' = k then st else pair_or_fresh c k')"
  by (cases k; cases k') (auto simp: pair_or_fresh_def pair_state_def put_pair_def tenant_Key_eq_iff split: option.splits)

lemma put_pair_cfg [simp]: "co_cfg (put_pair k st c) = co_cfg c"
  by (cases k) (simp add: put_pair_def)

lemma recordAndCheck_pair:
  fixes now ks i s c
  defines "k \<equiv> summary_key_of s"
  defines "st \<equiv> (pair_or_fresh c k)\<lparr>fs_instances := (fs_instances (pair_or_fresh c k))(i \<mapsto> now)\<rparr>"
  defines "W \<equiv> correlation_window (co_cfg c)"
  defines "found \<equiv> recent_instances (now + wrap64 (- W)) (range_entries ks (fs_instances st)) [] 0"
  shows "recordAndCheck now ks i s c =
     (if fs_flaggedAt st \<noteq> 0 \<and> time_sub now (fs_flaggedAt st) < W \<or>
         int (length (fst found)) < fc_MinInstancesForCorrelation (co_cfg c) then (None, put_pair k st c)
      else (Some \<lparr>ca_Fingerprint = as_Fingerprint s, ca_Tenant = as_Tenant s, ca_Kind = as_Kind s,
              ca_InstanceIDs = sort (fst found), ca_FirstSeen = snd found, ca_LastSeen = now\<rparr>,
            put_pair k (st\<lparr>fs_flaggedAt := now\<rparr>) c))"
proof -
  let ?byKind = "case co_state c (tenant_Key (as_Tenant s) (as_Fingerprint s)) of Some m \<Rightarrow> m | None \<Rightarrow> Map.empty"
  have pair: "(case ?byKind (as_Kind s) of Some st \<Rightarrow> st | None \<Rightarrow> fresh_fingerprintState) = pair_or_fresh c k"
    by (simp add: k_def summary_key_of_def pair_or_fresh_def pair_state_def split: option.split)
  have put: "put_pair k x c = c\<lparr>co_state := (co_state c)(tenant_Key (as_Tenant s) (as_Fingerprint s) \<mapsto> ?byKind(as_Kind s \<mapsto> x))\<rparr>" for x
    by (simp add: k_def summary_key_of_def put_pair_def)
  show ?thesis
    unfolding recordAndCheck_def Let_def pair put [symmetric] time_is_zero_def
    unfolding st_def [symmetric] W_def [symmetric] found_def [symmetric]
    by (simp add: case_prod_beta)
qed

text \<open>The state of a pair after a sighting.\<close>

lemma pair_rel_sighted:
  fixes now :: go_time
  assumes rel: "pair_rel W T hist alerts k st" and "T \<le> now" "0 < W" and sorted: "\<And>t. t \<in> set (sightings_of hist k i) \<Longrightarrow> t \<le> now"
    and flag: "fs_flaggedAt st \<le> now"
  shows "pair_rel W now (hist @ [\<lparr>sg_at = now, sg_instance = i, sg_key = k\<rparr>]) alerts k (st\<lparr>fs_instances := (fs_instances st)(i \<mapsto> now)\<rparr>)"
proof -
  have later: "pair_rel W now hist alerts k st" by (rule pair_rel_later [OF rel \<open>T \<le> now\<close>])
  have "\<exists>j t. ((fs_instances st)(i \<mapsto> now)) j = Some t \<and> fs_flaggedAt st \<le> t"
    using flag by (intro exI [of _ i] exI [of _ now]) simp
  then show ?thesis
    using later unfolding pair_rel_def by (auto simp: sightings_of_snoc)
qed

lemma pair_rel_other:
  "pair_rel W T hist alerts k st \<Longrightarrow> sg_key g \<noteq> k \<Longrightarrow> pair_rel W T (hist @ [g]) alerts k st"
  unfolding pair_rel_def by (simp add: sightings_of_snoc)

lemma pair_rel_alerted_other:
  "pair_rel W T hist alerts k st \<Longrightarrow> alert_key a \<noteq> k \<Longrightarrow> pair_rel W T hist (alerts @ [a]) k st"
  unfolding pair_rel_def by auto

lemma pair_rel_alerted:
  assumes "pair_rel W now hist alerts k st" "alert_key a = k" "ca_LastSeen a = now" "fs_instances st i = Some now"
    and "\<And>b. b \<in> set alerts \<Longrightarrow> ca_LastSeen b \<le> now"
  shows "pair_rel W now hist (alerts @ [a]) k (st\<lparr>fs_flaggedAt := now\<rparr>)"
  using assms unfolding pair_rel_def by auto

lemma suppressed_iff:
  assumes rel: "pair_rel W T hist alerts k st" and "T \<le> now" and W: "0 < W" "W \<le> max_duration"
    and pos: "\<And>a. a \<in> set alerts \<Longrightarrow> 0 < ca_LastSeen a"
  shows "fs_flaggedAt st \<noteq> 0 \<and> time_sub now (fs_flaggedAt st) < W \<longleftrightarrow>
    list_ex (\<lambda>a. alert_key a = k \<and> now - ca_LastSeen a < W) alerts"
proof -
  have "min_duration < W" using W by (simp add: min_duration_def)
  then have sub: "time_sub now f < W \<longleftrightarrow> now - f < W" for f
    using time_sub_ge_iff [of W now f] W by linarith
  show ?thesis
    unfolding sub list_ex_iff
  proof
    assume "fs_flaggedAt st \<noteq> 0 \<and> now - fs_flaggedAt st < W"
    then show "\<exists>a \<in> set alerts. alert_key a = k \<and> now - ca_LastSeen a < W"
      using rel unfolding pair_rel_def by auto
  next
    assume "\<exists>a \<in> set alerts. alert_key a = k \<and> now - ca_LastSeen a < W"
    then obtain a where a: "a \<in> set alerts" "alert_key a = k" "now - ca_LastSeen a < W" by blast
    then have "ca_LastSeen a \<le> fs_flaggedAt st"
      using rel \<open>T \<le> now\<close> unfolding pair_rel_def by force
    then show "fs_flaggedAt st \<noteq> 0 \<and> now - fs_flaggedAt st < W"
      using a(3) pos [OF a(1)] by simp
  qed
qed

lemma window_bounds: "correlation_window cfg \<le> max_duration"
  using wrap64_range(2) [of "fc_CorrelationWindowSeconds cfg * second"] by (simp add: correlation_window_def max_duration_def)

lemma correlator_rel_ingest:
  assumes rel: "correlator_rel cfg W T c (hist, alerts)" and now: "T \<le> now" "0 < now"
    and W: "W = correlation_window cfg" "0 < W" and ord: "orders_ok (Sighted now ks i s) c"
  shows "snd (Ingest (\<lambda>a as. as @ [a]) now ks i s (c, alerts)) = snd (spec_ingest W (fc_MinInstancesForCorrelation cfg) now i s (hist, alerts)) \<and>
    correlator_rel cfg W now (fst (Ingest (\<lambda>a as. as @ [a]) now ks i s (c, alerts)))
      (spec_ingest W (fc_MinInstancesForCorrelation cfg) now i s (hist, alerts))"
proof -
  let ?k = "summary_key_of s" and ?g = "\<lparr>sg_at = now, sg_instance = i, sg_key = summary_key_of s\<rparr>"
  let ?prev = "pair_or_fresh c ?k" and ?min = "fc_MinInstancesForCorrelation cfg"
  let ?st = "?prev\<lparr>fs_instances := (fs_instances ?prev)(i \<mapsto> now)\<rparr>" and ?hist = "hist @ [?g]"
  let ?found = "recent_instances (now - W) (range_entries ks (fs_instances ?st)) [] 0"
  let ?ids = "recently_seen ?hist ?k (now - W)"
  have cfg: "co_cfg c = cfg" and ok: "history_ok T hist alerts" and pairs: "\<And>k. pair_rel W T hist alerts k (pair_or_fresh c k)"
    using rel unfolding correlator_rel_def fst_conv snd_conv by blast+
  have cutoff: "now + wrap64 (- W) = now - W"
    using W window_bounds [of cfg] wrap64_id [of "- W"] by (simp add: max_duration_def)
  have flag: "fs_flaggedAt ?prev \<le> now"
    using pairs [of ?k] ok now unfolding pair_rel_def history_ok_def by force
  have old: "\<And>t. t \<in> set (sightings_of hist ?k i) \<Longrightarrow> t \<le> now"
    using ok now by (auto simp: history_ok_def sightings_of_def)
  have sighted: "pair_rel W now ?hist alerts ?k ?st"
    by (rule pair_rel_sighted [OF pairs now(1) W(2) old flag])
  have others: "pair_rel W now ?hist alerts k (pair_or_fresh c k)" if "k \<noteq> ?k" for k
    using pair_rel_other [OF pair_rel_later [OF pairs now(1)]] that by simp
  have hist: "sorted (map sg_at ?hist)" "\<And>g. g \<in> set ?hist \<Longrightarrow> 0 < sg_at g"
    using ok now by (auto simp: history_ok_def sorted_append)
  have ks: "range_order ks (fs_instances ?st)"
    using ord by (simp add: pair_or_fresh_def fresh_fingerprintState_def split: option.splits)
  have spec: "sort (fst ?found) = ?ids" "length (fst ?found) = length ?ids"
    "?ids \<noteq> [] \<Longrightarrow> snd ?found = Min (set (map (\<lambda>i. last (sightings_of ?hist ?k i)) ?ids))"
    using sighted [unfolded pair_rel_def] by (intro recent_instances_spec [OF _ _ hist ks]; blast)+
  have "i \<in> set ?ids"
    using W(2) by (simp add: recently_seen_iff sightings_of_snoc)
  then have ne: "?ids \<noteq> []" by auto
  have sup: "fs_flaggedAt ?st \<noteq> 0 \<and> time_sub now (fs_flaggedAt ?st) < W \<longleftrightarrow>
      list_ex (\<lambda>a. alert_key a = ?k \<and> now - ca_LastSeen a < W) alerts"
    using suppressed_iff [OF pairs now(1) W(2), of ?k] window_bounds [of cfg] W(1) ok by (simp add: history_ok_def)
  let ?quiet = "list_ex (\<lambda>a. alert_key a = ?k \<and> now - ca_LastSeen a < W) alerts \<or> int (length ?ids) < ?min"
  let ?alert = "\<lparr>ca_Fingerprint = as_Fingerprint s, ca_Tenant = as_Tenant s, ca_Kind = as_Kind s, ca_InstanceIDs = ?ids,
    ca_FirstSeen = Min (set (map (\<lambda>i. last (sightings_of ?hist ?k i)) ?ids)), ca_LastSeen = now\<rparr>"
  have impl: "recordAndCheck now ks i s c = (if ?quiet then (None, put_pair ?k ?st c)
      else (Some ?alert, put_pair ?k (?st\<lparr>fs_flaggedAt := now\<rparr>) c))"
    unfolding recordAndCheck_pair cfg W(1) [symmetric] cutoff sup spec(1,2) spec(3) [OF ne] ..
  have spec_eq: "spec_ingest W ?min now i s (hist, alerts) = (?hist, if ?quiet then alerts else alerts @ [?alert])"
    by (simp add: spec_ingest_def)
  have ok': "history_ok now ?hist alerts" "history_ok now ?hist (alerts @ [?alert])"
    using ok now hist by (auto simp: history_ok_def)
  show ?thesis
  proof (cases ?quiet)
    case True
    then have "Ingest (\<lambda>a as. as @ [a]) now ks i s (c, alerts) = (put_pair ?k ?st c, alerts)"
      using impl by (simp only: Ingest_def fst_conv snd_conv if_True prod.case option.case)
    then show ?thesis
      using True spec_eq ok'(1) sighted others cfg by (simp add: correlator_rel_def pair_or_fresh_put)
  next
    case False
    then have ing: "Ingest (\<lambda>a as. as @ [a]) now ks i s (c, alerts) = (put_pair ?k (?st\<lparr>fs_flaggedAt := now\<rparr>) c, alerts @ [?alert])"
      using impl by (simp only: Ingest_def fst_conv snd_conv if_False prod.case option.case)
    have key: "alert_key ?alert = ?k"
      by (simp add: alert_key_def summary_key_of_def)
    have "pair_rel W now ?hist (alerts @ [?alert]) ?k (?st\<lparr>fs_flaggedAt := now\<rparr>)"
      by (rule pair_rel_alerted [OF sighted key, where i = i]) (use ok'(1) in \<open>simp_all add: history_ok_def\<close>)
    moreover have "pair_rel W now ?hist (alerts @ [?alert]) k (pair_or_fresh c k)" if "k \<noteq> ?k" for k
      using pair_rel_alerted_other [OF others [OF that]] key that by simp
    ultimately show ?thesis
      using False spec_eq ing ok'(2) cfg by (simp add: correlator_rel_def pair_or_fresh_put)
  qed
qed

lemma pair_state_collected:
  assumes ord: "orders_ok (Collected now kinds ids) c" and iv: "0 \<le> interval" "2 * interval \<le> max_duration"
  shows "pair_state (GCCorrelatorOnce kinds ids now interval c) k =
    (case pair_state c k of
       None \<Rightarrow> None
     | Some st \<Rightarrow> if \<exists>i t. fs_instances st i = Some t \<and> now - 2 * interval < t then Some st else None)"
proof -
  obtain tenant fingerprint kind where k: "k = (tenant, fingerprint, kind)" by (cases k)
  let ?sk = "tenant_Key tenant fingerprint"
  have cutoff: "now + wrap64 (- (2 * interval)) = now - 2 * interval"
    using iv wrap64_id [of "- 2 * interval"] by (simp add: max_duration_def)
  show ?thesis
  proof (cases "co_state c ?sk")
    case None
    then show ?thesis by (simp add: k pair_state_def GCCorrelatorOnce_def)
  next
    case (Some byKind)
    have ord': "kd \<in> set (kinds ?sk)" "range_order (ids ?sk kd) (fs_instances st)" if "byKind kd = Some st" for kd st
      using ord Some that by auto
    let ?keep = "\<lambda>kd st. list_ex (\<lambda>(_, seen). time_after seen (now - 2 * interval)) (range_entries (ids ?sk kd) (fs_instances st))"
    have keep: "?keep kd st \<longleftrightarrow> (\<exists>i t. fs_instances st i = Some t \<and> now - 2 * interval < t)" if "byKind kd = Some st" for kd st
      using mem_range_entries [OF ord'(2) [OF that]] by (auto simp: list_ex_iff time_after_def)
    have kept: "map_keep ?keep byKind kd = None" if "range_entries (kinds ?sk) (map_keep ?keep byKind) = []" for kd
    proof (rule ccontr)
      assume "map_keep ?keep byKind kd \<noteq> None"
      then obtain st where st: "map_keep ?keep byKind kd = Some st" by blast
      then have "kd \<in> set (kinds ?sk)"
        using ord'(1) [of kd] by (auto simp: map_keep_def split: option.splits if_splits)
      then have "(kd, st) \<in> set (range_entries (kinds ?sk) (map_keep ?keep byKind))"
        using st by (auto simp: range_entries_def List.map_filter_def image_iff)
      then show False using that by simp
    qed
    have pair: "pair_state (GCCorrelatorOnce kinds ids now interval c) k = map_keep ?keep byKind kind"
      using Some kept [of kind] by (auto simp: k pair_state_def GCCorrelatorOnce_def cutoff)
    show ?thesis
      unfolding pair using Some keep [of kind] by (auto simp: k pair_state_def map_keep_def split: option.split)
  qed
qed

lemma correlator_rel_collect:
  assumes rel: "correlator_rel cfg W T c (hist, alerts)"
    and ord: "orders_ok (Collected at' kinds ids) c" and iv: "0 \<le> interval" "2 * interval \<le> max_duration" "W \<le> 2 * interval"
    and now: "T \<le> now" "at' \<le> now"
  shows "correlator_rel cfg W now (GCCorrelatorOnce kinds ids at' interval c) (hist, alerts)"
proof -
  have ok: "history_ok T hist alerts" and pairs: "\<And>k. pair_rel W T hist alerts k (pair_or_fresh c k)" and cfg: "co_cfg c = cfg"
    using rel unfolding correlator_rel_def fst_conv snd_conv by blast+
  have "pair_rel W now hist alerts k (pair_or_fresh (GCCorrelatorOnce kinds ids at' interval c) k)" for k
  proof (cases "pair_or_fresh (GCCorrelatorOnce kinds ids at' interval c) k = pair_or_fresh c k")
    case True
    then show ?thesis using pair_rel_later [OF pairs now(1)] by simp
  next
    case False
    then obtain st where st: "pair_state c k = Some st" "pair_or_fresh (GCCorrelatorOnce kinds ids at' interval c) k = fresh_fingerprintState"
      and "\<And>i t. fs_instances st i = Some t \<Longrightarrow> t \<le> at' - 2 * interval"
      using pair_state_collected [OF ord iv(1,2), of k] by (force simp: pair_or_fresh_def split: option.splits if_splits)
    then have gone: "\<And>i t. fs_instances st i = Some t \<Longrightarrow> t \<le> now - 2 * interval"
      using now(2) by force
    have P: "pair_rel W T hist alerts k st"
      using pairs [of k] st(1) by (simp add: pair_or_fresh_def)
    have sight: "t \<le> now - W" if "t \<in> set (sightings_of hist k i)" for t i
    proof (cases "fs_instances st i")
      case None
      then show ?thesis using P that now(1) unfolding pair_rel_def by force
    next
      case (Some u)
      then have "t \<le> u"
        using P sightings_last [OF _ that] ok unfolding pair_rel_def history_ok_def by blast
      then show ?thesis using gone [OF Some] iv(3) by linarith
    qed
    have alert: "ca_LastSeen a \<le> now - W" if "a \<in> set alerts" "alert_key a = k" for a
    proof -
      have "0 < ca_LastSeen a" using ok that(1) by (simp add: history_ok_def)
      moreover have "ca_LastSeen a \<le> fs_flaggedAt st \<or> ca_LastSeen a \<le> T - W"
        "fs_flaggedAt st = 0 \<or> (\<exists>i t. fs_instances st i = Some t \<and> fs_flaggedAt st \<le> t)"
        using P that unfolding pair_rel_def by blast+
      ultimately show ?thesis using gone now(1) iv(3) by force
    qed
    show ?thesis
      unfolding st(2) pair_rel_def using sight alert by (simp add: fresh_fingerprintState_def)
  qed
  then show ?thesis
    using history_ok_later [OF ok now(1)] cfg by (simp add: correlator_rel_def GCCorrelatorOnce_def)
qed

text \<open>
  The orders along a run, and its times: a sighting is stamped under the lock, so that it lies no earlier than what the lock
  let through before it; a collection has the time of its tick and may come late.
\<close>

fun is_sighting :: "correlator_op \<Rightarrow> bool" where
  "is_sighting (Sighted now ks i s) = True"
| "is_sighting (Collected now kinds ids) = False"

definition sightings_ordered :: "correlator_op list \<Rightarrow> bool" where
  "sightings_ordered ops \<longleftrightarrow> sorted_wrt (\<lambda>p q. is_sighting q \<longrightarrow> correlator_op_at p \<le> correlator_op_at q) ops"

fun orders_along :: "duration \<Rightarrow> correlator_op list \<Rightarrow> Correlator \<times> CorrelatedAlert list \<Rightarrow> bool" where
  "orders_along interval [] cs \<longleftrightarrow> True"
| "orders_along interval (p # ops) cs \<longleftrightarrow> orders_ok p (fst cs) \<and> orders_along interval ops (correlator_step interval p cs)"

lemma correlator_run_rel:
  assumes "correlator_rel cfg W T c (hist, alerts)" and "W = correlation_window cfg" "0 < W" "W \<le> 2 * interval" "2 * interval \<le> max_duration"
    and "sightings_ordered ops" and "0 \<le> T" "\<forall>p \<in> set ops. 0 < correlator_op_at p \<and> (is_sighting p \<longrightarrow> T \<le> correlator_op_at p)"
    and "orders_along interval ops (c, alerts)"
  shows "snd (fold (correlator_step interval) ops (c, alerts)) =
    snd (fold (spec_step W (fc_MinInstancesForCorrelation cfg)) ops (hist, alerts))"
  using assms
proof (induction ops arbitrary: T c hist alerts)
  case (Cons p ops)
  have iv: "0 \<le> interval" using Cons.prems(3,4) by simp
  let ?cs = "correlator_step interval p (c, alerts)" and ?sp = "spec_step W (fc_MinInstancesForCorrelation cfg) p (hist, alerts)"
  let ?T = "max T (correlator_op_at p)"
  have "snd ?cs = snd ?sp \<and> correlator_rel cfg W ?T (fst ?cs) ?sp"
  proof (cases p)
    case (Sighted now ks i s)
    then show ?thesis
      using correlator_rel_ingest [OF Cons.prems(1), of now ks i s] Cons.prems by simp
  next
    case (Collected now kinds ids)
    then show ?thesis
      using correlator_rel_collect [OF Cons.prems(1), of now kinds ids interval ?T] Cons.prems iv by simp
  qed
  then obtain c' hist' alerts' where "?cs = (c', alerts')" "?sp = (hist', alerts')" "correlator_rel cfg W ?T c' (hist', alerts')"
    by (metis prod.collapse)
  moreover have "sightings_ordered ops" "\<forall>q \<in> set ops. 0 < correlator_op_at q \<and> (is_sighting q \<longrightarrow> ?T \<le> correlator_op_at q)"
    using Cons.prems(6,8) by (auto simp: sightings_ordered_def)
  ultimately show ?case
    using Cons.IH [of ?T c' hist' alerts'] Cons.prems by simp
qed simp

lemma correlator_rel_start: "correlator_rel cfg W 0 (NewCorrelator cfg) ([], [])"
  by (simp add: correlator_rel_def NewCorrelator_def history_ok_def pair_rel_def sightings_of_def pair_or_fresh_def pair_state_def
      fresh_fingerprintState_def)

text \<open>
  C27. Where the correlation window is at most twice the collection interval (the configuration does not enforce this, and
  \<open>early_collection_loses_alert\<close> shows that alerts are lost otherwise), the correlator implements the reference semantics of
  the whole history. Over any sequence of sightings and garbage collections, with a clock that does not go back between
  sightings, and in any order the runtime visits its maps, the alerts raised are exactly those of a correlator that forgets
  nothing: one alert for a tenant, fingerprint and kind when enough distinct instances have sighted it within a window, and none
  for a window after an alert.
\<close>

theorem correlator_refines_history:
  assumes "0 < correlation_window cfg" and "correlation_window cfg \<le> 2 * interval" and "2 * interval \<le> max_duration"
    and "sightings_ordered ops" and "list_all (\<lambda>p. 0 < correlator_op_at p) ops"
    and "orders_along interval ops (NewCorrelator cfg, [])"
  shows "snd (fold (correlator_step interval) ops (NewCorrelator cfg, [])) =
    snd (fold (spec_step (correlation_window cfg) (fc_MinInstancesForCorrelation cfg)) ops ([], []))"
  by (rule correlator_run_rel [OF correlator_rel_start refl assms(1-3)]) (use assms in \<open>auto simp: list_all_iff\<close>)

definition example_federation :: "int \<Rightarrow> FederationConfig" where
  "example_federation window = \<lparr>fc_PublishIntervalSeconds = 60, fc_MinInstancesForCorrelation = 2, fc_CorrelationWindowSeconds = window,
     fc_GCIntervalSeconds = 60\<rparr>"

text \<open>One instance sights an identity at 1 second, the state is collected at 200 seconds, another sights it at 201 seconds.\<close>

definition example_sightings :: "string list \<Rightarrow> correlator_op list" where
  "example_sightings ks =
     [Sighted (1 * second) [''a''] ''a'' (example_summary ''acme'' 0),
      Collected (200 * second) (\<lambda>_. [''rate_spike'']) (\<lambda>_ _. [''a'']),
      Sighted (201 * second) ks ''b'' (example_summary ''acme'' 0)]"

lemmas example_eval = example_sightings_def example_summary_def example_federation_def NewCorrelator_def Ingest_def recordAndCheck_def
  correlation_window_def fresh_fingerprintState_def GCCorrelatorOnce_def range_entries_def List.map_filter_def map_keep_def
  time_is_zero_def time_after_def second_def wrap64_id

lemma example_kept:
  "map (\<lambda>a. (ca_Tenant a, ca_LastSeen a)) (snd (fold (correlator_step (300 * second)) (example_sightings [''a'', ''b''])
     (NewCorrelator (example_federation 600), []))) = [(''acme'', 201 * second)]"
  by (simp add: example_eval)

text \<open>
  With a window of ten minutes and a collection every minute the same history raises no alert: the first
  sighting is dropped while it is still inside the window. The configuration check does not relate the two settings.
\<close>

theorem early_collection_loses_alert:
  "snd (fold (correlator_step (60 * second)) (example_sightings [''b'']) (NewCorrelator (example_federation 600), [])) = [] \<and>
   map (\<lambda>a. (ca_Tenant a, ca_InstanceIDs a))
     (snd (fold (spec_step (600 * second) 2) (example_sightings [''b'']) ([], []))) = [(''acme'', [''a'', ''b''])]"
  by (simp add: example_eval spec_ingest_def recently_seen_def summary_key_of_def)

lemma example_orders:
  "orders_along (300 * second) (example_sightings [''a'', ''b'']) (NewCorrelator (example_federation 600), [])"
proof -
  have "dom [''a'' \<mapsto> x, ''b'' \<mapsto> y] = {''a'', ''b''}" for x y :: go_time
    by auto
  then show ?thesis
    by (auto simp: example_eval pair_state_def summary_key_of_def range_order_def split: if_splits option.splits)
qed

theorem correlator_refines_history_witness:
  "map (\<lambda>a. (ca_Tenant a, ca_InstanceIDs a)) (snd (fold (correlator_step (300 * second)) (example_sightings [''a'', ''b''])
     (NewCorrelator (example_federation 600), []))) = [(''acme'', [''a'', ''b''])]"
proof -
  have w: "correlation_window (example_federation 600) = 600 * second"
    by (simp add: correlation_window_def example_federation_def second_def wrap64_id)
  have "sightings_ordered (example_sightings [''a'', ''b''])"
    "list_all (\<lambda>p. 0 < correlator_op_at p) (example_sightings [''a'', ''b''])"
    by (simp_all add: example_sightings_def sightings_ordered_def second_def)
  from correlator_refines_history [OF _ _ _ this example_orders, unfolded w]
  have "snd (fold (correlator_step (300 * second)) (example_sightings [''a'', ''b'']) (NewCorrelator (example_federation 600), [])) =
      snd (fold (spec_step (600 * second) (fc_MinInstancesForCorrelation (example_federation 600))) (example_sightings [''a'', ''b'']) ([], []))"
    by (simp add: second_def max_duration_def)
  then show ?thesis
    by (simp only:) (simp add: example_eval spec_ingest_def recently_seen_def summary_key_of_def)
qed

end
