(* ===== verification/Policy_Files.thy ===== *)
theory Policy_Files
  imports Keys Policy Proxy "HOL-Library.Char_ord" "HOL-Library.List_Lexorder" "HOL-Library.Product_Lexorder"
begin

text \<open>
  Policy files: loading and validating (\<open>internal/features/policy/adapter/yaml_loader.go\<close>), the dashboard's atomic save
  (\<open>yaml_writer.go\<close>), and the starter policy inferred from the audit trail (\<open>internal/features/policygen\<close>).

  The YAML library is a parameter: \<open>decode\<close> and \<open>encode\<close> of a policy document. The file system is a map from paths to
  contents; a write answers the states it goes through, so that a crash leaves one of them.
\<close>

section \<open>Loading\<close>

record ruleYAML =
  ry_Identity :: string
  ry_Tool :: string
  ry_Effect :: string
  ry_Tenant :: string
  ry_Method :: string

record policyYAML =
  py_Rules :: "ruleYAML list"
  py_Default :: string

datatype policy_problem =
    BadEffect nat string
  | EmptyIdentity nat
  | EmptyTool nat
  | BadMethod nat string
  | BadDefault string

datatype load_error = Unreadable | Unparsable | InvalidPolicy "policy_problem list"

definition parseEffect :: "string \<Rightarrow> Effect option" where
  "parseEffect s = (if s = ''allow'' then Some EffectAllow else if s = ''deny'' then Some EffectDeny else None)"

definition isValidRuleMethod :: "string \<Rightarrow> bool" where
  "isValidRuleMethod m \<longleftrightarrow> m = ''tools/call'' \<or> m = ''grpc'' \<or> prefix ''resources/'' m \<or> prefix ''prompts/'' m"

definition rule_problems :: "nat \<Rightarrow> ruleYAML \<Rightarrow> policy_problem list" where
  "rule_problems i r =
     (if ry_Identity r = '''' then [EmptyIdentity i] else []) @
     (if ry_Tool r = '''' then [EmptyTool i] else []) @
     (if ry_Method r \<noteq> '''' \<and> \<not> isValidRuleMethod (ry_Method r) then [BadMethod i (ry_Method r)] else [])"

fun rules_loop :: "nat \<Rightarrow> ruleYAML list \<Rightarrow> policy_problem list \<times> Rule list" where
  "rules_loop i [] = ([], [])"
| "rules_loop i (r # rs) =
     (let (problems, rules) = rules_loop (i + 1) rs
      in case parseEffect (ry_Effect r) of
           None \<Rightarrow> (BadEffect i (ry_Effect r) # problems, rules)
         | Some effect \<Rightarrow>
             (rule_problems i r @ problems,
              \<lparr>rule_Identity = ry_Identity r, rule_Tool = ry_Tool r, rule_Effect = effect, rule_Tenant = ry_Tenant r,
               rule_Method = ry_Method r\<rparr> # rules))"

definition ParseRules :: "(string \<Rightarrow> policyYAML option) \<Rightarrow> string \<Rightarrow> load_error + Rule list \<times> Effect" where
  "ParseRules decode src =
     (case decode src of
        None \<Rightarrow> Inl Unparsable
      | Some raw \<Rightarrow>
          let (problems, rules) = rules_loop 0 (py_Rules raw)
          in case parseEffect (py_Default raw) of
               None \<Rightarrow> Inl (InvalidPolicy (problems @ [BadDefault (py_Default raw)]))
             | Some def \<Rightarrow> if problems \<noteq> [] then Inl (InvalidPolicy problems) else Inr (rules, def))"

definition ParseYAML :: "(string \<Rightarrow> policyYAML option) \<Rightarrow> string \<Rightarrow> load_error + Matcher" where
  "ParseYAML decode src = (case ParseRules decode src of Inl e \<Rightarrow> Inl e | Inr (rules, def) \<Rightarrow> Inr (NewMatcher rules def))"

type_synonym files = "string \<rightharpoonup> string"

definition LoadFile :: "(string \<Rightarrow> policyYAML option) \<Rightarrow> files \<Rightarrow> string \<Rightarrow> load_error + Matcher" where
  "LoadFile decode fs path = (case fs path of None \<Rightarrow> Inl Unreadable | Some src \<Rightarrow> ParseYAML decode src)"

section \<open>Saving\<close>

fun effect_text :: "Effect \<Rightarrow> string" where
  "effect_text EffectAllow = ''allow''"
| "effect_text EffectDeny = ''deny''"
| "effect_text EffectNeedsApproval = ''needs_approval''"
| "effect_text (OtherEffect e) = e"

definition rule_to_yaml :: "Rule \<Rightarrow> ruleYAML" where
  "rule_to_yaml r = \<lparr>ry_Identity = rule_Identity r, ry_Tool = rule_Tool r, ry_Effect = effect_text (rule_Effect r),
     ry_Tenant = rule_Tenant r, ry_Method = rule_Method r\<rparr>"

definition MarshalYAML :: "(policyYAML \<Rightarrow> string option) \<Rightarrow> Rule list \<Rightarrow> Effect \<Rightarrow> string option" where
  "MarshalYAML encode rules def = encode \<lparr>py_Rules = map rule_to_yaml rules, py_Default = effect_text def\<rparr>"

text \<open>
  What the operating system answers: which call fails; a failing write leaves a part of the data. The removal is the deferred
  one of the temporary file, whose error the code discards.
\<close>

record write_faults =
  wf_create :: bool
  wf_write :: "nat option"
  wf_chmod :: bool
  wf_close :: bool
  wf_rename :: bool
  wf_remove :: bool

datatype save_error = MarshalFailed | RefusedInvalid load_error | CreateFailed | WriteFailed | ChmodFailed | CloseFailed | RenameFailed
  | FileExists

text \<open>
  Replacing a file by writing a temporary one beside it and renaming it: the states of the file system during the
  save, in order; \<open>tmpPath\<close> is the name \<open>CreateTemp\<close> chose.
\<close>

definition atomic_write :: "string \<Rightarrow> write_faults \<Rightarrow> string \<Rightarrow> string \<Rightarrow> files \<Rightarrow> save_error option \<times> files list" where
  "atomic_write tmpPath faults path src fs =
     (if wf_create faults then (Some CreateFailed, [fs])
      else
        let created = fs(tmpPath \<mapsto> '''');
            written = fs(tmpPath \<mapsto> (case wf_write faults of None \<Rightarrow> src | Some n \<Rightarrow> take n src));
            removed = (\<lambda>f :: files. if wf_remove faults then f else f(tmpPath := None));
            renamed = fs(tmpPath := None, path \<mapsto> src);
            before = [fs, created, written]
        in if wf_write faults \<noteq> None then (Some WriteFailed, before @ [removed written])
           else if wf_chmod faults then (Some ChmodFailed, before @ [removed written])
           else if wf_close faults then (Some CloseFailed, before @ [removed written])
           else if wf_rename faults then (Some RenameFailed, before @ [removed written])
           else (None, before @ [renamed]))"

definition policy_WriteFile ::
  "(policyYAML \<Rightarrow> string option) \<Rightarrow> (string \<Rightarrow> policyYAML option) \<Rightarrow> string \<Rightarrow> write_faults \<Rightarrow> string \<Rightarrow> Rule list \<Rightarrow> Effect \<Rightarrow>
   files \<Rightarrow> save_error option \<times> files list" where
  "policy_WriteFile encode decode tmpPath faults path rules def fs =
     (case MarshalYAML encode rules def of
        None \<Rightarrow> (Some MarshalFailed, [fs])
      | Some src \<Rightarrow>
          (case ParseYAML decode src of
             Inl e \<Rightarrow> (Some (RefusedInvalid e), [fs])
           | Inr _ \<Rightarrow> atomic_write tmpPath faults path src fs))"

section \<open>Inferring a starter policy\<close>

type_synonym tripleKey = "string \<times> string \<times> string" \<comment> \<open>tenant, identity, tool\<close>

definition infer_key :: "Entry \<Rightarrow> tripleKey option" where
  "infer_key e =
     (if e_Decision e \<noteq> ''allow'' \<or> e_Identity e = '''' \<or> e_Tool e = '''' \<or> e_Tool e = ''*'' then None
      else Some (if e_Tenant e = '''' then tenant_Default else e_Tenant e, e_Identity e, e_Tool e))"

fun infer_seen :: "Entry list \<Rightarrow> tripleKey list \<Rightarrow> tripleKey list" where
  "infer_seen [] seen = seen"
| "infer_seen (e # es) seen =
     (case infer_key e of None \<Rightarrow> infer_seen es seen | Some k \<Rightarrow> infer_seen es (List.insert k seen))"

definition infer_rule :: "tripleKey \<Rightarrow> Rule" where
  "infer_rule k = (case k of (tenant, identity, tool) \<Rightarrow>
     \<lparr>rule_Identity = identity, rule_Tool = tool, rule_Effect = EffectAllow, rule_Tenant = tenant, rule_Method = ''''\<rparr>)"

text \<open>\<open>order\<close> is the order in which the runtime visits the set of triples seen.\<close>

definition Infer :: "(tripleKey list \<Rightarrow> tripleKey list) \<Rightarrow> Entry list \<Rightarrow> Rule list" where
  "Infer order entries =
     sort_key (\<lambda>r. (rule_Tenant r, rule_Identity r, rule_Tool r)) (map infer_rule (order (infer_seen entries [])))"

text \<open>The inferred file: \<open>O_EXCL\<close> refuses an existing path, and a failed write removes what it created, if it can. No method is written.\<close>

definition policygen_document :: "Rule list \<Rightarrow> policyYAML" where
  "policygen_document rules =
     \<lparr>py_Rules = map (\<lambda>r. \<lparr>ry_Identity = rule_Identity r, ry_Tool = rule_Tool r, ry_Effect = effect_text (rule_Effect r),
        ry_Tenant = rule_Tenant r, ry_Method = ''''\<rparr>) rules, py_Default = effect_text EffectDeny\<rparr>"

definition policygen_WriteFile ::
  "(policyYAML \<Rightarrow> string option) \<Rightarrow> string \<Rightarrow> write_faults \<Rightarrow> string \<Rightarrow> Rule list \<Rightarrow> files \<Rightarrow> save_error option \<times> files list" where
  "policygen_WriteFile encode header faults path rules fs =
     (case encode (policygen_document rules) of
        None \<Rightarrow> (Some MarshalFailed, [fs])
      | Some doc \<Rightarrow>
          if fs path \<noteq> None then (Some FileExists, [fs])
          else if wf_create faults then (Some CreateFailed, [fs])
          else
            let src = header @ doc;
                written = fs(path \<mapsto> (case wf_write faults of None \<Rightarrow> src | Some n \<Rightarrow> take n src))
            in if wf_write faults \<noteq> None \<or> wf_close faults
               then (Some WriteFailed, [fs, fs(path \<mapsto> ''''), written, if wf_remove faults then written else written(path := None)])
               else (None, [fs, fs(path \<mapsto> ''''), written]))"

section \<open>What the loader accepts\<close>

definition rule_loadable :: "ruleYAML \<Rightarrow> bool" where
  "rule_loadable r \<longleftrightarrow> ry_Effect r \<in> {''allow'', ''deny''} \<and> ry_Identity r \<noteq> '''' \<and> ry_Tool r \<noteq> '''' \<and>
     (ry_Method r = '''' \<or> isValidRuleMethod (ry_Method r))"

lemma rule_problems_empty:
  "rule_problems i r = [] \<longleftrightarrow> ry_Identity r \<noteq> '''' \<and> ry_Tool r \<noteq> '''' \<and> (ry_Method r = '''' \<or> isValidRuleMethod (ry_Method r))"
  by (auto simp: rule_problems_def)

lemma rules_loop_ok: "fst (rules_loop i rs) = [] \<longleftrightarrow> list_all rule_loadable rs"
  by (induction rs arbitrary: i) (auto simp: case_prod_beta rule_loadable_def parseEffect_def rule_problems_empty)

text \<open>A rule list is a policy file's exactly when reading it back gives the same effects.\<close>

definition effect_canonical :: "Effect \<Rightarrow> bool" where
  "effect_canonical e = (case e of OtherEffect t \<Rightarrow> t \<notin> {''allow'', ''deny'', ''needs_approval''} | _ \<Rightarrow> True)"

lemma parseEffect_text: "effect_canonical e \<Longrightarrow> parseEffect (effect_text e) \<in> {None, Some e}"
  by (cases e) (auto simp: effect_canonical_def parseEffect_def)

lemma rules_loop_roundtrip:
  assumes "list_all (\<lambda>r. effect_canonical (rule_Effect r)) rules" "fst (rules_loop i (map rule_to_yaml rules)) = []"
  shows "snd (rules_loop i (map rule_to_yaml rules)) = rules"
  using assms
proof (induction rules arbitrary: i)
  case (Cons r rules)
  obtain effect where "parseEffect (effect_text (rule_Effect r)) = Some effect"
    using Cons.prems(2) by (auto simp: rule_to_yaml_def case_prod_beta split: option.splits)
  moreover from this have "effect = rule_Effect r"
    using parseEffect_text [of "rule_Effect r"] Cons.prems(1) by auto
  ultimately show ?case
    using Cons by (simp add: rule_to_yaml_def case_prod_beta)
qed simp

lemma ParseRules_document:
  assumes "decode src = Some \<lparr>py_Rules = map rule_to_yaml rules, py_Default = effect_text def\<rparr>"
    and "list_all (\<lambda>r. effect_canonical (rule_Effect r)) rules" "effect_canonical def"
    and "ParseYAML decode src = Inr m"
  shows "ParseRules decode src = Inr (rules, def)"
  using assms rules_loop_roundtrip [OF assms(2), of 0] parseEffect_text [OF assms(3)]
  by (auto simp: ParseYAML_def ParseRules_def case_prod_beta split: option.splits if_splits)

lemma ParseYAML_document:
  assumes "decode src = Some \<lparr>py_Rules = map rule_to_yaml rules, py_Default = effect_text def\<rparr>"
    and "list_all (\<lambda>r. effect_canonical (rule_Effect r)) rules" "effect_canonical def"
    and "ParseYAML decode src = Inr m"
  shows "m = NewMatcher rules def"
  using ParseRules_document [OF assms] assms(4) by (simp add: ParseYAML_def)

text \<open>A failed save leaves every file as it was, except the temporary one where its removal fails as well.\<close>

definition left_behind :: "string \<Rightarrow> write_faults \<Rightarrow> files \<Rightarrow> files \<Rightarrow> bool" where
  "left_behind tmpPath faults fs fs' \<longleftrightarrow> fs' = fs \<or> wf_remove faults \<and> fs' = fs(tmpPath := fs' tmpPath)"

lemma left_behind_refl [simp]: "left_behind tmpPath faults fs fs"
  by (simp add: left_behind_def)

lemma atomic_write_states:
  assumes "tmpPath \<noteq> path" and "fs tmpPath = None"
  shows "list_all (\<lambda>f. f path = fs path \<or> f path = Some src) (snd (atomic_write tmpPath faults path src fs)) \<and>
    (if fst (atomic_write tmpPath faults path src fs) = None
     then last (snd (atomic_write tmpPath faults path src fs)) = fs(path \<mapsto> src)
     else left_behind tmpPath faults fs (last (snd (atomic_write tmpPath faults path src fs)))) \<and>
    list_all (\<lambda>f. \<forall>p. p \<notin> {path, tmpPath} \<longrightarrow> f p = fs p) (snd (atomic_write tmpPath faults path src fs))"
proof -
  have "fs(tmpPath := None) = fs"
    using assms(2) by (simp add: fun_upd_idem)
  then show ?thesis
    using assms(1) by (cases "wf_write faults") (auto simp: atomic_write_def left_behind_def Let_def)
qed

lemma policy_WriteFile_saved:
  assumes "\<And>p src. encode p = Some src \<Longrightarrow> decode src = Some p" and "tmpPath \<noteq> path" and "fs tmpPath = None"
    and "list_all (\<lambda>r. effect_canonical (rule_Effect r)) rules" and "effect_canonical def"
    and "policy_WriteFile encode decode tmpPath faults path rules def fs = (None, states)"
  shows "\<exists>src. last states = fs(path \<mapsto> src) \<and> ParseRules decode src = Inr (rules, def)"
proof -
  obtain src m where src: "encode \<lparr>py_Rules = map rule_to_yaml rules, py_Default = effect_text def\<rparr> = Some src" "ParseYAML decode src = Inr m"
      "atomic_write tmpPath faults path src fs = (None, states)"
    using assms(6) by (auto simp: policy_WriteFile_def MarshalYAML_def split: option.splits sum.splits)
  have "last states = fs(path \<mapsto> src)"
    using atomic_write_states [of tmpPath path fs src faults, OF assms(2,3)] src(3) by simp
  then show ?thesis
    using ParseRules_document [OF assms(1) [OF src(1)] assms(4,5) src(2)] by blast
qed

text \<open>
  C30. Saving a policy is atomic and never persists a policy that would not load. Whatever call of the operating system
  fails, and wherever the process stops, the policy file holds its previous content or a document that loads as
  exactly the rules and default that were saved, and no file but it and the temporary one has changed; a save that reports
  success leaves the latter, a save that fails leaves every file as it was, except that the temporary file stays behind
  where its removal fails as well. The YAML library is only assumed to read back what it writes.
\<close>

theorem policy_save_atomic:
  fixes encode decode tmpPath faults path rules def fs
  defines "saved \<equiv> policy_WriteFile encode decode tmpPath faults path rules def fs"
  assumes "\<And>p src. encode p = Some src \<Longrightarrow> decode src = Some p" and "tmpPath \<noteq> path" and "fs tmpPath = None"
    and "list_all (\<lambda>r. effect_canonical (rule_Effect r)) rules" and "effect_canonical def"
  shows "list_all (\<lambda>f. f path = fs path \<or> LoadFile decode f path = Inr (NewMatcher rules def)) (snd saved) \<and>
    list_all (\<lambda>f. \<forall>p. p \<notin> {path, tmpPath} \<longrightarrow> f p = fs p) (snd saved) \<and>
    (if fst saved = None then LoadFile decode (last (snd saved)) path = Inr (NewMatcher rules def)
     else left_behind tmpPath faults fs (last (snd saved)))"
proof (cases "MarshalYAML encode rules def")
  case None
  then show ?thesis by (simp add: saved_def policy_WriteFile_def)
next
  case (Some src)
  then have dec: "decode src = Some \<lparr>py_Rules = map rule_to_yaml rules, py_Default = effect_text def\<rparr>"
    using assms(2) by (simp add: MarshalYAML_def)
  show ?thesis
  proof (cases "ParseYAML decode src")
    case (Inl e)
    then show ?thesis using Some by (simp add: saved_def policy_WriteFile_def)
  next
    case (Inr m)
    have m: "m = NewMatcher rules def"
      by (rule ParseYAML_document [OF dec assms(5,6) Inr])
    have load: "f path = Some src \<Longrightarrow> LoadFile decode f path = Inr (NewMatcher rules def)" for f :: files
      using Inr m by (simp add: LoadFile_def)
    show ?thesis
      using Some Inr load atomic_write_states [of tmpPath path fs src faults, OF assms(3,4)]
      by (auto simp: saved_def policy_WriteFile_def list_all_iff)

  qed
qed

definition no_faults :: write_faults where
  "no_faults = \<lparr>wf_create = False, wf_write = None, wf_chmod = False, wf_close = False, wf_rename = False, wf_remove = False\<rparr>"

text \<open>A toy codec for the concrete instances: it knows one document.\<close>

definition toy_encode :: "policyYAML \<Rightarrow> policyYAML \<Rightarrow> string option" where
  "toy_encode p q = (if q = p then Some ''doc'' else None)"

definition toy_decode :: "policyYAML \<Rightarrow> string \<Rightarrow> policyYAML option" where
  "toy_decode p src = (if src = ''doc'' then Some p else None)"

definition example_saved_rule :: Rule where
  "example_saved_rule = \<lparr>rule_Identity = ''alice'', rule_Tool = ''search'', rule_Effect = EffectAllow, rule_Tenant = ''acme'', rule_Method = ''''\<rparr>"

theorem policy_save_atomic_witness:
  "let p = \<lparr>py_Rules = [rule_to_yaml example_saved_rule], py_Default = ''deny''\<rparr>;
       save = (\<lambda>faults. policy_WriteFile (toy_encode p) (toy_decode p) ''t'' faults ''f'' [example_saved_rule] EffectDeny [''f'' \<mapsto> ''old''])
   in LoadFile (toy_decode p) (last (snd (save no_faults))) ''f'' = Inr (NewMatcher [example_saved_rule] EffectDeny) \<and>
      last (snd (save (no_faults\<lparr>wf_write := Some 2\<rparr>))) = [''f'' \<mapsto> ''old'']"
proof -
  let ?p = "\<lparr>py_Rules = [rule_to_yaml example_saved_rule], py_Default = ''deny''\<rparr>"
  note * = policy_save_atomic [where encode = "toy_encode ?p" and decode = "toy_decode ?p" and tmpPath = "''t''" and path = "''f''"
      and fs = "[''f'' \<mapsto> ''old'']" and rules = "[example_saved_rule]" and def = EffectDeny]
  have codec: "\<And>p src. toy_encode ?p p = Some src \<Longrightarrow> toy_decode ?p src = Some p"
    by (auto simp: toy_encode_def toy_decode_def split: if_splits)
  have ok: "list_all (\<lambda>r. effect_canonical (rule_Effect r)) [example_saved_rule]" "effect_canonical EffectDeny"
    by (simp_all add: example_saved_rule_def effect_canonical_def)
  have run: "fst (policy_WriteFile (toy_encode ?p) (toy_decode ?p) ''t'' faults ''f'' [example_saved_rule] EffectDeny [''f'' \<mapsto> ''old'']) =
      (if wf_write faults \<noteq> None then Some WriteFailed else None)"
    if "faults \<in> {no_faults, no_faults\<lparr>wf_write := Some 2\<rparr>}" for faults
    using that by (auto simp: policy_WriteFile_def atomic_write_def MarshalYAML_def toy_encode_def toy_decode_def ParseYAML_def ParseRules_def
        rule_to_yaml_def example_saved_rule_def parseEffect_def rule_problems_def no_faults_def)
  show ?thesis
    using * [of no_faults] * [of "no_faults\<lparr>wf_write := Some 2\<rparr>"] codec ok run [of no_faults] run [of "no_faults\<lparr>wf_write := Some 2\<rparr>"]
    by (simp add: no_faults_def left_behind_def)
qed

section \<open>What an inferred policy grants\<close>

lemma infer_seen_set: "set (infer_seen es seen) = set seen \<union> {k. \<exists>e \<in> set es. infer_key e = Some k}"
  by (induction es arbitrary: seen) (auto split: option.split)

lemma infer_seen_distinct: "distinct seen \<Longrightarrow> distinct (infer_seen es seen)"
  by (induction es arbitrary: seen) (auto split: option.split)

lemma infer_key_parts:
  "infer_key e = Some (t, i, u) \<Longrightarrow> t \<noteq> '''' \<and> i \<noteq> '''' \<and> u \<noteq> '''' \<and> u \<noteq> ''*''"
  by (auto simp: infer_key_def tenant_Default_def split: if_splits)

lemma Infer_set:
  assumes "\<And>ks :: tripleKey list. mset (order ks) = mset ks"
  shows "set (Infer order es) = infer_rule ` {k. \<exists>e \<in> set es. infer_key e = Some k}"
  using mset_eq_setD [OF assms] infer_seen_set [of es "[]"] by (simp add: Infer_def)

text \<open>The result does not depend on the order in which the runtime visits the triples.\<close>

lemma Infer_order_independent:
  assumes "\<And>ks :: tripleKey list. mset (order ks) = mset ks"
  shows "Infer order es = Infer id es"
proof -
  let ?key = "\<lambda>r. (rule_Tenant r, rule_Identity r, rule_Tool r)"
  have "inj_on ?key (infer_rule ` A)" for A
    by (auto simp: inj_on_def infer_rule_def)
  moreover have "mset (map infer_rule (order (infer_seen es []))) = mset (sort_key ?key (map infer_rule (infer_seen es [])))"
    using assms by simp
  ultimately show ?thesis
    unfolding Infer_def id_apply by (intro sort_key_inj_key_eq) auto
qed

lemma Infer_applies:
  assumes "\<And>ks :: tripleKey list. mset (order ks) = mset ks"
  shows "(\<exists>r \<in> set (Infer order es). rule_applies r pc) \<longleftrightarrow>
     method_or_default (ctx_Method pc) = ''tools/call'' \<and>
     (\<exists>e \<in> set es. infer_key e = Some (ctx_Tenant pc, ctx_Identity pc, ctx_Tool pc))"
  unfolding Infer_set [OF assms] using infer_key_parts
  by (force simp: infer_rule_def rule_applies_def method_or_default_def)

lemma Infer_evaluate:
  assumes "\<And>ks :: tripleKey list. mset (order ks) = mset ks"
  shows "dec_Effect (Matcher_Evaluate (NewMatcher (Infer order es) EffectDeny) pc) =
     (if method_or_default (ctx_Method pc) = ''tools/call'' \<and>
         (\<exists>e \<in> set es. infer_key e = Some (ctx_Tenant pc, ctx_Identity pc, ctx_Tool pc)) then EffectAllow else EffectDeny)"
proof -
  have allow: "rule_Effect r = EffectAllow" if "r \<in> set (Infer order es)" for r
    using that by (auto simp: Infer_set [OF assms] infer_rule_def)
  have "policy_spec (Infer order es) EffectDeny pc = (if \<exists>r \<in> set (Infer order es). rule_applies r pc then EffectAllow else EffectDeny)"
  proof (cases "find (\<lambda>r. rule_applies r pc) (Infer order es)")
    case None
    then have "\<not> (\<exists>r \<in> set (Infer order es). rule_applies r pc)"
      by (auto simp: find_None_iff)
    then show ?thesis using None by (simp add: policy_spec_def)
  next
    case (Some r)
    then show ?thesis
      using find_SomeD [OF Some] allow [of r] by (auto simp: policy_spec_def)
  qed
  then show ?thesis
    unfolding Infer_applies [OF assms, symmetric] by (simp add: yaml_engine.evaluate_effect NewMatcher_def)
qed

lemma policygen_document_loads:
  assumes "\<And>ks :: tripleKey list. mset (order ks) = mset ks" and "decode src = Some (policygen_document (Infer order es))"
  shows "ParseYAML decode src = Inr (NewMatcher (Infer order es) EffectDeny)"
proof -
  let ?rs = "Infer order es"
  have yaml: "py_Rules (policygen_document ?rs) = map rule_to_yaml ?rs"
    by (auto simp: policygen_document_def rule_to_yaml_def Infer_set [OF assms(1)] infer_rule_def)
  have ok: "list_all rule_loadable (map rule_to_yaml ?rs)" "list_all (\<lambda>r. effect_canonical (rule_Effect r)) ?rs"
    using infer_key_parts
    by (auto simp: list_all_iff Infer_set [OF assms(1)] infer_rule_def rule_to_yaml_def rule_loadable_def effect_canonical_def)
  have "fst (rules_loop 0 (map rule_to_yaml ?rs)) = []"
    using ok(1) by (simp add: rules_loop_ok)
  moreover from this have "snd (rules_loop 0 (map rule_to_yaml ?rs)) = ?rs"
    by (rule rules_loop_roundtrip [OF ok(2)])
  ultimately show ?thesis
    using assms(2) yaml by (simp add: ParseYAML_def ParseRules_def case_prod_beta) (simp add: policygen_document_def parseEffect_def)
qed

text \<open>
  The inferred policy is a loadable least-privilege policy. Writing it never touches an existing file, and a write that fails
  leaves nothing behind unless the removal of the new file fails too; once written it
  loads, and loaded it allows a call exactly when it is a \<open>tools/call\<close> of a tenant, identity and tool that occur together
  in an entry recorded as allowed, and denies every other call. The rules do not depend on the order the runtime
  visits the observed triples in. The YAML library is only assumed to read back the document it writes after a comment.
\<close>

theorem inferred_policy_exact:
  assumes "\<And>ks :: tripleKey list. mset (order ks) = mset ks"
    and "\<And>p doc. encode p = Some doc \<Longrightarrow> decode (header @ doc) = Some p"
  shows "let (err, states) = policygen_WriteFile encode header faults path (Infer order es) fs
    in Infer order es = Infer id es \<and>
       (if err = None
        then fs path = None \<and> (\<exists>m. LoadFile decode (last states) path = Inr m \<and>
          (\<forall>pc :: 'p Context. dec_Effect (Matcher_Evaluate m pc) =
             (if method_or_default (ctx_Method pc) = ''tools/call'' \<and>
                 list_ex (\<lambda>e. infer_key e = Some (ctx_Tenant pc, ctx_Identity pc, ctx_Tool pc)) es
              then EffectAllow else EffectDeny)))
        else left_behind path faults fs (last states))"
proof (cases "encode (policygen_document (Infer order es))")
  case None
  then show ?thesis
    using Infer_order_independent [OF assms(1)] by (simp add: policygen_WriteFile_def)
next
  case (Some doc)
  have load: "ParseYAML decode (header @ doc) = Inr (NewMatcher (Infer order es) EffectDeny)"
    by (rule policygen_document_loads [OF assms(1)]) (simp_all add: assms(2) [OF Some])
  have exact: "dec_Effect (Matcher_Evaluate (NewMatcher (Infer order es) EffectDeny) pc) =
      (if method_or_default (ctx_Method pc) = ''tools/call'' \<and>
          list_ex (\<lambda>e. infer_key e = Some (ctx_Tenant pc, ctx_Identity pc, ctx_Tool pc)) es
       then EffectAllow else EffectDeny)" for pc :: "'p Context"
    unfolding list_ex_iff by (rule Infer_evaluate [OF assms(1)])
  have restored: "fs(path := None) = fs" if "fs path = None"
    using that by (simp add: fun_upd_idem)
  have "case policygen_WriteFile encode header faults path (Infer order es) fs of (err, states) \<Rightarrow>
      (if err = None then fs path = None \<and> last states path = Some (header @ doc) else left_behind path faults fs (last states))"
    using Some restored by (simp add: policygen_WriteFile_def Let_def left_behind_def split: option.split)
  moreover have "\<exists>m. LoadFile decode f path = Inr m \<and> (\<forall>pc :: 'p Context. dec_Effect (Matcher_Evaluate m pc) =
             (if method_or_default (ctx_Method pc) = ''tools/call'' \<and>
                 list_ex (\<lambda>e. infer_key e = Some (ctx_Tenant pc, ctx_Identity pc, ctx_Tool pc)) es
              then EffectAllow else EffectDeny))" if "f path = Some (header @ doc)" for f :: files
    using that load exact by (intro exI [of _ "NewMatcher (Infer order es) EffectDeny"]) (simp add: LoadFile_def)
  ultimately show ?thesis
    using Infer_order_independent [OF assms(1), of es]
    by (cases "policygen_WriteFile encode header faults path (Infer order es) fs") (auto split: if_splits)
qed

definition example_trail :: "Entry list" where
  "example_trail =
     (let e = \<lparr>e_Timestamp = 1, e_Identity = ''alice'', e_Tenant = '''', e_Tool = ''search'', e_Decision = ''allow'', e_LatencyMS = 0,
            e_Reason = '''', e_TraceID = '''', e_Effect = None, e_EffectStatus = EffectStatusEmpty, e_SessionID = '''', e_TaintSources = []\<rparr>
      in [e, e\<lparr>e_Tool := ''delete'', e_Decision := ''deny''\<rparr>, e])"

definition example_call_context :: "string \<Rightarrow> unit Context" where
  "example_call_context tool = \<lparr>ctx_Identity = ''alice'', ctx_Tool = tool, ctx_Params = (), ctx_Timestamp = 0, ctx_RemoteAddr = '''',
     ctx_UserAgent = '''', ctx_Tenant = ''default'', ctx_Method = ''tools/call'', ctx_Tainted = False, ctx_JobOverBudget = False,
     ctx_CostOverBudget = False\<rparr>"

theorem inferred_policy_exact_witness:
  "let p = policygen_document (Infer rev example_trail);
       saved = policygen_WriteFile (toy_encode p) '''' no_faults ''f'' (Infer rev example_trail) Map.empty
   in \<exists>m. LoadFile (toy_decode p) (last (snd saved)) ''f'' = Inr m \<and>
        dec_Effect (Matcher_Evaluate m (example_call_context ''search'')) = EffectAllow \<and>
        dec_Effect (Matcher_Evaluate m (example_call_context ''delete'')) = EffectDeny"
proof -
  let ?p = "policygen_document (Infer rev example_trail)"
  have "mset (rev ks) = mset ks" for ks :: "tripleKey list" by simp
  moreover have "toy_encode ?p q = Some doc \<Longrightarrow> toy_decode ?p ('''' @ doc) = Some q" for q doc
    by (auto simp: toy_encode_def toy_decode_def split: if_splits)
  ultimately show ?thesis
    using inferred_policy_exact [of rev "toy_encode ?p" "toy_decode ?p" "''''" no_faults "''f''" example_trail Map.empty, where 'p = unit]
    by (auto simp: policygen_WriteFile_def toy_encode_def no_faults_def example_trail_def infer_key_def tenant_Default_def
        example_call_context_def method_or_default_def)
qed

section \<open>What inference adds\<close>

definition forwarded_as_allowed :: "gated_call \<Rightarrow> gate_result \<Rightarrow> bool" where
  "forwarded_as_allowed g res = (case res of Refused _ \<Rightarrow> True | Forward c \<Rightarrow>
     fw_decision c = ''allow'' \<and> fw_identity c = gc_identity g \<and> fw_tenant c = gc_tenant g \<and> fw_tool c = gc_auditTool g)"

lemma forwarded_as_allowed_simps [simp]:
  "forwarded_as_allowed g (fst (refuse h r g d reason st m s))"
  "forwarded_as_allowed g (allow_forward g reason)"
  by (simp_all add: forwarded_as_allowed_def refuse_def allow_forward_def)

lemma gate_cost_forwarded: "forwarded_as_allowed g (fst (gate_cost h r g reason grant s))"
  by (simp add: gate_cost_def case_prod_beta split: option.split)

lemma gate_job_forwarded: "forwarded_as_allowed g (fst (gate_job h r g reason grant s))"
  by (simp add: gate_job_def case_prod_beta gate_cost_forwarded split: option.split)

lemma gate_budget_forwarded: "forwarded_as_allowed g (fst (gate_budget h r g reason grant s))"
  by (simp add: gate_budget_def case_prod_beta gate_job_forwarded) (simp add: refuse_def forwarded_as_allowed_def)

lemma gate_policy_forwarded:
  assumes "gate_policy h r g s = (Forward c, s')"
  shows "fw_decision c = ''allow'' \<and> fw_identity c = gc_identity g \<and> fw_tenant c = gc_tenant g \<and> fw_tool c = gc_auditTool g"
proof -
  have "forwarded_as_allowed g (fst (gate_policy h r g s))"
    by (simp add: gate_policy_def case_prod_beta gate_budget_forwarded split: Outcome.split option.split sum.split)
  then show ?thesis using assms by (simp add: forwarded_as_allowed_def)
qed

text \<open>
  C33. Inference widens what was granted. Whatever the method of a gated call and whatever let it through, an
  unconditional allow or a single-use approval of an operator, it is recorded as \<open>allow\<close>; once its entry is in the
  trail, the inferred policy allows every \<open>tools/call\<close> of that identity and name, with no approval.
\<close>

theorem inference_widens_grants:
  fixes pc :: "'p Context"
  assumes "\<And>ks :: tripleKey list. mset (order ks) = mset ks"
    and "gate_policy h r g s = (Forward c, s')"
    and "gc_identity g \<noteq> ''''" "gc_tenant g \<noteq> ''''" "gc_auditTool g \<notin> {'''', ''*''}"
    and "e \<in> set es" "e_Decision e = fw_decision c" "e_Identity e = fw_identity c" "e_Tenant e = fw_tenant c" "e_Tool e = fw_tool c"
    and "ctx_Identity pc = gc_identity g" "ctx_Tenant pc = gc_tenant g" "ctx_Tool pc = gc_auditTool g"
    and "method_or_default (ctx_Method pc) = ''tools/call''"
  shows "dec_Effect (Matcher_Evaluate (NewMatcher (Infer order es) EffectDeny) pc) = EffectAllow"
proof -
  have "infer_key e = Some (ctx_Tenant pc, ctx_Identity pc, ctx_Tool pc)"
    using gate_policy_forwarded [OF assms(2)] assms(3-13) by (simp add: infer_key_def)
  then show ?thesis
    using assms(6,14) by (auto simp: Infer_evaluate [OF assms(1)])
qed

text \<open>A resource read that needed, and had, the approval of an operator.\<close>

definition approving_handler :: "unit Handler" where
  "approving_handler = plain_handler\<lparr>h_approval := Some (\<lambda>t i tool m u redacted s. (Inr \<lparr>res_Approved = True, res_PendingID = ''''\<rparr>, s))\<rparr>"

definition approved_read :: gated_call where
  "approved_read = \<lparr>gc_parsed = \<lparr>pr_Call = zero_ToolCall, pr_Method = ''resources/read'', pr_ID = '''', pr_IsToolCall = False, pr_IsGated = True\<rparr>,
     gc_identity = ''alice'', gc_tenant = ''default'', gc_auditTool = ''search'', gc_start = 0,
     gc_verdict = \<lparr>vd_Allow = False, vd_Outcome = OutcomeNeedsApproval, vd_Reason = '''', vd_TaintSources = []\<rparr>\<rparr>"

theorem inference_widens_grants_witness:
  "let e = (hd example_trail)\<lparr>e_Tenant := ''default''\<rparr> in
     (\<exists>c. fst (gate_policy approving_handler (example_request '''') approved_read ()) = Forward c \<and>
        e_Decision e = fw_decision c \<and> e_Identity e = fw_identity c \<and> e_Tenant e = fw_tenant c \<and> e_Tool e = fw_tool c) \<and>
     dec_Effect (Matcher_Evaluate (NewMatcher (Infer rev [e]) EffectDeny) (example_call_context ''search'')) = EffectAllow"
proof -
  let ?e = "(hd example_trail)\<lparr>e_Tenant := ''default''\<rparr>"
  obtain c where c: "gate_policy approving_handler (example_request '''') approved_read () = (Forward c, ())"
    by (simp add: gate_policy_def gate_budget_def approving_handler_def approved_read_def allow_forward_def)
  have e: "e_Decision ?e = fw_decision c" "e_Identity ?e = fw_identity c" "e_Tenant ?e = fw_tenant c" "e_Tool ?e = fw_tool c"
    using gate_policy_forwarded [OF c] by (simp_all add: example_trail_def approved_read_def)
  have "dec_Effect (Matcher_Evaluate (NewMatcher (Infer rev [?e]) EffectDeny) (example_call_context ''search'')) = EffectAllow"
    by (rule inference_widens_grants [OF _ c _ _ _ _ e])
      (simp_all add: approved_read_def example_call_context_def method_or_default_def)
  then show ?thesis using c e by (simp add: Let_def)
qed

end
