(* ===== verification/Config.thy ===== *)
theory Config
  imports Float64 Policy_Files Budget Taint Job_Budget Cost_Budget Federation
begin

text \<open>
  The operator's configuration (\<open>internal/platform/config/config.go\<close>): its validation with the defaults it fills in, the
  dashboard's rewriting of the budget section (\<open>budget_writer.go\<close>), and what the process builds from a validated
  configuration (\<open>cmd/wardline/main.go\<close>).

  The YAML decoder and the URL parser are parameters. A \<open>map\<close> read from YAML is an association list with distinct
  keys, its order being the one the runtime ranges over it. A \<open>float64\<close> of the configuration is only compared; YAML can
  write a NaN as \<open>.nan\<close>.
\<close>

section \<open>The configuration\<close>

record config_AuditConfig =
  au_Output :: string
  au_PostgresDSN :: string
  au_PostgresMaxOpenConns :: int
  au_RetentionDays :: int

record config_TaintConfig =
  ct_UntrustedSources :: "string list"
  ct_DeclassifySources :: "string list"
  ct_TTLSeconds :: int
  ct_SessionWindowSeconds :: int
  ct_SessionHeader :: string

record config_ApprovalConfig =
  ca_GrantTTLSeconds :: int

record config_JobBudgetConfig =
  cj_RequestsPerJob :: int
  cj_SessionWindowSeconds :: int

record config_JobCostBudgetConfig =
  cx_Ceiling :: int
  cx_ToolCosts :: "string \<rightharpoonup> int"
  cx_DefaultCost :: int
  cx_SessionWindowSeconds :: int

datatype BudgetConfig = BudgetConfig
  (bc_RequestsPerWindow: int)
  (bc_WindowSeconds: int)
  (bc_Tenants: "(string \<times> BudgetConfig) list")
  (bc_Tools: "(string \<times> BudgetConfig) list")

record config_TracingConfig =
  tr_OTLPEndpoint :: string
  tr_ServiceName :: string

record config_OIDCConfig =
  oi_Issuer :: string
  oi_JWKSURI :: string
  oi_Audience :: string
  oi_IdentityClaim :: string
  oi_TenantClaim :: string

record config_KMSConfig =
  km_KeyID :: string
  km_Region :: string

record config_SPIFFEWorkloadConfig =
  sw_SocketPath :: string
  sw_UpstreamPeerID :: string

record config_MTLSConfig =
  mt_Header :: string

record config_CredentialConfig =
  cr_IdentitiesFile :: string
  cr_SigningKeyFile :: string
  cr_PreviousSigningKeyFiles :: "string list"
  cr_SPIFFEWorkload :: config_SPIFFEWorkloadConfig
  cr_KMS :: config_KMSConfig
  cr_BootstrapSource :: string
  cr_OIDC :: config_OIDCConfig
  cr_OIDCProviders :: "config_OIDCConfig list"
  cr_MTLS :: config_MTLSConfig
  cr_AccessTokenTTLSeconds :: int
  cr_RefreshTokenTTLSeconds :: int

record config_ScimConfig =
  sc_BearerTokenEnv :: string
  sc_PersistPostgres :: bool

record config_RateSpikeConfig =
  rs_Enabled :: bool
  rs_Multiplier :: float64
  rs_MinCalls :: int

record config_DenyRateSpikeConfig =
  dr_Enabled :: bool
  dr_Threshold :: float64
  dr_MinCalls :: int

record config_MLScoreConfig =
  ml_Enabled :: bool
  ml_ScoreThreshold :: float64
  ml_MinCalls :: int

record config_AutoBlockConfig =
  ak_Enabled :: bool
  ak_ScoreThreshold :: float64
  ak_BlockDurationSeconds :: int

record config_DriftConfig =
  df_Enabled :: bool
  df_K :: float64
  df_H :: float64
  df_MinCalls :: int
  df_HJitterFraction :: float64
  df_JitterSecretFile :: string

record config_TenantAnomalyConfig =
  ta_Enabled :: bool
  ta_RateMultiplier :: float64
  ta_MinCalls :: int

record config_IdentityChurnConfig =
  ic_Enabled :: bool
  ic_RateMultiplier :: float64
  ic_MinNewIdentities :: int
  ic_CUSUMEnabled :: bool
  ic_K :: float64
  ic_H :: float64

record config_AnomalyConfig =
  ay_Output :: string
  ay_BufferCapacity :: int
  ay_GCIntervalSeconds :: int
  ay_WindowSeconds :: int
  ay_RateSpike :: config_RateSpikeConfig
  ay_NovelToolEnabled :: bool
  ay_DenyRateSpike :: config_DenyRateSpikeConfig
  ay_MLScore :: config_MLScoreConfig
  ay_AutoBlock :: config_AutoBlockConfig
  ay_Drift :: config_DriftConfig
  ay_TenantAnomaly :: config_TenantAnomalyConfig
  ay_IdentityChurn :: config_IdentityChurnConfig
  ay_RetentionDays :: int

record config_ComplianceConfig =
  cp_ScheduledExportIntervalSeconds :: int
  cp_ScheduledExportOutputDir :: string
  cp_SigningKeyFile :: string

record config_FederationConfig =
  cq_InstanceID :: string
  cq_PeersFile :: string
  cq_SigningKeyFile :: string
  cq_SharedSecretFile :: string
  cq_PublishIntervalSeconds :: int
  cq_MinInstancesForCorrelation :: int
  cq_CorrelationWindowSeconds :: int
  cq_GCIntervalSeconds :: int

record URL =
  url_Scheme :: string
  url_Host :: string

record Config =
  cf_Listen :: string
  cf_Upstream :: string
  cf_PolicyFile :: string
  cf_GRPCListen :: string
  cf_GRPCUpstream :: string
  cf_GRPCUpstreamTLS :: bool
  cf_PolicyBackend :: string
  cf_Audit :: config_AuditConfig
  cf_Budget :: BudgetConfig
  cf_Tracing :: config_TracingConfig
  cf_Credential :: config_CredentialConfig
  cf_RBAC_ConfigFile :: string
  cf_AllowInsecureSessionCookie :: bool
  cf_Scim :: config_ScimConfig
  cf_Anomaly :: config_AnomalyConfig
  cf_Federation :: config_FederationConfig
  cf_Compliance :: config_ComplianceConfig
  cf_Retention_CheckIntervalSeconds :: int
  cf_Taint :: config_TaintConfig
  cf_Approval :: config_ApprovalConfig
  cf_JobBudget :: config_JobBudgetConfig
  cf_JobCostBudget :: config_JobCostBudgetConfig
  cf_Features :: "string \<Rightarrow> bool"
  cf_ShutdownDelaySeconds :: int
  cf_UpstreamURL :: "URL option"

definition maxBudgetWindowSeconds :: int where
  "maxBudgetWindowSeconds = 86400"

definition defaultTracingServiceName :: string where
  "defaultTracingServiceName = ''wardline''"

definition defaultAnomalyGCIntervalSeconds :: int where
  "defaultAnomalyGCIntervalSeconds = 600"

definition defaultAccessTokenTTLSeconds :: int where
  "defaultAccessTokenTTLSeconds = 900"

definition defaultRefreshTokenTTLSeconds :: int where
  "defaultRefreshTokenTTLSeconds = 86400"

section \<open>Validation\<close>

text \<open>A problem names the key it is about, by its path in the file, and what is wrong with it.\<close>

datatype config_problem =
    MustNotBeEmpty string
  | NotAURL string
  | Unsupported string string
  | MustBePositive string
  | MustNotBeNegative string
  | TooLarge string int
  | OutOfRange string
  | Incomplete string nat
  | Duplicate string nat string
  | Requires string string
  | Conflicts string string

type_synonym check = "Config \<Rightarrow> config_problem list \<times> Config"

definition problem_if :: "bool \<Rightarrow> config_problem \<Rightarrow> config_problem list" where
  "problem_if b p = (if b then [p] else [])"

definition check_upstream :: "(string \<Rightarrow> URL option) \<Rightarrow> check" where
  "check_upstream ParseRequestURI c =
     (if cf_Upstream c = '''' then ([MustNotBeEmpty ''upstream''], c)
      else case ParseRequestURI (cf_Upstream c) of
             None \<Rightarrow> ([NotAURL ''upstream''], c)
           | Some u \<Rightarrow>
               if url_Scheme u \<noteq> ''http'' \<and> url_Scheme u \<noteq> ''https'' then ([Unsupported ''upstream'' (url_Scheme u)], c)
               else if url_Host u = '''' then ([NotAURL ''upstream''], c)
               else ([], c\<lparr>cf_UpstreamURL := Some u\<rparr>))"

definition check_backend :: check where
  "check_backend c =
     (if cf_PolicyBackend c = '''' then ([], c\<lparr>cf_PolicyBackend := ''yaml''\<rparr>)
      else (problem_if (cf_PolicyBackend c \<notin> {''yaml'', ''opa'', ''cedar''}) (Unsupported ''policy_backend'' (cf_PolicyBackend c)), c))"

definition check_grpc :: "Config \<Rightarrow> config_problem list" where
  "check_grpc c =
     (if cf_Features c ''grpc_transport''
      then problem_if (cf_GRPCListen c = '''') (MustNotBeEmpty ''grpc_listen'') @ problem_if (cf_GRPCUpstream c = '''') (MustNotBeEmpty ''grpc_upstream'')
      else [])"

definition check_audit :: check where
  "check_audit c =
     (let a = cf_Audit c in
      if cf_Features c ''postgres_storage''
      then (problem_if (au_PostgresDSN a = '''') (MustNotBeEmpty ''audit.postgres_dsn'') @ problem_if (au_PostgresMaxOpenConns a < 0) (MustNotBeNegative ''audit.postgres_max_open_conns''),
            if au_PostgresMaxOpenConns a = 0 then c\<lparr>cf_Audit := a\<lparr>au_PostgresMaxOpenConns := 25\<rparr>\<rparr> else c)
      else (problem_if (au_Output a = '''') (MustNotBeEmpty ''audit.output''), c))"

definition check_retention :: "Config \<Rightarrow> config_problem list" where
  "check_retention c =
     (let a = cf_Audit c in
      (if au_RetentionDays a < 0 then [MustNotBeNegative ''audit.retention_days'']
       else problem_if (0 < au_RetentionDays a \<and> au_Output a = ''stdout'') (Conflicts ''audit.retention_days'' ''audit.output'')) @
      (if cf_Features c ''log_retention''
       then problem_if (au_RetentionDays a \<le> 0 \<and> ay_RetentionDays (cf_Anomaly c) \<le> 0) (Requires ''features.log_retention'' ''retention_days'') @
            problem_if (cf_Retention_CheckIntervalSeconds c < 0) (MustNotBeNegative ''retention.check_interval_seconds'')
       else []))"

definition check_compliance :: "Config \<Rightarrow> config_problem list" where
  "check_compliance c =
     (if cf_Features c ''compliance_scheduled_export''
      then problem_if (cp_ScheduledExportIntervalSeconds (cf_Compliance c) \<le> 0) (MustBePositive ''compliance.scheduled_export_interval_seconds'') @
           problem_if (cp_ScheduledExportOutputDir (cf_Compliance c) = '''') (MustNotBeEmpty ''compliance.scheduled_export_output_dir'') @
           problem_if (\<not> cf_Features c ''postgres_storage'' \<and> au_Output (cf_Audit c) = ''stdout'') (Conflicts ''compliance.scheduled_export'' ''audit.output'')
      else [])"

text \<open>The overrides are reported in the order of their names.\<close>

definition check_override :: "string \<Rightarrow> string \<times> BudgetConfig \<Rightarrow> config_problem list" where
  "check_override key = (\<lambda>(name, t).
     problem_if (name = '''') (MustNotBeEmpty key) @
     problem_if (bc_RequestsPerWindow t \<le> 0) (MustBePositive (key @ ''.'' @ name @ ''.requests_per_window'')) @
     (if bc_WindowSeconds t \<le> 0 then [MustBePositive (key @ ''.'' @ name @ ''.window_seconds'')]
      else problem_if (maxBudgetWindowSeconds < bc_WindowSeconds t)
             (TooLarge (key @ ''.'' @ name @ ''.window_seconds'') (bc_WindowSeconds t))))"

definition check_budget :: "Config \<Rightarrow> config_problem list" where
  "check_budget c =
     (let b = cf_Budget c in
      if cf_Features c ''budget_enforcement''
      then problem_if (bc_RequestsPerWindow b \<le> 0) (MustBePositive ''budget.requests_per_window'') @
           (if bc_WindowSeconds b \<le> 0 then [MustBePositive ''budget.window_seconds'']
            else problem_if (maxBudgetWindowSeconds < bc_WindowSeconds b) (TooLarge ''budget.window_seconds'' (bc_WindowSeconds b))) @
           concat (map (check_override ''budget.tenants'') (sort_key fst (bc_Tenants b))) @
           concat (map (check_override ''budget.tools'') (sort_key fst (bc_Tools b)))
      else [])"

definition check_tracing :: check where
  "check_tracing c =
     (if cf_Features c ''otel_tracing''
      then (problem_if (tr_OTLPEndpoint (cf_Tracing c) = '''') (MustNotBeEmpty ''tracing.otlp_endpoint''),
            if tr_ServiceName (cf_Tracing c) = ''''
            then c\<lparr>cf_Tracing := (cf_Tracing c)\<lparr>tr_ServiceName := defaultTracingServiceName\<rparr>\<rparr> else c)
      else ([], c))"

text \<open>The providers of \<open>oidc_providers\<close>, with the claims they default to; \<open>i\<close> is the index of the first.\<close>

definition oidc_defaults :: "config_OIDCConfig \<Rightarrow> config_OIDCConfig" where
  "oidc_defaults p = p\<lparr>oi_IdentityClaim := (if oi_IdentityClaim p = '''' then ''sub'' else oi_IdentityClaim p),
     oi_TenantClaim := (if oi_TenantClaim p = '''' then ''tenant'' else oi_TenantClaim p)\<rparr>"

fun check_providers :: "nat \<Rightarrow> string set \<Rightarrow> config_OIDCConfig list \<Rightarrow> config_problem list \<times> config_OIDCConfig list" where
  "check_providers i seenIssuers [] = ([], [])"
| "check_providers i seenIssuers (p # ps) =
     (let (problems, rest) = check_providers (i + 1) (insert (oi_Issuer p) seenIssuers) ps
      in (problem_if (oi_Issuer p = '''' \<or> oi_Audience p = '''') (Incomplete ''credential.oidc_providers'' i) @
          problem_if (oi_Issuer p \<in> seenIssuers) (Duplicate ''credential.oidc_providers'' i (oi_Issuer p)) @ problems,
          oidc_defaults p # rest))"

definition check_oidc :: "config_CredentialConfig \<Rightarrow> config_problem list \<times> config_CredentialConfig" where
  "check_oidc r =
     (if cr_OIDCProviders r \<noteq> []
      then let oidcSingleSet = oi_Issuer (cr_OIDC r) \<noteq> '''' \<or> oi_Audience (cr_OIDC r) \<noteq> '''' \<or> oi_JWKSURI (cr_OIDC r) \<noteq> '''';
               (problems, providers) = check_providers 0 {} (cr_OIDCProviders r)
           in (problem_if oidcSingleSet (Conflicts ''credential.oidc'' ''credential.oidc_providers'') @ problems,
               r\<lparr>cr_OIDCProviders := providers\<rparr>)
      else (problem_if (oi_Issuer (cr_OIDC r) = '''' \<or> oi_Audience (cr_OIDC r) = '''') (MustNotBeEmpty ''credential.oidc''),
            r\<lparr>cr_OIDC := oidc_defaults (cr_OIDC r)\<rparr>))"

definition default_ttl :: "int \<Rightarrow> int \<Rightarrow> int" where
  "default_ttl def n = (if n = 0 then def else n)"

definition check_credential :: check where
  "check_credential c =
     (if \<not> cf_Features c ''credential_issuance'' then ([], c)
      else
        let r = cf_Credential c;
            first = problem_if (cr_IdentitiesFile r = '''' \<and> cr_BootstrapSource r \<noteq> ''oidc'') (MustNotBeEmpty ''credential.identities_file'') @
              problem_if (km_KeyID (cr_KMS r) \<noteq> '''' \<and> cr_SigningKeyFile r \<noteq> '''') (Conflicts ''credential.kms.key_id'' ''credential.signing_key_file'') @
              problem_if (cr_BootstrapSource r \<notin> {'''', ''presharedsecret'', ''oidc'', ''mtls''})
                (Unsupported ''credential.bootstrap_source'' (cr_BootstrapSource r));
            r = (if cr_BootstrapSource r = '''' then r\<lparr>cr_BootstrapSource := ''presharedsecret''\<rparr> else r);
            (oidc, r) = (if cr_BootstrapSource r = ''oidc'' then check_oidc r else ([], r))
        in (first @ oidc @
            problem_if (cr_BootstrapSource r = ''mtls'' \<and> mt_Header (cr_MTLS r) = '''') (MustNotBeEmpty ''credential.mtls.header'') @
            problem_if (cr_AccessTokenTTLSeconds r < 0) (MustNotBeNegative ''credential.access_token_ttl_seconds'') @
            problem_if (cr_RefreshTokenTTLSeconds r < 0) (MustNotBeNegative ''credential.refresh_token_ttl_seconds''),
            c\<lparr>cf_Credential := r\<lparr>cr_AccessTokenTTLSeconds := default_ttl defaultAccessTokenTTLSeconds (cr_AccessTokenTTLSeconds r),
              cr_RefreshTokenTTLSeconds := default_ttl defaultRefreshTokenTTLSeconds (cr_RefreshTokenTTLSeconds r)\<rparr>\<rparr>))"

definition check_rbac_scim :: "Config \<Rightarrow> config_problem list" where
  "check_rbac_scim c =
     problem_if (cf_Features c ''rbac'' \<and> cf_RBAC_ConfigFile c = '''') (MustNotBeEmpty ''rbac.config_file'') @
     (if cf_Features c ''scim''
      then problem_if (sc_BearerTokenEnv (cf_Scim c) = '''') (MustNotBeEmpty ''scim.bearer_token_env'') @
           problem_if (sc_PersistPostgres (cf_Scim c) \<and> \<not> cf_Features c ''postgres_storage'')
             (Requires ''scim.persist_postgres'' ''features.postgres_storage'')
      else [])"

definition check_anomaly_retention :: "Config \<Rightarrow> config_problem list" where
  "check_anomaly_retention c =
     (let a = cf_Anomaly c in
      if ay_RetentionDays a < 0 then [MustNotBeNegative ''anomaly.retention_days'']
      else problem_if (0 < ay_RetentionDays a \<and> ay_Output a = ''stdout'') (Conflicts ''anomaly.retention_days'' ''anomaly.output''))"

abbreviation f_zero :: float64 where
  "f_zero \<equiv> Finite 0"

abbreviation f_one :: float64 where
  "f_one \<equiv> Finite 1"

definition check_heuristics :: "config_AnomalyConfig \<Rightarrow> config_problem list" where
  "check_heuristics a =
     problem_if (rs_Enabled (ay_RateSpike a) \<and> f_le (rs_Multiplier (ay_RateSpike a)) f_zero) (MustBePositive ''anomaly.rate_spike.rate_multiplier'') @
     problem_if (rs_Enabled (ay_RateSpike a) \<and> rs_MinCalls (ay_RateSpike a) \<le> 0) (MustBePositive ''anomaly.rate_spike.min_calls'') @
     problem_if (dr_Enabled (ay_DenyRateSpike a) \<and>
         (f_le (dr_Threshold (ay_DenyRateSpike a)) f_zero \<or> f_lt f_one (dr_Threshold (ay_DenyRateSpike a)))) (OutOfRange ''anomaly.deny_rate_spike.threshold'') @
     problem_if (dr_Enabled (ay_DenyRateSpike a) \<and> dr_MinCalls (ay_DenyRateSpike a) \<le> 0) (MustBePositive ''anomaly.deny_rate_spike.min_calls'') @
     problem_if (ml_Enabled (ay_MLScore a) \<and> f_le (ml_ScoreThreshold (ay_MLScore a)) f_zero) (MustBePositive ''anomaly.ml_score.score_threshold'') @
     problem_if (ml_Enabled (ay_MLScore a) \<and> ml_MinCalls (ay_MLScore a) < 2) (OutOfRange ''anomaly.ml_score.min_calls'')"

definition check_drift :: "config_AnomalyConfig \<Rightarrow> config_problem list" where
  "check_drift a =
     (let d = ay_Drift a in
      if \<not> df_Enabled d then []
      else problem_if (\<not> ml_Enabled (ay_MLScore a)) (Requires ''anomaly.drift_detection'' ''anomaly.ml_score'') @
           problem_if (f_le (df_K d) f_zero) (MustBePositive ''anomaly.drift_detection.k'') @
           problem_if (f_le (df_H d) (df_K d)) (OutOfRange ''anomaly.drift_detection.h'') @
           problem_if (df_MinCalls d \<le> 0) (MustBePositive ''anomaly.drift_detection.min_calls'') @
           problem_if (f_lt (df_HJitterFraction d) f_zero \<or> f_le f_one (df_HJitterFraction d)) (OutOfRange ''anomaly.drift_detection.h_jitter_fraction'') @
           problem_if (f_lt f_zero (df_HJitterFraction d) \<and> df_JitterSecretFile d = '''') (MustNotBeEmpty ''anomaly.drift_detection.jitter_secret_file''))"

definition check_aggregates :: "config_AnomalyConfig \<Rightarrow> config_problem list" where
  "check_aggregates a =
     (let t = ay_TenantAnomaly a; i = ay_IdentityChurn a in
      (if ta_Enabled t
       then problem_if (f_le (ta_RateMultiplier t) f_zero) (MustBePositive ''anomaly.tenant_anomaly.rate_multiplier'') @
            problem_if (ta_MinCalls t \<le> 0) (MustBePositive ''anomaly.tenant_anomaly.min_calls'')
       else []) @
      (if ic_Enabled i
       then problem_if (f_le (ic_RateMultiplier i) f_zero) (MustBePositive ''anomaly.identity_churn.rate_multiplier'') @
            problem_if (ic_MinNewIdentities i \<le> 0) (MustBePositive ''anomaly.identity_churn.min_new_identities'') @
            (if ic_CUSUMEnabled i
             then problem_if (f_le (ic_K i) f_zero) (MustBePositive ''anomaly.identity_churn.k'') @
                  problem_if (f_le (ic_H i) f_zero) (MustBePositive ''anomaly.identity_churn.h'')
             else [])
       else []))"

definition check_autoblock :: "config_AnomalyConfig \<Rightarrow> config_problem list" where
  "check_autoblock a =
     (let b = ay_AutoBlock a; m = ay_MLScore a; limit = wrap64 (2 * ay_GCIntervalSeconds a) in
      if \<not> ak_Enabled b then []
      else problem_if (\<not> ml_Enabled m) (Requires ''anomaly.auto_block'' ''anomaly.ml_score'') @
           problem_if (f_le (ak_ScoreThreshold b) f_zero) (MustBePositive ''anomaly.auto_block.score_threshold'') @
           problem_if (ml_Enabled m \<and> f_lt (ak_ScoreThreshold b) (ml_ScoreThreshold m)) (OutOfRange ''anomaly.auto_block.score_threshold'') @
           problem_if (ak_BlockDurationSeconds b \<le> 0) (MustBePositive ''anomaly.auto_block.block_duration_seconds'') @
           problem_if (limit < ak_BlockDurationSeconds b) (TooLarge ''anomaly.auto_block.block_duration_seconds'' (ak_BlockDurationSeconds b)))"

definition check_anomaly :: check where
  "check_anomaly c =
     (if \<not> cf_Features c ''anomaly_detection'' then ([], c)
      else
        let a = cf_Anomaly c;
            a' = (if ay_GCIntervalSeconds a \<le> 0 then a\<lparr>ay_GCIntervalSeconds := defaultAnomalyGCIntervalSeconds\<rparr> else a)
        in (problem_if (ay_Output a = '''') (MustNotBeEmpty ''anomaly.output'') @
            problem_if (ay_Output a \<noteq> '''' \<and> ay_Output a \<noteq> ''stdout'' \<and> ay_Output a = au_Output (cf_Audit c)) (Conflicts ''anomaly.output'' ''audit.output'') @
            problem_if (ay_WindowSeconds a \<le> 0) (MustBePositive ''anomaly.window_seconds'') @
            check_heuristics a @ check_drift a @ check_aggregates a @ check_autoblock a',
            c\<lparr>cf_Anomaly := a'\<rparr>))"

definition check_federation :: "Config \<Rightarrow> config_problem list" where
  "check_federation c =
     (let f = cf_Federation c in
      if \<not> cf_Features c ''federation'' then []
      else problem_if (\<not> cf_Features c ''anomaly_detection'') (Requires ''features.federation'' ''features.anomaly_detection'') @
           problem_if (cq_PeersFile f = '''') (MustNotBeEmpty ''federation.peers_file'') @
           problem_if (cq_SigningKeyFile f = '''') (MustNotBeEmpty ''federation.signing_key_file'') @
           problem_if (cq_SharedSecretFile f = '''') (MustNotBeEmpty ''federation.shared_secret_file'') @
           problem_if (cq_PublishIntervalSeconds f \<le> 0) (MustBePositive ''federation.publish_interval_seconds'') @
           problem_if (cq_MinInstancesForCorrelation f < 2) (OutOfRange ''federation.min_instances_for_correlation'') @
           problem_if (cq_CorrelationWindowSeconds f \<le> 0) (MustBePositive ''federation.correlation_window_seconds'') @
           problem_if (cq_GCIntervalSeconds f \<le> 0) (MustBePositive ''federation.gc_interval_seconds''))"

text \<open>The checks run one after the other on the configuration the ones before have completed, and all are reported.\<close>

definition read_only :: "(Config \<Rightarrow> config_problem list) \<Rightarrow> check" where
  "read_only f c = (f c, c)"

primrec run_checks :: "check list \<Rightarrow> check" where
  "run_checks [] c = ([], c)"
| "run_checks (f # fs) c = (let (problems, c) = f c; (more, c) = run_checks fs c in (problems @ more, c))"

definition config_checks :: "(string \<Rightarrow> URL option) \<Rightarrow> check list" where
  "config_checks ParseRequestURI =
     [read_only (\<lambda>c. problem_if (cf_Listen c = '''') (MustNotBeEmpty ''listen'')), check_upstream ParseRequestURI,
      read_only (\<lambda>c. problem_if (cf_PolicyFile c = '''') (MustNotBeEmpty ''policy_file'')), check_backend, read_only check_grpc, check_audit,
      read_only check_retention, read_only check_compliance, read_only check_budget, check_tracing, check_credential,
      read_only check_rbac_scim, read_only check_anomaly_retention, check_anomaly, read_only check_federation,
      read_only (\<lambda>c. problem_if (cf_ShutdownDelaySeconds c < 0) (MustNotBeNegative ''shutdown_delay_seconds''))]"

definition validate :: "(string \<Rightarrow> URL option) \<Rightarrow> Config \<Rightarrow> config_problem list + Config" where
  "validate ParseRequestURI c =
     (let (problems, c) = run_checks (config_checks ParseRequestURI) c in if problems \<noteq> [] then Inl problems else Inr c)"

datatype config_error = ConfigUnreadable | ConfigUnparsable | ConfigInvalid "config_problem list"

text \<open>The decoder, and the URL parser the validation calls.\<close>

record config_reader =
  cd_decode :: "string \<Rightarrow> Config option"
  cd_ParseRequestURI :: "string \<Rightarrow> URL option"

definition ParseBytes :: "config_reader \<Rightarrow> string \<Rightarrow> config_error + Config" where
  "ParseBytes rd src =
     (case cd_decode rd src of
        None \<Rightarrow> Inl ConfigUnparsable
      | Some c \<Rightarrow> (case validate (cd_ParseRequestURI rd) c of Inl problems \<Rightarrow> Inl (ConfigInvalid problems) | Inr c \<Rightarrow> Inr c))"

definition config_Load :: "config_reader \<Rightarrow> files \<Rightarrow> string \<Rightarrow> config_error + Config" where
  "config_Load rd fs path = (case fs path of None \<Rightarrow> Inl ConfigUnreadable | Some src \<Rightarrow> ParseBytes rd src)"

section \<open>Validation is complete in one pass\<close>

lemma problem_if_empty [simp]: "problem_if b p = [] \<longleftrightarrow> \<not> b"
  by (simp add: problem_if_def)

text \<open>What each check that completes the configuration changes.\<close>

lemma check_frames:
  "snd (check_upstream uri c) = c\<lparr>cf_UpstreamURL := cf_UpstreamURL (snd (check_upstream uri c))\<rparr>"
  "snd (check_backend c) = c\<lparr>cf_PolicyBackend := cf_PolicyBackend (snd (check_backend c))\<rparr>"
  "snd (check_audit c) = c\<lparr>cf_Audit := cf_Audit (snd (check_audit c))\<rparr>"
  "snd (check_tracing c) = c\<lparr>cf_Tracing := cf_Tracing (snd (check_tracing c))\<rparr>"
  "snd (check_credential c) = c\<lparr>cf_Credential := cf_Credential (snd (check_credential c))\<rparr>"
  "snd (check_anomaly c) = c\<lparr>cf_Anomaly := cf_Anomaly (snd (check_anomaly c))\<rparr>"
  by (simp_all add: check_upstream_def check_backend_def check_audit_def check_tracing_def check_credential_def check_anomaly_def
      case_prod_beta split: option.split)

lemma check_anomaly_kept:
  "ay_RetentionDays (cf_Anomaly (snd (check_anomaly c))) = ay_RetentionDays (cf_Anomaly c)"
  "ay_Output (cf_Anomaly (snd (check_anomaly c))) = ay_Output (cf_Anomaly c)"
  by (simp_all add: check_anomaly_def)

text \<open>A check that found nothing finds nothing on what it completed, nor changes it, whatever the other checks did.\<close>

lemma check_upstream_settled:
  assumes "fst (check_upstream uri c) = []" "cf_Upstream e = cf_Upstream c" "cf_UpstreamURL e = cf_UpstreamURL (snd (check_upstream uri c))"
  shows "check_upstream uri e = ([], e)"
  using assms by (auto simp: check_upstream_def split: if_splits option.splits)

lemma check_backend_settled:
  assumes "fst (check_backend c) = []" "cf_PolicyBackend e = cf_PolicyBackend (snd (check_backend c))"
  shows "check_backend e = ([], e)"
  using assms by (auto simp: check_backend_def split: if_splits)

lemma check_audit_settled:
  assumes "fst (check_audit c) = []" "cf_Features e = cf_Features c" "cf_Audit e = cf_Audit (snd (check_audit c))"
  shows "check_audit e = ([], e)"
  using assms by (auto simp: check_audit_def split: if_splits)

lemma check_tracing_settled:
  assumes "fst (check_tracing c) = []" "cf_Features e = cf_Features c" "cf_Tracing e = cf_Tracing (snd (check_tracing c))"
  shows "check_tracing e = ([], e)"
  using assms by (auto simp: check_tracing_def defaultTracingServiceName_def split: if_splits)

lemma oidc_defaults_idem [simp]: "oidc_defaults (oidc_defaults p) = oidc_defaults p"
  by (simp add: oidc_defaults_def)

lemma oidc_defaults_kept [simp]:
  "oi_Issuer (oidc_defaults p) = oi_Issuer p" "oi_Audience (oidc_defaults p) = oi_Audience p" "oi_JWKSURI (oidc_defaults p) = oi_JWKSURI p"
  by (simp_all add: oidc_defaults_def)

lemma check_providers_map: "snd (check_providers i seen ps) = map oidc_defaults ps"
  by (induction ps arbitrary: i seen) (simp_all add: case_prod_beta)

lemma check_providers_settled: "fst (check_providers i seen (map oidc_defaults ps)) = fst (check_providers i seen ps)"
  by (induction ps arbitrary: i seen) (simp_all add: case_prod_beta)

lemma check_oidc_settled:
  assumes "fst (check_oidc r) = []" and "cr_OIDC q = cr_OIDC (snd (check_oidc r))" "cr_OIDCProviders q = cr_OIDCProviders (snd (check_oidc r))"
  shows "check_oidc q = ([], q)"
proof (cases "cr_OIDCProviders r = []")
  case True
  with assms show ?thesis by (simp add: check_oidc_def)
next
  case False
  have "fst (check_providers 0 {} (map oidc_defaults (cr_OIDCProviders r))) = []"
    using assms(1) False by (simp add: check_oidc_def check_providers_settled case_prod_beta)
  with False assms show ?thesis
    by (simp add: check_oidc_def check_providers_map case_prod_beta comp_def)
qed

lemma default_ttl_settled [simp]:
  "default_ttl defaultAccessTokenTTLSeconds n = 0 \<longleftrightarrow> False" "default_ttl defaultRefreshTokenTTLSeconds n = 0 \<longleftrightarrow> False"
  "default_ttl d (default_ttl d n) = default_ttl d n"
  by (simp_all add: default_ttl_def defaultAccessTokenTTLSeconds_def defaultRefreshTokenTTLSeconds_def)

lemma default_ttl_negative [simp]:
  "default_ttl defaultAccessTokenTTLSeconds n < 0 \<longleftrightarrow> n < 0" "default_ttl defaultRefreshTokenTTLSeconds n < 0 \<longleftrightarrow> n < 0"
  by (simp_all add: default_ttl_def defaultAccessTokenTTLSeconds_def defaultRefreshTokenTTLSeconds_def)

lemma check_oidc_kept:
  "cr_IdentitiesFile (snd (check_oidc r)) = cr_IdentitiesFile r" "cr_KMS (snd (check_oidc r)) = cr_KMS r"
  "cr_SigningKeyFile (snd (check_oidc r)) = cr_SigningKeyFile r" "cr_BootstrapSource (snd (check_oidc r)) = cr_BootstrapSource r"
  "cr_MTLS (snd (check_oidc r)) = cr_MTLS r"
  "cr_AccessTokenTTLSeconds (snd (check_oidc r)) = cr_AccessTokenTTLSeconds r"
  "cr_RefreshTokenTTLSeconds (snd (check_oidc r)) = cr_RefreshTokenTTLSeconds r"
  by (simp_all add: check_oidc_def case_prod_beta)

lemma check_credential_settled:
  assumes "fst (check_credential c) = []" "cf_Features e = cf_Features c" "cf_Credential e = cf_Credential (snd (check_credential c))"
  shows "check_credential e = ([], e)"
proof (cases "cf_Features c ''credential_issuance''")
  case False
  with assms show ?thesis by (simp add: check_credential_def)
next
  case True
  let ?r = "cf_Credential c"
  show ?thesis
  proof (cases "cr_BootstrapSource ?r = ''oidc''")
    case oidc: True
    let ?q = "(snd (check_oidc ?r))\<lparr>cr_AccessTokenTTLSeconds := default_ttl defaultAccessTokenTTLSeconds (cr_AccessTokenTTLSeconds ?r),
      cr_RefreshTokenTTLSeconds := default_ttl defaultRefreshTokenTTLSeconds (cr_RefreshTokenTTLSeconds ?r)\<rparr>"
    have q: "cf_Credential e = ?q"
      using assms(3) True oidc by (simp add: check_credential_def case_prod_beta check_oidc_kept)
    have "check_oidc ?q = ([], ?q)"
      by (rule check_oidc_settled [of ?r]) (use assms(1) True oidc in \<open>simp_all add: check_credential_def case_prod_beta\<close>)
    then show ?thesis
      using assms(1,2) True oidc q by (simp add: check_credential_def case_prod_beta check_oidc_kept)
  next
    case other: False
    then show ?thesis
      using assms True by (cases "cr_BootstrapSource ?r = ''''") (auto simp: check_credential_def)
  qed
qed

lemma check_autoblock_gc: "ay_GCIntervalSeconds a = ay_GCIntervalSeconds a' \<Longrightarrow> ay_MLScore a = ay_MLScore a' \<Longrightarrow>
  ay_AutoBlock a = ay_AutoBlock a' \<Longrightarrow> check_autoblock a = check_autoblock a'"
  by (simp add: check_autoblock_def)

lemma check_anomaly_settled:
  assumes "fst (check_anomaly c) = []" "cf_Features e = cf_Features c" "cf_Audit e = cf_Audit c"
    and "cf_Anomaly e = cf_Anomaly (snd (check_anomaly c))"
  shows "check_anomaly e = ([], e)"
proof (cases "cf_Features c ''anomaly_detection'' \<and> ay_GCIntervalSeconds (cf_Anomaly c) \<le> 0")
  case False
  with assms show ?thesis by (auto simp: check_anomaly_def)
next
  case True
  let ?a = "(cf_Anomaly c)\<lparr>ay_GCIntervalSeconds := defaultAnomalyGCIntervalSeconds\<rparr>"
  have a: "cf_Anomaly e = ?a"
    using assms(4) True by (simp add: check_anomaly_def)
  have "check_heuristics ?a = check_heuristics (cf_Anomaly c)" "check_drift ?a = check_drift (cf_Anomaly c)"
    "check_aggregates ?a = check_aggregates (cf_Anomaly c)"
    by (simp_all add: check_heuristics_def check_drift_def check_aggregates_def)
  then show ?thesis
    using assms(1-3) True a by (auto simp: check_anomaly_def defaultAnomalyGCIntervalSeconds_def)
qed

text \<open>The states a successful validation goes through, and what each check found there.\<close>



lemma validate_run:
  assumes "run_checks (config_checks uri) c = ([], e)"
  obtains c1 c2 c3 c4 c5 where
    "fst (check_upstream uri c) = []" "c1 = snd (check_upstream uri c)" "fst (check_backend c1) = []" "c2 = snd (check_backend c1)"
    "fst (check_audit c2) = []" "c3 = snd (check_audit c2)" "fst (check_tracing c3) = []" "c4 = snd (check_tracing c3)"
    "fst (check_credential c4) = []" "c5 = snd (check_credential c4)" "fst (check_anomaly c5) = []" "e = snd (check_anomaly c5)"
    "cf_Listen c \<noteq> ''''" "cf_PolicyFile c1 \<noteq> ''''" "check_grpc c2 = []" "check_retention c3 = []" "check_compliance c3 = []"
    "check_budget c3 = []" "check_rbac_scim c5 = []" "check_anomaly_retention c5 = []" "check_federation e = []" "0 \<le> cf_ShutdownDelaySeconds e"
proof -
  show ?thesis
    by (rule that [OF _ refl _ refl _ refl _ refl _ refl])
      (use assms in \<open>auto simp: config_checks_def read_only_def case_prod_beta prod_eq_iff\<close>)
qed

text \<open>The checks that only read do not read what the later ones complete.\<close>

lemma read_frames:
  "check_grpc (c\<lparr>cf_Audit := a\<rparr>) = check_grpc c" "check_grpc (c\<lparr>cf_Tracing := t\<rparr>) = check_grpc c"
  "check_grpc (c\<lparr>cf_Credential := r\<rparr>) = check_grpc c" "check_grpc (c\<lparr>cf_Anomaly := n\<rparr>) = check_grpc c"
  "check_compliance (c\<lparr>cf_Tracing := t\<rparr>) = check_compliance c" "check_compliance (c\<lparr>cf_Credential := r\<rparr>) = check_compliance c"
  "check_compliance (c\<lparr>cf_Anomaly := n\<rparr>) = check_compliance c"
  "check_budget (c\<lparr>cf_Tracing := t\<rparr>) = check_budget c" "check_budget (c\<lparr>cf_Credential := r\<rparr>) = check_budget c"
  "check_budget (c\<lparr>cf_Anomaly := n\<rparr>) = check_budget c" "check_rbac_scim (c\<lparr>cf_Anomaly := n\<rparr>) = check_rbac_scim c"
  "check_retention (c\<lparr>cf_Tracing := t\<rparr>) = check_retention c" "check_retention (c\<lparr>cf_Credential := r\<rparr>) = check_retention c"
  by (simp_all add: check_grpc_def check_compliance_def check_budget_def check_rbac_scim_def check_retention_def)

lemma read_frames_anomaly:
  assumes "ay_RetentionDays n = ay_RetentionDays (cf_Anomaly c)" "ay_Output n = ay_Output (cf_Anomaly c)"
  shows "check_retention (c\<lparr>cf_Anomaly := n\<rparr>) = check_retention c"
    and "check_anomaly_retention (c\<lparr>cf_Anomaly := n\<rparr>) = check_anomaly_retention c"
  using assms by (simp_all add: check_retention_def check_anomaly_retention_def)

lemma run_checks_settled: "\<forall>f \<in> set fs. f c = ([], c) \<Longrightarrow> run_checks fs c = ([], c)"
  by (induction fs) simp_all

lemma validate_settled:
  assumes "validate uri c = Inr e"
  shows "\<forall>f \<in> set (config_checks uri). f e = ([], e)"
proof -
  have "run_checks (config_checks uri) c = ([], e)"
    using assms by (auto simp: validate_def case_prod_beta prod_eq_iff split: if_splits)
  then show ?thesis
  proof (rule validate_run)
    fix c1 c2 c3 c4 c5
    assume upstream: "fst (check_upstream uri c) = []" "c1 = snd (check_upstream uri c)"
      and backend: "fst (check_backend c1) = []" "c2 = snd (check_backend c1)"
      and audit: "fst (check_audit c2) = []" "c3 = snd (check_audit c2)"
      and tracing: "fst (check_tracing c3) = []" "c4 = snd (check_tracing c3)"
      and credential: "fst (check_credential c4) = []" "c5 = snd (check_credential c4)"
      and anomaly: "fst (check_anomaly c5) = []" "e = snd (check_anomaly c5)"
      and rest: "cf_Listen c \<noteq> ''''" "cf_PolicyFile c1 \<noteq> ''''" "check_grpc c2 = []" "check_retention c3 = []" "check_compliance c3 = []"
        "check_budget c3 = []" "check_rbac_scim c5 = []" "check_anomaly_retention c5 = []" "check_federation e = []"
        "0 \<le> cf_ShutdownDelaySeconds e"
    note frames = check_frames(1) [of uri c, folded upstream(2)] check_frames(2) [of c1, folded backend(2)] check_frames(3) [of c2, folded audit(2)]
      check_frames(4) [of c3, folded tracing(2)] check_frames(5) [of c4, folded credential(2)] check_frames(6) [of c5, folded anomaly(2)]
    obtain u where c1: "c1 = c\<lparr>cf_UpstreamURL := u\<rparr>" using frames(1) by blast
    obtain b where c2: "c2 = c1\<lparr>cf_PolicyBackend := b\<rparr>" using frames(2) by blast
    obtain a where c3: "c3 = c2\<lparr>cf_Audit := a\<rparr>" using frames(3) by blast
    obtain t where c4: "c4 = c3\<lparr>cf_Tracing := t\<rparr>" using frames(4) by blast
    obtain r where c5: "c5 = c4\<lparr>cf_Credential := r\<rparr>" using frames(5) by blast
    obtain n where e: "e = c5\<lparr>cf_Anomaly := n\<rparr>" using frames(6) by blast
    have n: "ay_RetentionDays n = ay_RetentionDays (cf_Anomaly c5)" "ay_Output n = ay_Output (cf_Anomaly c5)"
      using check_anomaly_kept [of c5] by (simp_all add: anomaly(2) [symmetric] e)
    have "check_upstream uri e = ([], e)"
      by (rule check_upstream_settled [OF upstream(1)]) (simp_all add: upstream(2) [symmetric] c1 c2 c3 c4 c5 e)
    moreover have "check_backend e = ([], e)"
      by (rule check_backend_settled [OF backend(1)]) (simp add: backend(2) [symmetric] c2 c3 c4 c5 e)
    moreover have "check_audit e = ([], e)"
      by (rule check_audit_settled [OF audit(1)]) (simp_all add: audit(2) [symmetric] c3 c4 c5 e)
    moreover have "check_tracing e = ([], e)"
      by (rule check_tracing_settled [OF tracing(1)]) (simp_all add: tracing(2) [symmetric] c4 c5 e)
    moreover have "check_credential e = ([], e)"
      by (rule check_credential_settled [OF credential(1)]) (simp_all add: credential(2) [symmetric] c5 e)
    moreover have "check_anomaly e = ([], e)"
      by (rule check_anomaly_settled [OF anomaly(1)]) (simp_all add: anomaly(2) [symmetric] e)
    moreover have "cf_Listen e \<noteq> ''''" "cf_PolicyFile e \<noteq> ''''"
      using rest(1,2) by (simp_all add: c1 c2 c3 c4 c5 e)
    moreover have "check_grpc e = []" "check_compliance e = []" "check_budget e = []" "check_rbac_scim e = []"
      using rest(3,5-7) by (simp_all only: c3 c4 c5 e read_frames)
    moreover have "check_retention e = []" "check_anomaly_retention e = []"
      using rest(4,8) by (simp_all only: e c5 c4 read_frames_anomaly [OF n, folded e] read_frames_anomaly [OF n, unfolded c5 c4] read_frames)

    ultimately show ?thesis
      using rest(9,10) by (auto simp: config_checks_def read_only_def)
  qed
qed

text \<open>
  Loading a configuration completes it once and for all: validating the result again accepts it and changes nothing,
  so that what the process runs with is what a reload of the same settings would run with.
\<close>

theorem validate_idempotent:
  assumes "validate uri c = Inr e"
  shows "validate uri e = Inr e"
  using run_checks_settled [OF validate_settled [OF assms]] by (simp add: validate_def)

text \<open>What a configuration has to have before the process is built from it.\<close>

definition budget_sound :: "BudgetConfig \<Rightarrow> bool" where
  "budget_sound b \<longleftrightarrow> 0 < bc_RequestsPerWindow b \<and> 0 < bc_WindowSeconds b \<and> bc_WindowSeconds b \<le> maxBudgetWindowSeconds"

lemma check_override_ok: "check_override key (name, t) = [] \<longleftrightarrow> name \<noteq> '''' \<and> budget_sound t"
  by (auto simp: check_override_def budget_sound_def)

lemma check_budget_ok:
  assumes "cf_Features c ''budget_enforcement''" "check_budget c = []"
  shows "budget_sound (cf_Budget c)" "\<forall>(name, t) \<in> set (bc_Tenants (cf_Budget c)) \<union> set (bc_Tools (cf_Budget c)). name \<noteq> '''' \<and> budget_sound t"
  using assms by (auto simp: check_budget_def check_override_ok budget_sound_def split: if_splits)

lemma check_providers_ok:
  assumes "fst (check_providers i seen ps) = []"
  shows "distinct (map oi_Issuer ps) \<and> set (map oi_Issuer ps) \<inter> seen = {} \<and> list_all (\<lambda>p. oi_Issuer p \<noteq> '''' \<and> oi_Audience p \<noteq> '''') ps"
  using assms by (induction ps arbitrary: i seen) (fastforce simp: case_prod_beta)+

lemma check_upstream_ok:
  assumes "check_upstream uri e = ([], e)"
  shows "\<exists>u. cf_UpstreamURL e = Some u \<and> url_Scheme u \<in> {''http'', ''https''} \<and> url_Host u \<noteq> ''''"
proof -
  obtain u where u: "url_Scheme u \<in> {''http'', ''https''}" "url_Host u \<noteq> ''''" "e\<lparr>cf_UpstreamURL := Some u\<rparr> = e"
    using assms by (auto simp: check_upstream_def split: if_splits option.splits)
  have "cf_UpstreamURL e = Some u"
    using arg_cong [OF u(3), of cf_UpstreamURL] by simp
  with u show ?thesis by auto
qed

lemma check_backend_ok:
  assumes "check_backend e = ([], e)"
  shows "cf_PolicyBackend e \<in> {''yaml'', ''opa'', ''cedar''}"
proof (cases "cf_PolicyBackend e = ''''")
  case True
  then have "e\<lparr>cf_PolicyBackend := ''yaml''\<rparr> = e" using assms by (simp add: check_backend_def)
  from arg_cong [OF this, of cf_PolicyBackend] show ?thesis by simp
next
  case False
  then show ?thesis using assms by (auto simp: check_backend_def)
qed

lemma check_oidc_ok:
  assumes "fst (check_oidc r) = []"
  shows "let ps = (if cr_OIDCProviders r = [] then [cr_OIDC r] else cr_OIDCProviders r)
    in distinct (map oi_Issuer ps) \<and> list_all (\<lambda>p. oi_Issuer p \<noteq> '''' \<and> oi_Audience p \<noteq> '''') ps"
  using assms check_providers_ok [of 0 "{}" "cr_OIDCProviders r"] by (auto simp: check_oidc_def case_prod_beta split: if_splits)

lemma check_credential_ok:
  assumes "cf_Features e ''credential_issuance''" and "check_credential e = ([], e)"
  defines "r \<equiv> cf_Credential e"
  shows "cr_BootstrapSource r \<in> {''presharedsecret'', ''oidc'', ''mtls''}" "0 < cr_AccessTokenTTLSeconds r" "0 < cr_RefreshTokenTTLSeconds r"
    and "cr_BootstrapSource r = ''oidc'' \<Longrightarrow> fst (check_oidc r) = []"
proof -
  let ?q = "if cr_BootstrapSource r = '''' then r\<lparr>cr_BootstrapSource := ''presharedsecret''\<rparr> else r"
  let ?o = "if cr_BootstrapSource ?q = ''oidc'' then check_oidc ?q else ([], ?q)"
  have out: "cf_Credential (snd (check_credential e)) = (snd ?o)\<lparr>cr_AccessTokenTTLSeconds := default_ttl defaultAccessTokenTTLSeconds (cr_AccessTokenTTLSeconds (snd ?o)),
      cr_RefreshTokenTTLSeconds := default_ttl defaultRefreshTokenTTLSeconds (cr_RefreshTokenTTLSeconds (snd ?o))\<rparr>"
    using assms(1) by (simp only: check_credential_def r_def Let_def case_prod_beta) simp
  have "cf_Credential (snd (check_credential e)) = r"
    by (simp add: assms(2) r_def)
  note r = out [unfolded this]
  have ttl: "cr_AccessTokenTTLSeconds r \<noteq> 0" "cr_RefreshTokenTTLSeconds r \<noteq> 0"
    using arg_cong [OF r, of cr_AccessTokenTTLSeconds] arg_cong [OF r, of cr_RefreshTokenTTLSeconds] default_ttl_settled(1,2) by auto
  have src: "cr_BootstrapSource r \<noteq> ''''"
    using arg_cong [OF r, of cr_BootstrapSource] by (auto simp: check_oidc_kept)
  have found: "fst (check_credential e) = []"
    by (simp add: assms(2))
  show "cr_BootstrapSource r \<in> {''presharedsecret'', ''oidc'', ''mtls''}"
    using found assms(1) src by (auto simp: check_credential_def r_def case_prod_beta)
  have "\<not> cr_AccessTokenTTLSeconds r < 0" "\<not> cr_RefreshTokenTTLSeconds r < 0"
    using found assms(1) src by (auto simp: check_credential_def r_def case_prod_beta check_oidc_kept split: if_splits)
  with ttl show "0 < cr_AccessTokenTTLSeconds r" "0 < cr_RefreshTokenTTLSeconds r"
    by simp_all
  show "fst (check_oidc r) = []" if "cr_BootstrapSource r = ''oidc''"
    using found assms(1) that by (simp add: check_credential_def r_def case_prod_beta)
qed

lemma check_autoblock_ok:
  assumes "cf_Features e ''anomaly_detection''" "check_anomaly e = ([], e)"
  shows "check_autoblock (cf_Anomaly e) = []"
proof -
  have "cf_Anomaly (snd (check_anomaly e)) = cf_Anomaly e"
    by (simp add: assms(2))
  then have "check_autoblock (cf_Anomaly e) = check_autoblock (cf_Anomaly (snd (check_anomaly e)))"
    by simp
  also have "\<dots> = []"
    using assms(1) arg_cong [OF assms(2), of fst] by (simp add: check_anomaly_def)
  finally show ?thesis .
qed

text \<open>
  C21. A configuration that loads has what the process is built from. Its upstream is an http or https URL with a host and its policy
  backend one of the three; with the budget enforced, every limit, default and override, is positive over a window of
  at most a day; with credential issuance, the bootstrap source is known, the token lifetimes are positive, and with OIDC every issuer is named
  and no two providers share one; with auto-block, scoring is on and a block ends before its identity's baseline can be
  collected; with federation, anomalies are detected and at least two instances have to agree.
\<close>

theorem loaded_config_sound:
  assumes "validate uri c = Inr e"
  shows "(\<exists>u. cf_UpstreamURL e = Some u \<and> url_Scheme u \<in> {''http'', ''https''} \<and> url_Host u \<noteq> '''') \<and>
    cf_PolicyBackend e \<in> {''yaml'', ''opa'', ''cedar''} \<and>
    (cf_Features e ''budget_enforcement'' \<longrightarrow> budget_sound (cf_Budget e) \<and>
       (\<forall>(name, t) \<in> set (bc_Tenants (cf_Budget e)) \<union> set (bc_Tools (cf_Budget e)). name \<noteq> '''' \<and> budget_sound t)) \<and>
    (cf_Features e ''credential_issuance'' \<longrightarrow> cr_BootstrapSource (cf_Credential e) \<in> {''presharedsecret'', ''oidc'', ''mtls''} \<and>
       0 < cr_AccessTokenTTLSeconds (cf_Credential e) \<and> 0 < cr_RefreshTokenTTLSeconds (cf_Credential e) \<and>
       (cr_BootstrapSource (cf_Credential e) = ''oidc'' \<longrightarrow>
          (let ps = (if cr_OIDCProviders (cf_Credential e) = [] then [cr_OIDC (cf_Credential e)] else cr_OIDCProviders (cf_Credential e))
           in distinct (map oi_Issuer ps) \<and> list_all (\<lambda>p. oi_Issuer p \<noteq> '''' \<and> oi_Audience p \<noteq> '''') ps))) \<and>
    (cf_Features e ''anomaly_detection'' \<and> ak_Enabled (ay_AutoBlock (cf_Anomaly e)) \<longrightarrow> ml_Enabled (ay_MLScore (cf_Anomaly e)) \<and>
       0 < ak_BlockDurationSeconds (ay_AutoBlock (cf_Anomaly e)) \<and>
       ak_BlockDurationSeconds (ay_AutoBlock (cf_Anomaly e)) \<le> wrap64 (2 * ay_GCIntervalSeconds (cf_Anomaly e))) \<and>
    (cf_Features e ''federation'' \<longrightarrow> cf_Features e ''anomaly_detection'' \<and> 2 \<le> cq_MinInstancesForCorrelation (cf_Federation e))"
proof -
  note all = validate_settled [OF assms]
  have checks: "check_upstream uri e = ([], e)" "check_backend e = ([], e)" "check_budget e = []" "check_credential e = ([], e)"
    "check_anomaly e = ([], e)" "check_federation e = []"
    using all by (auto simp: config_checks_def read_only_def)
  have budget: "cf_Features e ''budget_enforcement'' \<longrightarrow> budget_sound (cf_Budget e) \<and>
       (\<forall>(name, t) \<in> set (bc_Tenants (cf_Budget e)) \<union> set (bc_Tools (cf_Budget e)). name \<noteq> '''' \<and> budget_sound t)"
    using check_budget_ok [OF _ checks(3)] by blast
  have credential: "cf_Features e ''credential_issuance'' \<longrightarrow> cr_BootstrapSource (cf_Credential e) \<in> {''presharedsecret'', ''oidc'', ''mtls''} \<and>
       0 < cr_AccessTokenTTLSeconds (cf_Credential e) \<and> 0 < cr_RefreshTokenTTLSeconds (cf_Credential e) \<and>
       (cr_BootstrapSource (cf_Credential e) = ''oidc'' \<longrightarrow>
          (let ps = (if cr_OIDCProviders (cf_Credential e) = [] then [cr_OIDC (cf_Credential e)] else cr_OIDCProviders (cf_Credential e))
           in distinct (map oi_Issuer ps) \<and> list_all (\<lambda>p. oi_Issuer p \<noteq> '''' \<and> oi_Audience p \<noteq> '''') ps))"
    by (intro impI conjI check_credential_ok [OF _ checks(4)] check_oidc_ok)
  have autoblock: "cf_Features e ''anomaly_detection'' \<and> ak_Enabled (ay_AutoBlock (cf_Anomaly e)) \<longrightarrow> ml_Enabled (ay_MLScore (cf_Anomaly e)) \<and>
       0 < ak_BlockDurationSeconds (ay_AutoBlock (cf_Anomaly e)) \<and>
       ak_BlockDurationSeconds (ay_AutoBlock (cf_Anomaly e)) \<le> wrap64 (2 * ay_GCIntervalSeconds (cf_Anomaly e))"
    using check_autoblock_ok [OF _ checks(5)] by (auto simp: check_autoblock_def)
  have federation: "cf_Features e ''federation'' \<longrightarrow> cf_Features e ''anomaly_detection'' \<and> 2 \<le> cq_MinInstancesForCorrelation (cf_Federation e)"
    using checks(6) by (auto simp: check_federation_def)
  show ?thesis
    by (intro conjI check_upstream_ok [OF checks(1)] check_backend_ok [OF checks(2)] budget credential autoblock federation)
qed

section \<open>A configuration for the concrete instances\<close>

section \<open>A configuration for the concrete instances\<close>

section \<open>A configuration for the concrete instances\<close>

definition zero_OIDCConfig :: config_OIDCConfig where
  "zero_OIDCConfig = \<lparr>oi_Issuer = '''', oi_JWKSURI = '''', oi_Audience = '''', oi_IdentityClaim = '''', oi_TenantClaim = ''''\<rparr>"

definition zero_CredentialConfig :: config_CredentialConfig where
  "zero_CredentialConfig = \<lparr>cr_IdentitiesFile = '''', cr_SigningKeyFile = '''', cr_PreviousSigningKeyFiles = [],
     cr_SPIFFEWorkload = \<lparr>sw_SocketPath = '''', sw_UpstreamPeerID = ''''\<rparr>, cr_KMS = \<lparr>km_KeyID = '''', km_Region = ''''\<rparr>,
     cr_BootstrapSource = '''', cr_OIDC = zero_OIDCConfig, cr_OIDCProviders = [], cr_MTLS = \<lparr>mt_Header = ''''\<rparr>,
     cr_AccessTokenTTLSeconds = 0, cr_RefreshTokenTTLSeconds = 0\<rparr>"

definition zero_AnomalyConfig :: config_AnomalyConfig where
  "zero_AnomalyConfig = \<lparr>ay_Output = '''', ay_BufferCapacity = 0, ay_GCIntervalSeconds = 0, ay_WindowSeconds = 0,
     ay_RateSpike = \<lparr>rs_Enabled = False, rs_Multiplier = f_zero, rs_MinCalls = 0\<rparr>, ay_NovelToolEnabled = False,
     ay_DenyRateSpike = \<lparr>dr_Enabled = False, dr_Threshold = f_zero, dr_MinCalls = 0\<rparr>,
     ay_MLScore = \<lparr>ml_Enabled = False, ml_ScoreThreshold = f_zero, ml_MinCalls = 0\<rparr>,
     ay_AutoBlock = \<lparr>ak_Enabled = False, ak_ScoreThreshold = f_zero, ak_BlockDurationSeconds = 0\<rparr>,
     ay_Drift = \<lparr>df_Enabled = False, df_K = f_zero, df_H = f_zero, df_MinCalls = 0, df_HJitterFraction = f_zero, df_JitterSecretFile = ''''\<rparr>,
     ay_TenantAnomaly = \<lparr>ta_Enabled = False, ta_RateMultiplier = f_zero, ta_MinCalls = 0\<rparr>,
     ay_IdentityChurn = \<lparr>ic_Enabled = False, ic_RateMultiplier = f_zero, ic_MinNewIdentities = 0, ic_CUSUMEnabled = False, ic_K = f_zero, ic_H = f_zero\<rparr>,
     ay_RetentionDays = 0\<rparr>"

definition zero_Config :: Config where
  "zero_Config = \<lparr>cf_Listen = '''', cf_Upstream = '''', cf_PolicyFile = '''', cf_GRPCListen = '''', cf_GRPCUpstream = '''', cf_GRPCUpstreamTLS = False,
     cf_PolicyBackend = '''', cf_Audit = \<lparr>au_Output = '''', au_PostgresDSN = '''', au_PostgresMaxOpenConns = 0, au_RetentionDays = 0\<rparr>,
     cf_Budget = BudgetConfig 0 0 [] [], cf_Tracing = \<lparr>tr_OTLPEndpoint = '''', tr_ServiceName = ''''\<rparr>, cf_Credential = zero_CredentialConfig,
     cf_RBAC_ConfigFile = '''', cf_AllowInsecureSessionCookie = False, cf_Scim = \<lparr>sc_BearerTokenEnv = '''', sc_PersistPostgres = False\<rparr>,
     cf_Anomaly = zero_AnomalyConfig,
     cf_Federation = \<lparr>cq_InstanceID = '''', cq_PeersFile = '''', cq_SigningKeyFile = '''', cq_SharedSecretFile = '''', cq_PublishIntervalSeconds = 0,
       cq_MinInstancesForCorrelation = 0, cq_CorrelationWindowSeconds = 0, cq_GCIntervalSeconds = 0\<rparr>,
     cf_Compliance = \<lparr>cp_ScheduledExportIntervalSeconds = 0, cp_ScheduledExportOutputDir = '''', cp_SigningKeyFile = ''''\<rparr>,
     cf_Retention_CheckIntervalSeconds = 0,
     cf_Taint = \<lparr>ct_UntrustedSources = [], ct_DeclassifySources = [], ct_TTLSeconds = 0, ct_SessionWindowSeconds = 0, ct_SessionHeader = ''''\<rparr>,
     cf_Approval = \<lparr>ca_GrantTTLSeconds = 0\<rparr>, cf_JobBudget = \<lparr>cj_RequestsPerJob = 0, cj_SessionWindowSeconds = 0\<rparr>,
     cf_JobCostBudget = \<lparr>cx_Ceiling = 0, cx_ToolCosts = Map.empty, cx_DefaultCost = 0, cx_SessionWindowSeconds = 0\<rparr>,
     cf_Features = (\<lambda>_. False), cf_ShutdownDelaySeconds = 0, cf_UpstreamURL = None\<rparr>"

text \<open>A proxy with a budget, credentials and anomaly detection with auto-block.\<close>

definition example_uri :: "string \<Rightarrow> URL option" where
  "example_uri s = Some \<lparr>url_Scheme = ''http'', url_Host = ''u''\<rparr>"

definition example_Config :: Config where
  "example_Config = zero_Config\<lparr>cf_Listen := ''l'', cf_Upstream := ''http://u'', cf_PolicyFile := ''p'',
     cf_Audit := (cf_Audit zero_Config)\<lparr>au_Output := ''stdout''\<rparr>, cf_Budget := BudgetConfig 5 60 [(''acme'', BudgetConfig 2 10 [] [])] [],
     cf_Credential := zero_CredentialConfig\<lparr>cr_IdentitiesFile := ''i''\<rparr>,
     cf_Anomaly := zero_AnomalyConfig\<lparr>ay_Output := ''stdout'', ay_WindowSeconds := 60,
       ay_MLScore := \<lparr>ml_Enabled = True, ml_ScoreThreshold = Finite 3, ml_MinCalls = 2\<rparr>,
       ay_AutoBlock := \<lparr>ak_Enabled = True, ak_ScoreThreshold = Finite 5, ak_BlockDurationSeconds = 300\<rparr>\<rparr>,
     cf_Features := (\<lambda>f. f \<in> {''budget_enforcement'', ''credential_issuance'', ''anomaly_detection''})\<rparr>"

text \<open>What validation makes of it.\<close>

definition example_Loaded :: Config where
  "example_Loaded = example_Config\<lparr>cf_UpstreamURL := example_uri ''http://u'', cf_PolicyBackend := ''yaml'',
     cf_Credential := (cf_Credential example_Config)\<lparr>cr_BootstrapSource := ''presharedsecret'', cr_AccessTokenTTLSeconds := 900, cr_RefreshTokenTTLSeconds := 86400\<rparr>,
     cf_Anomaly := (cf_Anomaly example_Config)\<lparr>ay_GCIntervalSeconds := 600\<rparr>\<rparr>"


lemma example_features:
  "cf_Features example_Config f \<longleftrightarrow> f \<in> {''budget_enforcement'', ''credential_issuance'', ''anomaly_detection''}"
  by (simp add: example_Config_def)

lemma example_fields:
  "cf_Listen example_Config = ''l''" "cf_Upstream example_Config = ''http://u''" "cf_PolicyFile example_Config = ''p''" "cf_PolicyBackend example_Config = ''''"
  "cf_Audit example_Config = \<lparr>au_Output = ''stdout'', au_PostgresDSN = '''', au_PostgresMaxOpenConns = 0, au_RetentionDays = 0\<rparr>"
  "cf_Budget example_Config = BudgetConfig 5 60 [(''acme'', BudgetConfig 2 10 [] [])] []"
  "cf_Credential example_Config = zero_CredentialConfig\<lparr>cr_IdentitiesFile := ''i''\<rparr>"
  "cf_Anomaly example_Config = zero_AnomalyConfig\<lparr>ay_Output := ''stdout'', ay_WindowSeconds := 60,
       ay_MLScore := \<lparr>ml_Enabled = True, ml_ScoreThreshold = Finite 3, ml_MinCalls = 2\<rparr>,
       ay_AutoBlock := \<lparr>ak_Enabled = True, ak_ScoreThreshold = Finite 5, ak_BlockDurationSeconds = 300\<rparr>\<rparr>"
  "cf_ShutdownDelaySeconds example_Config = 0"
  by (simp_all add: example_Config_def zero_Config_def)

lemma example_check_credential:
  assumes "cf_Features c ''credential_issuance''" "cf_Credential c = zero_CredentialConfig\<lparr>cr_IdentitiesFile := ''i''\<rparr>"
  shows "check_credential c = ([], c\<lparr>cf_Credential := (cf_Credential c)\<lparr>cr_BootstrapSource := ''presharedsecret'', cr_AccessTokenTTLSeconds := 900,
    cr_RefreshTokenTTLSeconds := 86400\<rparr>\<rparr>)"
  using assms by (simp add: check_credential_def zero_CredentialConfig_def default_ttl_def defaultAccessTokenTTLSeconds_def defaultRefreshTokenTTLSeconds_def)

lemma example_validates_budget:
  assumes "check_budget (example_Config\<lparr>cf_Budget := b, cf_UpstreamURL := example_uri ''http://u'', cf_PolicyBackend := ''yaml''\<rparr>) = []"
  shows "validate example_uri (example_Config\<lparr>cf_Budget := b\<rparr>) = Inr (example_Loaded\<lparr>cf_Budget := b\<rparr>)"
proof -
  let ?c0 = "example_Config\<lparr>cf_Budget := b\<rparr>"
  let ?c1 = "?c0\<lparr>cf_UpstreamURL := example_uri ''http://u''\<rparr>"
  let ?c2 = "?c1\<lparr>cf_PolicyBackend := ''yaml''\<rparr>"
  let ?c3 = "?c2\<lparr>cf_Credential := (cf_Credential example_Config)\<lparr>cr_BootstrapSource := ''presharedsecret'', cr_AccessTokenTTLSeconds := 900, cr_RefreshTokenTTLSeconds := 86400\<rparr>\<rparr>"
  let ?c4 = "example_Loaded\<lparr>cf_Budget := b\<rparr>"
  have 0: "check_upstream example_uri ?c0 = ([], ?c1)"
    by (simp add: check_upstream_def example_uri_def example_fields)
  have 1: "check_backend ?c1 = ([], ?c2)"
    by (simp add: check_backend_def example_fields)
  have 2: "check_audit ?c2 = ([], ?c2)" "check_tracing ?c2 = ([], ?c2)"
    by (simp_all add: check_audit_def check_tracing_def example_features example_fields)
  have 3: "check_credential ?c2 = ([], ?c3)"
    by (subst example_check_credential) (simp_all add: example_features example_fields)
  have 4: "check_anomaly ?c3 = ([], ?c4)"
    by (simp add: check_anomaly_def example_features example_fields zero_AnomalyConfig_def check_heuristics_def check_drift_def check_aggregates_def
        check_autoblock_def example_Loaded_def defaultAnomalyGCIntervalSeconds_def wrap64_def f_lt_def)
  have 5: "check_grpc ?c2 = []" "check_retention ?c2 = []" "check_compliance ?c2 = []" "check_rbac_scim ?c3 = []"
    "check_anomaly_retention ?c3 = []" "check_federation ?c4 = []"
    by (simp_all add: check_grpc_def check_retention_def check_compliance_def check_rbac_scim_def check_anomaly_retention_def
        check_federation_def example_Loaded_def example_features example_fields zero_AnomalyConfig_def)
  have budget: "check_budget ?c2 = []" using assms by simp
  have 6: "cf_Listen ?c0 \<noteq> ''''" "cf_PolicyFile ?c1 \<noteq> ''''" "cf_ShutdownDelaySeconds ?c4 = 0"
    by (simp_all add: example_fields example_Loaded_def)
  show ?thesis
    by (simp only: validate_def config_checks_def run_checks.simps read_only_def 0 1 2 3 4 5 6 budget Let_def split_conv)
      (simp add: problem_if_def 6)
qed

lemma example_validates: "validate example_uri example_Config = Inr example_Loaded"
proof -
  let ?b = "cf_Budget example_Config"
  have "example_Config\<lparr>cf_Budget := ?b\<rparr> = example_Config" "example_Loaded\<lparr>cf_Budget := cf_Budget example_Loaded\<rparr> = example_Loaded" by simp_all
  moreover have "cf_Budget example_Loaded = ?b" by (simp add: example_Loaded_def)
  moreover have "check_budget (example_Config\<lparr>cf_Budget := ?b, cf_UpstreamURL := example_uri ''http://u'', cf_PolicyBackend := ''yaml''\<rparr>) = []"
    by (simp add: check_budget_def example_features example_fields check_override_def maxBudgetWindowSeconds_def)
  ultimately show ?thesis using example_validates_budget [of ?b] by simp
qed

theorem validate_idempotent_witness:
  "validate example_uri example_Config = Inr example_Loaded \<and> validate example_uri example_Loaded = Inr example_Loaded \<and>
   cf_PolicyBackend example_Loaded \<noteq> cf_PolicyBackend example_Config"
  using validate_idempotent [OF example_validates] example_validates by (simp add: example_Loaded_def example_fields)

theorem loaded_config_sound_witness:
  "budget_sound (cf_Budget example_Loaded) \<and> 0 < cr_AccessTokenTTLSeconds (cf_Credential example_Loaded) \<and>
   ak_BlockDurationSeconds (ay_AutoBlock (cf_Anomaly example_Loaded)) \<le> wrap64 (2 * ay_GCIntervalSeconds (cf_Anomaly example_Loaded))"
proof -
  have "cf_Features example_Loaded ''budget_enforcement''" "cf_Features example_Loaded ''credential_issuance''"
    "cf_Features example_Loaded ''anomaly_detection''" "ak_Enabled (ay_AutoBlock (cf_Anomaly example_Loaded))"
    by (simp_all add: example_Loaded_def example_features example_fields)
  with loaded_config_sound [OF example_validates] show ?thesis by blast
qed

section \<open>Thresholds that are not numbers\<close>

lemma checks_commute_anomaly:
  "check_upstream uri (c\<lparr>cf_Anomaly := n\<rparr>) = (fst (check_upstream uri c), (snd (check_upstream uri c))\<lparr>cf_Anomaly := n\<rparr>)"
  "check_backend (c\<lparr>cf_Anomaly := n\<rparr>) = (fst (check_backend c), (snd (check_backend c))\<lparr>cf_Anomaly := n\<rparr>)"
  "check_audit (c\<lparr>cf_Anomaly := n\<rparr>) = (fst (check_audit c), (snd (check_audit c))\<lparr>cf_Anomaly := n\<rparr>)"
  "check_tracing (c\<lparr>cf_Anomaly := n\<rparr>) = (fst (check_tracing c), (snd (check_tracing c))\<lparr>cf_Anomaly := n\<rparr>)"
  "check_credential (c\<lparr>cf_Anomaly := n\<rparr>) = (fst (check_credential c), (snd (check_credential c))\<lparr>cf_Anomaly := n\<rparr>)"
  "check_federation (c\<lparr>cf_Anomaly := n\<rparr>) = check_federation c"
  by (simp_all add: check_upstream_def check_backend_def check_audit_def check_tracing_def check_credential_def check_federation_def
      case_prod_beta split: option.split)

definition nan_autoblock :: "config_AnomalyConfig \<Rightarrow> config_AnomalyConfig" where
  "nan_autoblock a = a\<lparr>ay_AutoBlock := (ay_AutoBlock a)\<lparr>ak_ScoreThreshold := NaN\<rparr>\<rparr>"

lemma nan_autoblock_kept [simp]:
  "ay_Output (nan_autoblock a) = ay_Output a" "ay_RetentionDays (nan_autoblock a) = ay_RetentionDays a"
  by (simp_all add: nan_autoblock_def)

lemma check_anomaly_nan:
  assumes "fst (check_anomaly c) = []"
  shows "check_anomaly (c\<lparr>cf_Anomaly := nan_autoblock (cf_Anomaly c)\<rparr>) =
    ([], (snd (check_anomaly c))\<lparr>cf_Anomaly := nan_autoblock (cf_Anomaly (snd (check_anomaly c)))\<rparr>)"
proof -
  have "check_heuristics (nan_autoblock a) = check_heuristics a" "check_drift (nan_autoblock a) = check_drift a"
    "check_aggregates (nan_autoblock a) = check_aggregates a" for a
    by (simp_all add: nan_autoblock_def check_heuristics_def check_drift_def check_aggregates_def)
  moreover have "check_autoblock a = [] \<Longrightarrow> check_autoblock (nan_autoblock a) = []" for a
    by (auto simp: check_autoblock_def nan_autoblock_def f_lt_def split: if_splits)
  moreover have "ay_GCIntervalSeconds (nan_autoblock a) = ay_GCIntervalSeconds a"
    "(nan_autoblock a)\<lparr>ay_GCIntervalSeconds := g\<rparr> = nan_autoblock (a\<lparr>ay_GCIntervalSeconds := g\<rparr>)"
    "ay_WindowSeconds (nan_autoblock a) = ay_WindowSeconds a" for a g
    by (simp_all add: nan_autoblock_def)
  ultimately show ?thesis
    using assms by (auto simp: check_anomaly_def)
qed

text \<open>
  A threshold that is not a number passes validation: whatever configuration is accepted is accepted with \<open>.nan\<close> as the
  score threshold of auto-block, and with it no score is ever above the threshold, so that auto-block is on and never blocks.
\<close>

theorem nan_threshold_accepted:
  assumes "validate uri c = Inr e"
  shows "validate uri (c\<lparr>cf_Anomaly := nan_autoblock (cf_Anomaly c)\<rparr>) = Inr (e\<lparr>cf_Anomaly := nan_autoblock (cf_Anomaly e)\<rparr>) \<and>
    (\<forall>score. \<not> f_lt (ak_ScoreThreshold (ay_AutoBlock (nan_autoblock (cf_Anomaly e)))) score)"
proof -
  have "run_checks (config_checks uri) c = ([], e)"
    using assms by (auto simp: validate_def case_prod_beta prod_eq_iff split: if_splits)
  then have "run_checks (config_checks uri) (c\<lparr>cf_Anomaly := nan_autoblock (cf_Anomaly c)\<rparr>) = ([], e\<lparr>cf_Anomaly := nan_autoblock (cf_Anomaly e)\<rparr>)"
  proof (rule validate_run)
    fix c1 c2 c3 c4 c5
    assume run: "fst (check_upstream uri c) = []" "c1 = snd (check_upstream uri c)" "fst (check_backend c1) = []" "c2 = snd (check_backend c1)"
      "fst (check_audit c2) = []" "c3 = snd (check_audit c2)" "fst (check_tracing c3) = []" "c4 = snd (check_tracing c3)"
      "fst (check_credential c4) = []" "c5 = snd (check_credential c4)"
      and anomaly: "fst (check_anomaly c5) = []" "e = snd (check_anomaly c5)"
      and rest: "cf_Listen c \<noteq> ''''" "cf_PolicyFile c1 \<noteq> ''''" "check_grpc c2 = []" "check_retention c3 = []" "check_compliance c3 = []"
        "check_budget c3 = []" "check_rbac_scim c5 = []" "check_anomaly_retention c5 = []" "check_federation e = []" "0 \<le> cf_ShutdownDelaySeconds e"
    have same: "cf_Anomaly c1 = cf_Anomaly c" "cf_Anomaly c2 = cf_Anomaly c" "cf_Anomaly c3 = cf_Anomaly c" "cf_Anomaly c4 = cf_Anomaly c"
      "cf_Anomaly c5 = cf_Anomaly c"
      unfolding run(10) run(8) run(6) run(4) run(2)
      by (subst check_frames, simp)+
    have n: "ay_RetentionDays (nan_autoblock (cf_Anomaly c)) = ay_RetentionDays (cf_Anomaly c3)"
      "ay_Output (nan_autoblock (cf_Anomaly c)) = ay_Output (cf_Anomaly c3)"
      "ay_RetentionDays (nan_autoblock (cf_Anomaly c)) = ay_RetentionDays (cf_Anomaly c5)"
      "ay_Output (nan_autoblock (cf_Anomaly c)) = ay_Output (cf_Anomaly c5)"
      by (simp_all add: same)
    show ?thesis
      using run(1,3,5,7,9) rest check_anomaly_nan [OF anomaly(1)]
      by (simp add: config_checks_def read_only_def checks_commute_anomaly run(2,4,6,8,10) [symmetric] anomaly(2) [symmetric] read_frames
          read_frames_anomaly [OF n(1,2)] read_frames_anomaly [OF n(3,4)] same)
  qed
  then show ?thesis by (simp add: validate_def nan_autoblock_def f_lt_def)
qed

theorem nan_threshold_accepted_witness:
  "validate example_uri (example_Config\<lparr>cf_Anomaly := nan_autoblock (cf_Anomaly example_Config)\<rparr>) =
     Inr (example_Loaded\<lparr>cf_Anomaly := nan_autoblock (cf_Anomaly example_Loaded)\<rparr>) \<and>
   ak_Enabled (ay_AutoBlock (nan_autoblock (cf_Anomaly example_Loaded))) \<and>
   \<not> f_lt (ak_ScoreThreshold (ay_AutoBlock (nan_autoblock (cf_Anomaly example_Loaded)))) (Finite 1000)"
  using nan_threshold_accepted [OF example_validates]
  by (simp add: example_Loaded_def example_fields nan_autoblock_def)

section \<open>Rewriting the budget section\<close>

text \<open>
  The dashboard's budget editor changes one key of the file. The document is its list of keys, each with what YAML attaches
  to it (comments, style) and its value; reading and printing it is the library's.
\<close>

type_synonym ('a, 'n) yaml_entry = "string \<times> 'a \<times> 'n"

record ('a, 'n) yaml_library =
  yl_Unmarshal :: "string \<Rightarrow> ('a, 'n) yaml_entry list option option" \<comment> \<open>None: not YAML; Some None: not a mapping\<close>
  yl_bare :: 'a
  yl_EncodeBudget :: "BudgetConfig \<Rightarrow> 'n option"
  yl_Marshal :: "('a, 'n) yaml_entry list \<Rightarrow> string option"

datatype budget_save_error = BudgetFileUnreadable | BudgetFileUnparsable | NotAMapping | EncodeBudgetFailed | MarshalConfigFailed
  | RefusedConfig config_error | BudgetFileNotSaved save_error

fun set_budget_value :: "'a \<Rightarrow> 'n \<Rightarrow> ('a, 'n) yaml_entry list \<Rightarrow> ('a, 'n) yaml_entry list" where
  "set_budget_value bare v [] = [(''budget'', bare, v)]"
| "set_budget_value bare v ((k, a, n) # es) = (if k = ''budget'' then (k, a, v) # es else (k, a, n) # set_budget_value bare v es)"

definition WriteBudgetSection ::
  "('a, 'n) yaml_library \<Rightarrow> config_reader \<Rightarrow> string \<Rightarrow> write_faults \<Rightarrow> string \<Rightarrow> BudgetConfig \<Rightarrow> files \<Rightarrow>
   budget_save_error option \<times> files list" where
  "WriteBudgetSection yl rd tmpPath faults path b fs =
     (case fs path of
        None \<Rightarrow> (Some BudgetFileUnreadable, [fs])
      | Some src \<Rightarrow>
          (case yl_Unmarshal yl src of
             None \<Rightarrow> (Some BudgetFileUnparsable, [fs])
           | Some None \<Rightarrow> (Some NotAMapping, [fs])
           | Some (Some doc) \<Rightarrow>
               (case yl_EncodeBudget yl b of
                  None \<Rightarrow> (Some EncodeBudgetFailed, [fs])
                | Some v \<Rightarrow>
                    (case yl_Marshal yl (set_budget_value (yl_bare yl) v doc) of
                       None \<Rightarrow> (Some MarshalConfigFailed, [fs])
                     | Some out \<Rightarrow>
                         (case ParseBytes rd out of
                            Inl e \<Rightarrow> (Some (RefusedConfig e), [fs])
                          | Inr _ \<Rightarrow>
                              let (err, states) = atomic_write tmpPath faults path out fs
                              in (map_option BudgetFileNotSaved err, states))))))"

text \<open>
  How the library decodes a mapping into the configuration: key by key, each into the field its name belongs to, refusing
  unknown and repeated keys.
\<close>

definition decode_entries :: "(string \<Rightarrow> 'n \<Rightarrow> (Config \<Rightarrow> Config) option) \<Rightarrow> ('a, 'n) yaml_entry list \<Rightarrow> Config option" where
  "decode_entries field doc =
     (if distinct (map fst doc) \<and> list_all (\<lambda>(k, a, n). field k n \<noteq> None) doc
      then Some (fold (\<lambda>(k, a, n). the (field k n)) doc zero_Config) else None)"

text \<open>The fields of keys other than \<open>budget\<close> are decoded without regard to the budget.\<close>

definition budget_independent :: "(string \<Rightarrow> 'n \<Rightarrow> (Config \<Rightarrow> Config) option) \<Rightarrow> ('a, 'n) yaml_entry \<Rightarrow> bool" where
  "budget_independent field = (\<lambda>(k, a, n). k = ''budget'' \<or>
     (\<forall>set c b. field k n = Some set \<longrightarrow> set (c\<lparr>cf_Budget := b\<rparr>) = (set c)\<lparr>cf_Budget := b\<rparr>))"

lemma set_budget_value_rest:
  "filter (\<lambda>(k, a, n). k \<noteq> ''budget'') (set_budget_value bare v doc) = filter (\<lambda>(k, a, n). k \<noteq> ''budget'') doc"
  by (induction doc) auto

lemma set_budget_value_keys:
  "map fst (set_budget_value bare v doc) = (if ''budget'' \<in> set (map fst doc) then map fst doc else map fst doc @ [''budget''])"
  by (induction doc) force+

lemma set_budget_value_all:
  "list_all P doc \<Longrightarrow> P (''budget'', bare, v) \<Longrightarrow> (\<And>a. P (''budget'', a, v)) \<Longrightarrow> list_all P (set_budget_value bare v doc)"
  by (induction doc) auto

text \<open>The decoder of one section.\<close>

definition decodes_budget :: "(BudgetConfig \<Rightarrow> 'n option) \<Rightarrow> (string \<Rightarrow> 'n \<Rightarrow> (Config \<Rightarrow> Config) option) \<Rightarrow> bool" where
  "decodes_budget enc field \<longleftrightarrow>
     (\<forall>b v. enc b = Some v \<longrightarrow> field ''budget'' v = Some (\<lambda>c. c\<lparr>cf_Budget := b\<rparr>)) \<and>
     (\<forall>n set. field ''budget'' n = Some set \<longrightarrow> (\<exists>b. set = (\<lambda>c. c\<lparr>cf_Budget := b\<rparr>)))"

lemma fold_fields_commute:
  assumes "list_all (budget_independent field) doc" "list_all (\<lambda>(k, a, n). field k n \<noteq> None) doc" "''budget'' \<notin> set (map fst doc)"
  shows "fold (\<lambda>(k, a, n). the (field k n)) doc (c\<lparr>cf_Budget := b\<rparr>) = (fold (\<lambda>(k, a, n). the (field k n)) doc c)\<lparr>cf_Budget := b\<rparr>"
  using assms by (induction doc arbitrary: c) (auto simp: budget_independent_def)

lemma fold_fields_set:
  assumes "decodes_budget enc field" "enc b = Some v" "distinct (map fst doc)"
    and "list_all (budget_independent field) doc" "list_all (\<lambda>(k, a, n). field k n \<noteq> None) doc"
  shows "fold (\<lambda>(k, a, n). the (field k n)) (set_budget_value bare v doc) c = (fold (\<lambda>(k, a, n). the (field k n)) doc c)\<lparr>cf_Budget := b\<rparr>"
  using assms(3-)
proof (induction doc arbitrary: c)
  case Nil
  then show ?case using assms(1,2) by (simp add: decodes_budget_def)
next
  case (Cons e doc)
  obtain k a n where e: "e = (k, a, n)" by (cases e)
  show ?case
  proof (cases "k = ''budget''")
    case True
    obtain g where "field ''budget'' n = Some g"
      using Cons.prems(3) True by (auto simp: e)
    then obtain b' where "field ''budget'' n = Some (\<lambda>c. c\<lparr>cf_Budget := b'\<rparr>)"
      using assms(1) unfolding decodes_budget_def by blast
    moreover have "field ''budget'' v = Some (\<lambda>c. c\<lparr>cf_Budget := b\<rparr>)"
      using assms(1,2) by (simp add: decodes_budget_def)
    moreover have "''budget'' \<notin> set (map fst doc)"
      using Cons.prems(1) True by (simp add: e)
    ultimately show ?thesis
      using Cons.prems(2,3) True by (simp add: e fold_fields_commute [symmetric])
  next
    case False
    with Cons show ?thesis by (simp add: e)
  qed
qed

lemma decode_entries_set:
  assumes "decodes_budget enc field" "enc b = Some v" "list_all (budget_independent field) doc" "decode_entries field doc = Some c"
  shows "decode_entries field (set_budget_value bare v doc) = Some (c\<lparr>cf_Budget := b\<rparr>)"
proof -
  have doc: "distinct (map fst doc)" "list_all (\<lambda>(k, a, n). field k n \<noteq> None) doc"
      "c = fold (\<lambda>(k, a, n). the (field k n)) doc zero_Config"
    using assms(4) by (simp_all add: decode_entries_def split: if_splits)
  moreover have "list_all (\<lambda>(k, a, n). field k n \<noteq> None) (set_budget_value bare v doc)"
    using assms(1,2) doc(2) by (intro set_budget_value_all) (simp_all add: decodes_budget_def)
  ultimately show ?thesis
    using assms(1-3) by (simp add: decode_entries_def set_budget_value_keys fold_fields_set)
qed

text \<open>
  Saving a budget from the dashboard changes the budget and nothing else. The file is replaced atomically: wherever the save
  stops it holds the old text or the new one, and a save that reports an error leaves every file as it was (but for the
  temporary file where its removal fails as well). A successful save
  leaves a file that loads, as the configuration it had before with the new budget in it, and whose other keys keep their
  values, comments and order. Assumed of YAML: it reads back what it prints, and decodes a mapping key by key.
\<close>

theorem budget_save_exact:
  fixes yl :: "('a, 'n) yaml_library" and rd tmpPath faults path b fs
  defines "saved \<equiv> WriteBudgetSection yl rd tmpPath faults path b fs"
  assumes "\<And>doc out. yl_Marshal yl doc = Some out \<Longrightarrow> yl_Unmarshal yl out = Some (Some doc)"
    and "\<And>src. cd_decode rd src = (case yl_Unmarshal yl src of Some (Some doc) \<Rightarrow> decode_entries field doc | _ \<Rightarrow> None)"
    and "decodes_budget (yl_EncodeBudget yl) field"
    and "fs path = Some src" "yl_Unmarshal yl src = Some (Some doc)" "list_all (budget_independent field) doc" "decode_entries field doc = Some c"
    and "tmpPath \<noteq> path" "fs tmpPath = None"
  shows "list_all (\<lambda>f. f path = fs path \<or> (\<exists>e. validate (cd_ParseRequestURI rd) (c\<lparr>cf_Budget := b\<rparr>) = Inr e \<and> config_Load rd f path = Inr e)) (snd saved) \<and>
    (if fst saved = None
     then (\<exists>out doc' e. last (snd saved) = fs(path \<mapsto> out) \<and> yl_Unmarshal yl out = Some (Some doc') \<and>
       filter (\<lambda>(k, a, n). k \<noteq> ''budget'') doc' = filter (\<lambda>(k, a, n). k \<noteq> ''budget'') doc \<and>
       validate (cd_ParseRequestURI rd) (c\<lparr>cf_Budget := b\<rparr>) = Inr e \<and> config_Load rd (last (snd saved)) path = Inr e)
     else left_behind tmpPath faults fs (last (snd saved)))"
proof -
  have quiet: ?thesis if "\<exists>e. saved = (Some e, [fs])"
    using that by auto
  show ?thesis
  proof (cases "yl_EncodeBudget yl b")
    case None
    then show ?thesis using assms(5,6) by (intro quiet) (simp add: saved_def WriteBudgetSection_def)
  next
    case (Some v)
    note v = Some
    let ?doc = "set_budget_value (yl_bare yl) v doc"
    show ?thesis
    proof (cases "yl_Marshal yl ?doc")
      case None
      then show ?thesis using assms(5,6) v by (intro quiet) (simp add: saved_def WriteBudgetSection_def)
    next
      case (Some out)
      have out: "yl_Unmarshal yl out = Some (Some ?doc)"
        by (rule assms(2) [OF Some])
      then have decode: "cd_decode rd out = Some (c\<lparr>cf_Budget := b\<rparr>)"
        by (simp add: assms(3) decode_entries_set [OF assms(4) v assms(7,8)])
      show ?thesis
      proof (cases "ParseBytes rd out")
        case (Inl e)
        then show ?thesis using assms(5,6) v Some by (intro quiet) (simp add: saved_def WriteBudgetSection_def)
      next
        case (Inr e)
        have ok: "validate (cd_ParseRequestURI rd) (c\<lparr>cf_Budget := b\<rparr>) = Inr e"
          using Inr decode by (simp add: ParseBytes_def split: sum.splits)
        have load: "f path = Some out \<Longrightarrow> config_Load rd f path = Inr e" for f :: files
          using Inr by (simp add: config_Load_def)
        have "saved = (map_option BudgetFileNotSaved (fst (atomic_write tmpPath faults path out fs)), snd (atomic_write tmpPath faults path out fs))"
          using assms(5,6) v Some Inr by (simp add: saved_def WriteBudgetSection_def case_prod_beta)
        then show ?thesis
          using atomic_write_states [of tmpPath path fs out faults, OF assms(9,10)] load out ok set_budget_value_rest [of "yl_bare yl" v doc]
          by (auto simp: list_all_iff)
      qed
    qed
  qed
qed

text \<open>A toy library for the concrete instance: it knows the document before and the one after.\<close>

datatype toy_node = BudgetNode BudgetConfig | OtherNode

definition toy_field :: "string \<Rightarrow> toy_node \<Rightarrow> (Config \<Rightarrow> Config) option" where
  "toy_field k n = (if k = ''budget'' then (case n of BudgetNode b \<Rightarrow> Some (\<lambda>c. c\<lparr>cf_Budget := b\<rparr>) | OtherNode \<Rightarrow> None)
     else if k = ''rest'' then Some (\<lambda>c. example_Config\<lparr>cf_Budget := cf_Budget c\<rparr>) else None)"

definition toy_doc :: "BudgetConfig \<Rightarrow> (unit, toy_node) yaml_entry list" where
  "toy_doc b = [(''budget'', (), BudgetNode b), (''rest'', (), OtherNode)]"

definition toy_library :: "(unit, toy_node) yaml_library" where
  "toy_library = \<lparr>yl_Unmarshal = (\<lambda>src. if src = ''old'' then Some (Some (toy_doc (BudgetConfig 1 1 [] [])))
       else if src = ''new'' then Some (Some (toy_doc (cf_Budget example_Config))) else None),
     yl_bare = (), yl_EncodeBudget = (\<lambda>b. Some (BudgetNode b)),
     yl_Marshal = (\<lambda>doc. if doc = toy_doc (cf_Budget example_Config) then Some ''new'' else None)\<rparr>"

definition toy_reader :: config_reader where
  "toy_reader = \<lparr>cd_decode = (\<lambda>src. case yl_Unmarshal toy_library src of Some (Some doc) \<Rightarrow> decode_entries toy_field doc | _ \<Rightarrow> None),
     cd_ParseRequestURI = example_uri\<rparr>"

lemma toy_decodes:
  "decodes_budget (yl_EncodeBudget toy_library) toy_field"
  "decode_entries toy_field (toy_doc b) = Some (example_Config\<lparr>cf_Budget := b\<rparr>)"
  "list_all (budget_independent toy_field) (toy_doc b)"
  by (auto simp: decodes_budget_def toy_field_def toy_library_def decode_entries_def toy_doc_def budget_independent_def split: toy_node.splits)

lemma toy_reads:
  "yl_Marshal toy_library doc = Some out \<Longrightarrow> yl_Unmarshal toy_library out = Some (Some doc)"
  "yl_Unmarshal toy_library ''old'' = Some (Some (toy_doc (BudgetConfig 1 1 [] [])))"
  "cd_decode toy_reader src = (case yl_Unmarshal toy_library src of Some (Some doc) \<Rightarrow> decode_entries toy_field doc | _ \<Rightarrow> None)"
  by (auto simp: toy_library_def toy_reader_def split: if_splits)

theorem budget_save_exact_witness:
  "let saved = WriteBudgetSection toy_library toy_reader ''t'' no_faults ''f'' (cf_Budget example_Config) [''f'' \<mapsto> ''old'']
   in fst saved = None \<and> config_Load toy_reader (last (snd saved)) ''f'' = Inr example_Loaded"
proof -
  let ?saved = "WriteBudgetSection toy_library toy_reader ''t'' no_faults ''f'' (cf_Budget example_Config) [''f'' \<mapsto> ''old'']"
  let ?c = "example_Config\<lparr>cf_Budget := BudgetConfig 1 1 [] []\<rparr>"
  have restored: "?c\<lparr>cf_Budget := cf_Budget example_Config\<rparr> = example_Config"
    by simp
  have uri: "cd_ParseRequestURI toy_reader = example_uri"
    by (simp add: toy_reader_def)
  have "ParseBytes toy_reader ''new'' = Inr example_Loaded"
    using example_validates toy_decodes(2) by (simp add: ParseBytes_def toy_reader_def toy_library_def)
  then have ok: "fst ?saved = None"
    by (simp add: WriteBudgetSection_def toy_library_def toy_doc_def atomic_write_def no_faults_def)
  note * = budget_save_exact [where yl = toy_library and rd = toy_reader and field = toy_field and fs = "[''f'' \<mapsto> ''old'']" and path = "''f''"
      and tmpPath = "''t''" and faults = no_faults and b = "cf_Budget example_Config", OF toy_reads(1) toy_reads(3) toy_decodes(1) _ toy_reads(2) toy_decodes(3) toy_decodes(2)]
  have "config_Load toy_reader (last (snd ?saved)) ''f'' = Inr example_Loaded"
    using * ok example_validates by (auto simp: uri restored)
  then show ?thesis using ok by simp
qed

end
