(* ===== verification/Reload.thy ===== *)
theory Reload
  imports Wardline_System Config RBAC
begin

text \<open>
  Changing a running proxy: the reload closures and the dashboard's editors (\<open>cmd/wardline/main.go\<close>), the coordinator, its
  history and the file watcher (\<open>internal/platform/reload\<close>).

  The files are a map from paths to contents, read at the time of a reload. Parameters: the YAML decoders, the URL
  parser, and the OPA and Cedar loaders, which give an engine or fail.
\<close>

section \<open>The history of reloads\<close>

record ReloadResult =
  rr_Domain :: string
  rr_OK :: bool
  rr_Error :: string
  rr_AppliedBy :: string
  rr_Timestamp :: go_time

record ReloadEvent =
  ev_ID :: int
  ev_Result :: ReloadResult

record ReloadEventBuffer =
  eb_cap :: int
  eb_entries :: "ReloadEvent list"
  eb_nextID :: int

definition NewReloadEventBuffer :: "int \<Rightarrow> ReloadEventBuffer" where
  "NewReloadEventBuffer capacity = \<lparr>eb_cap = (if capacity < 1 then 1 else capacity), eb_entries = [], eb_nextID = 0\<rparr>"

definition ReloadEventBuffer_Add :: "ReloadResult \<Rightarrow> ReloadEventBuffer \<Rightarrow> ReloadEventBuffer" where
  "ReloadEventBuffer_Add r b =
     (let b = b\<lparr>eb_nextID := eb_nextID b + 1\<rparr>;
          entry = \<lparr>ev_ID = eb_nextID b, ev_Result = r\<rparr>;
          b = (if eb_cap b \<le> int (length (eb_entries b)) then b\<lparr>eb_entries := drop 1 (eb_entries b)\<rparr> else b)
      in b\<lparr>eb_entries := eb_entries b @ [entry]\<rparr>)"

definition ReloadEventBuffer_Since :: "ReloadEventBuffer \<Rightarrow> int \<Rightarrow> int \<Rightarrow> ReloadEvent list" where
  "ReloadEventBuffer_Since b afterID limit =
     (let afterID = (if eb_nextID b < afterID then 0 else afterID)
      in keep_last limit (filter (\<lambda>e. \<not> ev_ID e \<le> afterID) (eb_entries b)))"

interpretation reload_ring: ring "NewReloadEventBuffer c" ReloadEventBuffer_Add eb_entries eb_nextID
    "\<lambda>b. eb_cap b = int (effective_cap c)" "effective_cap c" "\<lambda>i r. \<lparr>ev_ID = i, ev_Result = r\<rparr>"
  for c
  by unfold_locales (auto simp: NewReloadEventBuffer_def ReloadEventBuffer_Add_def int_effective_cap effective_cap_def)

lemma reload_history_exact:
  "ReloadEventBuffer_Since (fold ReloadEventBuffer_Add rs (NewReloadEventBuffer c)) afterID limit =
     keep_last limit (filter (\<lambda>e. (if int (length rs) < afterID then 0 else afterID) < ev_ID e)
       (last_n (effective_cap c) (numbered (\<lambda>i r. \<lparr>ev_ID = i, ev_Result = r\<rparr>) rs)))"
  using reload_ring.after_adds [where c = c and xs = rs] by (simp add: ReloadEventBuffer_Since_def not_le)

section \<open>The process\<close>

type_synonym engine = "string Context \<Rightarrow> Decision"

record loaders =
  ld_config :: config_reader
  ld_policy :: "string \<Rightarrow> policyYAML option"
  ld_rego :: "files \<Rightarrow> string \<Rightarrow> string + engine"
  ld_cedar :: "files \<Rightarrow> string \<Rightarrow> string + engine"
  ld_rbac :: "string \<Rightarrow> rbacFile option"
  ld_errorText :: "config_error \<Rightarrow> string"
  ld_loadErrorText :: "load_error \<Rightarrow> string"
  ld_rbacErrorText :: "rbac_error \<Rightarrow> string"

record PolicyInfo =
  pi_Backend :: string
  pi_Source :: string
  pi_Rules :: "Rule list"
  pi_Default :: string

text \<open>The authorizer in force: the file's alone, or the file's together with the provisioned bindings, which are read live.\<close>

datatype held_authorizer = HeldStatic StaticAuthorizer | HeldComposite StaticAuthorizer

definition authorizer_in_force :: "binding_source \<Rightarrow> held_authorizer \<Rightarrow> Authorizer" where
  "authorizer_in_force bindings held =
     (case held of
        HeldStatic a \<Rightarrow> static_Authorizer a
      | HeldComposite a \<Rightarrow> composite_Authorizer \<lparr>ca_static = static_Authorizer a, ca_dynamic = bindings, ca_dynamicRoleHasPerm = RoleHasPermission a\<rparr>)"

text \<open>What was fixed at start, and what reloads change.\<close>

record startup =
  su_configPath :: string
  su_cfg :: Config
  su_rbacEnabled :: bool
  su_scimEnabled :: bool

record running =
  rn_engine :: engine
  rn_info :: PolicyInfo
  rn_authorizer :: held_authorizer
  rn_limiter :: InMemoryLimiter
  rn_previousTenants :: "(string \<times> BudgetConfig) list"
  rn_previousTools :: "(string \<times> BudgetConfig) list"
  rn_events :: ReloadEventBuffer

section \<open>Loading what a configuration names\<close>

definition loadPolicyEngine :: "loaders \<Rightarrow> files \<Rightarrow> string \<Rightarrow> string \<Rightarrow> string + engine" where
  "loadPolicyEngine ld fs backend path =
     (if backend = ''opa'' then ld_rego ld fs path
      else if backend = ''cedar'' then ld_cedar ld fs path
      else if backend = ''yaml'' \<or> backend = ''''
      then (case LoadFile (ld_policy ld) fs path of Inl e \<Rightarrow> Inl (ld_loadErrorText ld e) | Inr m \<Rightarrow> Inr (Matcher_Evaluate m))
      else Inl ''unknown policy backend'')"

definition buildPolicyInfo :: "loaders \<Rightarrow> files \<Rightarrow> string \<Rightarrow> string \<Rightarrow> string + PolicyInfo" where
  "buildPolicyInfo ld fs backend path =
     (case fs path of
        None \<Rightarrow> Inl ''cannot read policy file''
      | Some src \<Rightarrow>
          let info = \<lparr>pi_Backend = backend, pi_Source = src, pi_Rules = [], pi_Default = ''''\<rparr>
          in Inr (if backend = ''yaml''
                  then (case ParseRules (ld_policy ld) src of
                          Inl _ \<Rightarrow> info
                        | Inr (rules, def) \<Rightarrow> info\<lparr>pi_Rules := rules, pi_Default := effect_text def\<rparr>)
                  else info))"

definition load_rbac :: "loaders \<Rightarrow> files \<Rightarrow> string \<Rightarrow> string + StaticAuthorizer" where
  "load_rbac ld fs path =
     (case Option.bind (fs path) (ld_rbac ld) of
        None \<Rightarrow> Inl ''cannot read rbac file''
      | Some f \<Rightarrow> (case LoadAuthorizer f of Inl e \<Rightarrow> Inl (ld_rbacErrorText ld e) | Inr a \<Rightarrow> Inr a))"

definition window_of :: "BudgetConfig \<Rightarrow> duration" where
  "window_of b = wrap64 (bc_WindowSeconds b * second)"

definition limiter_of_config :: "BudgetConfig \<Rightarrow> InMemoryLimiter" where
  "limiter_of_config b =
     new_limiter (bc_RequestsPerWindow b) (window_of b)
       (map (\<lambda>(name, t). (name, bc_RequestsPerWindow t, window_of t)) (bc_Tenants b))
       (map (\<lambda>(name, t). (name, bc_RequestsPerWindow t, window_of t)) (bc_Tools b))"

section \<open>The reload closures\<close>

definition policyReload :: "loaders \<Rightarrow> startup \<Rightarrow> files \<Rightarrow> running \<Rightarrow> string option \<times> running" where
  "policyReload ld su fs s =
     (case config_Load (ld_config ld) fs (su_configPath su) of
        Inl e \<Rightarrow> (Some (ld_errorText ld e), s)
      | Inr newCfg \<Rightarrow>
          (case loadPolicyEngine ld fs (cf_PolicyBackend newCfg) (cf_PolicyFile newCfg) of
             Inl e \<Rightarrow> (Some e, s)
           | Inr newEngine \<Rightarrow> (None, s\<lparr>rn_engine := newEngine\<rparr>)))"

definition rbacReload :: "loaders \<Rightarrow> startup \<Rightarrow> files \<Rightarrow> running \<Rightarrow> string option \<times> running" where
  "rbacReload ld su fs s =
     (if \<not> su_rbacEnabled su then (None, s)
      else case config_Load (ld_config ld) fs (su_configPath su) of
             Inl e \<Rightarrow> (Some (ld_errorText ld e), s)
           | Inr newCfg \<Rightarrow>
               (case load_rbac ld fs (cf_RBAC_ConfigFile newCfg) of
                  Inl e \<Rightarrow> (Some e, s)
                | Inr a \<Rightarrow> (None, s\<lparr>rn_authorizer := (if su_scimEnabled su then HeldComposite a else HeldStatic a)\<rparr>)))"

definition clear_removed :: "(string \<Rightarrow> InMemoryLimiter \<Rightarrow> InMemoryLimiter) \<Rightarrow> (string \<times> BudgetConfig) list \<Rightarrow> (string \<times> BudgetConfig) list \<Rightarrow>
    InMemoryLimiter \<Rightarrow> InMemoryLimiter" where
  "clear_removed clear previous new = fold (\<lambda>(name, _) l. if name \<in> set (map fst new) then l else clear name l) previous"

definition set_all :: "(string \<Rightarrow> int \<Rightarrow> duration \<Rightarrow> InMemoryLimiter \<Rightarrow> InMemoryLimiter) \<Rightarrow> (string \<times> BudgetConfig) list \<Rightarrow>
    InMemoryLimiter \<Rightarrow> InMemoryLimiter" where
  "set_all put new = fold (\<lambda>(name, t). put name (bc_RequestsPerWindow t) (window_of t)) new"

definition budgetReload :: "loaders \<Rightarrow> startup \<Rightarrow> files \<Rightarrow> running \<Rightarrow> string option \<times> running" where
  "budgetReload ld su fs s =
     (case config_Load (ld_config ld) fs (su_configPath su) of
        Inl e \<Rightarrow> (Some (ld_errorText ld e), s)
      | Inr newCfg \<Rightarrow>
          let b = cf_Budget newCfg;
              l = SetDefaultLimit (bc_RequestsPerWindow b) (window_of b) (rn_limiter s);
              l = clear_removed ClearTenantLimit (rn_previousTenants s) (bc_Tenants b) l;
              l = set_all SetTenantLimit (bc_Tenants b) l;
              l = clear_removed ClearToolLimit (rn_previousTools s) (bc_Tools b) l;
              l = set_all SetToolLimit (bc_Tools b) l
          in (None, s\<lparr>rn_limiter := l, rn_previousTenants := bc_Tenants b, rn_previousTools := bc_Tools b\<rparr>))"

text \<open>The policy reloader of the dashboard also refreshes what the dashboard shows.\<close>

definition policy_reloader :: "loaders \<Rightarrow> startup \<Rightarrow> files \<Rightarrow> running \<Rightarrow> string option \<times> running" where
  "policy_reloader ld su fs s =
     (case policyReload ld su fs s of
        (Some e, s) \<Rightarrow> (Some e, s)
      | (None, s) \<Rightarrow>
          (case buildPolicyInfo ld fs (cf_PolicyBackend (su_cfg su)) (cf_PolicyFile (su_cfg su)) of
             Inl e \<Rightarrow> (Some (''refresh policy info after reload: '' @ e), s)
           | Inr info \<Rightarrow> (None, s\<lparr>rn_info := info\<rparr>)))"

definition Reloaders :: "loaders \<Rightarrow> startup \<Rightarrow> string \<Rightarrow> (files \<Rightarrow> running \<Rightarrow> string option \<times> running) option" where
  "Reloaders ld su =
     [''policy'' \<mapsto> policy_reloader ld su, ''rbac'' \<mapsto> rbacReload ld su, ''budget'' \<mapsto> budgetReload ld su]"

definition Coordinator_Reload :: "loaders \<Rightarrow> startup \<Rightarrow> string \<Rightarrow> string \<Rightarrow> go_time \<Rightarrow> files \<Rightarrow> running \<Rightarrow> ReloadResult \<times> running" where
  "Coordinator_Reload ld su domain appliedBy now fs s =
     (let result = \<lparr>rr_Domain = domain, rr_OK = False, rr_Error = '''', rr_AppliedBy = appliedBy, rr_Timestamp = now\<rparr>;
          (result, s) =
            (case Reloaders ld su domain of
               None \<Rightarrow> (result\<lparr>rr_Error := ''unknown domain''\<rparr>, s)
             | Some fn \<Rightarrow>
                 (case fn fs s of
                    (Some e, s) \<Rightarrow> (result\<lparr>rr_Error := e\<rparr>, s)
                  | (None, s) \<Rightarrow> (result\<lparr>rr_OK := True\<rparr>, s)))
      in (result, s\<lparr>rn_events := ReloadEventBuffer_Add result (rn_events s)\<rparr>))"

section \<open>The dashboard's editors\<close>

text \<open>Saving rules writes the policy file of the start and reloads; saving a budget rewrites the configuration file and reloads.\<close>

definition policy_WriteAndReload ::
  "(policyYAML \<Rightarrow> string option) \<Rightarrow> string \<Rightarrow> write_faults \<Rightarrow> loaders \<Rightarrow> startup \<Rightarrow> Rule list \<Rightarrow> Effect \<Rightarrow> string \<Rightarrow> go_time \<Rightarrow>
   files \<Rightarrow> running \<Rightarrow> bool \<times> files \<times> running" where
  "policy_WriteAndReload encode tmpPath faults ld su rules def appliedBy now fs s =
     (case policy_WriteFile encode (ld_policy ld) tmpPath faults (cf_PolicyFile (su_cfg su)) rules def fs of
        (Some e, states) \<Rightarrow> (False, last states, s)
      | (None, states) \<Rightarrow>
          let (result, s) = Coordinator_Reload ld su ''policy'' appliedBy now (last states) s
          in (rr_OK result, last states, s))"

definition budget_WriteAndReload ::
  "('a, 'n) yaml_library \<Rightarrow> string \<Rightarrow> write_faults \<Rightarrow> loaders \<Rightarrow> startup \<Rightarrow> BudgetConfig \<Rightarrow> string \<Rightarrow> go_time \<Rightarrow>
   files \<Rightarrow> running \<Rightarrow> bool \<times> files \<times> running" where
  "budget_WriteAndReload yl tmpPath faults ld su b appliedBy now fs s =
     (case WriteBudgetSection yl (ld_config ld) tmpPath faults (su_configPath su) b fs of
        (Some e, states) \<Rightarrow> (False, last states, s)
      | (None, states) \<Rightarrow>
          let (result, s) = Coordinator_Reload ld su ''budget'' appliedBy now (last states) s
          in (rr_OK result, last states, s))"

section \<open>A reloaded budget is the budget of a restart\<close>

definition limit_of :: "BudgetConfig \<Rightarrow> tenantLimit" where
  "limit_of t = \<lparr>tl_requestsPerWindow = bc_RequestsPerWindow t, tl_window = window_of t\<rparr>"

definition overrides :: "(string \<times> BudgetConfig) list \<Rightarrow> string \<rightharpoonup> tenantLimit" where
  "overrides new = map_of (rev (map (\<lambda>(name, t). (name, limit_of t)) new))"

lemma overrides_dom: "overrides new name = None \<longleftrightarrow> name \<notin> set (map fst new)"
  by (force simp: overrides_def map_of_eq_None_iff)

lemma set_all_tenants:
  "set_all SetTenantLimit new l = l\<lparr>lim_tenantLimits := lim_tenantLimits l ++ overrides new\<rparr>"
  by (induction new arbitrary: l) (auto simp: set_all_def overrides_def SetTenantLimit_def limit_of_def map_add_def fun_eq_iff split: option.split)

lemma set_all_tools:
  "set_all SetToolLimit new l = l\<lparr>lim_toolLimits := lim_toolLimits l ++ overrides new\<rparr>"
  by (induction new arbitrary: l) (auto simp: set_all_def overrides_def SetToolLimit_def limit_of_def map_add_def fun_eq_iff split: option.split)

definition removed :: "(string \<times> BudgetConfig) list \<Rightarrow> (string \<times> BudgetConfig) list \<Rightarrow> string set" where
  "removed previous new = set (map fst previous) - set (map fst new)"

definition without :: "string set \<Rightarrow> (string \<rightharpoonup> 'v) \<Rightarrow> string \<rightharpoonup> 'v" where
  "without names m = (\<lambda>n. if n \<in> names then None else m n)"

lemma clear_removed_tenants:
  "clear_removed ClearTenantLimit previous new l =
     l\<lparr>lim_tenantLimits := without (removed previous new) (lim_tenantLimits l),
       lim_tenantBuckets := without (removed previous new) (lim_tenantBuckets l)\<rparr>"
  by (induction previous arbitrary: l) (auto simp: clear_removed_def removed_def without_def ClearTenantLimit_def fun_eq_iff)

lemma clear_removed_tools:
  "clear_removed ClearToolLimit previous new l =
     l\<lparr>lim_toolLimits := without (removed previous new) (lim_toolLimits l),
       lim_toolBuckets := without (removed previous new) (lim_toolBuckets l)\<rparr>"
  by (induction previous arbitrary: l) (auto simp: clear_removed_def removed_def without_def ClearToolLimit_def fun_eq_iff)

lemma limiter_of_config_limits:
  "limiter_of_config b =
     (NewInMemoryLimiter (bc_RequestsPerWindow b) (window_of b))\<lparr>lim_tenantLimits := overrides (bc_Tenants b), lim_toolLimits := overrides (bc_Tools b)\<rparr>"
proof -
  have "limiter_of_config b = set_all SetToolLimit (bc_Tools b)
      (set_all SetTenantLimit (bc_Tenants b) (NewInMemoryLimiter (bc_RequestsPerWindow b) (window_of b)))"
    by (simp add: limiter_of_config_def new_limiter_def set_all_def fold_map comp_def split_def)
  then show ?thesis
    by (simp add: set_all_tenants set_all_tools NewInMemoryLimiter_def)
qed

lemma overrides_replaced: "without (removed previous new) (overrides previous) ++ overrides new = overrides new"
proof
  fix n
  show "(without (removed previous new) (overrides previous) ++ overrides new) n = overrides new n"
    using overrides_dom [of previous n] overrides_dom [of new n]
    by (auto simp: map_add_def without_def removed_def split: option.split)
qed

text \<open>The limits a limiter enforces, and the state of a process that enforces those of a budget.\<close>

definition same_limits :: "InMemoryLimiter \<Rightarrow> InMemoryLimiter \<Rightarrow> bool" where
  "same_limits l m \<longleftrightarrow> lim_requestsPerWindow l = lim_requestsPerWindow m \<and> lim_window l = lim_window m \<and>
     lim_tenantLimits l = lim_tenantLimits m \<and> lim_toolLimits l = lim_toolLimits m"

definition enforces_budget :: "BudgetConfig \<Rightarrow> running \<Rightarrow> bool" where
  "enforces_budget b s \<longleftrightarrow> same_limits (rn_limiter s) (limiter_of_config b) \<and>
     rn_previousTenants s = bc_Tenants b \<and> rn_previousTools s = bc_Tools b"

lemma budgetReload_enforces:
  assumes "enforces_budget b s" "config_Load (ld_config ld) fs (su_configPath su) = Inr cfg"
  shows "\<exists>s'. budgetReload ld su fs s = (None, s') \<and> enforces_budget (cf_Budget cfg) s' \<and>
    s' = s\<lparr>rn_limiter := rn_limiter s', rn_previousTenants := bc_Tenants (cf_Budget cfg), rn_previousTools := bc_Tools (cf_Budget cfg)\<rparr> \<and>
    lim_buckets (rn_limiter s') = lim_buckets (rn_limiter s) \<and>
    lim_tenantBuckets (rn_limiter s') = without (removed (bc_Tenants b) (bc_Tenants (cf_Budget cfg))) (lim_tenantBuckets (rn_limiter s)) \<and>
    lim_toolBuckets (rn_limiter s') = without (removed (bc_Tools b) (bc_Tools (cf_Budget cfg))) (lim_toolBuckets (rn_limiter s))"
  using assms
  by (simp add: budgetReload_def enforces_budget_def same_limits_def limiter_of_config_limits set_all_tenants set_all_tools clear_removed_tenants
      clear_removed_tools overrides_replaced SetDefaultLimit_def NewInMemoryLimiter_def)

section \<open>Runs\<close>

text \<open>What happens to a running process here: reloads, against whatever the files hold then, and calls that the limiter counts.\<close>

datatype running_op =
    ReloadOp string string go_time files
  | CallOp string string string go_time

fun running_step :: "loaders \<Rightarrow> startup \<Rightarrow> running_op \<Rightarrow> running \<Rightarrow> running" where
  "running_step ld su (ReloadOp domain who now fs) s = snd (Coordinator_Reload ld su domain who now fs s)"
| "running_step ld su (CallOp identity tenant tool now) s = s\<lparr>rn_limiter := snd (Limiter_Allow (rn_limiter s) identity tenant tool now)\<rparr>"

text \<open>
  What is enforced: of each part, what the files of its last reload that could load it give. Which features are on stays as it
  was at the start: no reload looks at the flags of the file it reads.
\<close>

record in_force =
  if_engine :: engine
  if_authorizer :: held_authorizer
  if_budget :: BudgetConfig



fun spec_reload :: "loaders \<Rightarrow> startup \<Rightarrow> running_op \<Rightarrow> in_force \<Rightarrow> in_force" where
  "spec_reload ld su (CallOp identity tenant tool now) f = f"
| "spec_reload ld su (ReloadOp domain who now fs) f =
     (case config_Load (ld_config ld) fs (su_configPath su) of
        Inl _ \<Rightarrow> f
      | Inr cfg \<Rightarrow>
          if domain = ''policy''
          then (case loadPolicyEngine ld fs (cf_PolicyBackend cfg) (cf_PolicyFile cfg) of Inl _ \<Rightarrow> f | Inr engine \<Rightarrow> f\<lparr>if_engine := engine\<rparr>)
          else if domain = ''rbac'' \<and> su_rbacEnabled su
          then (case load_rbac ld fs (cf_RBAC_ConfigFile cfg) of
                  Inl _ \<Rightarrow> f
                | Inr a \<Rightarrow> f\<lparr>if_authorizer := (if su_scimEnabled su then HeldComposite a else HeldStatic a)\<rparr>)
          else if domain = ''budget'' then f\<lparr>if_budget := cf_Budget cfg\<rparr>
          else f)"

definition enforces :: "in_force \<Rightarrow> running \<Rightarrow> bool" where
  "enforces f s \<longleftrightarrow> rn_engine s = if_engine f \<and> rn_authorizer s = if_authorizer f \<and> enforces_budget (if_budget f) s"



lemma reload_step:
  assumes "enforces f s"
  shows "enforces (spec_reload ld su (ReloadOp domain who now fs) f) (running_step ld su (ReloadOp domain who now fs) s)"
proof -
  have events: "enforces g (t\<lparr>rn_events := x\<rparr>) = enforces g t" for g t x
    by (simp add: enforces_def enforces_budget_def)
  have after: "running_step ld su (ReloadOp domain who now fs) s =
      (case Reloaders ld su domain of None \<Rightarrow> s | Some fn \<Rightarrow> snd (fn fs s))\<lparr>rn_events :=
         rn_events (running_step ld su (ReloadOp domain who now fs) s)\<rparr>" (is "_ = ?t\<lparr>rn_events := _\<rparr>")
    by (auto simp: Coordinator_Reload_def case_prod_beta split: option.split)
  have "enforces (spec_reload ld su (ReloadOp domain who now fs) f) ?t"
  proof (cases "config_Load (ld_config ld) fs (su_configPath su)")
    case (Inl e)
    then have "?t = s" by (simp add: Reloaders_def policy_reloader_def policyReload_def rbacReload_def budgetReload_def)
    then show ?thesis using assms Inl by simp
  next
    case (Inr cfg)
    show ?thesis
    proof (cases "domain = ''budget''")
      case True
      obtain s' where "budgetReload ld su fs s = (None, s')" "enforces_budget (cf_Budget cfg) s'"
          "s' = s\<lparr>rn_limiter := rn_limiter s', rn_previousTenants := bc_Tenants (cf_Budget cfg), rn_previousTools := bc_Tools (cf_Budget cfg)\<rparr>"
        using budgetReload_enforces [of "if_budget f" s ld fs su cfg] assms Inr by (auto simp: enforces_def)
      moreover from this(3) have "rn_engine s' = rn_engine s" "rn_authorizer s' = rn_authorizer s"
        by (metis running.select_convs(1) running.surjective running.update_convs, metis running.select_convs(3) running.surjective running.update_convs)
      ultimately show ?thesis
        using assms Inr True by (simp add: Reloaders_def enforces_def)
    next
      case False
      then show ?thesis
        using assms Inr
        by (auto simp: Reloaders_def enforces_def policy_reloader_def policyReload_def rbacReload_def enforces_budget_def split: sum.split)
    qed
  qed
  then show ?thesis by (subst after) (simp only: events)
qed

lemma reloads_follow_files:
  "enforces f s \<Longrightarrow> enforces (fold (spec_reload ld su) ops f) (fold (running_step ld su) ops s)"
proof (induction ops arbitrary: f s)
  case (Cons op ops)
  have "enforces (spec_reload ld su op f) (running_step ld su op s)"
    using Cons.prems reload_step
    by (cases op) (auto simp: enforces_def enforces_budget_def same_limits_def)
  then show ?case by (simp add: Cons.IH)
qed simp

text \<open>
  What a process that starts on the files \<open>fs\<close> has: its configuration and flags, the engine, the authorizer (where RBAC is on),
  the limiter and the view of the policy are built from them; otherwise it exits.
\<close>

definition starts_as :: "loaders \<Rightarrow> files \<Rightarrow> startup \<Rightarrow> running \<Rightarrow> bool" where
  "starts_as ld fs su s \<longleftrightarrow>
     (let cfg = su_cfg su
      in config_Load (ld_config ld) fs (su_configPath su) = Inr cfg \<and>
         su_rbacEnabled su = cf_Features cfg ''rbac'' \<and> su_scimEnabled su = cf_Features cfg ''scim'' \<and>
         loadPolicyEngine ld fs (cf_PolicyBackend cfg) (cf_PolicyFile cfg) = Inr (rn_engine s) \<and>
         (su_rbacEnabled su \<longrightarrow>
            map_sum id (\<lambda>a. if su_scimEnabled su then HeldComposite a else HeldStatic a) (load_rbac ld fs (cf_RBAC_ConfigFile cfg)) = Inr (rn_authorizer s)) \<and>
         rn_limiter s = limiter_of_config (cf_Budget cfg) \<and>
         rn_previousTenants s = bc_Tenants (cf_Budget cfg) \<and> rn_previousTools s = bc_Tools (cf_Budget cfg) \<and>
         buildPolicyInfo ld fs (cf_PolicyBackend cfg) (cf_PolicyFile cfg) = Inr (rn_info s))"

text \<open>The files the last reload of a domain read.\<close>

fun reload_files :: "string \<Rightarrow> running_op \<Rightarrow> files option" where
  "reload_files domain (ReloadOp d who now fs) = (if d = domain then Some fs else None)"
| "reload_files domain (CallOp identity tenant tool now) = None"

fun last_reload :: "string \<Rightarrow> running_op list \<Rightarrow> files option" where
  "last_reload domain [] = None"
| "last_reload domain (op # ops) =
     (case last_reload domain ops of Some fs \<Rightarrow> Some fs | None \<Rightarrow> reload_files domain op)"

lemma last_reload_None: "last_reload domain ops = None \<longleftrightarrow> (\<forall>op \<in> set ops. reload_files domain op = None)"
  by (induction ops) (auto split: option.split)

lemma last_reload_split:
  "last_reload domain ops = Some fs \<Longrightarrow>
     \<exists>pre who now post. ops = pre @ ReloadOp domain who now fs # post \<and> (\<forall>op \<in> set post. reload_files domain op = None)"
proof (induction ops)
  case (Cons op ops)
  show ?case
  proof (cases "last_reload domain ops")
    case None
    with Cons.prems have "reload_files domain op = Some fs" by simp
    then obtain who now where "op = ReloadOp domain who now fs" by (cases op) (auto split: if_splits)
    with None show ?thesis
      using last_reload_None [of domain ops] by (intro exI [of _ "[]"] exI [of _ who] exI [of _ now] exI [of _ ops]) simp
  next
    case (Some fs')
    with Cons obtain pre who now post where "ops = pre @ ReloadOp domain who now fs # post" "\<forall>op \<in> set post. reload_files domain op = None"
      by auto
    then show ?thesis by (intro exI [of _ "op # pre"]) auto
  qed
qed simp

text \<open>A part is changed by the reloads of its own domain only.\<close>

lemma spec_reload_frame:
  "reload_files ''policy'' op = None \<Longrightarrow> if_engine (spec_reload ld su op f) = if_engine f"
  "reload_files ''rbac'' op = None \<Longrightarrow> if_authorizer (spec_reload ld su op f) = if_authorizer f"
  "reload_files ''budget'' op = None \<Longrightarrow> if_budget (spec_reload ld su op f) = if_budget f"
  by (cases op; auto split: sum.split if_splits)+

lemma fold_frame: "(\<And>x y. x \<in> set xs \<Longrightarrow> g (f x y) = g y) \<Longrightarrow> g (fold f xs y) = g y"
  by (induction xs arbitrary: y) auto

lemma last_reload_installs:
  assumes "last_reload domain ops = Some fs" and "\<And>who now f. g (spec_reload ld su (ReloadOp domain who now fs) f) = x"
    and "\<And>op f. reload_files domain op = None \<Longrightarrow> g (spec_reload ld su op f) = g f"
  shows "g (fold (spec_reload ld su) ops f) = x"
proof -
  obtain pre who now post where "ops = pre @ ReloadOp domain who now fs # post" and post: "\<forall>op \<in> set post. reload_files domain op = None"
    using last_reload_split [OF assms(1)] by blast
  moreover have "g (fold (spec_reload ld su) post f') = g f'" for f'
    using post assms(3) by (intro fold_frame) auto
  ultimately show ?thesis using assms(2) by simp
qed

lemma view_frame: "reload_files ''policy'' op = None \<Longrightarrow> rn_info (running_step ld su op s) = rn_info s"
  by (cases op) (auto simp: Coordinator_Reload_def Reloaders_def rbacReload_def budgetReload_def Let_def case_prod_beta split: option.splits sum.splits if_splits)

text \<open>
  C20. A process that is reloaded enforces what a restarted one would, as long as the feature flags stay. Take a process started
  on some files, and any sequence of reloads, against whatever the files held at each, and of calls in between, such that the
  last reload of each domain (of RBAC where it is on) read the files \<open>fs\<close>. If a process can start on \<open>fs\<close>, and its flags are
  those of the running one, then the running one has the engine, the authorizer and the default, tenant and tool limits of
  the new one, overrides removed meanwhile included; and it shows the policy the new one would show, where the new configuration
  names the same policy file and backend. (The counters of the limiter are kept.)
\<close>

theorem reloads_refine_restart:
  assumes "starts_as ld fs0 su s" and "starts_as ld fs su' s'"
    and "su_configPath su' = su_configPath su" and "cf_Features (su_cfg su') = cf_Features (su_cfg su)"
    and "last_reload ''policy'' ops = Some fs" and "last_reload ''budget'' ops = Some fs"
    and "su_rbacEnabled su \<Longrightarrow> last_reload ''rbac'' ops = Some fs"
  shows "let r = fold (running_step ld su) ops s
    in rn_engine r = rn_engine s' \<and> (su_rbacEnabled su \<longrightarrow> rn_authorizer r = rn_authorizer s') \<and>
       same_limits (rn_limiter r) (rn_limiter s') \<and>
       (cf_PolicyFile (su_cfg su') = cf_PolicyFile (su_cfg su) \<and> cf_PolicyBackend (su_cfg su') = cf_PolicyBackend (su_cfg su) \<longrightarrow>
          rn_info r = rn_info s')"
proof -
  let ?f = "\<lparr>if_engine = rn_engine s, if_authorizer = rn_authorizer s, if_budget = cf_Budget (su_cfg su)\<rparr>"
  let ?g = "fold (spec_reload ld su) ops ?f" and ?r = "fold (running_step ld su) ops s"
  have start: "config_Load (ld_config ld) fs (su_configPath su) = Inr (su_cfg su')"
      "loadPolicyEngine ld fs (cf_PolicyBackend (su_cfg su')) (cf_PolicyFile (su_cfg su')) = Inr (rn_engine s')"
      "rn_limiter s' = limiter_of_config (cf_Budget (su_cfg su'))" "su_rbacEnabled su' = su_rbacEnabled su" "su_scimEnabled su' = su_scimEnabled su"
      "buildPolicyInfo ld fs (cf_PolicyBackend (su_cfg su')) (cf_PolicyFile (su_cfg su')) = Inr (rn_info s')"
    using assms(1-4) by (simp_all add: starts_as_def Let_def)
  have "enforces ?f s" using assms(1) by (simp add: enforces_def enforces_budget_def same_limits_def starts_as_def Let_def)
  then have r: "enforces ?g ?r" by (rule reloads_follow_files)
  have engine: "if_engine ?g = rn_engine s'"
    by (rule last_reload_installs [where g = if_engine, OF assms(5)]) (simp_all add: start spec_reload_frame)
  have budget: "if_budget ?g = cf_Budget (su_cfg su')"
    by (rule last_reload_installs [where g = if_budget, OF assms(6)]) (simp_all add: start spec_reload_frame)
  have authorizer: "if_authorizer ?g = rn_authorizer s'" if on: "su_rbacEnabled su"
  proof -
    obtain a where "load_rbac ld fs (cf_RBAC_ConfigFile (su_cfg su')) = Inr a" "rn_authorizer s' = (if su_scimEnabled su then HeldComposite a else HeldStatic a)"
      using assms(2) on start(4,5) by (cases "load_rbac ld fs (cf_RBAC_ConfigFile (su_cfg su'))") (auto simp: starts_as_def Let_def)
    then show ?thesis
      by (intro last_reload_installs [where g = if_authorizer, OF assms(7) [OF on]]) (simp_all add: start on spec_reload_frame)
  qed
  have info: "rn_info ?r = rn_info s'"
    if same: "cf_PolicyFile (su_cfg su') = cf_PolicyFile (su_cfg su)" "cf_PolicyBackend (su_cfg su') = cf_PolicyBackend (su_cfg su)"
  proof -
    obtain pre who now post where ops: "ops = pre @ ReloadOp ''policy'' who now fs # post" and post: "\<forall>op \<in> set post. reload_files ''policy'' op = None"
      using last_reload_split [OF assms(5)] by blast
    have "rn_info (fold (running_step ld su) post t) = rn_info t" for t
      using post by (intro fold_frame [where g = rn_info] view_frame) blast
    moreover have "rn_info (running_step ld su (ReloadOp ''policy'' who now fs) t) = rn_info s'" for t
      using start(1,2,6) same by (simp add: Coordinator_Reload_def Reloaders_def policy_reloader_def policyReload_def)
    ultimately show ?thesis by (simp add: ops)
  qed
  have "rn_engine ?r = rn_engine s'" "su_rbacEnabled su \<longrightarrow> rn_authorizer ?r = rn_authorizer s'" "same_limits (rn_limiter ?r) (rn_limiter s')"
    using r engine budget authorizer unfolding enforces_def enforces_budget_def start(3) by simp_all
  with info show ?thesis unfolding Let_def by blast
qed

text \<open>A process for the concrete instances: its configuration file is \<open>c\<close>, its policy file \<open>p\<close>.\<close>

definition example_engine :: "Effect \<Rightarrow> engine" where
  "example_engine e = (\<lambda>_. \<lparr>dec_Effect = e, dec_Reason = ''''\<rparr>)"

definition plain_Config :: Config where
  "plain_Config = zero_Config\<lparr>cf_Listen := ''l'', cf_Upstream := ''http://u'', cf_PolicyFile := ''q'', cf_PolicyBackend := ''opa'',
     cf_Audit := (cf_Audit zero_Config)\<lparr>au_Output := ''stdout''\<rparr>\<rparr>"

definition plain_Loaded :: Config where
  "plain_Loaded = plain_Config\<lparr>cf_UpstreamURL := example_uri ''http://u''\<rparr>"

definition example_loaders :: loaders where
  "example_loaders = \<lparr>ld_config = \<lparr>cd_decode = (\<lambda>src. if src = ''cfg'' then Some example_Config else if src = ''plain'' then Some plain_Config
         else if src = ''cfg2'' then Some (example_Config\<lparr>cf_Budget := BudgetConfig 9 30 [] []\<rparr>) else None),
       cd_ParseRequestURI = example_uri\<rparr>,
     ld_policy = (\<lambda>_. None), ld_rego = (\<lambda>fs path. case fs path of None \<Rightarrow> Inl '''' | Some _ \<Rightarrow> Inr (example_engine EffectAllow)),
     ld_cedar = (\<lambda>_ _. Inl ''''), ld_rbac = (\<lambda>_. None), ld_errorText = (\<lambda>_. ''''), ld_loadErrorText = (\<lambda>_. ''''), ld_rbacErrorText = (\<lambda>_. '''')\<rparr>"

definition example_startup :: startup where
  "example_startup = \<lparr>su_configPath = ''c'', su_cfg = example_Loaded, su_rbacEnabled = False, su_scimEnabled = False\<rparr>"

definition example_running :: running where
  "example_running = \<lparr>rn_engine = example_engine EffectDeny, rn_info = \<lparr>pi_Backend = ''yaml'', pi_Source = '''', pi_Rules = [], pi_Default = ''deny''\<rparr>,
     rn_authorizer = HeldStatic \<lparr>sa_roles = Map.empty, sa_clusterRoleBindings = [], sa_roleBindings = []\<rparr>,
     rn_limiter = limiter_of_config (cf_Budget example_Loaded), rn_previousTenants = bc_Tenants (cf_Budget example_Loaded),
     rn_previousTools = bc_Tools (cf_Budget example_Loaded), rn_events = NewReloadEventBuffer 100\<rparr>"

lemma plain_config_fields:
  "cf_Features plain_Config = (\<lambda>_. False)" "cf_Listen plain_Config = ''l''" "cf_Upstream plain_Config = ''http://u''" "cf_PolicyFile plain_Config = ''q''"
  "cf_PolicyBackend plain_Config = ''opa''" "cf_ShutdownDelaySeconds plain_Config = 0" "cf_Anomaly plain_Config = zero_AnomalyConfig"
  "cf_Audit plain_Config = \<lparr>au_Output = ''stdout'', au_PostgresDSN = '''', au_PostgresMaxOpenConns = 0, au_RetentionDays = 0\<rparr>"
  by (simp_all add: plain_Config_def zero_Config_def)

lemma plain_validates: "validate example_uri plain_Config = Inr plain_Loaded"
proof -
  have up: "check_upstream example_uri plain_Config = ([], plain_Loaded)"
    by (simp add: check_upstream_def example_uri_def plain_config_fields plain_Loaded_def)
  have rest: "check_backend plain_Loaded = ([], plain_Loaded)" "check_audit plain_Loaded = ([], plain_Loaded)" "check_tracing plain_Loaded = ([], plain_Loaded)"
    "check_credential plain_Loaded = ([], plain_Loaded)" "check_anomaly plain_Loaded = ([], plain_Loaded)" "check_grpc plain_Loaded = []"
    "check_retention plain_Loaded = []" "check_compliance plain_Loaded = []" "check_budget plain_Loaded = []" "check_rbac_scim plain_Loaded = []"
    "check_anomaly_retention plain_Loaded = []" "check_federation plain_Loaded = []"
    by (simp_all add: check_backend_def check_audit_def check_tracing_def check_credential_def check_anomaly_def check_grpc_def check_retention_def
        check_compliance_def check_budget_def check_rbac_scim_def check_anomaly_retention_def check_federation_def plain_Loaded_def plain_config_fields
        zero_AnomalyConfig_def)
  have "cf_Listen plain_Config \<noteq> ''''" "cf_PolicyFile plain_Loaded \<noteq> ''''" "cf_ShutdownDelaySeconds plain_Loaded = 0"
    by (simp_all add: plain_Loaded_def plain_config_fields)
  then show ?thesis
    by (simp only: validate_def config_checks_def run_checks.simps read_only_def up rest Let_def split_conv) (simp add: problem_if_def)
qed

lemma example_loads:
  "config_Load (ld_config example_loaders) [''c'' \<mapsto> ''cfg''] ''c'' = Inr example_Loaded"
  "config_Load (ld_config example_loaders) [''c'' \<mapsto> ''plain'', ''q'' \<mapsto> ''''] ''c'' = Inr plain_Loaded"
  by (simp_all add: config_Load_def ParseBytes_def example_loaders_def example_validates plain_validates)

lemma plain_fields:
  "cf_PolicyBackend plain_Loaded = ''opa''" "cf_PolicyFile plain_Loaded = ''q''" "cf_Budget plain_Loaded = BudgetConfig 0 0 [] []"
  by (simp_all add: plain_Loaded_def plain_Config_def zero_Config_def)

text \<open>The example edited on disk: a policy that allows instead of denying, and a budget without the tenant's override.\<close>

definition example_site :: loaders where
  "example_site = example_loaders\<lparr>ld_policy := (\<lambda>src. if src = ''closed'' then Some \<lparr>py_Rules = [], py_Default = ''deny''\<rparr>
     else if src = ''open'' then Some \<lparr>py_Rules = [], py_Default = ''allow''\<rparr> else None)\<rparr>"

definition example_started :: "Effect \<Rightarrow> string \<Rightarrow> BudgetConfig \<Rightarrow> running" where
  "example_started e src b = example_running\<lparr>rn_engine := Matcher_Evaluate (NewMatcher [] e),
     rn_info := \<lparr>pi_Backend = ''yaml'', pi_Source = src, pi_Rules = [], pi_Default = effect_text e\<rparr>,
     rn_limiter := limiter_of_config b, rn_previousTenants := bc_Tenants b, rn_previousTools := bc_Tools b\<rparr>"

lemma example_edited_validates:
  "validate example_uri (example_Config\<lparr>cf_Budget := BudgetConfig 9 30 [] []\<rparr>) = Inr (example_Loaded\<lparr>cf_Budget := BudgetConfig 9 30 [] []\<rparr>)"
  by (rule example_validates_budget) (simp add: check_budget_def example_features maxBudgetWindowSeconds_def)

lemma example_starts:
  "starts_as example_site [''c'' \<mapsto> ''cfg'', ''p'' \<mapsto> ''closed''] example_startup (example_started EffectDeny ''closed'' (cf_Budget example_Loaded))"
  "starts_as example_site [''c'' \<mapsto> ''cfg2'', ''p'' \<mapsto> ''open''] (example_startup\<lparr>su_cfg := example_Loaded\<lparr>cf_Budget := BudgetConfig 9 30 [] []\<rparr>\<rparr>)
     (example_started EffectAllow ''open'' (BudgetConfig 9 30 [] []))"
proof -
  have load: "config_Load (ld_config example_site) [''c'' \<mapsto> ''cfg'', ''p'' \<mapsto> ''closed''] ''c'' = Inr example_Loaded"
    "config_Load (ld_config example_site) [''c'' \<mapsto> ''cfg2'', ''p'' \<mapsto> ''open''] ''c'' = Inr (example_Loaded\<lparr>cf_Budget := BudgetConfig 9 30 [] []\<rparr>)"
    by (simp_all add: example_site_def example_loaders_def config_Load_def ParseBytes_def example_validates example_edited_validates)
  have parse: "ParseRules (ld_policy example_site) ''closed'' = Inr ([], EffectDeny)" "ParseRules (ld_policy example_site) ''open'' = Inr ([], EffectAllow)"
    by (simp_all add: example_site_def ParseRules_def parseEffect_def)
  have cfg: "cf_PolicyBackend example_Loaded = ''yaml''" "cf_PolicyFile example_Loaded = ''p''" "cf_Features example_Loaded = cf_Features example_Config"
    by (simp_all add: example_Loaded_def example_fields)
  show "starts_as example_site [''c'' \<mapsto> ''cfg'', ''p'' \<mapsto> ''closed''] example_startup (example_started EffectDeny ''closed'' (cf_Budget example_Loaded))"
    by (simp add: starts_as_def example_startup_def load cfg example_features example_started_def loadPolicyEngine_def LoadFile_def ParseYAML_def parse buildPolicyInfo_def)
  show "starts_as example_site [''c'' \<mapsto> ''cfg2'', ''p'' \<mapsto> ''open''] (example_startup\<lparr>su_cfg := example_Loaded\<lparr>cf_Budget := BudgetConfig 9 30 [] []\<rparr>\<rparr>)
     (example_started EffectAllow ''open'' (BudgetConfig 9 30 [] []))"
    by (simp add: starts_as_def example_startup_def load cfg example_features example_started_def loadPolicyEngine_def LoadFile_def ParseYAML_def parse buildPolicyInfo_def)
qed

theorem reloads_refine_restart_witness:
  "let ops = [CallOp ''alice'' ''acme'' ''t'' 1, ReloadOp ''budget'' ''ops'' 2 Map.empty, ReloadOp ''policy'' ''ops'' 3 [''c'' \<mapsto> ''cfg2'', ''p'' \<mapsto> ''open''],
              ReloadOp ''budget'' ''ops'' 4 [''c'' \<mapsto> ''cfg2'', ''p'' \<mapsto> ''open'']];
       r = fold (running_step example_site example_startup) ops (example_started EffectDeny ''closed'' (cf_Budget example_Loaded))
   in rn_engine r = Matcher_Evaluate (NewMatcher [] EffectAllow) \<and> lim_requestsPerWindow (rn_limiter r) = 9 \<and> lim_tenantLimits (rn_limiter r) ''acme'' = None"
proof -
  let ?ops = "[CallOp ''alice'' ''acme'' ''t'' 1, ReloadOp ''budget'' ''ops'' 2 Map.empty, ReloadOp ''policy'' ''ops'' 3 [''c'' \<mapsto> ''cfg2'', ''p'' \<mapsto> ''open''],
      ReloadOp ''budget'' ''ops'' 4 [''c'' \<mapsto> ''cfg2'', ''p'' \<mapsto> ''open'']]"
  have last: "last_reload ''policy'' ?ops = Some [''c'' \<mapsto> ''cfg2'', ''p'' \<mapsto> ''open'']" "last_reload ''budget'' ?ops = Some [''c'' \<mapsto> ''cfg2'', ''p'' \<mapsto> ''open'']"
    by simp_all
  note * = reloads_refine_restart [OF example_starts _ _ last]
  have limits: "lim_requestsPerWindow (limiter_of_config (BudgetConfig 9 30 [] [])) = 9" "lim_tenantLimits (limiter_of_config (BudgetConfig 9 30 [] [])) = Map.empty"
    by (simp_all add: limiter_of_config_limits NewInMemoryLimiter_def overrides_def)
  have started: "rn_engine (example_started EffectAllow ''open'' (BudgetConfig 9 30 [] [])) = Matcher_Evaluate (NewMatcher [] EffectAllow)"
    "rn_limiter (example_started EffectAllow ''open'' (BudgetConfig 9 30 [] [])) = limiter_of_config (BudgetConfig 9 30 [] [])"
    by (simp_all add: example_started_def)
  show ?thesis
    unfolding Let_def using * by (simp only: Let_def started same_limits_def limits startup.simps) (simp add: example_startup_def)
qed

section \<open>Reloads that fail\<close>

text \<open>
  C31. A failed reload is recorded and changes nothing, with one exception. For an unknown domain, a configuration that does
  not load or a policy or role file that does not, the engine, the authorizer, the limiter with all its counters and what the
  dashboard shows stay as they were, and the history gains the rejected attempt. The exception is a policy reload whose new
  engine loads while the policy file of the start cannot be read: it is reported as rejected, and the new engine is in force;
  nothing else changes then either.
\<close>

theorem failed_reload_changes_nothing:
  assumes "Coordinator_Reload ld su domain who now fs s = (result, s')" and "\<not> rr_OK result"
  shows "rr_Domain result = domain \<and> rr_AppliedBy result = who \<and>
    s' = s\<lparr>rn_engine := rn_engine s', rn_events := ReloadEventBuffer_Add result (rn_events s)\<rparr> \<and>
    (rn_engine s' = rn_engine s \<or>
       domain = ''policy'' \<and> fs (cf_PolicyFile (su_cfg su)) = None \<and>
       (\<exists>cfg. config_Load (ld_config ld) fs (su_configPath su) = Inr cfg \<and>
          loadPolicyEngine ld fs (cf_PolicyBackend cfg) (cf_PolicyFile cfg) = Inr (rn_engine s')))"
proof (cases "Reloaders ld su domain")
  case None
  with assms(1) have "s' = s\<lparr>rn_events := ReloadEventBuffer_Add result (rn_events s)\<rparr>" "rr_Domain result = domain" "rr_AppliedBy result = who"
    by (auto simp: Coordinator_Reload_def)
  then show ?thesis by simp
next
  case (Some fn)
  obtain e t where fn: "fn fs s = (Some e, t)"
    using assms Some by (cases "fn fs s") (auto simp: Coordinator_Reload_def split: option.splits)
  then have res: "s' = t\<lparr>rn_events := ReloadEventBuffer_Add result (rn_events t)\<rparr>" "rr_Domain result = domain" "rr_AppliedBy result = who"
    using assms(1) Some by (auto simp: Coordinator_Reload_def)
  have "t = s \<or> domain = ''policy'' \<and> fs (cf_PolicyFile (su_cfg su)) = None \<and>
      (\<exists>cfg engine. config_Load (ld_config ld) fs (su_configPath su) = Inr cfg \<and>
         loadPolicyEngine ld fs (cf_PolicyBackend cfg) (cf_PolicyFile cfg) = Inr engine \<and> t = s\<lparr>rn_engine := engine\<rparr>)"
    using Some fn
    by (auto simp: Reloaders_def policy_reloader_def policyReload_def rbacReload_def budgetReload_def buildPolicyInfo_def Let_def
        split: if_splits sum.splits option.splits)
  then show ?thesis using res by auto
qed

theorem failed_reload_changes_nothing_witness:
  "rn_limiter (snd (Coordinator_Reload example_loaders example_startup ''budget'' ''ops'' 5 Map.empty example_running)) = rn_limiter example_running \<and>
   rn_engine (snd (Coordinator_Reload example_loaders example_startup ''budget'' ''ops'' 5 Map.empty example_running)) = rn_engine example_running"
proof -
  obtain result s' where run: "Coordinator_Reload example_loaders example_startup ''budget'' ''ops'' 5 Map.empty example_running = (result, s')" by fastforce
  then have "\<not> rr_OK result"
    by (auto simp: Coordinator_Reload_def Reloaders_def budgetReload_def config_Load_def)
  from failed_reload_changes_nothing [OF run this]
  have "s' = example_running\<lparr>rn_engine := rn_engine s', rn_events := ReloadEventBuffer_Add result (rn_events example_running)\<rparr>"
    and engine: "rn_engine s' = rn_engine example_running" by auto
  from arg_cong [OF this(1), of rn_limiter] engine run show ?thesis by simp
qed

text \<open>
  C34. A policy reload may be reported as rejected and still take effect. When the configuration file names a policy that loads, and the
  policy file of the start is gone, the new engine is already in force when refreshing the dashboard's view of the old file fails:
  the caller is told, and the history records, that the reload was rejected.
\<close>

theorem rejected_policy_reload_enforced:
  assumes "config_Load (ld_config ld) fs (su_configPath su) = Inr cfg"
    and "loadPolicyEngine ld fs (cf_PolicyBackend cfg) (cf_PolicyFile cfg) = Inr engine"
    and "fs (cf_PolicyFile (su_cfg su)) = None"
  shows "let (result, s') = Coordinator_Reload ld su ''policy'' who now fs s
    in \<not> rr_OK result \<and> rn_engine s' = engine \<and> rn_info s' = rn_info s"
  using assms by (simp add: Coordinator_Reload_def Reloaders_def policy_reloader_def policyReload_def buildPolicyInfo_def)

theorem rejected_policy_reload_enforced_witness:
  "let (result, s') = Coordinator_Reload example_loaders example_startup ''policy'' ''ops'' 5 [''c'' \<mapsto> ''plain'', ''q'' \<mapsto> ''''] example_running
   in \<not> rr_OK result \<and> rn_engine s' = example_engine EffectAllow \<and> rn_info s' = rn_info example_running"
  by (rule rejected_policy_reload_enforced [where cfg = plain_Loaded])
    (simp_all add: example_startup_def example_loads plain_fields loadPolicyEngine_def, simp_all add: example_loaders_def example_Loaded_def example_fields)

section \<open>A budget reload that blocks everything\<close>

lemma checkAndAdvance_closed:
  assumes "rpw \<le> 0" "0 \<le> b_count b"
  shows "\<not> bv_Allowed (fst (checkAndAdvance b rpw w now))"
  using assms by (simp add: checkAndAdvance_def)

lemma Limiter_Allow_closed:
  assumes "lim_requestsPerWindow l \<le> 0" "\<And>k b. lim_buckets l k = Some b \<Longrightarrow> 0 \<le> b_count b"
  shows "\<not> bv_Allowed (fst (Limiter_Allow l i t tool now))"
proof -
  have swept: "lim_buckets (count_and_sweep l now) k = Some b \<Longrightarrow> 0 \<le> b_count b" for k b
    using assms(2) by (auto simp: count_and_sweep_def evictExpired_def map_keep_def split: if_splits option.splits)
  have closed: "\<not> bv_Allowed (fst (allow_identity m i t now))"
    if "lim_requestsPerWindow m = lim_requestsPerWindow l" "lim_buckets m = lim_buckets (count_and_sweep l now)" for m
  proof -
    have "0 \<le> b_count (bucket_or_zero (lim_buckets m (tenant_Key t i)))"
      using swept that(2) by (auto simp: bucket_or_zero_def zero_bucket_def split: option.split)
    then show ?thesis
      using checkAndAdvance_closed assms(1) that(1) by (simp add: allow_identity_def case_prod_beta)
  qed
  show ?thesis
    by (simp add: Limiter_Allow_def allow_tool_def allow_tenant_def case_prod_beta closed split: option.split)
qed

text \<open>
  A budget reload installs limits that validation did not look at. A configuration with budget enforcement switched off loads whatever
  its limits are; a process that was started with enforcement on keeps enforcing, and reloading such a configuration without a positive
  number of requests makes it refuse every call of every identity.
\<close>

theorem budget_reload_unvalidated:
  assumes "config_Load (ld_config ld) fs (su_configPath su) = Inr cfg" and "bc_RequestsPerWindow (cf_Budget cfg) \<le> 0"
    and "\<And>k b. lim_buckets (rn_limiter s) k = Some b \<Longrightarrow> 0 \<le> b_count b" and "enforces_budget b s" and "flags ''budget_enforcement''"
  shows "let (result, s') = Coordinator_Reload ld su ''budget'' who now fs s
    in rr_OK result \<and> \<not> cf_Features cfg ''budget_enforcement'' \<and>
       (\<forall>i t tool later. \<not> bv_Allowed (fst (budget_Check flags Limiter_Allow i t tool later (rn_limiter s'))))"
proof -
  obtain c where "validate (cd_ParseRequestURI (ld_config ld)) c = Inr cfg"
    using assms(1) by (auto simp: config_Load_def ParseBytes_def split: option.splits sum.splits)
  then have "check_budget cfg = []"
    using validate_settled by (fastforce simp: config_checks_def read_only_def)
  then have off: "\<not> cf_Features cfg ''budget_enforcement''"
    using check_budget_ok(1) [of cfg] assms(2) by (auto simp: budget_sound_def)
  obtain s' where s': "budgetReload ld su fs s = (None, s')" "enforces_budget (cf_Budget cfg) s'" "lim_buckets (rn_limiter s') = lim_buckets (rn_limiter s)"
    using budgetReload_enforces [OF assms(4,1)] by blast
  have rpw: "lim_requestsPerWindow (rn_limiter s') \<le> 0"
    using s'(2) assms(2) by (simp add: enforces_budget_def same_limits_def limiter_of_config_limits NewInMemoryLimiter_def)
  have counts: "lim_buckets (rn_limiter s') k = Some b \<Longrightarrow> 0 \<le> b_count b" for k b
    using assms(3) s'(3) by auto
  have "\<not> bv_Allowed (fst (Limiter_Allow (rn_limiter s') i t tool later))" for i t tool later
    by (rule Limiter_Allow_closed [OF rpw counts])
  then show ?thesis
    using s'(1) off assms(5) by (simp add: Coordinator_Reload_def Reloaders_def budget_Check_def budgetFeatureFlag_def)
qed

theorem budget_reload_unvalidated_witness:
  "let (result, s') = Coordinator_Reload example_loaders example_startup ''budget'' ''ops'' 5 [''c'' \<mapsto> ''plain'', ''q'' \<mapsto> ''''] example_running
   in rr_OK result \<and> \<not> bv_Allowed (fst (budget_Check (cf_Features example_Loaded) Limiter_Allow ''alice'' ''acme'' ''t'' 6 (rn_limiter s')))"
proof -
  have "let (result, s') = Coordinator_Reload example_loaders example_startup ''budget'' ''ops'' 5 [''c'' \<mapsto> ''plain'', ''q'' \<mapsto> ''''] example_running
    in rr_OK result \<and> \<not> cf_Features plain_Loaded ''budget_enforcement'' \<and>
       (\<forall>i t tool later. \<not> bv_Allowed (fst (budget_Check (cf_Features example_Loaded) Limiter_Allow i t tool later (rn_limiter s'))))"
    by (rule budget_reload_unvalidated [where b = "cf_Budget example_Loaded"])
      (simp_all add: example_startup_def example_loads plain_fields example_running_def enforces_budget_def same_limits_def,
       simp_all add: limiter_of_config_limits NewInMemoryLimiter_def example_Loaded_def example_features)
  then show ?thesis by auto
qed

section \<open>Saving from the dashboard\<close>

text \<open>
  C29. Rules saved in the dashboard are the rules enforced. Provided the configuration file loads and still names the YAML backend
  and the policy file of the start, a save that reports success leaves a policy file that holds exactly the saved rules, an engine
  that evaluates them, and a dashboard that shows them; a save that reports failure leaves the process and every file as they were,
  except that its temporary file stays behind where its removal fails as well.
\<close>

theorem policy_save_takes_effect:
  fixes encode tmpPath faults ld su rules def who now fs s
  defines "saved \<equiv> policy_WriteAndReload encode tmpPath faults ld su rules def who now fs s"
    and "path \<equiv> cf_PolicyFile (su_cfg su)"
  assumes "\<And>p src. encode p = Some src \<Longrightarrow> ld_policy ld src = Some p" and "tmpPath \<noteq> path" "fs tmpPath = None"
    and "list_all (\<lambda>r. effect_canonical (rule_Effect r)) rules" and "effect_canonical def"
    and "su_configPath su \<noteq> path" and "cf_PolicyBackend (su_cfg su) = ''yaml''"
    and "config_Load (ld_config ld) fs (su_configPath su) = Inr cfg" "cf_PolicyBackend cfg = ''yaml''" "cf_PolicyFile cfg = path"
  shows "case saved of (ok, fs', s') \<Rightarrow>
    if ok then LoadFile (ld_policy ld) fs' path = Inr (NewMatcher rules def) \<and> rn_engine s' = Matcher_Evaluate (NewMatcher rules def) \<and>
      pi_Rules (rn_info s') = rules \<and> pi_Default (rn_info s') = effect_text def
    else left_behind tmpPath faults fs fs' \<and> s' = s"
proof (cases "policy_WriteFile encode (ld_policy ld) tmpPath faults path rules def fs")
  case (Pair err states)
  show ?thesis
  proof (cases err)
    case None
    obtain src where src: "last states = fs(path \<mapsto> src)" "ParseRules (ld_policy ld) src = Inr (rules, def)"
      using policy_WriteFile_saved [OF assms(3-7) Pair [unfolded None]] by blast
    have load: "config_Load (ld_config ld) (last states) (su_configPath su) = Inr cfg"
      using assms(8,10) by (simp add: src(1) config_Load_def)
    have "LoadFile (ld_policy ld) (last states) path = Inr (NewMatcher rules def)"
      by (simp add: src LoadFile_def ParseYAML_def)
    moreover from this have "loadPolicyEngine ld (last states) (cf_PolicyBackend cfg) (cf_PolicyFile cfg) = Inr (Matcher_Evaluate (NewMatcher rules def))"
      by (simp add: loadPolicyEngine_def assms(11,12))
    moreover have "buildPolicyInfo ld (last states) (cf_PolicyBackend (su_cfg su)) path =
        Inr \<lparr>pi_Backend = ''yaml'', pi_Source = src, pi_Rules = rules, pi_Default = effect_text def\<rparr>"
      by (simp add: buildPolicyInfo_def src assms(9))
    ultimately show ?thesis
      using load Pair None
      by (simp add: saved_def policy_WriteAndReload_def path_def [symmetric] Coordinator_Reload_def Reloaders_def policy_reloader_def policyReload_def)
  next
    case (Some e)
    have "left_behind tmpPath faults fs (last states)"
    proof (cases "\<exists>src. atomic_write tmpPath faults path src fs = (err, states)")
      case True
      then obtain src where "atomic_write tmpPath faults path src fs = (Some e, states)" using Some by blast
      with atomic_write_states [of tmpPath path fs src faults, OF assms(4,5)] show ?thesis by simp
    next
      case False
      then have "states = [fs]" using Pair by (auto simp: policy_WriteFile_def split: option.splits sum.splits)
      then show ?thesis by simp
    qed
    then show ?thesis
      using Pair Some by (simp add: saved_def policy_WriteAndReload_def path_def [symmetric])
  qed
qed

theorem policy_save_takes_effect_witness:
  "let p = \<lparr>py_Rules = [rule_to_yaml example_saved_rule], py_Default = ''deny''\<rparr>;
       (ok, fs', s') = policy_WriteAndReload (toy_encode p) ''t'' no_faults (example_loaders\<lparr>ld_policy := toy_decode p\<rparr>) example_startup
         [example_saved_rule] EffectDeny ''ops'' 5 [''c'' \<mapsto> ''cfg''] example_running
   in ok \<and> rn_engine s' = Matcher_Evaluate (NewMatcher [example_saved_rule] EffectDeny) \<and> pi_Rules (rn_info s') = [example_saved_rule]"
proof -
  let ?p = "\<lparr>py_Rules = [rule_to_yaml example_saved_rule], py_Default = ''deny''\<rparr>"
  let ?ld = "example_loaders\<lparr>ld_policy := toy_decode ?p\<rparr>"
  let ?saved = "policy_WriteAndReload (toy_encode ?p) ''t'' no_faults ?ld example_startup [example_saved_rule] EffectDeny ''ops'' 5 [''c'' \<mapsto> ''cfg''] example_running"
  have paths: "cf_PolicyFile (su_cfg example_startup) = ''p''" "cf_PolicyBackend (su_cfg example_startup) = ''yaml''" "su_configPath example_startup = ''c''"
    by (simp_all add: example_startup_def example_Loaded_def example_fields)
  have cfg: "config_Load (ld_config ?ld) [''c'' \<mapsto> ''cfg''] (su_configPath example_startup) = Inr example_Loaded"
    using example_loads(1) by (simp add: paths)
  have parses: "ParseRules (toy_decode ?p) ''doc'' = Inr ([example_saved_rule], EffectDeny)"
    by (simp add: ParseRules_def toy_decode_def rule_to_yaml_def example_saved_rule_def parseEffect_def rule_problems_def)
  have written: "policy_WriteFile (toy_encode ?p) (toy_decode ?p) ''t'' no_faults ''p'' [example_saved_rule] EffectDeny [''c'' \<mapsto> ''cfg''] =
      (None, [[''c'' \<mapsto> ''cfg''], [''c'' \<mapsto> ''cfg'', ''t'' \<mapsto> ''''], [''c'' \<mapsto> ''cfg'', ''t'' \<mapsto> ''doc''], [''c'' \<mapsto> ''cfg'', ''p'' \<mapsto> ''doc'']])"
    by (simp add: policy_WriteFile_def MarshalYAML_def toy_encode_def ParseYAML_def parses atomic_write_def no_faults_def)
  have after: "config_Load (ld_config example_loaders) [''c'' \<mapsto> ''cfg'', ''p'' \<mapsto> ''doc''] ''c'' = Inr example_Loaded"
    using example_loads(1) by (simp add: config_Load_def)
  have ok: "fst ?saved"
    by (simp add: policy_WriteAndReload_def paths written Coordinator_Reload_def Reloaders_def policy_reloader_def policyReload_def after)
      (simp add: paths after loadPolicyEngine_def LoadFile_def ParseYAML_def parses buildPolicyInfo_def example_Loaded_def example_fields)
  have "case ?saved of (ok, fs', s') \<Rightarrow>
      if ok then LoadFile (ld_policy ?ld) fs' (cf_PolicyFile (su_cfg example_startup)) = Inr (NewMatcher [example_saved_rule] EffectDeny) \<and>
        rn_engine s' = Matcher_Evaluate (NewMatcher [example_saved_rule] EffectDeny) \<and> pi_Rules (rn_info s') = [example_saved_rule] \<and>
        pi_Default (rn_info s') = effect_text EffectDeny
      else left_behind ''t'' no_faults [''c'' \<mapsto> ''cfg''] fs' \<and> s' = example_running"
    by (rule policy_save_takes_effect [OF _ _ _ _ _ _ _ cfg])
      (auto simp: paths toy_encode_def toy_decode_def example_saved_rule_def effect_canonical_def example_Loaded_def example_fields split: if_splits)
  then show ?thesis using ok by (auto simp: case_prod_beta)
qed

section \<open>The limits of a configuration that loads hold\<close>

lemma window_of_sound:
  assumes "budget_sound b"
  shows "window_of b = bc_WindowSeconds b * second" "0 < window_of b" "window_of b \<le> 24 * 3600 * second"
proof -
  have b: "0 < bc_WindowSeconds b" "bc_WindowSeconds b \<le> 86400"
    using assms by (simp_all add: budget_sound_def maxBudgetWindowSeconds_def)
  then show w: "window_of b = bc_WindowSeconds b * second"
    by (simp add: window_of_def wrap64_def second_def signed_take_bit_int_eq_self)
  from b show "0 < window_of b" "window_of b \<le> 24 * 3600 * second"
    by (simp_all add: w second_def)
qed

text \<open>
  What the configuration file says about the budget is what the proxy enforces. If a configuration loads with the budget enforced, the limiter the process
  builds from it has a positive window of exactly the configured number of seconds, without overflow and at most a day, and in
  any history of calls, of any identities, tenants and tools, late by at most \<open>late\<close>, no identity of a tenant is admitted more than \<open>k\<close> times the
  configured number of requests in any interval of that length (twice for calls in order).
\<close>

theorem loaded_budget_bounds_calls:
  assumes "config_Load rd fs path = Inr cfg" and "cf_Features cfg ''budget_enforcement''"
    and "late_by late cs" "\<forall>c \<in> set cs. 0 < c_time c" "0 \<le> late" "late < bc_WindowSeconds (cf_Budget cfg) * second"
    and "2 * (bc_WindowSeconds (cf_Budget cfg) * second) + late \<le> int k * (bc_WindowSeconds (cf_Budget cfg) * second - late)"
  shows "let l = limiter_of_config (cf_Budget cfg); w = bc_WindowSeconds (cf_Budget cfg) * second
    in lim_window l = w \<and> 0 < w \<and> w \<le> 24 * 3600 * second \<and>
       int (length (filter (\<lambda>(c, v). bv_Allowed v \<and> c_tenant c = t \<and> c_identity c = i \<and> a \<le> c_time c \<and> c_time c < a + w) (zip cs (limiter_run l cs))))
         \<le> int k * bc_RequestsPerWindow (cf_Budget cfg)"
proof -
  obtain c where "validate (cd_ParseRequestURI rd) c = Inr cfg"
    using assms(1) by (auto simp: config_Load_def ParseBytes_def split: option.splits sum.splits)
  then have "check_budget cfg = []"
    using validate_settled by (fastforce simp: config_checks_def read_only_def)
  then have sound: "budget_sound (cf_Budget cfg)"
    using check_budget_ok(1) assms(2) by blast
  let ?l = "limiter_of_config (cf_Budget cfg)"
  have l: "lim_window ?l = bc_WindowSeconds (cf_Budget cfg) * second" "lim_requestsPerWindow ?l = bc_RequestsPerWindow (cf_Budget cfg)" "lim_buckets ?l = Map.empty"
    by (simp_all add: limiter_of_config_limits NewInMemoryLimiter_def window_of_sound(1) [OF sound])
  have w: "0 < lim_window ?l" "lim_window ?l \<le> 24 * 3600 * second" "lim_window ?l \<le> max_duration" "0 \<le> lim_requestsPerWindow ?l"
    using window_of_sound [OF sound] sound by (simp_all add: l max_duration_def second_def budget_sound_def)
  have "admissions (admitted_times t i (zip cs (limiter_run ?l cs))) a (a + lim_window ?l) \<le> int k * lim_requestsPerWindow ?l"
    using assms(3-7) w l by (intro limiter_run_bound [where late = late]) simp_all
  then show ?thesis
    using w by (simp add: admissions_admitted l)
qed

theorem loaded_budget_bounds_calls_witness:
  "int (length (filter (\<lambda>(c, v). bv_Allowed v \<and> c_tenant c = ''acme'' \<and> c_identity c = ''alice'' \<and> 5 \<le> c_time c \<and> c_time c < 5 + 60 * second)
      (zip [example_call ''acme'' 5, example_call ''acme'' 6] (limiter_run (limiter_of_config (cf_Budget example_Loaded)) [example_call ''acme'' 5, example_call ''acme'' 6]))))
     \<le> int 2 * 5"
proof -
  have b: "bc_WindowSeconds (cf_Budget example_Loaded) = 60" "bc_RequestsPerWindow (cf_Budget example_Loaded) = 5" "cf_Features example_Loaded ''budget_enforcement''"
    by (simp_all add: example_Loaded_def example_fields example_features)
  have calls: "late_by 0 [example_call ''acme'' 5, example_call ''acme'' 6]" "\<forall>c \<in> set [example_call ''acme'' 5, example_call ''acme'' 6]. 0 < c_time c"
    by (simp_all add: late_by_def example_call_def)
  from loaded_budget_bounds_calls [OF example_loads(1) b(3) calls, of 2 "''acme''" "''alice''" 5]
  show ?thesis by (simp add: b Let_def second_def)
qed

end
