(* ===== verification/File_Watcher.thy ===== *)
theory File_Watcher
  imports Wardline_Prelude "HOL-Library.Multiset" "HOL-Library.Char_ord" "HOL-Library.List_Lexorder"
begin

text \<open>
  The watcher of the configuration files (\<open>internal/platform/reload/watcher.go\<close>): a state machine over the events of the
  file system and the expiry of its debounce timer. Resolving a path and taking its directory are parameters, as is the order in
  which the runtime ranges over the directories with a pending change. A target's reload function is known by the target.
\<close>

record WatchTarget =
  wt_Path :: string
  wt_Name :: string

definition debounceWindow :: duration where
  "debounceWindow = 300000000"

record paths =
  pt_Abs :: "string \<Rightarrow> string option"
  pt_Dir :: "string \<Rightarrow> string"
  pt_range :: "string set \<Rightarrow> string list"

fun resolve_targets :: "paths \<Rightarrow> WatchTarget list \<Rightarrow> WatchTarget list" where
  "resolve_targets p [] = []"
| "resolve_targets p (t # ts) =
     (if wt_Path t = '''' then resolve_targets p ts
      else case pt_Abs p (wt_Path t) of
             None \<Rightarrow> resolve_targets p ts
           | Some a \<Rightarrow> t\<lparr>wt_Path := a\<rparr> # resolve_targets p ts)"

definition byDir :: "paths \<Rightarrow> WatchTarget list \<Rightarrow> string \<Rightarrow> WatchTarget list" where
  "byDir p targets dir = filter (\<lambda>t. pt_Dir p (wt_Path t) = dir) (resolve_targets p targets)"

datatype watch_input =
    FsEvent string bool go_time \<comment> \<open>the name, whether it is a write or a create, and when\<close>
  | TimerFires go_time

record watcher =
  wa_pending :: "string set"
  wa_timer :: "go_time option"
  wa_calls :: "WatchTarget list"

definition NewWatcher :: watcher where
  "NewWatcher = \<lparr>wa_pending = {}, wa_timer = None, wa_calls = []\<rparr>"

fun watch_step :: "paths \<Rightarrow> WatchTarget list \<Rightarrow> watch_input \<Rightarrow> watcher \<Rightarrow> watcher" where
  "watch_step p targets (FsEvent name relevant now) w =
     (if \<not> relevant then w
      else case pt_Abs p name of
             None \<Rightarrow> w
           | Some a \<Rightarrow>
               if \<not> list_ex (\<lambda>t. wt_Path t = a) (byDir p targets (pt_Dir p a)) then w
               else w\<lparr>wa_pending := insert (pt_Dir p a) (wa_pending w), wa_timer := Some (now + debounceWindow)\<rparr>)"
| "watch_step p targets (TimerFires now) w =
     (case wa_timer w of
        None \<Rightarrow> w
      | Some deadline \<Rightarrow>
          if now < deadline then w
          else w\<lparr>wa_calls := wa_calls w @ concat (map (byDir p targets) (pt_range p (wa_pending w))), wa_pending := {}, wa_timer := None\<rparr>)"

section \<open>What the watcher owes\<close>

text \<open>A change is an event on a watched file; it is owed a reload until the timer fires a whole window after the last change.\<close>

definition change :: "paths \<Rightarrow> WatchTarget list \<Rightarrow> watch_input \<Rightarrow> (string \<times> go_time) option" where
  "change p targets i =
     (case i of
        FsEvent name relevant now \<Rightarrow>
          (case pt_Abs p name of
             Some a \<Rightarrow> if relevant \<and> a \<in> wt_Path ` set (resolve_targets p targets) then Some (a, now) else None
           | None \<Rightarrow> None)
      | TimerFires now \<Rightarrow> None)"

fun owed :: "paths \<Rightarrow> WatchTarget list \<Rightarrow> watch_input list \<Rightarrow> (string \<times> go_time) list \<Rightarrow> (string \<times> go_time) list" where
  "owed p targets [] cs = cs"
| "owed p targets (TimerFires now # es) cs =
     owed p targets es (if cs \<noteq> [] \<and> snd (last cs) + debounceWindow \<le> now then [] else cs)"
| "owed p targets (i # es) cs = owed p targets es (case change p targets i of None \<Rightarrow> cs | Some c \<Rightarrow> cs @ [c])"

definition watcher_rel :: "paths \<Rightarrow> (string \<times> go_time) list \<Rightarrow> watcher \<Rightarrow> bool" where
  "watcher_rel p cs w \<longleftrightarrow> wa_pending w = (pt_Dir p \<circ> fst) ` set cs \<and>
     wa_timer w = (if cs = [] then None else Some (snd (last cs) + debounceWindow))"

lemma watched_iff:
  "list_ex (\<lambda>t. wt_Path t = a) (byDir p targets (pt_Dir p a)) \<longleftrightarrow> a \<in> wt_Path ` set (resolve_targets p targets)"
  by (auto simp: list_ex_iff byDir_def)

lemma watcher_rel_run:
  "watcher_rel p cs w \<Longrightarrow> watcher_rel p (owed p targets es cs) (fold (watch_step p targets) es w)"
proof (induction es arbitrary: cs w)
  case (Cons i es)
  show ?case
  proof (cases i)
    case (FsEvent name relevant now)
    have "watcher_rel p (case change p targets i of None \<Rightarrow> cs | Some c \<Rightarrow> cs @ [c]) (watch_step p targets i w)"
      using Cons.prems by (auto simp: FsEvent change_def watched_iff watcher_rel_def split: option.split)
    with FsEvent Cons.IH show ?thesis by simp
  next
    case (TimerFires now)
    have "watcher_rel p (if cs \<noteq> [] \<and> snd (last cs) + debounceWindow \<le> now then [] else cs) (watch_step p targets i w)"
      using Cons.prems by (auto simp: TimerFires watcher_rel_def)
    with TimerFires Cons.IH show ?thesis by simp
  qed
qed simp

lemma mset_filter_disjoint:
  "(\<And>x. \<not> (P x \<and> Q x)) \<Longrightarrow> mset (filter (\<lambda>x. P x \<or> Q x) xs) = mset (filter P xs) + mset (filter Q xs)"
  by (induction xs) auto

lemma batch_mset:
  "distinct dirs \<Longrightarrow>
     mset (concat (map (byDir p targets) dirs)) = mset (filter (\<lambda>t. pt_Dir p (wt_Path t) \<in> set dirs) (resolve_targets p targets))"
proof (induction dirs)
  case (Cons d dirs)
  have "mset (filter (\<lambda>t. pt_Dir p (wt_Path t) = d \<or> pt_Dir p (wt_Path t) \<in> set dirs) (resolve_targets p targets)) =
      mset (byDir p targets d) + mset (filter (\<lambda>t. pt_Dir p (wt_Path t) \<in> set dirs) (resolve_targets p targets))"
    unfolding byDir_def using Cons.prems by (intro mset_filter_disjoint) auto
  then show ?case using Cons by (simp del: mset_filter)
qed simp

text \<open>
  C32. The watcher loses no change and coalesces bursts. Whatever events and expiries came before, when the timer fires it calls
  reload functions exactly if some change of a watched file is owed one and the last of them is at least the debounce window old.
  It then calls, once each, all the targets in the directories of the changed files (those of the changed files, and those of
  unchanged files beside them), no other, and owes nothing any more; otherwise it calls none and forgets nothing. (The
  runtime ranges over a map in any order, visiting each key once.)
\<close>

theorem watcher_serves_changes:
  assumes "\<And>A. finite A \<Longrightarrow> distinct (pt_range p A) \<and> set (pt_range p A) = A"
  shows "let w = fold (watch_step p targets) es NewWatcher; cs = owed p targets es [];
      w' = watch_step p targets (TimerFires now) w
    in if cs \<noteq> [] \<and> snd (last cs) + debounceWindow \<le> now
       then (\<exists>new. wa_calls w' = wa_calls w @ new \<and>
           mset new = mset (filter (\<lambda>t. \<exists>c \<in> set cs. pt_Dir p (wt_Path t) = pt_Dir p (fst c)) (resolve_targets p targets))) \<and>
         owed p targets (es @ [TimerFires now]) [] = []
       else w' = w \<and> owed p targets (es @ [TimerFires now]) [] = cs"
proof -
  let ?w = "fold (watch_step p targets) es NewWatcher"
  let ?cs = "owed p targets es []"
  have rel: "watcher_rel p ?cs ?w"
    by (rule watcher_rel_run) (simp add: watcher_rel_def NewWatcher_def)
  have append: "owed p targets (es @ js) xs = owed p targets js (owed p targets es xs)" for js xs
    by (induction p targets es xs rule: owed.induct) simp_all
  have pending: "wa_pending ?w = (pt_Dir p \<circ> fst) ` set ?cs" using rel by (simp add: watcher_rel_def)
  then have range: "distinct (pt_range p (wa_pending ?w))" "set (pt_range p (wa_pending ?w)) = wa_pending ?w"
    using assms [of "wa_pending ?w"] by simp_all
  have "mset (concat (map (byDir p targets) (pt_range p (wa_pending ?w)))) =
      mset (filter (\<lambda>t. \<exists>c \<in> set ?cs. pt_Dir p (wt_Path t) = pt_Dir p (fst c)) (resolve_targets p targets))"
    unfolding batch_mset [OF range(1)] unfolding range(2) unfolding pending
    by (rule arg_cong [where f = mset], rule filter_cong) auto
  then show ?thesis
    using rel by (auto simp: append watcher_rel_def)
qed

definition example_paths :: paths where
  "example_paths = \<lparr>pt_Abs = Some, pt_Dir = (\<lambda>_. ''etc''), pt_range = sorted_list_of_set\<rparr>"

theorem watcher_serves_changes_witness:
  "let targets = [\<lparr>wt_Path = ''p'', wt_Name = ''policy''\<rparr>, \<lparr>wt_Path = ''r'', wt_Name = ''rbac''\<rparr>];
       w = fold (watch_step example_paths targets) [FsEvent ''p'' True 5, FsEvent ''p'' True 10, FsEvent ''x'' True 11] NewWatcher
   in watch_step example_paths targets (TimerFires 300000005) w = w \<and>
      mset (wa_calls (watch_step example_paths targets (TimerFires 300000010) w)) = mset targets"
proof -
  let ?targets = "[\<lparr>wt_Path = ''p'', wt_Name = ''policy''\<rparr>, \<lparr>wt_Path = ''r'', wt_Name = ''rbac''\<rparr>]"
  let ?es = "[FsEvent ''p'' True 5, FsEvent ''p'' True 10, FsEvent ''x'' True 11]"
  have "distinct (pt_range example_paths A) \<and> set (pt_range example_paths A) = A" if "finite A" for A
    using that by (simp add: example_paths_def)
  note * = watcher_serves_changes [of example_paths, OF this]
  have owed: "owed example_paths ?targets ?es [] = [(''p'', 5), (''p'', 10)]"
    by (simp add: change_def example_paths_def)
  have "wa_calls (fold (watch_step example_paths ?targets) ?es NewWatcher) = []"
    by (simp add: NewWatcher_def example_paths_def byDir_def)
  then show ?thesis
    using * [where targets = ?targets and es = ?es and now = 300000005] * [where targets = ?targets and es = ?es and now = 300000010]
    by (simp only: owed Let_def) (auto simp: debounceWindow_def example_paths_def)
qed

end
