(* ===== verification/Oidc.thy ===== *)
theory Oidc
  imports Refresh_Tokens Json
begin

text \<open>
  Bootstrapping from an OIDC ID token (\<open>internal/features/credential/adapter/oidc.go\<close> and
  \<open>adapter/oidc_multi.go\<close>): discovery of the key set's address, the check of a token against one provider with
  its single retry after a forced refresh of the key set, the cooldown of that refresh, and the routing of a
  token to one of several providers.

  The HTTP client, the key-set cache and the token library are arguments. The cooldown is a lock-free
  load and compare-and-swap; concurrent callers are the step relation \<open>claim_step\<close>.
\<close>

section \<open>Discovery\<close>

datatype discovery_error =
    BuildDiscoveryRequest
  | FetchDiscovery string
  | DiscoveryStatus int
  | ReadDiscovery string
  | ParseDiscovery
  | IssuerMismatch string
  | NoJwksUri

definition discoveryDocumentSuffix :: string where
  "discoveryDocumentSuffix = ''/.well-known/openid-configuration''"

definition TrimSuffix :: "string \<Rightarrow> string \<Rightarrow> string" where
  "TrimSuffix s suf = (if suffix suf s then take (length s - length suf) s else s)"

text \<open>What the HTTP client answers for a URL: it cannot build the request, it fails, or there is a
  response, with a body that may break off in the middle.\<close>

datatype discovery_reply =
    BadURL
  | NoReply string
  | Reply int string bool

definition discoverJWKSURI :: "(string \<Rightarrow> discovery_reply) \<Rightarrow> string \<Rightarrow> discovery_error + string" where
  "discoverJWKSURI fetch issuer =
     (let url = TrimSuffix issuer ''/'' @ discoveryDocumentSuffix
      in case fetch url of
           BadURL \<Rightarrow> Inl BuildDiscoveryRequest
         | NoReply e \<Rightarrow> Inl (FetchDiscovery e)
         | Reply status body broken \<Rightarrow>
             if status \<noteq> 200 then Inl (DiscoveryStatus status)
             else if broken \<and> length body < 1048576 then Inl (ReadDiscovery url)
             else case struct_members (take 1048576 body) of
                    None \<Rightarrow> Inl ParseDiscovery
                  | Some ms \<Rightarrow>
                      (case (string_field ''issuer'' ms, string_field ''jwks_uri'' ms) of
                         (Some iss, Some uri) \<Rightarrow>
                           if iss \<noteq> issuer then Inl (IssuerMismatch iss)
                           else if uri = '''' then Inl NoJwksUri
                           else Inr uri
                       | _ \<Rightarrow> Inl ParseDiscovery))"

section \<open>The cooldown\<close>

definition forceRefreshCooldown :: duration where
  "forceRefreshCooldown = 30 * second"

text \<open>
  One call of \<open>tryClaimForceRefresh\<close> takes two steps on the shared word: it loads it, after having read the
  clock, and gives up or tries to swap in its clock reading. \<open>cc_callers\<close> holds what each caller is about to
  do; \<open>cc_claims\<close> records the clock readings of the successful calls, the latest first.
\<close>

datatype claim_pc =
    Start int \<comment> \<open>the clock has been read\<close>
  | Swap int int \<comment> \<open>the word has been loaded: reading and loaded value\<close>
  | Returned bool

record claim_state =
  cc_last :: int
  cc_callers :: "nat \<Rightarrow> claim_pc"
  cc_claims :: "int list"

fun claim_next :: "int \<Rightarrow> claim_pc \<Rightarrow> claim_pc \<times> int option" where
  "claim_next w (Start now) = (if wrap64 (now - w) < forceRefreshCooldown then Returned False else Swap now w, None)"
| "claim_next w (Swap now last') = (if w = last' then (Returned True, Some now) else (Returned False, None))"
| "claim_next w (Returned b) = (Returned b, None)"

definition claim_run :: "nat \<Rightarrow> claim_state \<Rightarrow> claim_state" where
  "claim_run i s =
     (let (pc, claimed) = claim_next (cc_last s) (cc_callers s i)
      in case claimed of
           None \<Rightarrow> s\<lparr>cc_callers := (cc_callers s)(i := pc)\<rparr>
         | Some now \<Rightarrow> s\<lparr>cc_last := now, cc_callers := (cc_callers s)(i := pc), cc_claims := now # cc_claims s\<rparr>)"

text \<open>A call on its own, without interference.\<close>

definition tryClaimForceRefresh :: "int \<Rightarrow> int \<Rightarrow> bool \<times> int" where
  "tryClaimForceRefresh now last' = (if wrap64 (now - last') < forceRefreshCooldown then (False, last') else (True, now))"

inductive claim_step :: "claim_state \<Rightarrow> claim_state \<Rightarrow> bool" where
  arrive: "0 \<le> now \<Longrightarrow> now < 2 ^ 63 \<Longrightarrow> claim_step s (s\<lparr>cc_callers := (cc_callers s)(i := Start now)\<rparr>)"
| advance: "claim_step s (claim_run i s)"

section \<open>One provider\<close>

text \<open>The claims read of a verified token: each by name, when it is a string.\<close>

type_synonym id_token = "string \<Rightarrow> string option"

record OIDCBootstrapper =
  ob_issuer :: string
  ob_audience :: string
  ob_identityClaim :: string
  ob_tenantClaim :: string
  ob_jwksURI :: string

text \<open>
  The cache of key sets over a state, and the parser, which checks the signature under a key set, the
  issuer, the audience and the times. \<open>claim\<close> is \<open>tryClaimForceRefresh\<close> on the state.
\<close>

record ('s, 'k) oidc_lib =
  ol_lookup :: "string \<Rightarrow> 's \<Rightarrow> (string + 'k) \<times> 's"
  ol_refresh :: "string \<Rightarrow> 's \<Rightarrow> string option \<times> 's"
  ol_parse :: "string \<Rightarrow> 'k \<Rightarrow> string \<Rightarrow> string \<Rightarrow> string + id_token"
  ol_claim :: "'s \<Rightarrow> bool \<times> 's"

datatype oidc_error =
    FetchJwks string
  | OidcInvalidCredentials

definition identity_of_token :: "OIDCBootstrapper \<Rightarrow> id_token \<Rightarrow> oidc_error + string \<times> string" where
  "identity_of_token ob parsed =
     (case parsed (ob_identityClaim ob) of
        None \<Rightarrow> Inl OidcInvalidCredentials
      | Some identity \<Rightarrow>
          (case parsed (ob_tenantClaim ob) of
             None \<Rightarrow> Inl OidcInvalidCredentials
           | Some tenantName \<Rightarrow>
               if tenantName = '''' \<or> identity = '''' then Inl OidcInvalidCredentials
               else Inr (identity, tenantName)))"

definition oidc_retry ::
  "('s, 'k) oidc_lib \<Rightarrow> OIDCBootstrapper \<Rightarrow> string \<Rightarrow> 's \<Rightarrow> (string + id_token) \<times> 's" where
  "oidc_retry lib ob idToken s =
     (case ol_refresh lib (ob_jwksURI ob) s of
        (Some e, s) \<Rightarrow> (Inl e, s)
      | (None, s) \<Rightarrow>
          (case ol_lookup lib (ob_jwksURI ob) s of
             (Inl e, s) \<Rightarrow> (Inl e, s)
           | (Inr freshSet, s) \<Rightarrow> (ol_parse lib idToken freshSet (ob_issuer ob) (ob_audience ob), s)))"

definition oidc_Authenticate ::
  "('s, 'k) oidc_lib \<Rightarrow> OIDCBootstrapper \<Rightarrow> string \<Rightarrow> 's \<Rightarrow> (oidc_error + string \<times> string) \<times> 's" where
  "oidc_Authenticate lib ob idToken s =
     (case ol_lookup lib (ob_jwksURI ob) s of
        (Inl e, s) \<Rightarrow> (Inl (FetchJwks e), s)
      | (Inr keySet, s) \<Rightarrow>
          let (parsed, s) =
            (case ol_parse lib idToken keySet (ob_issuer ob) (ob_audience ob) of
               Inr t \<Rightarrow> (Inr t, s)
             | Inl err \<Rightarrow>
                 let (claimed, s) = ol_claim lib s
                 in if claimed then
                      (case oidc_retry lib ob idToken s of (Inr t, s) \<Rightarrow> (Inr t, s) | (Inl _, s) \<Rightarrow> (Inl err, s))
                    else (Inl err, s))
          in case parsed of
               Inl _ \<Rightarrow> (Inl OidcInvalidCredentials, s)
             | Inr t \<Rightarrow> (identity_of_token ob t, s))"

section \<open>Several providers\<close>

record OIDCProviderConfig =
  pc_Issuer :: string
  pc_JWKSURI :: string
  pc_Audience :: string
  pc_IdentityClaim :: string
  pc_TenantClaim :: string

datatype 'e multi_error =
    DuplicateIssuer string
  | InitProvider string 'e

definition new_oidc ::
  "(string \<Rightarrow> 'e + string) \<Rightarrow> (string \<Rightarrow> 'e option) \<Rightarrow> OIDCProviderConfig \<Rightarrow> 'e + OIDCBootstrapper" where
  "new_oidc discover register c =
     (case (if pc_JWKSURI c = '''' then discover (pc_Issuer c) else Inr (pc_JWKSURI c)) of
        Inl e \<Rightarrow> Inl e
      | Inr uri \<Rightarrow>
          (case register uri of
             Some e \<Rightarrow> Inl e
           | None \<Rightarrow> Inr \<lparr>ob_issuer = pc_Issuer c, ob_audience = pc_Audience c,
               ob_identityClaim = pc_IdentityClaim c, ob_tenantClaim = pc_TenantClaim c, ob_jwksURI = uri\<rparr>))"

fun multi_loop ::
  "(OIDCProviderConfig \<Rightarrow> 'e + OIDCBootstrapper) \<Rightarrow> OIDCProviderConfig list \<Rightarrow> (string \<rightharpoonup> OIDCBootstrapper) \<Rightarrow>
   'e multi_error + (string \<rightharpoonup> OIDCBootstrapper)" where
  "multi_loop new [] byIssuer = Inr byIssuer"
| "multi_loop new (c # cs) byIssuer =
     (if byIssuer (pc_Issuer c) \<noteq> None then Inl (DuplicateIssuer (pc_Issuer c))
      else case new c of
             Inl e \<Rightarrow> Inl (InitProvider (pc_Issuer c) e)
           | Inr b \<Rightarrow> multi_loop new cs (byIssuer(pc_Issuer c \<mapsto> b)))"

definition NewMultiOIDCBootstrapper ::
  "(OIDCProviderConfig \<Rightarrow> 'e + OIDCBootstrapper) \<Rightarrow> OIDCProviderConfig list \<Rightarrow>
   'e multi_error + (string \<rightharpoonup> OIDCBootstrapper)" where
  "NewMultiOIDCBootstrapper new configs = multi_loop new configs Map.empty"

text \<open>\<open>unverified\<close> reads the issuer claim of a token without checking its signature.\<close>

definition multi_Authenticate ::
  "(string \<Rightarrow> string option option) \<Rightarrow> ('s, 'k) oidc_lib \<Rightarrow> (string \<rightharpoonup> OIDCBootstrapper) \<Rightarrow> string \<Rightarrow> 's \<Rightarrow>
   (oidc_error + string \<times> string) \<times> 's" where
  "multi_Authenticate unverified lib byIssuer idToken s =
     (case unverified idToken of
        None \<Rightarrow> (Inl OidcInvalidCredentials, s)
      | Some None \<Rightarrow> (Inl OidcInvalidCredentials, s)
      | Some (Some iss) \<Rightarrow>
          if iss = '''' then (Inl OidcInvalidCredentials, s)
          else case byIssuer iss of
                 None \<Rightarrow> (Inl OidcInvalidCredentials, s)
               | Some b \<Rightarrow> oidc_Authenticate lib b idToken s)"

section \<open>Claims of the forced refresh are spaced\<close>

definition claim_init :: claim_state where
  "claim_init = \<lparr>cc_last = 0, cc_callers = (\<lambda>_. Returned False), cc_claims = []\<rparr>"

fun pc_ok :: "claim_pc \<Rightarrow> bool" where
  "pc_ok (Start now) \<longleftrightarrow> 0 \<le> now \<and> now < 2 ^ 63"
| "pc_ok (Swap now last') \<longleftrightarrow> now < 2 ^ 63 \<and> 0 \<le> last' \<and> last' + forceRefreshCooldown \<le> now"
| "pc_ok (Returned _) \<longleftrightarrow> True"

definition claim_inv :: "claim_state \<Rightarrow> bool" where
  "claim_inv s \<longleftrightarrow> 0 \<le> cc_last s \<and> cc_last s < 2 ^ 63 \<and> (\<forall>i. pc_ok (cc_callers s i)) \<and>
     (\<forall>x \<in> set (cc_claims s). x \<le> cc_last s) \<and>
     sorted_wrt (\<lambda>x y. forceRefreshCooldown \<le> x - y) (cc_claims s)"

lemma claim_next_ok:
  assumes "claim_next w pc = (pc', claimed)" and "pc_ok pc" and "0 \<le> w" and "w < 2 ^ 63"
  shows "pc_ok pc' \<and> (\<forall>now. claimed = Some now \<longrightarrow> w + forceRefreshCooldown \<le> now \<and> 0 \<le> now \<and> now < 2 ^ 63)"
proof (cases pc)
  case (Start now)
  with assms have "wrap64 (now - w) = now - w" by (intro wrap64_id) auto
  with Start assms show ?thesis by (auto split: if_splits)
next
  case (Swap now last')
  with assms show ?thesis by (auto simp: forceRefreshCooldown_def second_def split: if_splits)
next
  case (Returned b)
  with assms show ?thesis by simp
qed

lemma claim_inv_run:
  assumes "claim_inv s"
  shows "claim_inv (claim_run i s)"
proof -
  obtain pc claimed where nxt: "claim_next (cc_last s) (cc_callers s i) = (pc, claimed)" by fastforce
  have ok: "pc_ok pc" "\<And>now. claimed = Some now \<Longrightarrow> cc_last s + forceRefreshCooldown \<le> now \<and> 0 \<le> now \<and> now < 2 ^ 63"
    using claim_next_ok [OF nxt] assms by (auto simp: claim_inv_def)
  show ?thesis
  proof (cases claimed)
    case None
    then show ?thesis using assms ok(1) by (auto simp: claim_inv_def claim_run_def nxt)
  next
    case (Some now)
    moreover from this have "cc_last s \<le> now" "\<forall>x \<in> set (cc_claims s). forceRefreshCooldown \<le> now - x"
      using ok(2) [of now] assms by (auto simp: claim_inv_def forceRefreshCooldown_def second_def)
    ultimately show ?thesis using assms ok(1) ok(2) [of now] by (auto simp: claim_inv_def claim_run_def nxt)
  qed
qed

lemma claim_inv_step: "claim_step s s' \<Longrightarrow> claim_inv s \<Longrightarrow> claim_inv s'"
  by (cases rule: claim_step.cases) (auto simp: claim_inv_run, auto simp: claim_inv_def)

lemma claim_inv_reachable: "claim_step\<^sup>*\<^sup>* claim_init s \<Longrightarrow> claim_inv s"
proof (induction rule: rtranclp_induct)
  case base
  show ?case by (simp add: claim_inv_def claim_init_def)
qed (rule claim_inv_step)

text \<open>
  C15. However many callers fail a token check at the same time and however their loads and swaps
  interleave, the forced refreshes they are granted are at least thirty seconds apart, by the clock
  readings of the callers that got them: bad tokens cannot be turned into a stream of requests to the
  identity provider.
\<close>

theorem forced_refreshes_spaced:
  assumes "claim_step\<^sup>*\<^sup>* claim_init s"
  shows "sorted_wrt (\<lambda>x y. 30000000000 \<le> x - y) (cc_claims s)"
  using claim_inv_reachable [OF assms] by (simp add: claim_inv_def forceRefreshCooldown_def second_def)

text \<open>Two callers race: both load, both swap, one wins.\<close>

definition claim_race :: claim_state where
  "claim_race = fold (\<lambda>i. claim_run i) [0, 1, 0, 1]
     (claim_init\<lparr>cc_callers := (\<lambda>_. Returned False)(0 := Start 50000000000, 1 := Start 50000000001)\<rparr>)"

lemma claim_race_reachable: "claim_step\<^sup>*\<^sup>* claim_init claim_race"
proof -
  have "claim_step\<^sup>*\<^sup>* claim_init (claim_init\<lparr>cc_callers := (\<lambda>_. Returned False)(0 := Start 50000000000, 1 := Start 50000000001)\<rparr>)"
    (is "claim_step\<^sup>*\<^sup>* _ ?s")
    using claim_step.arrive [of 50000000000 claim_init 0]
      claim_step.arrive [of 50000000001 "claim_init\<lparr>cc_callers := (cc_callers claim_init)(0 := Start 50000000000)\<rparr>" 1]
    by (auto simp: claim_init_def intro: rtranclp_trans)
  moreover have "claim_step\<^sup>*\<^sup>* s (fold (\<lambda>i. claim_run i) is' s)" for is' s
    by (induction is' arbitrary: s) (auto intro: claim_step.advance converse_rtranclp_into_rtranclp)
  ultimately show ?thesis unfolding claim_race_def by (rule rtranclp_trans)
qed

theorem forced_refreshes_spaced_witness:
  "cc_callers claim_race 0 = Returned True \<and> cc_callers claim_race 1 = Returned False \<and>
   sorted_wrt (\<lambda>x y. 30000000000 \<le> x - y) (cc_claims claim_race)"
  using forced_refreshes_spaced [OF claim_race_reachable] wrap64_id [of 50000000000] wrap64_id [of 50000000001]
  by (simp add: claim_race_def claim_init_def claim_run_def forceRefreshCooldown_def second_def)

text \<open>A caller that is alone is refused only within the cooldown.\<close>

lemma tryClaim_alone:
  "fst (tryClaimForceRefresh now (cc_last s)) \<longleftrightarrow>
     cc_callers (claim_run i (claim_run i (s\<lparr>cc_callers := (cc_callers s)(i := Start now)\<rparr>))) i = Returned True"
  by (simp add: tryClaimForceRefresh_def claim_run_def)

section \<open>Who vouches for an identity\<close>

lemma oidc_Authenticate_Inr:
  assumes "oidc_Authenticate lib ob tok s = (Inr (i, t), s')"
  obtains ks parsed s1 s2 where "ol_lookup lib (ob_jwksURI ob) s1 = (Inr ks, s2)"
    and "ol_parse lib tok ks (ob_issuer ob) (ob_audience ob) = Inr parsed"
    and "identity_of_token ob parsed = Inr (i, t)"
  using assms
  by (auto simp: oidc_Authenticate_def oidc_retry_def split: prod.splits sum.splits option.splits if_splits)

definition keyed_by_issuer :: "(string \<rightharpoonup> OIDCBootstrapper) \<Rightarrow> bool" where
  "keyed_by_issuer m \<longleftrightarrow> (\<forall>iss b. m iss = Some b \<longrightarrow> ob_issuer b = iss)"

lemma multi_loop_issuer:
  assumes "multi_loop new cs m = Inr byIssuer" and "\<And>c b. new c = Inr b \<Longrightarrow> ob_issuer b = pc_Issuer c"
    and "keyed_by_issuer m"
  shows "keyed_by_issuer byIssuer"
  using assms(1,3)
proof (induction cs arbitrary: m)
  case (Cons c cs)
  from Cons.prems(1) obtain b where b: "new c = Inr b" "multi_loop new cs (m(pc_Issuer c \<mapsto> b)) = Inr byIssuer"
    by (auto split: if_splits sum.splits)
  have "ob_issuer b = pc_Issuer c" by (rule assms(2) [OF b(1)])
  with Cons.prems(2) have "keyed_by_issuer (m(pc_Issuer c \<mapsto> b))" unfolding keyed_by_issuer_def fun_upd_apply by auto
  with b(2) show ?case by (rule Cons.IH)
qed simp

lemma new_oidc_issuer: "new_oidc discover register c = Inr b \<Longrightarrow> ob_issuer b = pc_Issuer c"
  by (auto simp: new_oidc_def split: sum.splits option.splits if_splits)

lemma identity_of_token_Inr:
  "identity_of_token ob parsed = Inr (i, t) \<longleftrightarrow>
     parsed (ob_identityClaim ob) = Some i \<and> parsed (ob_tenantClaim ob) = Some t \<and> i \<noteq> '''' \<and> t \<noteq> ''''"
  by (auto simp: identity_of_token_def split: option.splits if_splits)

text \<open>
  C16. Among several identity providers a token is routed by an issuer claim nobody has verified yet, and still
  only its own provider can vouch for it: an accepted token has been verified under a key set fetched from the
  address of the provider registered for the issuer the verified token names, against that provider's audience,
  and the identity and tenant are the claims that provider is configured to be believed for; neither is empty.
\<close>

theorem oidc_identity_vouched_by_its_issuer:
  assumes "NewMultiOIDCBootstrapper (new_oidc discover register) configs = Inr byIssuer"
    and "\<And>tok ks iss aud p. ol_parse lib tok ks iss aud = Inr p \<Longrightarrow> p ''iss'' = Some iss"
    and "multi_Authenticate unverified lib byIssuer tok s = (Inr (i, t), s')"
  shows "\<exists>iss b ks parsed s1 s2. byIssuer iss = Some b \<and> parsed ''iss'' = Some iss \<and>
     ol_lookup lib (ob_jwksURI b) s1 = (Inr ks, s2) \<and> ol_parse lib tok ks iss (ob_audience b) = Inr parsed \<and>
     parsed (ob_identityClaim b) = Some i \<and> parsed (ob_tenantClaim b) = Some t \<and> i \<noteq> '''' \<and> t \<noteq> ''''"
proof -
  obtain iss b where b: "byIssuer iss = Some b" and auth: "oidc_Authenticate lib b tok s = (Inr (i, t), s')"
    using assms(3) by (auto simp: multi_Authenticate_def split: option.splits if_splits)
  have "keyed_by_issuer byIssuer"
    using assms(1) [unfolded NewMultiOIDCBootstrapper_def]
    by (rule multi_loop_issuer) (simp_all add: new_oidc_issuer keyed_by_issuer_def)
  with b have "ob_issuer b = iss" unfolding keyed_by_issuer_def by blast
  obtain ks parsed s1 s2 where lookup: "ol_lookup lib (ob_jwksURI b) s1 = (Inr ks, s2)"
    and parsed: "ol_parse lib tok ks (ob_issuer b) (ob_audience b) = Inr parsed"
    and it: "identity_of_token b parsed = Inr (i, t)"
    by (rule oidc_Authenticate_Inr [OF auth])
  have "parsed ''iss'' = Some (ob_issuer b)" by (rule assms(2) [OF parsed])
  with b lookup parsed it \<open>ob_issuer b = iss\<close> show ?thesis
    unfolding identity_of_token_Inr by blast
qed

definition example_oidc_lib :: "(string \<times> nat, string) oidc_lib" where
  "example_oidc_lib = \<lparr>ol_lookup = (\<lambda>uri (keys, n). (Inr keys, (keys, n))),
     ol_refresh = (\<lambda>uri (keys, n). (None, (''new'', n + 1))),
     ol_parse = (\<lambda>tok keys iss aud. if keys = ''new'' then Inr [''iss'' \<mapsto> iss, ''sub'' \<mapsto> ''alice'', ''org'' \<mapsto> ''acme''] else Inl ''kid''),
     ol_claim = (\<lambda>s. (True, s))\<rparr>"

definition example_provider :: OIDCProviderConfig where
  "example_provider = \<lparr>pc_Issuer = ''https://idp'', pc_JWKSURI = ''https://idp/keys'', pc_Audience = ''wardline'',
     pc_IdentityClaim = ''sub'', pc_TenantClaim = ''org''\<rparr>"

theorem oidc_identity_vouched_by_its_issuer_witness:
  "\<exists>byIssuer s'. NewMultiOIDCBootstrapper (new_oidc (\<lambda>_. Inl ()) (\<lambda>_. None)) [example_provider] = Inr byIssuer \<and>
     multi_Authenticate (\<lambda>_. Some (Some ''https://idp'')) example_oidc_lib byIssuer ''tok'' (''old'', 0) = (Inr (''alice'', ''acme''), s') \<and>
     (\<exists>iss b ks parsed. byIssuer iss = Some b \<and> parsed ''iss'' = Some iss \<and>
        ol_parse example_oidc_lib ''tok'' ks iss (ob_audience b) = Inr parsed)"
proof -
  let ?b = "\<lparr>ob_issuer = ''https://idp'', ob_audience = ''wardline'', ob_identityClaim = ''sub'', ob_tenantClaim = ''org'',
    ob_jwksURI = ''https://idp/keys''\<rparr>"
  have new: "NewMultiOIDCBootstrapper (new_oidc (\<lambda>_. Inl ()) (\<lambda>_. None)) [example_provider] = Inr [''https://idp'' \<mapsto> ?b]"
    by (simp add: NewMultiOIDCBootstrapper_def new_oidc_def example_provider_def)
  have auth: "multi_Authenticate (\<lambda>_. Some (Some ''https://idp'')) example_oidc_lib [''https://idp'' \<mapsto> ?b] ''tok'' (''old'', 0) =
      (Inr (''alice'', ''acme''), (''new'', 1))"
    by (simp add: multi_Authenticate_def oidc_Authenticate_def oidc_retry_def identity_of_token_def example_oidc_lib_def)
  have "\<exists>iss b ks parsed s1 s2. [''https://idp'' \<mapsto> ?b] iss = Some b \<and> parsed ''iss'' = Some iss \<and>
     ol_lookup example_oidc_lib (ob_jwksURI b) s1 = (Inr ks, s2) \<and>
     ol_parse example_oidc_lib ''tok'' ks iss (ob_audience b) = Inr parsed \<and>
     parsed (ob_identityClaim b) = Some ''alice'' \<and> parsed (ob_tenantClaim b) = Some ''acme'' \<and> ''alice'' \<noteq> '''' \<and> ''acme'' \<noteq> ''''"
    by (rule oidc_identity_vouched_by_its_issuer [OF new _ auth])
      (auto simp: example_oidc_lib_def split: if_splits)
  with new auth show ?thesis by blast
qed

text \<open>A discovered address comes from a document that names the configured issuer.\<close>

lemma discovered_issuer_matches:
  assumes "discoverJWKSURI fetch issuer = Inr uri"
  shows "uri \<noteq> '''' \<and> (\<exists>body broken ms. fetch (TrimSuffix issuer ''/'' @ discoveryDocumentSuffix) = Reply 200 body broken \<and>
     struct_members (take 1048576 body) = Some ms \<and> string_field ''issuer'' ms = Some issuer)"
  using assms by (auto simp: discoverJWKSURI_def split: discovery_reply.splits option.splits if_splits)

end
