(* ===== verification/Loopback.thy ===== *)
theory Loopback
  imports Json
begin

text \<open>
  The loopback test that keeps the operator endpoints off the network
  (\<open>isLoopback\<close> of \<open>internal/features/credential/adapter/http_handler.go\<close> and of
  \<open>internal/features/approval/adapter/http_handler.go\<close>, the same function twice), with what it uses of
  Go's \<open>net\<close>: \<open>SplitHostPort\<close>, \<open>ParseIP\<close> for both address families, and \<open>IP.IsLoopback\<close>.

  An address is its sixteen bytes, an IPv4 address in its mapped form. Error texts of the parsers are
  not modelled.
\<close>

section \<open>Host and port\<close>

definition index_of :: "char \<Rightarrow> string \<Rightarrow> nat" where
  "index_of c s = length (takeWhile (\<lambda>x. x \<noteq> c) s)"

definition last_index_of :: "char \<Rightarrow> string \<Rightarrow> nat" where
  "last_index_of c s = length s - 1 - index_of c (rev s)"

definition SplitHostPort :: "string \<Rightarrow> (string \<times> string) option" where
  "SplitHostPort hostport =
     (if CHR '':'' \<notin> set hostport then None
      else let i = last_index_of (CHR '':'') hostport; port = drop (i + 1) hostport
           in if hd hostport = CHR ''['' then
                if CHR '']'' \<notin> set hostport then None
                else let e = index_of (CHR '']'') hostport
                     in if e + 1 = length hostport \<or> e + 1 \<noteq> i \<or> CHR ''['' \<in> set (drop 1 hostport) \<or>
                           CHR '']'' \<in> set (drop (e + 1) hostport) then None
                        else Some (take (e - 1) (drop 1 hostport), port)
              else if CHR '':'' \<in> set (take i hostport) \<or> CHR ''['' \<in> set hostport \<or> CHR '']'' \<in> set hostport
              then None
              else Some (take i hostport, port))"

section \<open>Addresses\<close>

type_synonym ip = "nat list"

text \<open>The loop of \<open>parseIPv4Fields\<close>: the value and the digits of the current field, and the fields before it.\<close>

fun ipv4_fields :: "string \<Rightarrow> nat \<Rightarrow> nat \<Rightarrow> nat list \<Rightarrow> nat list option" where
  "ipv4_fields [] val digLen fields = (if length fields < 3 then None else Some (fields @ [val]))"
| "ipv4_fields (c # cs) val digLen fields =
     (if is_digit c then
        if digLen = 1 \<and> val = 0 then None
        else let val = val * 10 + (byte c - 48)
             in if 255 < val then None else ipv4_fields cs val (digLen + 1) fields
      else if c = CHR ''.'' then
        if digLen = 0 \<or> cs = [] \<or> length fields = 3 then None
        else ipv4_fields cs 0 0 (fields @ [val])
      else None)"

definition parseIPv4 :: "string \<Rightarrow> ip option" where
  "parseIPv4 s = map_option (\<lambda>fs. replicate 10 0 @ [255, 255] @ fs) (ipv4_fields s 0 0 [])"

definition is_hex :: "char \<Rightarrow> bool" where
  "is_hex c \<longleftrightarrow> hex_value c \<noteq> None"

definition hex_chunk :: "string \<Rightarrow> nat list" where
  "hex_chunk hs = (let acc = foldl (\<lambda>acc c. acc * 16 + the (hex_value c)) 0 hs in [acc div 256, acc mod 256])"

text \<open>
  The loop of \<open>parseIPv6\<close>: the bytes so far and where the ellipsis was. The result is the rest of the
  input with the two.
\<close>

function ipv6_loop :: "string \<Rightarrow> nat list \<Rightarrow> nat option \<Rightarrow> (string \<times> nat list \<times> nat option) option" where
  "ipv6_loop s ip ellipsis =
     (if 16 \<le> length ip then Some (s, ip, ellipsis)
      else let hs = takeWhile is_hex s; rest = dropWhile is_hex s
           in if hs = [] \<or> 4 < length hs then None
              else case rest of
                     [] \<Rightarrow> Some ([], ip @ hex_chunk hs, ellipsis)
                   | c # t \<Rightarrow>
                       if c = CHR ''.'' then
                         if ellipsis = None \<and> length ip \<noteq> 12 \<or> 16 < length ip + 4 then None
                         else map_option (\<lambda>fs. ([], ip @ fs, ellipsis)) (ipv4_fields s 0 0 [])
                       else if c \<noteq> CHR '':'' \<or> t = [] then None
                       else if hd t = CHR '':'' then
                         if ellipsis \<noteq> None then None
                         else if tl t = [] then Some ([], ip @ hex_chunk hs, Some (length ip + 2))
                         else ipv6_loop (tl t) (ip @ hex_chunk hs) (Some (length ip + 2))
                       else ipv6_loop t (ip @ hex_chunk hs) ellipsis)"
  by pat_completeness auto

termination ipv6_loop
  by (relation "measure (\<lambda>(s, ip, ellipsis). 16 - length ip)") (auto simp: hex_chunk_def Let_def)

declare ipv6_loop.simps [simp del]

definition parseIPv6 :: "string \<Rightarrow> ip option" where
  "parseIPv6 s =
     (if CHR ''%'' \<in> set s then None \<comment> \<open>an empty zone is an error, and \<open>ParseIP\<close> refuses any other\<close>
      else let (s, ellipsis) = (if prefix ''::'' s then (drop 2 s, Some 0) else (s, None))
           in if s = [] \<and> ellipsis \<noteq> None then Some (replicate 16 0)
              else case ipv6_loop s [] ellipsis of
                     None \<Rightarrow> None
                   | Some (rest, ip, ellipsis) \<Rightarrow>
                       if rest \<noteq> [] then None
                       else if length ip < 16 then
                         map_option (\<lambda>e. take e ip @ replicate (16 - length ip) 0 @ drop e ip) ellipsis
                       else if ellipsis \<noteq> None then None
                       else Some ip)"

definition ParseIP :: "string \<Rightarrow> ip option" where
  "ParseIP s =
     (case find (\<lambda>c. c = CHR ''.'' \<or> c = CHR '':'' \<or> c = CHR ''%'') s of
        None \<Rightarrow> None
      | Some c \<Rightarrow> if c = CHR ''.'' then parseIPv4 s else if c = CHR '':'' then parseIPv6 s else None)"

definition To4 :: "ip \<Rightarrow> nat list option" where
  "To4 a = (if length a = 16 \<and> take 12 a = replicate 10 0 @ [255, 255] then Some (drop 12 a) else None)"

definition IsLoopback :: "ip \<Rightarrow> bool" where
  "IsLoopback a = (case To4 a of Some ip4 \<Rightarrow> hd ip4 = 127 | None \<Rightarrow> a = replicate 15 0 @ [1])"

definition isLoopback :: "string \<Rightarrow> bool" where
  "isLoopback remoteAddr =
     (let host = (case SplitHostPort remoteAddr of Some (host, _) \<Rightarrow> host | None \<Rightarrow> remoteAddr)
      in case ParseIP host of None \<Rightarrow> False | Some a \<Rightarrow> IsLoopback a)"

section \<open>Printed addresses\<close>

definition dotted :: "nat \<Rightarrow> nat \<Rightarrow> nat \<Rightarrow> nat \<Rightarrow> string" where
  "dotted a b c d = digits10 a @ ''.'' @ digits10 b @ ''.'' @ digits10 c @ ''.'' @ digits10 d"

lemma byte_digit_char: "d < 10 \<Longrightarrow> byte (digit_char d) = 48 + d"
  by (simp add: byte_def digit_char_code)

lemma is_digit_digit_char: "d < 10 \<Longrightarrow> is_digit (digit_char d)"
  by (simp add: is_digit_def byte_digit_char)

lemma digit_char_dot: "d < 10 \<Longrightarrow> digit_char d \<noteq> CHR ''.''"
  using digit_char_code [of d] by auto

lemma digits10_byte:
  assumes "a < 256"
  obtains "a < 10" and "digits10 a = [digit_char a]"
  | "10 \<le> a" and "a < 100" and "digits10 a = [digit_char (a div 10), digit_char (a mod 10)]"
  | "100 \<le> a" and "digits10 a = [digit_char (a div 100), digit_char (a div 10 mod 10), digit_char (a mod 10)]"
proof -
  have "a div 10 div 10 < 10" "a div 10 < 10 \<longleftrightarrow> a < 100" "a div 10 div 10 = a div 100"
    using assms by auto
  then have "digits10 a = (if a < 10 then [digit_char a] else if a < 100 then [digit_char (a div 10), digit_char (a mod 10)]
      else [digit_char (a div 100), digit_char (a div 10 mod 10), digit_char (a mod 10)])"
    by (simp add: digits10.simps [of a] digits10.simps [of "a div 10"] digits10.simps [of "a div 100"])
  then show thesis using that by (metis not_less)
qed

lemma ipv4_field:
  assumes "a < 256"
  shows "ipv4_fields (digits10 a @ rest) 0 0 fs = ipv4_fields rest a (length (digits10 a)) fs"
proof -
  have "a div 100 < 10" "a div 10 mod 10 < 10" "a mod 10 < 10" using assms by auto
  moreover have "a div 100 * 10 + a div 10 mod 10 = a div 10" "a div 10 * 10 + a mod 10 = a"
    by (simp_all add: div_mult2_eq [of a 10 10, simplified])
  ultimately show ?thesis using assms
    by (cases rule: digits10_byte [OF assms])
      (auto simp: is_digit_digit_char byte_digit_char div_eq_0_iff)
qed

lemma ipv4_fields_dotted:
  assumes "a < 256" and "b < 256" and "c < 256" and "d < 256"
  shows "ipv4_fields (dotted a b c d) 0 0 [] = Some [a, b, c, d]"
  using assms ipv4_field [of d "[]"]
  by (simp add: dotted_def ipv4_field digits10_nonempty is_digit_def byte_def)

lemma is_digit_digits10: "x \<in> set (digits10 n) \<Longrightarrow> is_digit x"
  using digits10_codes [of x n] by (simp add: is_digit_def byte_def)

lemma dotted_chars: "x \<in> set (dotted a b c d) \<Longrightarrow> x = CHR ''.'' \<or> is_digit x"
  by (auto simp: dotted_def is_digit_digits10)

lemma find_in_digits:
  "\<forall>x \<in> set ds. is_digit x \<Longrightarrow> find (\<lambda>c. c = CHR ''.'' \<or> c = CHR '':'' \<or> c = CHR ''%'') (ds @ CHR ''.'' # xs) = Some (CHR ''.'')"
  by (induction ds) (auto simp: is_digit_def byte_def)

lemma ParseIP_dotted:
  assumes "a < 256" and "b < 256" and "c < 256" and "d < 256"
  shows "ParseIP (dotted a b c d) = Some (replicate 10 0 @ [255, 255, a, b, c, d])"
proof -
  have "\<forall>x \<in> set (digits10 a). is_digit x"
    by (simp add: is_digit_digits10)
  from find_in_digits [OF this] have "find (\<lambda>c. c = CHR ''.'' \<or> c = CHR '':'' \<or> c = CHR ''%'') (dotted a b c d) = Some (CHR ''.'')"
    by (simp add: dotted_def)
  then show ?thesis by (simp add: ParseIP_def parseIPv4_def ipv4_fields_dotted [OF assms])
qed

lemma last_index_of_append:
  "c \<notin> set ys \<Longrightarrow> last_index_of c (xs @ c # ys) = length xs"
proof -
  assume "c \<notin> set ys"
  then have "takeWhile (\<lambda>x. x \<noteq> c) (rev ys @ c # rev xs) = rev ys @ takeWhile (\<lambda>x. x \<noteq> c) (c # rev xs)"
    by (intro takeWhile_append2) auto
  then show ?thesis by (simp add: last_index_of_def index_of_def)
qed

lemma SplitHostPort_plain:
  assumes "host \<noteq> []" and "set (host @ port) \<inter> {CHR '':'', CHR ''['', CHR '']''} = {}"
  shows "SplitHostPort (host @ CHR '':'' # port) = Some (host, port)"
proof -
  have "last_index_of (CHR '':'') (host @ CHR '':'' # port) = length host"
    using assms by (intro last_index_of_append) auto
  moreover have "hd (host @ CHR '':'' # port) \<noteq> CHR ''[''" using assms by (cases host) auto
  ultimately show ?thesis using assms by (auto simp: SplitHostPort_def Let_def)
qed

section \<open>The test on the addresses a listener reports\<close>

text \<open>
  The loopback test accepts an IPv4 peer exactly when its address is in 127.0.0.0/8, with the port
  the listener appends and without one, and whatever the other three bytes are.
\<close>

theorem loopback_ipv4_exact:
  assumes "a < 256" and "b < 256" and "c < 256" and "d < 256"
    and "set port \<inter> {CHR '':'', CHR ''['', CHR '']''} = {}"
  shows "(isLoopback (dotted a b c d @ CHR '':'' # port) \<longleftrightarrow> a = 127) \<and> (isLoopback (dotted a b c d) \<longleftrightarrow> a = 127)"
proof -
  have "\<not> is_digit (CHR '':'')" "\<not> is_digit (CHR ''['')" "\<not> is_digit (CHR '']'')"
    by (simp_all add: is_digit_def byte_def)
  then have chars: "x \<noteq> CHR '':'' \<and> x \<noteq> CHR ''['' \<and> x \<noteq> CHR '']''" if "x \<in> set (dotted a b c d)" for x
    using dotted_chars [OF that] by auto
  have "SplitHostPort (dotted a b c d @ CHR '':'' # port) = Some (dotted a b c d, port)"
  proof (rule SplitHostPort_plain)
    show "dotted a b c d \<noteq> []" by (simp add: dotted_def)
    show "set (dotted a b c d @ port) \<inter> {CHR '':'', CHR ''['', CHR '']''} = {}"
      using assms(5) chars by auto
  qed
  moreover have "SplitHostPort (dotted a b c d) = None" using chars by (auto simp: SplitHostPort_def)
  ultimately show ?thesis
    by (simp add: isLoopback_def ParseIP_dotted [OF assms(1-4)] IsLoopback_def To4_def)
qed

theorem loopback_ipv4_exact_witness:
  "isLoopback ''127.0.0.1:8080'' \<and> \<not> isLoopback ''10.0.0.1:8080''"
proof -
  have "dotted 127 0 0 1 @ CHR '':'' # ''8080'' = ''127.0.0.1:8080''" "dotted 10 0 0 1 @ CHR '':'' # ''8080'' = ''10.0.0.1:8080''"
    by code_simp+
  then show ?thesis
    using loopback_ipv4_exact [of 127 0 0 1 "''8080''"] loopback_ipv4_exact [of 10 0 0 1 "''8080''"] by simp
qed

text \<open>The forms of the IPv6 loopback address, and names and zones, which are not addresses.\<close>

lemma loopback_forms:
  "isLoopback ''[::1]:8080'' \<and> isLoopback ''[0:0:0:0:0:0:0:1]:1'' \<and> isLoopback ''[::ffff:127.0.0.1]:9'' \<and>
   isLoopback ''::1'' \<and> \<not> isLoopback ''[::2]:8080'' \<and> \<not> isLoopback ''[::1%lo]:8080'' \<and>
   \<not> isLoopback ''localhost:80'' \<and> \<not> isLoopback ''127.1:80'' \<and> \<not> isLoopback ''0127.0.0.1:80'' \<and>
   \<not> isLoopback ''@'' \<and> \<not> isLoopback ''''"
  by code_simp

end
