(* ===== verification/Token_Signing.thy ===== *)
theory Token_Signing
  imports Refresh_Tokens
begin

text \<open>
  Signing and verification of access tokens (\<open>internal/features/credential/adapter/jwt.go\<close>, the key set
  endpoint \<open>adapter/jwks_handler.go\<close> and the KMS signer's construction, \<open>adapter/kms_signer.go\<close>): the
  signing key, the keys of a rotation window that are accepted for verification only, the key ID that
  selects one, and the claims of a token.

  The token library, the key encodings and the hash are not under \<open>src/\<close> or not computable here; they are
  the fields of \<open>jwt_lib\<close>. What the properties rely on of them is the predicate \<open>signs_and_parses\<close>: a token
  signed with a private key carries the key ID it was given and parses under that key's public half.
\<close>

section \<open>The library\<close>

text \<open>
  The claims the code reads of a parsed token. A claim can be missing; \<open>jt_tenant\<close> is missing too when the
  claim is not a string.
\<close>

record jwt_token =
  jt_sub :: "string option"
  jt_tenant :: "string option"
  jt_iat :: "go_time option"
  jt_exp :: "go_time option"
  jt_jti :: "string option"

datatype jwt_error =
    TokenExpiredError
  | OtherTokenError string

text \<open>
  \<open>'sk\<close> are signers (a local RSA private key or a KMS key), \<open>'pk\<close> RSA public keys.
  \<open>jl_parse\<close> with a time validates the claims at it, with \<open>None\<close> it only checks the signature.
\<close>

record ('sk, 'pk) jwt_lib =
  jl_public :: "'sk \<Rightarrow> 'pk option" \<comment> \<open>\<open>signer.Public()\<close>, when it is an RSA key\<close>
  jl_bits :: "'pk \<Rightarrow> nat"
  jl_der :: "'pk \<Rightarrow> string option"
  jl_sha256 :: "string \<Rightarrow> string"
  jl_kids :: "string \<Rightarrow> string option list option" \<comment> \<open>\<open>jws.Parse\<close>: the key ID of each signature\<close>
  jl_parse :: "string \<Rightarrow> 'pk \<Rightarrow> go_time option \<Rightarrow> jwt_error + jwt_token"
  jl_sign :: "'sk \<Rightarrow> string \<Rightarrow> jwt_token \<Rightarrow> string + string"

datatype verify_error =
    ErrTokenExpired
  | ErrTokenInvalid

datatype jwt_setup_error =
    GenerateKeyFailed
  | ReadKeyFile string
  | NoPEMBlock string
  | NotAPrivateKey string
  | NotRSA string
  | KeyTooShort nat
  | NotRSAPublic
  | PreviousKey jwt_setup_error

section \<open>Keys\<close>

definition rsaKeyBits :: nat where
  "rsaKeyBits = 2048"

definition hex_digit :: "nat \<Rightarrow> char" where
  "hex_digit d = (if d < 10 then char_of (48 + d) else char_of (87 + d))"

definition EncodeToString :: "string \<Rightarrow> string" where
  "EncodeToString bs = concat (map (\<lambda>b. [hex_digit (of_char b div 16), hex_digit (of_char b mod 16)]) bs)"

definition publicKeyID :: "('sk, 'pk) jwt_lib \<Rightarrow> 'pk \<Rightarrow> string" where
  "publicKeyID lib pub =
     (case jl_der lib pub of
        None \<Rightarrow> ''''
      | Some der \<Rightarrow> EncodeToString (take 16 (jl_sha256 lib der)))"

text \<open>
  Key files: their bytes, the first PEM block, and the two encodings of a private key; a PKCS8 key can be
  of another kind (\<open>Some None\<close>). \<open>kf_public\<close> is the \<open>PublicKey\<close> field of an RSA private key.
\<close>

record ('sk, 'pk) key_files =
  kf_read :: "string \<Rightarrow> string option"
  kf_pem :: "string \<Rightarrow> string option"
  kf_pkcs1 :: "string \<Rightarrow> 'sk option"
  kf_pkcs8 :: "string \<Rightarrow> 'sk option option"
  kf_public :: "'sk \<Rightarrow> 'pk"

definition checkRSAKeySize :: "('sk, 'pk) jwt_lib \<Rightarrow> ('sk, 'pk) key_files \<Rightarrow> 'sk \<Rightarrow> jwt_setup_error + 'sk" where
  "checkRSAKeySize lib kf key =
     (if jl_bits lib (kf_public kf key) < rsaKeyBits then Inl (KeyTooShort (jl_bits lib (kf_public kf key))) else Inr key)"

definition parseRSAPrivateKey ::
  "('sk, 'pk) jwt_lib \<Rightarrow> ('sk, 'pk) key_files \<Rightarrow> string \<Rightarrow> string \<Rightarrow> jwt_setup_error + 'sk" where
  "parseRSAPrivateKey lib kf path der =
     (case kf_pkcs1 kf der of
        Some key \<Rightarrow> checkRSAKeySize lib kf key
      | None \<Rightarrow>
          (case kf_pkcs8 kf der of
             None \<Rightarrow> Inl (NotAPrivateKey path)
           | Some None \<Rightarrow> Inl (NotRSA path)
           | Some (Some key) \<Rightarrow> checkRSAKeySize lib kf key))"

definition loadRSAPrivateKeyFile ::
  "('sk, 'pk) jwt_lib \<Rightarrow> ('sk, 'pk) key_files \<Rightarrow> string \<Rightarrow> jwt_setup_error + 'sk" where
  "loadRSAPrivateKeyFile lib kf path =
     (case kf_read kf path of
        None \<Rightarrow> Inl (ReadKeyFile path)
      | Some data \<Rightarrow>
          (case kf_pem kf data of
             None \<Rightarrow> Inl (NoPEMBlock path)
           | Some der \<Rightarrow> parseRSAPrivateKey lib kf path der))"

section \<open>The issuer and verifier\<close>

record ('sk, 'pk) JWTIssuerVerifier =
  jv_signer :: 'sk
  jv_signingKID :: string
  jv_verifyKeys :: "string \<rightharpoonup> 'pk"
  jv_verifyOrder :: "(string \<times> 'pk) list"
  jv_tokenTTL :: duration

fun add_previous_keys ::
  "('sk, 'pk) jwt_lib \<Rightarrow> ('sk, 'pk) key_files \<Rightarrow> string list \<Rightarrow> (string \<rightharpoonup> 'pk) \<Rightarrow> (string \<times> 'pk) list \<Rightarrow>
   jwt_setup_error + (string \<rightharpoonup> 'pk) \<times> (string \<times> 'pk) list" where
  "add_previous_keys lib kf [] verifyKeys verifyOrder = Inr (verifyKeys, verifyOrder)"
| "add_previous_keys lib kf (p # ps) verifyKeys verifyOrder =
     (case loadRSAPrivateKeyFile lib kf p of
        Inl e \<Rightarrow> Inl (PreviousKey e)
      | Inr key \<Rightarrow>
          let kid = publicKeyID lib (kf_public kf key)
          in if verifyKeys kid \<noteq> None then add_previous_keys lib kf ps verifyKeys verifyOrder
             else add_previous_keys lib kf ps (verifyKeys(kid \<mapsto> kf_public kf key))
                    (verifyOrder @ [(kid, kf_public kf key)]))"

definition newJWTIssuerVerifierFromSigner ::
  "('sk, 'pk) jwt_lib \<Rightarrow> ('sk, 'pk) key_files \<Rightarrow> 'sk \<Rightarrow> string list \<Rightarrow> duration \<Rightarrow>
   jwt_setup_error + ('sk, 'pk) JWTIssuerVerifier" where
  "newJWTIssuerVerifierFromSigner lib kf signer previousKeyPaths tokenTTL =
     (case jl_public lib signer of
        None \<Rightarrow> Inl NotRSAPublic
      | Some signingPub \<Rightarrow>
          if jl_bits lib signingPub < rsaKeyBits then Inl (KeyTooShort (jl_bits lib signingPub))
          else let signingKID = publicKeyID lib signingPub
               in case add_previous_keys lib kf previousKeyPaths [signingKID \<mapsto> signingPub] [(signingKID, signingPub)] of
                    Inl e \<Rightarrow> Inl e
                  | Inr (verifyKeys, verifyOrder) \<Rightarrow>
                      Inr \<lparr>jv_signer = signer, jv_signingKID = signingKID, jv_verifyKeys = verifyKeys,
                           jv_verifyOrder = verifyOrder, jv_tokenTTL = tokenTTL\<rparr>)"

text \<open>\<open>generated\<close> is the outcome of \<open>rsa.GenerateKey\<close>.\<close>

definition NewJWTIssuerVerifier ::
  "('sk, 'pk) jwt_lib \<Rightarrow> ('sk, 'pk) key_files \<Rightarrow> 'sk option \<Rightarrow> string \<Rightarrow> string list \<Rightarrow> duration \<Rightarrow>
   jwt_setup_error + ('sk, 'pk) JWTIssuerVerifier" where
  "NewJWTIssuerVerifier lib kf generated keyPath previousKeyPaths tokenTTL =
     (if keyPath = '''' then
        (case generated of
           None \<Rightarrow> Inl GenerateKeyFailed
         | Some key \<Rightarrow> newJWTIssuerVerifierFromSigner lib kf key previousKeyPaths tokenTTL)
      else (case loadRSAPrivateKeyFile lib kf keyPath of
              Inl e \<Rightarrow> Inl e
            | Inr key \<Rightarrow> newJWTIssuerVerifierFromSigner lib kf key previousKeyPaths tokenTTL))"

text \<open>The 16 random bytes of \<open>randomJTI\<close> are \<open>rnd\<close>, the clock reading is \<open>now\<close>.\<close>

definition jwt_Issue ::
  "('sk, 'pk) jwt_lib \<Rightarrow> ('sk, 'pk) JWTIssuerVerifier \<Rightarrow> string option \<Rightarrow> go_time \<Rightarrow> string \<Rightarrow> string \<Rightarrow> cred_error + string"
where
  "jwt_Issue lib j rnd now identity tenantName =
     (case rnd of
        None \<Rightarrow> Inl (IssuerError ''generate jti'')
      | Some b \<Rightarrow>
          (case jl_sign lib (jv_signer j) (jv_signingKID j)
                  \<lparr>jt_sub = Some identity, jt_tenant = Some tenantName, jt_iat = Some now,
                   jt_exp = Some (now + jv_tokenTTL j), jt_jti = Some (EncodeToString b)\<rparr> of
             Inl e \<Rightarrow> Inl (IssuerError e)
           | Inr tok \<Rightarrow> Inr tok))"

definition verifyKeyFor :: "('sk, 'pk) jwt_lib \<Rightarrow> ('sk, 'pk) JWTIssuerVerifier \<Rightarrow> string \<Rightarrow> 'pk option" where
  "verifyKeyFor lib j token =
     (case jl_kids lib token of
        None \<Rightarrow> None
      | Some [] \<Rightarrow> None
      | Some (kid # _) \<Rightarrow>
          (case kid of
             Some kid' \<Rightarrow>
               if kid' \<noteq> '''' then jv_verifyKeys j kid'
               else map_option snd (find (\<lambda>(_, pub). \<not> isl (jl_parse lib token pub None)) (jv_verifyOrder j))
           | None \<Rightarrow> map_option snd (find (\<lambda>(_, pub). \<not> isl (jl_parse lib token pub None)) (jv_verifyOrder j))))"

definition claims_of :: "jwt_token \<Rightarrow> Claims" where
  "claims_of parsed =
     (let tenantName = (case jt_tenant parsed of None \<Rightarrow> '''' | Some t \<Rightarrow> t);
          tenantName = (if tenantName = '''' then tenant_Default else tenantName)
      in \<lparr>cl_Subject = (case jt_sub parsed of None \<Rightarrow> '''' | Some s \<Rightarrow> s), cl_Tenant = tenantName,
          cl_IssuedAt = (case jt_iat parsed of None \<Rightarrow> 0 | Some t \<Rightarrow> t),
          cl_ExpiresAt = (case jt_exp parsed of None \<Rightarrow> 0 | Some t \<Rightarrow> t),
          cl_ID = (case jt_jti parsed of None \<Rightarrow> '''' | Some i \<Rightarrow> i)\<rparr>)"

definition jwt_Verify ::
  "('sk, 'pk) jwt_lib \<Rightarrow> ('sk, 'pk) JWTIssuerVerifier \<Rightarrow> string \<Rightarrow> go_time \<Rightarrow> verify_error + Claims" where
  "jwt_Verify lib j token now =
     (case verifyKeyFor lib j token of
        None \<Rightarrow> Inl ErrTokenInvalid
      | Some pub \<Rightarrow>
          (case jl_parse lib token pub (Some now) of
             Inl TokenExpiredError \<Rightarrow> Inl ErrTokenExpired
           | Inl (OtherTokenError _) \<Rightarrow> Inl ErrTokenInvalid
           | Inr parsed \<Rightarrow> Inr (claims_of parsed)))"

section \<open>A signer in a key management service\<close>

datatype kms_error =
    FetchKmsKey string
  | WrongKeyUsage string
  | ParseKmsKey string
  | KmsKeyNotRSA
  | KmsKeyTooShort nat

record KMSSigner =
  ks_keyID :: string
  ks_pub :: string \<comment> \<open>the encoded public key\<close>

text \<open>
  \<open>get\<close> is the service's \<open>GetPublicKey\<close>, the usage and the encoded key; \<open>pkix\<close> parses it, to the modulus size
  of an RSA key or to a key of another kind.
\<close>

definition NewKMSSigner ::
  "(string \<Rightarrow> string + string \<times> string) \<Rightarrow> (string \<Rightarrow> string + nat option) \<Rightarrow> string \<Rightarrow> kms_error + KMSSigner" where
  "NewKMSSigner get pkix keyID =
     (case get keyID of
        Inl e \<Rightarrow> Inl (FetchKmsKey e)
      | Inr (usage, der) \<Rightarrow>
          if usage \<noteq> ''SIGN_VERIFY'' then Inl (WrongKeyUsage usage)
          else (case pkix der of
                  Inl e \<Rightarrow> Inl (ParseKmsKey e)
                | Inr None \<Rightarrow> Inl KmsKeyNotRSA
                | Inr (Some bits) \<Rightarrow>
                    if bits < rsaKeyBits then Inl (KmsKeyTooShort bits)
                    else Inr \<lparr>ks_keyID = keyID, ks_pub = der\<rparr>))"

datatype hash_func = SHA256 | OtherHash string

definition KMSSigner_Sign ::
  "(string \<Rightarrow> string \<Rightarrow> string + string) \<Rightarrow> KMSSigner \<Rightarrow> string \<Rightarrow> hash_func \<Rightarrow> string + string" where
  "KMSSigner_Sign sign s digest hash =
     (if hash \<noteq> SHA256 then Inl ''kms signer only supports SHA-256 digests (RS256)''
      else case sign (ks_keyID s) digest of Inl e \<Rightarrow> Inl (''kms sign: '' @ e) | Inr sig \<Rightarrow> Inr sig)"

section \<open>The key set endpoint\<close>

text \<open>\<open>jwk\<close> makes the JSON key of a public key with its key ID, or fails; \<open>add\<close> is \<open>Set.AddKey\<close>.\<close>

fun jwks_loop ::
  "('pk \<Rightarrow> string \<Rightarrow> string + 'j) \<Rightarrow> ('j \<Rightarrow> 'j list \<Rightarrow> string + 'j list) \<Rightarrow> (string \<times> 'pk) list \<Rightarrow> 'j list \<Rightarrow> string + 'j list"
where
  "jwks_loop jwk add [] ks = Inr ks"
| "jwks_loop jwk add ((kid, pub) # vks) ks =
     (case jwk pub kid of
        Inl e \<Rightarrow> Inl e
      | Inr k \<Rightarrow> (case add k ks of Inl e \<Rightarrow> Inl e | Inr ks \<Rightarrow> jwks_loop jwk add vks ks))"

definition JWKS ::
  "('pk \<Rightarrow> string \<Rightarrow> string + 'j) \<Rightarrow> ('j \<Rightarrow> 'j list \<Rightarrow> string + 'j list) \<Rightarrow> ('sk, 'pk) JWTIssuerVerifier \<Rightarrow> string + 'j list"
where
  "JWKS jwk add j = jwks_loop jwk add (jv_verifyOrder j) []"

datatype 'j jwks_response =
    KeySet "'j list"
  | KeySetError int string

definition jwks_ServeHTTP :: "(string + 'j list) \<Rightarrow> string \<Rightarrow> 'j jwks_response" where
  "jwks_ServeHTTP provided meth =
     (if meth \<noteq> ''GET'' then KeySetError 405 ''method not allowed''
      else case provided of
             Inl _ \<Rightarrow> KeySetError 500 ''failed to build key set''
           | Inr ks \<Rightarrow> KeySet ks)"

section \<open>The keys of a verifier\<close>

definition verifier_inv :: "('sk, 'pk) jwt_lib \<Rightarrow> (string \<rightharpoonup> 'pk) \<Rightarrow> (string \<times> 'pk) list \<Rightarrow> bool" where
  "verifier_inv lib verifyKeys verifyOrder \<longleftrightarrow>
     distinct (map fst verifyOrder) \<and> verifyKeys = map_of verifyOrder \<and>
     (\<forall>(kid, pub) \<in> set verifyOrder. kid = publicKeyID lib pub \<and> rsaKeyBits \<le> jl_bits lib pub)"

lemma loaded_key_size:
  "loadRSAPrivateKeyFile lib kf p = Inr key \<Longrightarrow> rsaKeyBits \<le> jl_bits lib (kf_public kf key)"
  by (auto simp: loadRSAPrivateKeyFile_def parseRSAPrivateKey_def checkRSAKeySize_def split: option.splits if_splits)

lemma verifier_inv_add:
  assumes "verifier_inv lib vk vo" and "vk (publicKeyID lib pub) = None" and "rsaKeyBits \<le> jl_bits lib pub"
  shows "verifier_inv lib (vk(publicKeyID lib pub \<mapsto> pub)) (vo @ [(publicKeyID lib pub, pub)])"
proof -
  have vk: "vk = map_of vo" and new: "publicKeyID lib pub \<notin> fst ` set vo"
    using assms by (auto simp: verifier_inv_def map_of_eq_None_iff)
  then have "vk(publicKeyID lib pub \<mapsto> pub) = map_of (vo @ [(publicKeyID lib pub, pub)])"
    using assms(2) by (auto simp: fun_eq_iff map_add_def split: option.split)
  with assms new show ?thesis by (auto simp: verifier_inv_def)
qed

lemma add_previous_keys_inv:
  assumes "add_previous_keys lib kf ps vk vo = Inr (vk', vo')" and "verifier_inv lib vk vo"
  shows "verifier_inv lib vk' vo' \<and> prefix vo vo' \<and> vk \<subseteq>\<^sub>m vk' \<and>
    (\<forall>p \<in> set ps. \<exists>key. loadRSAPrivateKeyFile lib kf p = Inr key \<and> vk' (publicKeyID lib (kf_public kf key)) \<noteq> None)"
  using assms
proof (induction ps arbitrary: vk vo)
  case (Cons p ps)
  obtain key where key: "loadRSAPrivateKeyFile lib kf p = Inr key"
    using Cons.prems(1) by (cases "loadRSAPrivateKeyFile lib kf p") auto
  let ?kid = "publicKeyID lib (kf_public kf key)"
  show ?case
  proof (cases "vk ?kid = None")
    case True
    let ?vk = "vk(?kid \<mapsto> kf_public kf key)" and ?vo = "vo @ [(?kid, kf_public kf key)]"
    have "add_previous_keys lib kf ps ?vk ?vo = Inr (vk', vo')" using Cons.prems(1) True key by simp
    moreover have "verifier_inv lib ?vk ?vo" using verifier_inv_add Cons.prems(2) True loaded_key_size key by metis
    ultimately have IH: "verifier_inv lib vk' vo' \<and> prefix ?vo vo' \<and> ?vk \<subseteq>\<^sub>m vk' \<and>
        (\<forall>p \<in> set ps. \<exists>key. loadRSAPrivateKeyFile lib kf p = Inr key \<and> vk' (publicKeyID lib (kf_public kf key)) \<noteq> None)"
      by (rule Cons.IH)
    moreover from IH True have "vk \<subseteq>\<^sub>m vk'" "vk' ?kid \<noteq> None"
      by (auto simp: map_le_def dom_def split: if_splits)
    ultimately show ?thesis using key append_prefixD by fastforce
  next
    case False
    then show ?thesis using Cons.IH [of vk vo] Cons.prems key by (auto simp: map_le_def dom_def)
  qed
qed simp

lemma verifier_built:
  assumes "newJWTIssuerVerifierFromSigner lib kf signer ps ttl = Inr j"
  obtains pub where "jl_public lib signer = Some pub" and "jv_signer j = signer" and "jv_signingKID j = publicKeyID lib pub"
    and "verifier_inv lib (jv_verifyKeys j) (jv_verifyOrder j)" and "hd (jv_verifyOrder j) = (publicKeyID lib pub, pub)"
    and "jv_verifyKeys j (publicKeyID lib pub) = Some pub" and "jv_tokenTTL j = ttl"
    and "\<forall>p \<in> set ps. \<exists>key. loadRSAPrivateKeyFile lib kf p = Inr key \<and> jv_verifyKeys j (publicKeyID lib (kf_public kf key)) \<noteq> None"
proof -
  obtain pub where pub: "jl_public lib signer = Some pub" "rsaKeyBits \<le> jl_bits lib pub"
    using assms by (auto simp: newJWTIssuerVerifierFromSigner_def split: option.splits if_splits)
  let ?kid = "publicKeyID lib pub"
  obtain vk vo where add: "add_previous_keys lib kf ps [?kid \<mapsto> pub] [(?kid, pub)] = Inr (vk, vo)"
    and j: "j = \<lparr>jv_signer = signer, jv_signingKID = ?kid, jv_verifyKeys = vk, jv_verifyOrder = vo, jv_tokenTTL = ttl\<rparr>"
    using assms pub by (auto simp: newJWTIssuerVerifierFromSigner_def split: sum.splits)
  have "verifier_inv lib [?kid \<mapsto> pub] [(?kid, pub)]" using pub by (simp add: verifier_inv_def)
  note inv = add_previous_keys_inv [OF add this]
  then have "hd vo = (?kid, pub)" "vk ?kid = Some pub" by (auto simp: prefix_def map_le_def)
  with inv pub j that show thesis by simp
qed

text \<open>
  However the rotation window is configured, the verifier accepts each key under its own content-derived
  key ID, none twice and none shorter than 2048 bits: the lookup table and the ordered list hold
  the same keys, the signing key is the first of them, and every previous key file is among them.
\<close>

theorem verifier_keys_sound:
  assumes "newJWTIssuerVerifierFromSigner lib kf signer ps ttl = Inr j"
  shows "distinct (map fst (jv_verifyOrder j)) \<and> jv_verifyKeys j = map_of (jv_verifyOrder j) \<and>
    (\<forall>(kid, pub) \<in> set (jv_verifyOrder j). kid = publicKeyID lib pub \<and> 2048 \<le> jl_bits lib pub) \<and>
    jl_public lib signer = Some (snd (hd (jv_verifyOrder j))) \<and> fst (hd (jv_verifyOrder j)) = jv_signingKID j \<and>
    (\<forall>p \<in> set ps. \<exists>key. loadRSAPrivateKeyFile lib kf p = Inr key \<and>
       publicKeyID lib (kf_public kf key) \<in> dom (jv_verifyKeys j))"
proof (rule verifier_built [OF assms])
  fix pub
  assume "\<forall>p \<in> set ps. \<exists>key. loadRSAPrivateKeyFile lib kf p = Inr key \<and> jv_verifyKeys j (publicKeyID lib (kf_public kf key)) \<noteq> None"
    and "verifier_inv lib (jv_verifyKeys j) (jv_verifyOrder j)" and "hd (jv_verifyOrder j) = (publicKeyID lib pub, pub)"
    and "jl_public lib signer = Some pub" and "jv_signingKID j = publicKeyID lib pub"
  then show ?thesis unfolding dom_def by (simp add: verifier_inv_def rsaKeyBits_def)
qed

section \<open>What a token proves\<close>

text \<open>
  C18. A token is accepted only on the signature of a configured key, at a time the library validates its claims
  at, and its claims are the ones read from it; an empty or missing tenant reads as the default
  one, so no accepted token is without a tenant.
\<close>

theorem accepted_token_signed_by_configured_key:
  assumes "newJWTIssuerVerifierFromSigner lib kf signer ps ttl = Inr j" and "jwt_Verify lib j token now = Inr c"
  shows "(\<exists>kid pub parsed. (kid, pub) \<in> set (jv_verifyOrder j) \<and> jl_parse lib token pub (Some now) = Inr parsed \<and>
      c = claims_of parsed) \<and> cl_Tenant c \<noteq> ''''"
proof -
  obtain pub parsed where key: "verifyKeyFor lib j token = Some pub"
    and parsed: "jl_parse lib token pub (Some now) = Inr parsed" and c: "c = claims_of parsed"
    using assms(2) by (auto simp: jwt_Verify_def split: option.splits sum.splits jwt_error.splits)
  have "jv_verifyKeys j = map_of (jv_verifyOrder j)"
    by (rule verifier_built [OF assms(1)]) (simp add: verifier_inv_def)
  with key have "pub \<in> snd ` set (jv_verifyOrder j)"
    by (force simp: verifyKeyFor_def split: option.splits list.splits if_splits dest: map_of_SomeD find_SomeD)
  moreover have "cl_Tenant c \<noteq> ''''" by (simp add: c claims_of_def tenant_Default_def)
  ultimately show ?thesis using parsed c by (metis (no_types, lifting) imageE prod.collapse)
qed

text \<open>
  What is relied on of the library for a signer: a token it signs has one signature with the key ID it was
  given, and while \<open>live\<close> holds of its claims it parses under the signer's public key, to claims
  (\<open>wire\<close>) with the same subject and tenant: the times are cut to seconds on the way.
\<close>

definition signs_and_parses ::
  "('sk, 'pk) jwt_lib \<Rightarrow> (go_time \<Rightarrow> jwt_token \<Rightarrow> bool) \<Rightarrow> (jwt_token \<Rightarrow> jwt_token) \<Rightarrow> 'sk \<Rightarrow> bool" where
  "signs_and_parses lib live wire sk \<longleftrightarrow>
     (\<forall>kid c tok pub now. jl_sign lib sk kid c = Inr tok \<longrightarrow> jl_public lib sk = Some pub \<longrightarrow>
        jl_kids lib tok = Some [Some kid] \<and> (live now c \<longrightarrow> jl_parse lib tok pub (Some now) = Inr (wire c))) \<and>
     (\<forall>c. jt_sub (wire c) = jt_sub c \<and> jt_tenant (wire c) = jt_tenant c)"

definition issued_claims :: "('sk, 'pk) JWTIssuerVerifier \<Rightarrow> string \<Rightarrow> go_time \<Rightarrow> string \<Rightarrow> string \<Rightarrow> jwt_token" where
  "issued_claims j rnd now identity tenantName =
     \<lparr>jt_sub = Some identity, jt_tenant = Some tenantName, jt_iat = Some now,
      jt_exp = Some (now + jv_tokenTTL j), jt_jti = Some (EncodeToString rnd)\<rparr>"

lemma jwt_Issue_signs:
  "jwt_Issue lib j (Some rnd) now identity tenantName = Inr tok \<longleftrightarrow>
     jl_sign lib (jv_signer j) (jv_signingKID j) (issued_claims j rnd now identity tenantName) = Inr tok"
  by (auto simp: jwt_Issue_def issued_claims_def split: sum.splits)

lemma publicKeyID_nonempty:
  assumes "jl_der lib pub \<noteq> None" and "\<forall>x. length (jl_sha256 lib x) = 32"
  shows "publicKeyID lib pub \<noteq> ''''"
proof -
  have "EncodeToString bs \<noteq> ''''" if "bs \<noteq> []" for bs
    using that by (cases bs) (simp_all add: EncodeToString_def)
  moreover obtain der where "jl_der lib pub = Some der" using assms(1) by blast
  moreover have "take 16 (jl_sha256 lib der) \<noteq> []" using spec [OF assms(2), of der] by (metis length_0_conv
        take_eq_Nil zero_neq_numeral)
  ultimately show ?thesis by (simp add: publicKeyID_def)
qed

lemma claims_of_wire:
  assumes "signs_and_parses lib live wire sk"
  shows "cl_Subject (claims_of (wire (issued_claims j rnd t identity tenantName))) = identity"
    and "cl_Tenant (claims_of (wire (issued_claims j rnd t identity tenantName))) =
      (if tenantName = '''' then tenant_Default else tenantName)"
  using assms by (simp_all add: signs_and_parses_def claims_of_def issued_claims_def)

text \<open>
  C14. Rotating the signing key keeps sessions: a token signed under the old key authenticates its identity and
  tenant on an instance that signs with another key and lists the old one as previous, as long as
  the token's claims are live and its identity is not revoked there. Key IDs of distinct keys must
  differ among the keys of the instance.
\<close>

theorem rotation_keeps_tokens:
  assumes old: "newJWTIssuerVerifierFromSigner lib kf skOld psOld ttlOld = Inr a"
    and new: "newJWTIssuerVerifierFromSigner lib kf skNew ps ttl = Inr b"
    and p: "p \<in> set ps" "loadRSAPrivateKeyFile lib kf p = Inr key" "jl_public lib skOld = Some (kf_public kf key)"
    and issued: "jwt_Issue lib a (Some rnd) t identity tenantName = Inr tok"
    and lib: "signs_and_parses lib live wire skOld" "jl_der lib (kf_public kf key) \<noteq> None" "\<forall>x. length (jl_sha256 lib x) = 32"
    and kids: "\<forall>(kid, pub) \<in> set (jv_verifyOrder b). publicKeyID lib pub = publicKeyID lib (kf_public kf key) \<longrightarrow> pub = kf_public kf key"
    and live: "live now (issued_claims a rnd t identity tenantName)"
  shows "fst (Verification_Authenticate (jwt_Verify lib b) rv tok now nowR s) =
     (let t = (if tenantName = '''' then tenant_Default else tenantName)
      in if fst (rv_IsRevoked rv t identity nowR s) then Inl ErrRevoked else Inr (identity, t))"
proof -
  let ?pub = "kf_public kf key" and ?c = "issued_claims a rnd t identity tenantName"
  have signer: "jv_signer a = skOld" "jv_signingKID a = publicKeyID lib ?pub"
    by (rule verifier_built [OF old], simp add: p)+
  have b: "jv_verifyKeys b (publicKeyID lib ?pub) \<noteq> None" "jv_verifyKeys b = map_of (jv_verifyOrder b)"
    "\<forall>(kid, pub) \<in> set (jv_verifyOrder b). kid = publicKeyID lib pub"
    by (rule verifier_built [OF new], use p in \<open>fastforce simp: verifier_inv_def\<close>)+
  then have "jv_verifyKeys b (publicKeyID lib ?pub) = Some ?pub"
    using kids by (force dest: map_of_SomeD)
  moreover have parse: "jl_kids lib tok = Some [Some (publicKeyID lib ?pub)]" "jl_parse lib tok ?pub (Some now) = Inr (wire ?c)"
    using lib(1) issued live p(3) by (auto simp: signs_and_parses_def jwt_Issue_signs signer)
  moreover have "publicKeyID lib ?pub \<noteq> ''''" by (rule publicKeyID_nonempty [OF lib(2,3)])
  ultimately have "jwt_Verify lib b tok now = Inr (claims_of (wire ?c))"
    by (simp add: jwt_Verify_def verifyKeyFor_def)
  then show ?thesis
    by (simp add: Verification_Authenticate_def claims_of_wire [OF lib(1)] split_def)
qed

text \<open>
  A library for the examples: keys are numbers, and a token is the key ID behind the letter of the key that
  signed it. It signs one set of claims.
\<close>

definition example_claims :: jwt_token where
  "example_claims = \<lparr>jt_sub = Some ''alice'', jt_tenant = Some ''acme'', jt_iat = Some 5, jt_exp = Some 65,
     jt_jti = Some (EncodeToString ''r'')\<rparr>"

definition example_jwt_lib :: "(nat, nat) jwt_lib" where
  "example_jwt_lib = \<lparr>jl_public = Some, jl_bits = (\<lambda>_. 2048), jl_der = (\<lambda>k. Some [char_of k]),
     jl_sha256 = (\<lambda>x. take 32 (x @ replicate 32 (CHR ''0''))),
     jl_kids = (\<lambda>tok. Some [Some (drop 1 tok)]),
     jl_parse = (\<lambda>tok pub now. if take 1 tok = [char_of pub] \<and> (case now of None \<Rightarrow> True | Some t \<Rightarrow> t < 65)
        then Inr example_claims else Inl TokenExpiredError),
     jl_sign = (\<lambda>sk kid c. if c = example_claims then Inr (char_of sk # kid) else Inl ''unsupported'')\<rparr>"

definition example_key_files :: "(nat, nat) key_files" where
  "example_key_files = \<lparr>kf_read = (\<lambda>p. if p = ''old.pem'' then Some ''k'' else None), kf_pem = Some,
     kf_pkcs1 = (\<lambda>der. if der = ''k'' then Some 65 else None), kf_pkcs8 = (\<lambda>_. None), kf_public = id\<rparr>"

definition example_verifier :: "nat \<Rightarrow> (string \<times> nat) list \<Rightarrow> (nat, nat) JWTIssuerVerifier" where
  "example_verifier sk vo = \<lparr>jv_signer = sk, jv_signingKID = publicKeyID example_jwt_lib sk, jv_verifyKeys = map_of vo,
     jv_verifyOrder = vo, jv_tokenTTL = 60\<rparr>"

abbreviation example_keys :: "nat list \<Rightarrow> (string \<times> nat) list" where
  "example_keys ks \<equiv> map (\<lambda>k. (publicKeyID example_jwt_lib k, k)) ks"

lemma example_kids: "publicKeyID example_jwt_lib 65 \<noteq> publicKeyID example_jwt_lib 66"
  by code_simp

lemma example_load: "loadRSAPrivateKeyFile example_jwt_lib example_key_files ''old.pem'' = Inr 65"
  by (simp add: loadRSAPrivateKeyFile_def parseRSAPrivateKey_def checkRSAKeySize_def example_jwt_lib_def
      example_key_files_def rsaKeyBits_def)

lemma example_old:
  "newJWTIssuerVerifierFromSigner example_jwt_lib example_key_files 65 [] 60 = Inr (example_verifier 65 (example_keys [65]))"
  by (auto simp: newJWTIssuerVerifierFromSigner_def example_verifier_def example_jwt_lib_def rsaKeyBits_def)

lemma example_new:
  "newJWTIssuerVerifierFromSigner example_jwt_lib example_key_files 66 [''old.pem''] 60 =
     Inr (example_verifier 66 (example_keys [66, 65]))"
proof -
  have "jl_public example_jwt_lib 66 = Some 66" "\<not> jl_bits example_jwt_lib 66 < rsaKeyBits" "kf_public example_key_files 65 = 65"
    by (simp_all add: example_jwt_lib_def example_key_files_def rsaKeyBits_def)
  then show ?thesis using example_kids
    by (auto simp: newJWTIssuerVerifierFromSigner_def example_load example_verifier_def fun_eq_iff)
qed

lemma example_signs: "signs_and_parses example_jwt_lib (\<lambda>now c. now < 65) id sk"
  by (simp add: signs_and_parses_def example_jwt_lib_def)

lemma example_issued:
  "jwt_Issue example_jwt_lib (example_verifier 65 (example_keys [65])) (Some ''r'') 5 ''alice'' ''acme'' =
     Inr (CHR ''A'' # publicKeyID example_jwt_lib 65)"
proof -
  have "(char_of (65 :: nat) :: char) = CHR ''A''" by code_simp
  then show ?thesis
    by (simp add: jwt_Issue_signs issued_claims_def example_verifier_def example_claims_def example_jwt_lib_def)
qed

theorem verifier_keys_sound_witness:
  "let j = example_verifier 66 (example_keys [66, 65])
   in distinct (map fst (jv_verifyOrder j)) \<and> publicKeyID example_jwt_lib 65 \<in> dom (jv_verifyKeys j)"
proof -
  define j where "j = example_verifier 66 (example_keys [66, 65])"
  have "distinct (map fst (jv_verifyOrder j)) \<and> (\<forall>p \<in> set [''old.pem'']. \<exists>key.
      loadRSAPrivateKeyFile example_jwt_lib example_key_files p = Inr key \<and>
      publicKeyID example_jwt_lib (kf_public example_key_files key) \<in> dom (jv_verifyKeys j))"
    unfolding j_def using verifier_keys_sound [OF example_new] by blast
  moreover have "kf_public example_key_files 65 = 65" by (simp add: example_key_files_def)
  ultimately show ?thesis unfolding Let_def j_def [symmetric] by (simp add: example_load)
qed

theorem rotation_keeps_tokens_witness:
  "fst (Verification_Authenticate (jwt_Verify example_jwt_lib (example_verifier 66 (example_keys [66, 65]))) inmemory_Revoker
     (CHR ''A'' # publicKeyID example_jwt_lib 65) 40 40 NewRevocationList) = Inr (''alice'', ''acme'')"
proof -
  have pub: "kf_public example_key_files 65 = 65" "jl_public example_jwt_lib 65 = Some 65"
    "jl_der example_jwt_lib 65 \<noteq> None" "\<forall>x. length (jl_sha256 example_jwt_lib x) = 32"
    by (auto simp: example_key_files_def example_jwt_lib_def min_def)
  have kids: "\<forall>(kid, pub) \<in> set (jv_verifyOrder (example_verifier 66 (example_keys [66, 65]))).
      publicKeyID example_jwt_lib pub = publicKeyID example_jwt_lib 65 \<longrightarrow> pub = 65"
    using example_kids by (auto simp: example_verifier_def)
  show ?thesis
    using rotation_keeps_tokens [OF example_old example_new _ example_load _ example_issued example_signs, of 40 inmemory_Revoker 40 NewRevocationList]
      pub kids fresh_list_not_revoked [of "''acme''" "''alice''" 40] by (simp add: inmemory_Revoker_def)
qed

theorem accepted_token_signed_by_configured_key_witness:
  "let j = example_verifier 66 (example_keys [66, 65]); token = CHR ''A'' # publicKeyID example_jwt_lib 65
   in \<exists>kid pub. (kid, pub) \<in> set (jv_verifyOrder j) \<and> jl_parse example_jwt_lib token pub (Some 40) = Inr example_claims"
proof -
  have "jwt_Verify example_jwt_lib (example_verifier 66 (example_keys [66, 65])) (CHR ''A'' # publicKeyID example_jwt_lib 65) 40 =
      Inr (claims_of example_claims)"
    by code_simp
  from accepted_token_signed_by_configured_key [OF example_new this] show ?thesis
    by (auto simp: example_jwt_lib_def split: if_splits)
qed

text \<open>
  The same instance without the old key among its previous ones refuses the token: ending the window ends
  the old key's tokens.
\<close>

lemma unlisted_key_refused:
  assumes "jl_kids lib tok = Some [Some kid]" and "kid \<noteq> ''''" and "kid \<notin> dom (jv_verifyKeys b)"
  shows "jwt_Verify lib b tok now = Inl ErrTokenInvalid"
  using assms by (simp add: jwt_Verify_def verifyKeyFor_def domIff)

text \<open>The key set endpoint publishes the keys a verifier accepts, in order.\<close>

lemma jwks_publishes_verify_keys:
  assumes "\<And>pub kid. jwk pub kid = Inr (kid, pub)" and "\<And>k ks. k \<notin> set ks \<Longrightarrow> add k ks = Inr (ks @ [k])"
    and "newJWTIssuerVerifierFromSigner lib kf signer ps ttl = Inr j"
  shows "jwks_ServeHTTP (JWKS jwk add j) ''GET'' = KeySet (jv_verifyOrder j)"
proof -
  have loop: "distinct (ks @ vks) \<Longrightarrow> jwks_loop jwk add vks ks = Inr (ks @ vks)" for ks vks
    using assms(1,2) by (induction vks arbitrary: ks) auto
  have "distinct (jv_verifyOrder j)"
    by (rule verifier_built [OF assms(3)]) (auto simp: verifier_inv_def distinct_map)
  with loop [of "[]"] show ?thesis by (simp add: jwks_ServeHTTP_def JWKS_def)
qed

end
