(* ===== verification/Credential_Endpoints.thy ===== *)
theory Credential_Endpoints
  imports Loopback Token_Signing Bootstrap RBAC Proxy_Request
begin

text \<open>
  The credential HTTP surface: bootstrap, refresh and revoke
  (\<open>internal/features/credential/adapter/http_handler.go\<close>), the browser login
  (\<open>adapter/login_handler.go\<close>), and the authorizers the process wires to the revoke endpoint and to the
  dashboard (\<open>newRevokeAuthorizer\<close>, \<open>targetIdentityFromRequest\<close>, \<open>newScopeResolver\<close>,
  \<open>newUnblockAuthorizer\<close>, \<open>newReloadAuthorizer\<close> and \<open>newCallerInfoResolver\<close> of \<open>cmd/wardline/main.go\<close>).

  A request is the proxy's request with its method. The revoke authorizer reads the body ahead of the handler
  and puts it back, so it returns the request it leaves behind. The decoder of the handlers reads the
  first JSON value of a body and ignores what follows; the authorizer's parser takes the whole body.
  Clock readings and random values are arguments; the HTML of the login page is not modelled.
\<close>

section \<open>Requests and bodies\<close>

record method_request = http_request +
  rq_Method :: string

datatype credential_response =
    TokenPair string string
  | Revoked
  | CredentialError int string

definition maxTokenRequestBodyBytes :: nat where
  "maxTokenRequestBodyBytes = 65536"

text \<open>
  \<open>json.NewDecoder(http.MaxBytesReader(...)).Decode\<close> into a struct: the first value within the limit. A value
  that ends by itself is accepted at once; any other only when something follows it or the body ends
  there, within the limit and without a read error. The members are those of an object, or none of \<open>null\<close>.
\<close>

definition self_ending :: "json \<Rightarrow> bool" where
  "self_ending v = (case v of JObject _ \<Rightarrow> True | JArray _ \<Rightarrow> True | _ \<Rightarrow> False)"

definition decode_first :: "nat \<Rightarrow> ('a) http_request_scheme \<Rightarrow> json option" where
  "decode_first limit r =
     (let s = skip_ws (take limit (rq_Body r)); ended = (\<not> rq_BodyBroken r \<and> length (rq_Body r) \<le> limit)
      in case pval (Suc (2 * length s)) maxNestingDepth s of
           None \<Rightarrow> None
         | Some (v, rest) \<Rightarrow> if self_ending v \<or> rest \<noteq> [] \<or> ended then Some v else None)"

definition decode_members :: "nat \<Rightarrow> ('a) http_request_scheme \<Rightarrow> (string \<times> raw_value) list option" where
  "decode_members limit r =
     (case decode_first limit r of
        Some (JObject ms) \<Rightarrow> Some ms
      | Some JNull \<Rightarrow> Some []
      | _ \<Rightarrow> None)"

section \<open>The handler\<close>

text \<open>
  An authorizer answers whether a request may pass, and with what body it leaves the request. \<open>ch_targetTenant\<close>
  is \<open>None\<close> where the registry does not resolve the identity's tenant.
\<close>

type_synonym 's revoke_authorizer = "method_request \<Rightarrow> 's \<Rightarrow> (bool \<times> method_request) \<times> 's"

record 's credential_Handler =
  ch_authenticate :: "string \<Rightarrow> cred_error + string \<times> string"
  ch_issue :: "string \<Rightarrow> string \<Rightarrow> cred_error + string"
  ch_store :: "'s RefreshStore"
  ch_revoker :: "'s Revoker"
  ch_refreshTokenTTL :: duration
  ch_revokeAuthorizer :: "'s revoke_authorizer option"
  ch_targetTenant :: "string \<Rightarrow> string option"
  ch_mtlsHeader :: string
  ch_revocationHorizon :: duration

definition invalid_credentials :: credential_response where
  "invalid_credentials = CredentialError 401 ''invalid credentials''"

text \<open>What \<open>HandleToken\<close> takes for the secret: the single value of the trusted header, or the body's field.\<close>

definition token_secret :: "'s credential_Handler \<Rightarrow> method_request \<Rightarrow> credential_response + string" where
  "token_secret h r =
     (if ch_mtlsHeader h \<noteq> '''' then
        (case rq_Header r (CanonicalMIMEHeaderKey (ch_mtlsHeader h)) of
           [v] \<Rightarrow> if v = '''' then Inl invalid_credentials else Inr v
         | _ \<Rightarrow> Inl invalid_credentials)
      else (case decode_members maxTokenRequestBodyBytes r of
              None \<Rightarrow> Inl (CredentialError 400 ''invalid request body'')
            | Some ms \<Rightarrow>
                (case string_field ''secret'' ms of
                   None \<Rightarrow> Inl (CredentialError 400 ''invalid request body'')
                 | Some secret \<Rightarrow> Inr secret)))"

definition HandleToken ::
  "'s credential_Handler \<Rightarrow> method_request \<Rightarrow> string option \<Rightarrow> string option \<Rightarrow> go_time \<Rightarrow> 's \<Rightarrow> credential_response \<times> 's" where
  "HandleToken h r rndFamily rndToken now s =
     (if rq_Method r \<noteq> ''POST'' then (CredentialError 405 ''method not allowed'', s)
      else case token_secret h r of
             Inl resp \<Rightarrow> (resp, s)
           | Inr secret \<Rightarrow>
               (case Bootstrap (ch_authenticate h) (ch_issue h) (ch_store h) (ch_refreshTokenTTL h) secret
                       rndFamily rndToken now s of
                  (Inl _, s) \<Rightarrow> (invalid_credentials, s)
                | (Inr (accessToken, refreshToken), s) \<Rightarrow> (TokenPair accessToken refreshToken, s)))"

definition refresh_service :: "'s credential_Handler \<Rightarrow> 's RefreshService" where
  "refresh_service h = \<lparr>svc_store = ch_store h, svc_revoker = ch_revoker h, svc_issue = ch_issue h,
     svc_refreshTokenTTL = ch_refreshTokenTTL h\<rparr>"

definition HandleRefresh ::
  "'s credential_Handler \<Rightarrow> method_request \<Rightarrow> go_time \<Rightarrow> go_time \<Rightarrow> string option \<Rightarrow> go_time \<Rightarrow> 's \<Rightarrow> credential_response \<times> 's" where
  "HandleRefresh h r nowR nowV rnd nowI s =
     (if rq_Method r \<noteq> ''POST'' then (CredentialError 405 ''method not allowed'', s)
      else case Option.bind (decode_members maxTokenRequestBodyBytes r) (string_field ''refresh_token'') of
             None \<Rightarrow> (CredentialError 400 ''invalid request body'', s)
           | Some refreshToken \<Rightarrow>
               (case Refresh (refresh_service h) refreshToken nowR nowV rnd nowI s of
                  (Inl _, s) \<Rightarrow> (invalid_credentials, s)
                | (Inr (accessToken, newRefreshToken), s) \<Rightarrow> (TokenPair accessToken newRefreshToken, s)))"

text \<open>The identity and tenant fields of a revoke request.\<close>

definition revoke_request :: "method_request \<Rightarrow> (string \<times> string) option" where
  "revoke_request r =
     (case decode_members maxTokenRequestBodyBytes r of
        None \<Rightarrow> None
      | Some ms \<Rightarrow>
          (case (string_field ''identity'' ms, string_field ''tenant'' ms) of
             (Some identity, Some tenantName) \<Rightarrow> if identity = '''' then None else Some (identity, tenantName)
           | _ \<Rightarrow> None))"

text \<open>The guard of \<open>HandleRevoke\<close>: whether the request passes, and the request that is left.\<close>

definition revoke_guard :: "'s credential_Handler \<Rightarrow> method_request \<Rightarrow> 's \<Rightarrow> (bool \<times> method_request) \<times> 's" where
  "revoke_guard h r s =
     (if isLoopback (rq_RemoteAddr r) then ((True, r), s)
      else case ch_revokeAuthorizer h of
             None \<Rightarrow> ((False, r), s)
           | Some allowed \<Rightarrow> allowed r s)"

definition HandleRevoke :: "'s credential_Handler \<Rightarrow> method_request \<Rightarrow> go_time \<Rightarrow> 's \<Rightarrow> credential_response \<times> 's" where
  "HandleRevoke h r now s =
     (let ((pass, r), s) = revoke_guard h r s
      in if \<not> pass then (CredentialError 403 ''forbidden'', s)
         else if rq_Method r \<noteq> ''POST'' then (CredentialError 405 ''method not allowed'', s)
         else case revoke_request r of
                None \<Rightarrow> (CredentialError 400 ''invalid request body: identity is required'', s)
              | Some (identity, reqTenant) \<Rightarrow>
                  let targetTenant = (case ch_targetTenant h identity of Some t \<Rightarrow> t | None \<Rightarrow> reqTenant)
                  in case Revocation_Revoke (ch_revoker h) (ch_store h) targetTenant identity
                            (now + ch_revocationHorizon h) s of
                       (Some _, s) \<Rightarrow> (CredentialError 500 ''revocation failed to persist'', s)
                     | (None, s) \<Rightarrow> (Revoked, s))"

section \<open>The browser login\<close>

record session_cookie =
  ck_Name :: string
  ck_Value :: string
  ck_Path :: string
  ck_HttpOnly :: bool
  ck_Secure :: bool
  ck_SameSiteStrict :: bool
  ck_MaxAge :: int

datatype login_response =
    LoginForm int string \<comment> \<open>status, and the message above the form\<close>
  | LoginMethodNotAllowed string
  | LoginRedirect session_cookie string

definition serveLoginForm :: "string \<Rightarrow> login_response" where
  "serveLoginForm errMsg = LoginForm (if errMsg \<noteq> '''' then 401 else 200) errMsg"

definition session_cookie_of :: "bool \<Rightarrow> string \<Rightarrow> int \<Rightarrow> session_cookie" where
  "session_cookie_of cookieSecure v maxAge = \<lparr>ck_Name = SessionCookieName, ck_Value = v, ck_Path = ''/'', ck_HttpOnly = True,
     ck_Secure = cookieSecure, ck_SameSiteStrict = True, ck_MaxAge = maxAge\<rparr>"

text \<open>
  \<open>form\<close> is what \<open>net/http\<close> parses of the posted form, within the limit: \<open>None\<close> is an error, otherwise the
  value of the field \<open>secret\<close>, empty when it is absent. The cookie's lifetime is the TTL in whole seconds.
\<close>

definition handleLoginSubmit ::
  "(string \<Rightarrow> 's \<Rightarrow> (cred_error + string \<times> string) \<times> 's) \<Rightarrow> duration \<Rightarrow> bool \<Rightarrow> string option \<Rightarrow> 's \<Rightarrow> login_response \<times> 's" where
  "handleLoginSubmit bootstrap accessTTL cookieSecure form s =
     (case form of
        None \<Rightarrow> (serveLoginForm ''invalid form submission'', s)
      | Some secret \<Rightarrow>
          if secret = '''' then (serveLoginForm ''secret is required'', s)
          else case bootstrap secret s of
                 (Inl _, s) \<Rightarrow> (serveLoginForm ''invalid credentials'', s)
               | (Inr (accessToken, _), s) \<Rightarrow>
                   (LoginRedirect (session_cookie_of cookieSecure accessToken (accessTTL sdiv second)) ''/dashboard/'', s))"

definition HandleLogin ::
  "(string \<Rightarrow> 's \<Rightarrow> (cred_error + string \<times> string) \<times> 's) \<Rightarrow> duration \<Rightarrow> bool \<Rightarrow> (method_request \<Rightarrow> string option) \<Rightarrow>
   method_request \<Rightarrow> 's \<Rightarrow> login_response \<times> 's" where
  "HandleLogin bootstrap accessTTL cookieSecure form r s =
     (if rq_Method r = ''GET'' then (serveLoginForm '''', s)
      else if rq_Method r = ''POST'' then handleLoginSubmit bootstrap accessTTL cookieSecure (form r) s
      else (LoginMethodNotAllowed ''GET, POST'', s))"

definition HandleLogout :: "bool \<Rightarrow> method_request \<Rightarrow> login_response" where
  "HandleLogout cookieSecure r =
     (if rq_Method r \<noteq> ''POST'' then LoginMethodNotAllowed ''POST''
      else LoginRedirect (session_cookie_of cookieSecure '''' (- 1)) ''/dashboard/login'')"

section \<open>The authorizers of the process\<close>

text \<open>\<open>authenticate\<close> is the process's identity authenticator; \<open>check\<close> and \<open>isGlobal\<close> are the RBAC checker's.\<close>

type_synonym 's authenticator = "method_request \<Rightarrow> 's \<Rightarrow> (unit + string \<times> string) \<times> 's"

record checker =
  ck_Check :: "string \<Rightarrow> string \<Rightarrow> Permission \<Rightarrow> bool"
  ck_IsGlobal :: "string \<Rightarrow> Permission \<Rightarrow> bool"

definition rbac_checker :: "(string \<Rightarrow> bool) \<Rightarrow> Authorizer \<Rightarrow> checker" where
  "rbac_checker flags az = \<lparr>ck_Check = rbac_Check flags az, ck_IsGlobal = rbac_IsGlobal flags az\<rparr>"

definition maxRevokeAuthorizerPeekBytes :: nat where
  "maxRevokeAuthorizerPeekBytes = 65536"

definition targetIdentityFromRequest :: "method_request \<Rightarrow> (string \<times> method_request) option" where
  "targetIdentityFromRequest r =
     (if rq_BodyBroken r \<and> length (rq_Body r) < maxRevokeAuthorizerPeekBytes then None
      else let body = take maxRevokeAuthorizerPeekBytes (rq_Body r);
               r = r\<lparr>rq_Body := body, rq_BodyBroken := False\<rparr>
           in case Option.bind (struct_members body) (string_field ''identity'') of
                None \<Rightarrow> None
              | Some identity \<Rightarrow> if identity = '''' then None else Some (identity, r))"

definition newRevokeAuthorizer ::
  "'s authenticator \<Rightarrow> checker \<Rightarrow> (string \<Rightarrow> string option) \<Rightarrow> 's revoke_authorizer" where
  "newRevokeAuthorizer authenticate checker identityTenant r s =
     (case authenticate r s of
        (Inl _, s) \<Rightarrow> ((False, r), s)
      | (Inr (who, callerTenant), s) \<Rightarrow>
          if \<not> ck_Check checker who callerTenant PermissionCredentialRevoke then ((False, r), s)
          else if ck_IsGlobal checker who PermissionCredentialRevoke then ((True, r), s)
          else case targetIdentityFromRequest r of
                 None \<Rightarrow> ((False, r), s)
               | Some (targetIdentity, r) \<Rightarrow> ((identityTenant targetIdentity = Some callerTenant, r), s))"

definition newCallerInfoResolver :: "'s authenticator \<Rightarrow> checker \<Rightarrow> method_request \<Rightarrow> 's \<Rightarrow> (string \<times> bool) \<times> 's" where
  "newCallerInfoResolver authenticate checker r s =
     (case authenticate r s of
        (Inl _, s) \<Rightarrow> (('''', False), s)
      | (Inr (who, callerTenant), s) \<Rightarrow>
          (if who = '''' then ('''', False) else (who, ck_Check checker who callerTenant PermissionConfigEdit), s))"

definition dashboardFailClosedTenantFilter :: string where
  "dashboardFailClosedTenantFilter = CHR 0x00 # ''unresolved''"

definition newScopeResolver :: "'s authenticator \<Rightarrow> checker \<Rightarrow> method_request \<Rightarrow> 's \<Rightarrow> string \<times> 's" where
  "newScopeResolver authenticate checker r s =
     (case authenticate r s of
        (Inl _, s) \<Rightarrow> (dashboardFailClosedTenantFilter, s)
      | (Inr (who, callerTenant), s) \<Rightarrow>
          (if ck_IsGlobal checker who PermissionDashboardView then '''' else callerTenant, s))"

definition newUnblockAuthorizer :: "'s authenticator \<Rightarrow> checker \<Rightarrow> method_request \<Rightarrow> string \<Rightarrow> 's \<Rightarrow> bool \<times> 's" where
  "newUnblockAuthorizer authenticate checker r targetTenant s =
     (case authenticate r s of
        (Inl _, s) \<Rightarrow> (False, s)
      | (Inr (who, callerTenant), s) \<Rightarrow>
          (ck_Check checker who callerTenant PermissionCredentialRevoke \<and>
           (targetTenant = '''' \<or> targetTenant = callerTenant \<or> ck_IsGlobal checker who PermissionCredentialRevoke), s))"

definition newReloadAuthorizer :: "'s authenticator \<Rightarrow> checker \<Rightarrow> method_request \<Rightarrow> 's \<Rightarrow> (string \<times> bool) \<times> 's" where
  "newReloadAuthorizer authenticate checker r s =
     (case authenticate r s of
        (Inl _, s) \<Rightarrow> (('''', False), s)
      | (Inr (who, callerTenant), s) \<Rightarrow>
          (if ck_Check checker who callerTenant PermissionConfigEdit then (who, True) else ('''', False), s))"

text \<open>
  The handler as the process wires it over the in-memory stores: the lookup of an identity's tenant serves both
  the authorizer and the handler, and the revocation horizon is the lifetime of an access token.
\<close>

definition wired_credential_handler ::
  "(string \<Rightarrow> bool) \<Rightarrow> Authorizer \<Rightarrow> credential_state authenticator \<Rightarrow> (string \<Rightarrow> string option) \<Rightarrow>
   (string \<Rightarrow> cred_error + string \<times> string) \<Rightarrow> (string \<Rightarrow> string \<Rightarrow> cred_error + string) \<Rightarrow> string \<Rightarrow> duration \<Rightarrow> duration \<Rightarrow>
   credential_state credential_Handler" where
  "wired_credential_handler flags az identityAuth tenantOf authenticate issue mtlsHeader accessTokenTTL refreshTokenTTL =
     \<lparr>ch_authenticate = authenticate, ch_issue = issue, ch_store = credential_RefreshStore, ch_revoker = credential_Revoker,
      ch_refreshTokenTTL = refreshTokenTTL,
      ch_revokeAuthorizer = (if flags rbacFeatureFlag then Some (newRevokeAuthorizer identityAuth (rbac_checker flags az) tenantOf) else None),
      ch_targetTenant = tenantOf, ch_mtlsHeader = mtlsHeader, ch_revocationHorizon = accessTokenTTL\<rparr>"

section \<open>The authorizer and the handler read the same request\<close>

lemma decode_members_whole:
  assumes "struct_members body = Some ms" and "rq_Body r = body" and "\<not> rq_BodyBroken r" and "length body \<le> limit"
  shows "decode_members limit r = Some ms"
  using assms
  by (auto simp: struct_members_def json_scan_def decode_members_def decode_first_def
      split: option.splits json.splits prod.splits if_splits)

lemma peeked_identity:
  assumes "targetIdentityFromRequest r = Some (identity, r')"
  shows "identity \<noteq> ''''" and "rq_Method r' = rq_Method r"
    and "\<exists>ms. decode_members maxTokenRequestBodyBytes r' = Some ms \<and> string_field ''identity'' ms = Some identity"
proof -
  let ?body = "take maxRevokeAuthorizerPeekBytes (rq_Body r)"
  obtain ms where ms: "struct_members ?body = Some ms" "string_field ''identity'' ms = Some identity"
    and ne: "identity \<noteq> ''''" and r': "r' = r\<lparr>rq_Body := ?body, rq_BodyBroken := False\<rparr>"
    using assms by (auto simp: targetIdentityFromRequest_def bind_eq_Some_conv split: if_splits option.splits)
  have "length ?body \<le> maxTokenRequestBodyBytes"
    by (simp add: maxRevokeAuthorizerPeekBytes_def maxTokenRequestBodyBytes_def)
  with decode_members_whole [OF ms(1), of r'] ms(2) r'
  show "\<exists>ms. decode_members maxTokenRequestBodyBytes r' = Some ms \<and> string_field ''identity'' ms = Some identity"
    by auto
  show "identity \<noteq> ''''" "rq_Method r' = rq_Method r" using ne r' by auto
qed

lemma peeked_revoke_request:
  assumes "targetIdentityFromRequest r = Some (identity, r')" and "revoke_request r' = Some (identity', t)"
  shows "identity' = identity"
  using peeked_identity(3) [OF assms(1)] assms(2)
  by (auto simp: revoke_request_def split: option.splits if_splits)

text \<open>What a remote caller without a global grant can bring about: nothing, or a revocation in its own tenant.\<close>

lemma scoped_HandleRevoke:
  assumes "\<not> isLoopback (rq_RemoteAddr r)"
    and az: "ch_revokeAuthorizer h = Some (newRevokeAuthorizer authenticate checker tenantOf)" and same: "ch_targetTenant h = tenantOf"
    and auth: "authenticate r s = (Inr (who, ct), s1)" and "\<not> ck_IsGlobal checker who PermissionCredentialRevoke"
    and run: "HandleRevoke h r now s = (resp, s')"
  obtains "resp \<noteq> Revoked" and "s' = s1"
  | identity where "tenantOf identity = Some ct" and "ck_Check checker who ct PermissionCredentialRevoke"
      and "(if resp = Revoked then None else Some ()) = map_option (\<lambda>_. ()) (fst (Revocation_Revoke (ch_revoker h) (ch_store h) ct identity (now + ch_revocationHorizon h) s1))"
      and "s' = snd (Revocation_Revoke (ch_revoker h) (ch_store h) ct identity (now + ch_revocationHorizon h) s1)"
proof (cases "ck_Check checker who ct PermissionCredentialRevoke \<and> (\<exists>i r'. targetIdentityFromRequest r = Some (i, r') \<and> tenantOf i = Some ct)")
  case False
  then have "\<exists>r'. revoke_guard h r s = ((False, r'), s1)"
    using assms by (auto simp: revoke_guard_def newRevokeAuthorizer_def split: option.split)
  with run that(1) show ?thesis by (auto simp: HandleRevoke_def)
next
  case True
  then obtain i r' where chk: "ck_Check checker who ct PermissionCredentialRevoke"
    and peek: "targetIdentityFromRequest r = Some (i, r')" and own: "tenantOf i = Some ct" by blast
  then have guard: "revoke_guard h r s = ((True, r'), s1)"
    using assms by (simp add: revoke_guard_def newRevokeAuthorizer_def)
  show ?thesis
  proof (cases "rq_Method r' = ''POST'' \<and> revoke_request r' \<noteq> None")
    case False
    then show ?thesis using run guard that(1) by (auto simp: HandleRevoke_def split: if_splits option.splits)
  next
    case True
    then obtain t where req: "revoke_request r' = Some (i, t)" using peeked_revoke_request [OF peek] by auto
    obtain err s2 where rev: "Revocation_Revoke (ch_revoker h) (ch_store h) ct i (now + ch_revocationHorizon h) s1 = (err, s2)"
      by fastforce
    have "resp = (if err = None then Revoked else CredentialError 500 ''revocation failed to persist'')" "s' = s2"
      using run guard True req rev own same by (auto simp: HandleRevoke_def split: option.splits)
    with rev own chk show ?thesis by (intro that(2) [of i]) auto
  qed
qed

section \<open>What a revocation touches\<close>

lemma credential_revoke:
  "Revocation_Revoke credential_Revoker credential_RefreshStore t i e s =
     (None, s\<lparr>cs_revoked := Revoke t i e (cs_revoked s), cs_refresh := RevokeAllForIdentity t i (cs_refresh s)\<rparr>)"
  by (simp add: Revocation_Revoke_def credential_Revoker_def credential_RefreshStore_def)

lemma Revoke_scoped_frame:
  assumes "t \<noteq> ''''" and "(t', i') \<noteq> (t, i)" and "i' \<noteq> tenant_Key t i"
  shows "fst (IsRevoked t' i' n (Revoke t i e r)) = fst (IsRevoked t' i' n r)"
proof -
  have "revocation_key t' i' \<noteq> tenant_Key t i" using assms(2,3) by (auto simp: revocation_key_def tenant_Key_eq_iff)
  with assms(1,3) show ?thesis by (simp add: IsRevoked_iff live_entry_def Revoke_def revocation_key_def [of t])
qed

text \<open>
  A scoped revocation and a revocation in every tenant share their key space: an identity whose name is the
  composite key of another identity is revoked with it, in every tenant.
\<close>

lemma scoped_revoke_collides:
  "t \<noteq> '''' \<Longrightarrow> now \<le> e \<Longrightarrow> fst (IsRevoked t' (tenant_Key t i) now (Revoke t i e r))"
  by (simp add: IsRevoked_iff live_entry_def Revoke_def revocation_key_def)

lemma RevokeAll_frame:
  "irs_byTok s tok = Some en \<Longrightarrow> t \<noteq> '''' \<Longrightarrow> (re_tenant en, re_identity en) \<noteq> (t, i) \<Longrightarrow>
     irs_byTok (RevokeAllForIdentity t i s) tok = Some en"
  by (auto simp: RevokeAll_view)

lemma registered_tenant_nonempty:
  assumes "LoadBootstrapper es = Inr reg" and "range_order ks reg" and "Bootstrapper_TenantOf ks reg identity = Some t"
  shows "t \<noteq> '''' \<and> (\<exists>e \<in> set es. ri_Name e = identity)"
proof -
  have "(\<exists>e \<in> set es. ri_Name e = identity) \<and>
      (\<forall>e \<in> set es. ri_Name e = identity \<longrightarrow> (if ri_Tenant e = '''' then tenant_Default else ri_Tenant e) = t)"
    using assms secrets.loaded_tenant by (simp add: Bootstrapper_TenantOf_def LoadBootstrapper_def)
  then show ?thesis by (auto simp: tenant_Default_def split: if_splits)
qed

text \<open>
  C9. A remote caller whose revoke grant is not global is confined to its own tenant. Whatever request it sends,
  either nothing changes beyond its own authentication, or exactly one identity is revoked, one that the
  registry places in the caller's tenant: the refresh tokens of every other pair of tenant and identity stay, and so
  does its revocation status, with one exception: an identity whose name is the composite key of the revoked one
  is revoked with it in every tenant, since the list keeps both kinds of revocation under one kind of key.
\<close>

theorem scoped_revoker_confined:
  assumes "LoadBootstrapper es = Inr reg" and "range_order ks reg" and "flags rbacFeatureFlag"
    and "\<not> isLoopback (rq_RemoteAddr r)" and "identityAuth r s = (Inr (who, ct), s1)"
    and "\<not> az_IsGlobal az who PermissionCredentialRevoke"
    and "HandleRevoke (wired_credential_handler flags az identityAuth (Bootstrapper_TenantOf ks reg) authenticate issue mtls ttl rttl) r now s = (resp, s')"
  shows "resp \<noteq> Revoked \<and> s' = s1 \<or>
    resp = Revoked \<and> az_Authorize az who ct PermissionCredentialRevoke \<and>
    (\<exists>identity. Bootstrapper_TenantOf ks reg identity = Some ct \<and> fst (IsRevoked ct identity (now + ttl) (cs_revoked s')) \<and>
      (\<forall>t i. (t, i) \<noteq> (ct, identity) \<longrightarrow>
        (if i = tenant_Key ct identity then \<forall>n. n \<le> now + ttl \<longrightarrow> fst (IsRevoked t i n (cs_revoked s'))
         else \<forall>n. fst (IsRevoked t i n (cs_revoked s')) = fst (IsRevoked t i n (cs_revoked s1))) \<and>
        (\<forall>tok en. irs_byTok (cs_refresh s1) tok = Some en \<and> re_tenant en = t \<and> re_identity en = i \<longrightarrow>
           irs_byTok (cs_refresh s') tok = Some en)))"
proof -
  let ?tenantOf = "Bootstrapper_TenantOf ks reg" and ?ck = "rbac_checker flags az"
  let ?h = "wired_credential_handler flags az identityAuth ?tenantOf authenticate issue mtls ttl rttl"
  have h: "ch_revokeAuthorizer ?h = Some (newRevokeAuthorizer identityAuth ?ck ?tenantOf)" "ch_targetTenant ?h = ?tenantOf"
    "ch_revoker ?h = credential_Revoker" "ch_store ?h = credential_RefreshStore" "ch_revocationHorizon ?h = ttl"
    using assms(3) by (simp_all add: wired_credential_handler_def)
  have "\<not> ck_IsGlobal ?ck who PermissionCredentialRevoke" using assms(3,6) by (simp add: rbac_checker_def rbac_IsGlobal_def)
  from scoped_HandleRevoke [OF assms(4) h(1,2) assms(5) this assms(7)] show ?thesis
  proof cases
    case 1
    then show ?thesis by simp
  next
    case (2 identity)
    then have resp: "resp = Revoked" and chk: "az_Authorize az who ct PermissionCredentialRevoke"
      and s': "s' = s1\<lparr>cs_revoked := Revoke ct identity (now + ttl) (cs_revoked s1),
        cs_refresh := RevokeAllForIdentity ct identity (cs_refresh s1)\<rparr>"
      using assms(3) by (simp_all add: h credential_revoke rbac_checker_def rbac_Check_def split: if_splits)
    have ct: "ct \<noteq> ''''" using registered_tenant_nonempty [OF assms(1,2)] 2(1) by blast
    have "fst (IsRevoked ct identity (now + ttl) (cs_revoked s'))"
      by (simp add: s' IsRevoked_iff live_entry_def Revoke_def)
    moreover have "irs_byTok (cs_refresh s') tok = Some en"
      if "(t, i) \<noteq> (ct, identity)" "irs_byTok (cs_refresh s1) tok = Some en" "re_tenant en = t" "re_identity en = i" for t i tok en
      unfolding s' using RevokeAll_frame [OF that(2) ct, of identity] that(1,3,4) by simp
    moreover have "fst (IsRevoked t i n (cs_revoked s')) = fst (IsRevoked t i n (cs_revoked s1))"
      if "(t, i) \<noteq> (ct, identity)" "i \<noteq> tenant_Key ct identity" for t i n
      using Revoke_scoped_frame [OF ct that] by (simp add: s')
    moreover have "fst (IsRevoked t (tenant_Key ct identity) n (cs_revoked s'))" if "n \<le> now + ttl" for t n
      using scoped_revoke_collides [OF ct that] by (simp add: s')
    ultimately show ?thesis using resp chk 2(1) by (intro disjI2 conjI exI [of _ identity]) auto
  qed
qed

text \<open>An example: alice, who may revoke in acme, revokes an identity of acme from another host.\<close>

definition example_staff :: "RegisteredIdentity list" where
  "example_staff =
     [\<lparr>ri_Name = ''dave'', ri_Secret = ''s1'', ri_Tenant = ''acme'', ri_SpiffeID = ''''\<rparr>,
      \<lparr>ri_Name = ''erin'', ri_Secret = ''s2'', ri_Tenant = ''globex'', ri_SpiffeID = ''''\<rparr>]"

definition example_staff_registry :: "string \<rightharpoonup> registeredEntry" where
  "example_staff_registry = [''s1'' \<mapsto> \<lparr>en_identity = ''dave'', en_tenant = ''acme''\<rparr>,
     ''s2'' \<mapsto> \<lparr>en_identity = ''erin'', en_tenant = ''globex''\<rparr>]"

definition example_credential_state :: credential_state where
  "example_credential_state = \<lparr>cs_revoked = NewRevocationList, cs_refresh = NewInMemoryRefreshStore\<rparr>"

definition example_credential_handler :: "credential_state credential_Handler" where
  "example_credential_handler =
     wired_credential_handler (\<lambda>_. True) (static_Authorizer example_authorizer) (\<lambda>r s. (Inr (''alice'', ''acme''), s))
       (Bootstrapper_TenantOf [''s1'', ''s2''] example_staff_registry) (\<lambda>_. Inl ErrInvalidCredentials)
       (\<lambda>_ _. Inr ''tok'') '''' 100 1000"

definition example_revoke :: "string \<Rightarrow> string \<Rightarrow> method_request" where
  "example_revoke remote body = \<lparr>rq_RemoteAddr = remote, rq_Header = (\<lambda>_. []), rq_Body = body, rq_BodyBroken = False,
     rq_Method = ''POST''\<rparr>"

definition revoke_body :: "string \<Rightarrow> string" where
  "revoke_body identity = [CHR 0x7B, CHR 0x22] @ ''identity'' @ [CHR 0x22, CHR '':'', CHR 0x22] @ identity @ [CHR 0x22, CHR 0x7D]"

lemma example_staff_loaded: "LoadBootstrapper example_staff = Inr example_staff_registry"
  by (simp add: LoadBootstrapper_def example_staff_def example_staff_registry_def entry_of_def fun_upd_twist)

lemma example_staff_order: "range_order [''s1'', ''s2''] example_staff_registry"
  by (auto simp: range_order_def example_staff_registry_def)

lemma example_revokes:
  "fst (HandleRevoke example_credential_handler (example_revoke ''10.0.0.9:4000'' (revoke_body ''dave'')) 50 example_credential_state) = Revoked"
  "fst (HandleRevoke example_credential_handler (example_revoke ''10.0.0.9:4000'' (revoke_body ''erin'')) 50 example_credential_state) =
     CredentialError 403 ''forbidden''"
  by code_simp+

theorem scoped_revoker_confined_witness:
  "let run = (\<lambda>who. HandleRevoke example_credential_handler (example_revoke ''10.0.0.9:4000'' (revoke_body who)) 50 example_credential_state)
   in fst (run ''dave'') = Revoked \<and> snd (run ''erin'') = example_credential_state"
proof -
  have ng: "\<not> az_IsGlobal (static_Authorizer example_authorizer) ''alice'' PermissionCredentialRevoke" by code_simp
  have remote: "\<not> isLoopback (rq_RemoteAddr (example_revoke ''10.0.0.9:4000'' b))" for b
    using loopback_forms by (simp add: example_revoke_def) code_simp
  obtain resp s' where run: "HandleRevoke example_credential_handler (example_revoke ''10.0.0.9:4000'' (revoke_body ''erin'')) 50
      example_credential_state = (resp, s')" by fastforce
  have "resp \<noteq> Revoked" using example_revokes(2) run by simp
  moreover have "resp \<noteq> Revoked \<and> s' = example_credential_state \<or> resp = Revoked"
    using scoped_revoker_confined [where ?s1.0 = example_credential_state and flags = "\<lambda>_. True",
        OF example_staff_loaded example_staff_order _ remote _ ng run [unfolded example_credential_handler_def]] by blast
  ultimately show ?thesis using run example_revokes(1) by simp
qed

text \<open>
  C17. A revocation by the operator outlives every token it was meant for: a token that expires within an
  access-token lifetime of the revocation, as every token issued before it does, never authenticates
  the revoked identity again, at any later time and whatever revocation checks and (no shorter)
  revocations happen in between; and no refresh token of the identity is left.
\<close>

theorem revoked_tokens_dead_for_good:
  assumes "isLoopback (rq_RemoteAddr r)" and "rq_Method r = ''POST''" and "revoke_request r = Some (identity, reqTenant)"
    and "(case tenantOf identity of Some t \<Rightarrow> t | None \<Rightarrow> reqTenant) \<in> {'''', t}"
    and "HandleRevoke (wired_credential_handler flags az identityAuth tenantOf authenticate issue mtls ttl rttl) r now s = (resp, s')"
    and "\<And>n c. verify token n = Inr c \<Longrightarrow> n \<le> cl_ExpiresAt c \<and> cl_ExpiresAt c \<le> now + ttl"
    and "nowR \<le> now + ttl \<longrightarrow> (\<forall>op \<in> set ops. within (now + ttl) op)"
  shows "resp = Revoked \<and>
    fst (Verification_Authenticate verify inmemory_Revoker token nowR nowR
      (fold (revoker_step inmemory_Revoker) ops (cs_revoked s'))) \<noteq> Inr (identity, t) \<and>
    (\<forall>tok en. irs_byTok (cs_refresh s') tok = Some en \<longrightarrow> (re_tenant en, re_identity en) \<noteq> (t, identity))"
proof -
  let ?T = "case tenantOf identity of Some t \<Rightarrow> t | None \<Rightarrow> reqTenant"
  have s': "resp = Revoked" "s' = s\<lparr>cs_revoked := Revoke ?T identity (now + ttl) (cs_revoked s),
      cs_refresh := RevokeAllForIdentity ?T identity (cs_refresh s)\<rparr>"
    using assms(1-3,5)
    by (simp_all add: HandleRevoke_def revoke_guard_def wired_credential_handler_def credential_revoke)
  have "fst (Verification_Authenticate verify inmemory_Revoker token nowR nowR
      (fold (revoker_step inmemory_Revoker) ops (cs_revoked s'))) \<noteq> Inr (identity, t)"
  proof (cases "nowR \<le> now + ttl")
    case True
    then have ops: "\<forall>op \<in> set ops. within (now + ttl) op" using assms(7) by simp
    have "rv_Revoke inmemory_Revoker ?T identity (now + ttl) (cs_revoked s) = (None, cs_revoked s')"
      by (simp add: s' inmemory_Revoker_def)
    then show ?thesis using inmemory_revoker.revocation_effective [OF _ _ ops True] assms(4) by blast
  next
    case False
    then have "isl (verify token nowR)" using assms(6) [of nowR] by (cases "verify token nowR") auto
    then show ?thesis by (auto simp: Verification_Authenticate_def isl_def)
  qed
  moreover have "(re_tenant en, re_identity en) \<noteq> (t, identity)" if "irs_byTok (cs_refresh s') tok = Some en" for tok en
    using that assms(4) by (auto simp: s' RevokeAll_view)
  ultimately show ?thesis using s'(1) by blast
qed

theorem revoked_tokens_dead_for_good_witness:
  "let verify = (\<lambda>token n. if n \<le> 120 then Inr \<lparr>cl_Subject = ''erin'', cl_Tenant = ''globex'', cl_IssuedAt = 20,
         cl_ExpiresAt = 120, cl_ID = ''j''\<rparr> else Inl ErrTokenExpired);
       s' = snd (HandleRevoke example_credential_handler (example_revoke ''127.0.0.1:4000'' (revoke_body ''erin'')) 50 example_credential_state)
   in fst (Verification_Authenticate verify inmemory_Revoker ''tok'' 60 60 (cs_revoked example_credential_state)) = Inr (''erin'', ''globex'') \<and>
      (\<forall>n. fst (Verification_Authenticate verify inmemory_Revoker ''tok'' n n (cs_revoked s')) \<noteq> Inr (''erin'', ''globex''))"
proof -
  let ?verify = "\<lambda>(token :: string) n. if n \<le> 120 then Inr \<lparr>cl_Subject = ''erin'', cl_Tenant = ''globex'', cl_IssuedAt = 20,
         cl_ExpiresAt = 120, cl_ID = ''j''\<rparr> else Inl ErrTokenExpired"
  let ?r = "example_revoke ''127.0.0.1:4000'' (revoke_body ''erin'')"
  obtain resp s' where run: "HandleRevoke example_credential_handler ?r 50 example_credential_state = (resp, s')" by fastforce
  have r: "isLoopback (rq_RemoteAddr ?r)" "rq_Method ?r = ''POST''" "revoke_request ?r = Some (''erin'', '''')"
    "(case Bootstrapper_TenantOf [''s1'', ''s2''] example_staff_registry ''erin'' of Some t \<Rightarrow> t | None \<Rightarrow> '''') \<in> {'''', ''globex''}"
    by code_simp+
  have "fst (Verification_Authenticate ?verify inmemory_Revoker ''tok'' n n
      (fold (revoker_step inmemory_Revoker) [] (cs_revoked s'))) \<noteq> Inr (''erin'', ''globex'')" for n
  proof -
    have exp: "m \<le> cl_ExpiresAt c \<and> cl_ExpiresAt c \<le> 50 + 100" if "?verify token m = Inr c" for token m c
      using that by (auto split: if_splits)
    show ?thesis
      using revoked_tokens_dead_for_good [where verify = ?verify and token = "''tok''" and nowR = n and ops = "[]",
          OF r run [unfolded example_credential_handler_def] exp] by simp
  qed
  moreover have "fst (Verification_Authenticate ?verify inmemory_Revoker ''tok'' 60 60 (cs_revoked example_credential_state)) =
      Inr (''erin'', ''globex'')"
    using fresh_list_not_revoked
    by (simp add: Verification_Authenticate_def inmemory_Revoker_def example_credential_state_def split_def)
  ultimately show ?thesis using run by simp
qed

end
