(* ===== verification/Dashboard.thy ===== *)
theory Dashboard
  imports Float64 Credential_Endpoints Reload Auto_Block Ring_Buffer Approval Job_Budget Cost_Budget Federation "HOL-Library.AList"
begin

text \<open>
  The dashboard's HTTP handler (\<open>internal/features/dashboard/adapter/handler.go\<close>): its read views, which are
  filtered by the caller's tenant, its mutations (unblocking, deciding approvals, reloading and editing the
  configuration), its routing, and its wiring in \<open>cmd/wardline/main.go\<close>.

  A source the process does not wire is \<open>None\<close> and its route answers 404. The handler is a record of its
  sources over a state; the last part wires it to the stores of the other theories. Timestamps stay
  times (the code formats them), the two editors' request bodies are given decoded, and the request path is
  one the mux has already cleaned. Authentication is a function of the request: what it does to the
  revocation list is not part of this state.
\<close>

section \<open>Requests\<close>

record policyRuleInput =
  ri_RuleIdentity :: string
  ri_RuleTool :: string
  ri_RuleTenant :: string
  ri_RuleEffect :: string
  ri_RuleMethod :: string

record budgetOverrideInput =
  bi_Scope :: string
  bi_Name :: string
  bi_RequestsPerWindow :: int
  bi_WindowSeconds :: int

record budgetWriteRequest =
  bw_RequestsPerWindow :: int
  bw_WindowSeconds :: int
  bw_TenantOverrides :: "budgetOverrideInput list"
  bw_ToolOverrides :: "budgetOverrideInput list"

text \<open>\<open>rq_Query\<close> is the first value of a query parameter, empty when it is absent.\<close>

record dash_request = method_request +
  rq_Path :: string
  rq_Query :: "string \<Rightarrow> string"
  rq_PolicyWrite :: "(policyRuleInput list \<times> string) option"
  rq_BudgetWrite :: "budgetWriteRequest option"

text \<open>\<open>strconv.ParseInt(s, 10, 64)\<close>; a value out of range is an error.\<close>

definition ParseInt64 :: "string \<Rightarrow> int option" where
  "ParseInt64 s =
     (let (neg, ds) = (case s of
            c # r \<Rightarrow> if c = CHR ''-'' then (True, r) else if c = CHR ''+'' then (False, r) else (False, s)
          | [] \<Rightarrow> (False, []));
          n = foldl (\<lambda>acc c. acc * 10 + int (byte c - 48)) 0 ds;
          v = (if neg then - n else n)
      in if ds = [] \<or> \<not> list_all is_digit ds \<or> v < - (2 ^ 63) \<or> 2 ^ 63 \<le> v then None else Some v)"

definition defaultAuditLimit :: int where
  "defaultAuditLimit = 100"

definition maxAuditLimit :: int where
  "maxAuditLimit = 1000"

definition pagination :: "dash_request \<Rightarrow> int \<times> int" where
  "pagination r =
     (let after = (case ParseInt64 (rq_Query r ''after'') of None \<Rightarrow> 0 | Some a \<Rightarrow> a);
          limit = (case ParseInt64 (rq_Query r ''limit'') of
                     None \<Rightarrow> defaultAuditLimit
                   | Some l \<Rightarrow> if l \<le> 0 then defaultAuditLimit else l)
      in (after, if maxAuditLimit < limit then maxAuditLimit else limit))"

section \<open>What the views show\<close>

record 'f AnomalyEntry =
  ay_ID :: int
  ay_Timestamp :: go_time
  ay_Identity :: string
  ay_Tenant :: string
  ay_Kind :: string
  ay_Detail :: string
  ay_Tool :: string
  ay_Score :: "'f option"
  ay_AutoBlockSeconds :: int

definition anomaly_entry :: "'f Alert \<Rightarrow> 'f AnomalyEntry" where
  "anomaly_entry a = \<lparr>ay_ID = al_ID a, ay_Timestamp = an_Timestamp (al_Anomaly a), ay_Identity = an_Identity (al_Anomaly a),
     ay_Tenant = an_Tenant (al_Anomaly a), ay_Kind = kind_text (an_Kind (al_Anomaly a)), ay_Detail = an_Detail (al_Anomaly a),
     ay_Tool = e_Tool (an_Entry (al_Anomaly a)), ay_Score = an_Score (al_Anomaly a),
     ay_AutoBlockSeconds = an_AutoBlockSeconds (al_Anomaly a)\<rparr>"

record RoleEntry =
  re_Name :: string
  re_Permissions :: "string list"
  re_BindingCount :: int

record BindingEntry =
  bn_Subject :: string
  bn_Role :: string
  bn_Tenant :: string

record RBACSource =
  rv_Roles :: "Role list"
  rv_Cluster :: "ClusterRoleBinding list"
  rv_Scoped :: "RoleBinding list"

definition binding_entries :: "RBACSource \<Rightarrow> BindingEntry list" where
  "binding_entries rb =
     map (\<lambda>b. \<lparr>bn_Subject = crb_Subject b, bn_Role = crb_RoleName b, bn_Tenant = ''''\<rparr>) (rv_Cluster rb) @
     map (\<lambda>b. \<lparr>bn_Subject = rb_Subject b, bn_Role = rb_RoleName b, bn_Tenant = rb_Tenant b\<rparr>) (rv_Scoped rb)"

definition role_entries :: "RBACSource \<Rightarrow> RoleEntry list" where
  "role_entries rb =
     map (\<lambda>role. \<lparr>re_Name = role_Name role, re_Permissions = role_Permissions role,
        re_BindingCount = int (length (filter (\<lambda>b. bn_Role b = role_Name role) (binding_entries rb)))\<rparr>) (rv_Roles rb)"

record BudgetOverrideEntry =
  oe_Scope :: string
  oe_Name :: string
  oe_RequestsPerWindow :: int
  oe_WindowSeconds :: int

text \<open>\<open>int(d.Seconds())\<close>: through a floating-point number, so that a long duration may round up to the next second.\<close>

definition Seconds :: "duration \<Rightarrow> int" where
  "Seconds d = (case f_to_int (Duration_Seconds d) of Some n \<Rightarrow> n | None \<Rightarrow> 0)"

lemma Seconds_whole: "\<bar>n\<bar> \<le> 2 ^ 53 \<Longrightarrow> Seconds (n * second) = n"
proof -
  assume n: "\<bar>n\<bar> \<le> 2 ^ 53"
  then have "Duration_Seconds (n * second) = Finite (of_int n)"
    by (simp add: Duration_Seconds_def signed_divide_int_def signed_modulo_int_def second_def sgn_if abs_mult f_of_int_exact round64_int)
  with n show ?thesis by (simp add: Seconds_def f_to_int_def) linarith
qed

definition override_entry :: "OverrideInfo \<Rightarrow> BudgetOverrideEntry" where
  "override_entry ov = \<lparr>oe_Scope = ov_Scope ov, oe_Name = ov_Name ov,
     oe_RequestsPerWindow = li_RequestsPerWindow (ov_Limit ov), oe_WindowSeconds = Seconds (li_Window (ov_Limit ov))\<rparr>"

record StatusInfo =
  si_Version :: string
  si_UptimeSeconds :: int
  si_Listen :: string
  si_Upstream :: string
  si_Features :: "string \<Rightarrow> bool"

text \<open>
  The status provider (\<open>dashboard/usecase/status.go\<close>). \<open>parseURL\<close> is \<open>url.Parse\<close>: the parsed URL as whether it has user
  information and as the text it has without it.
\<close>

record StatusProvider =
  st_version :: string
  st_listen :: string
  st_upstream :: string
  st_features :: "string \<Rightarrow> bool"
  st_startedAt :: go_time

definition redactUserinfo :: "(string \<Rightarrow> (bool \<times> string) option) \<Rightarrow> string \<Rightarrow> string" where
  "redactUserinfo parseURL raw =
     (case parseURL raw of None \<Rightarrow> raw | Some (hasUser, stripped) \<Rightarrow> if hasUser then stripped else raw)"

definition NewStatusProvider ::
  "(string \<Rightarrow> (bool \<times> string) option) \<Rightarrow> string \<Rightarrow> string \<Rightarrow> string \<Rightarrow> (string \<Rightarrow> bool) \<Rightarrow> go_time \<Rightarrow> StatusProvider" where
  "NewStatusProvider parseURL version listen upstream features startedAt =
     \<lparr>st_version = version, st_listen = listen, st_upstream = redactUserinfo parseURL upstream, st_features = features,
      st_startedAt = startedAt\<rparr>"

definition Status :: "StatusProvider \<Rightarrow> go_time \<Rightarrow> StatusInfo" where
  "Status p now = \<lparr>si_Version = st_version p, si_UptimeSeconds = Seconds (time_sub now (st_startedAt p)), si_Listen = st_listen p,
     si_Upstream = st_upstream p, si_Features = st_features p\<rparr>"

datatype ('f, 'm) dash_response =
    AuditView "LiveEntry list"
  | AnomalyView "'f AnomalyEntry list"
  | CorrelatedView "CorrelatedAlertEntry list"
  | BlockedView "BlockedEntry list"
  | ApprovalsView "approval_Request list"
  | JobsView "job_Entry list"
  | CostsView "cost_Entry list"
  | RBACView "RoleEntry list" "BindingEntry list"
  | BudgetView "int \<times> int" "BudgetOverrideEntry list"
  | PolicyView PolicyInfo
  | StatusView StatusInfo string string bool \<comment> \<open>with the caller's tenant, identity and config:edit flag\<close>
  | ReloadHistoryView "ReloadEvent list"
  | ReloadView ReloadResult
  | ComplianceView 'm
  | DashNoContent
  | EditError \<comment> \<open>400 with the text of the error\<close>
  | DashError int string
  | SpaAsset string
  | SpaIndex

section \<open>The handler\<close>

record 's BlockedSource =
  bs_List :: "string \<Rightarrow> 's \<Rightarrow> BlockedEntry list"
  bs_Unblock :: "string \<Rightarrow> string \<Rightarrow> 's \<Rightarrow> bool \<times> 's"

record 's ApprovalSource =
  sp_ListPending :: "string \<Rightarrow> 's \<Rightarrow> approval_Request list"
  sp_Approve :: "string \<Rightarrow> string \<Rightarrow> 's \<Rightarrow> manager_error option \<times> 's"
  sp_Deny :: "string \<Rightarrow> string \<Rightarrow> 's \<Rightarrow> manager_error option \<times> 's"

record 's BudgetSource =
  bg_Default :: "'s \<Rightarrow> LimitInfo"
  bg_Tenants :: "'s \<Rightarrow> OverrideInfo list"
  bg_Tools :: "'s \<Rightarrow> OverrideInfo list"

record ('s, 'f, 'm) dash_Handler =
  dh_audit :: "int \<Rightarrow> int \<Rightarrow> string \<Rightarrow> 's \<Rightarrow> LiveEntry list"
  dh_status :: "'s \<Rightarrow> StatusInfo"
  dh_policy :: "'s \<Rightarrow> PolicyInfo"
  dh_policyWriter :: "(Rule list \<Rightarrow> Effect \<Rightarrow> string \<Rightarrow> 's \<Rightarrow> bool \<times> 's) option"
  dh_anomalies :: "(int \<Rightarrow> int \<Rightarrow> string \<Rightarrow> 's \<Rightarrow> 'f Alert list) option"
  dh_federation :: "(int \<Rightarrow> int \<Rightarrow> string \<Rightarrow> 's \<Rightarrow> CorrelatedAlertEntry list) option"
  dh_blocked :: "'s BlockedSource option"
  dh_scope :: "(method_request \<Rightarrow> 's \<Rightarrow> string) option"
  dh_unblock :: "(method_request \<Rightarrow> string \<Rightarrow> 's \<Rightarrow> bool) option"
  dh_rbac :: "('s \<Rightarrow> RBACSource) option"
  dh_budget :: "'s BudgetSource option"
  dh_budgetWriter :: "(LimitInfo \<Rightarrow> OverrideInfo list \<Rightarrow> OverrideInfo list \<Rightarrow> string \<Rightarrow> 's \<Rightarrow> bool \<times> 's) option"
  dh_reload :: "(string \<Rightarrow> string \<Rightarrow> 's \<Rightarrow> ReloadResult \<times> 's) option"
  dh_reloadAuth :: "(method_request \<Rightarrow> 's \<Rightarrow> string \<times> bool) option"
  dh_reloadHistory :: "(int \<Rightarrow> int \<Rightarrow> 's \<Rightarrow> ReloadEvent list) option"
  dh_callerInfo :: "(method_request \<Rightarrow> 's \<Rightarrow> string \<times> bool) option"
  dh_compliance :: "(go_time \<Rightarrow> go_time \<Rightarrow> 's \<Rightarrow> string + 'm) option"
  dh_approvals :: "'s ApprovalSource option"
  dh_jobBudget :: "(int \<Rightarrow> 's \<Rightarrow> job_Entry list) option"
  dh_costBudget :: "(int \<Rightarrow> 's \<Rightarrow> cost_Entry list) option"
  dh_parseTime :: "string \<Rightarrow> string + go_time" \<comment> \<open>\<open>time.Parse(time.RFC3339, _)\<close>\<close>
  dh_assets :: "string \<Rightarrow> bool" \<comment> \<open>the embedded files\<close>

abbreviation plain :: "dash_request \<Rightarrow> method_request" where
  "plain r \<equiv> method_request.truncate r"

definition not_found :: "('f, 'm) dash_response" where
  "not_found = DashError 404 ''not found''"

definition methodNotAllowed :: "('f, 'm) dash_response" where
  "methodNotAllowed = DashError 405 ''method not allowed''"

definition tenantFilter :: "('s, 'f, 'm) dash_Handler \<Rightarrow> dash_request \<Rightarrow> 's \<Rightarrow> string" where
  "tenantFilter h r s = (case dh_scope h of None \<Rightarrow> '''' | Some scope \<Rightarrow> scope (plain r) s)"

text \<open>A read route: only GET, and 404 where its source is not wired.\<close>

definition read_route :: "dash_request \<Rightarrow> 'a option \<Rightarrow> ('a \<Rightarrow> ('f, 'm) dash_response) \<Rightarrow> ('f, 'm) dash_response" where
  "read_route r source view =
     (if rq_Method r \<noteq> ''GET'' then methodNotAllowed
      else case source of None \<Rightarrow> not_found | Some src \<Rightarrow> view src)"

definition handleAudit :: "('s, 'f, 'm) dash_Handler \<Rightarrow> dash_request \<Rightarrow> 's \<Rightarrow> ('f, 'm) dash_response" where
  "handleAudit h r s =
     (if rq_Method r \<noteq> ''GET'' then methodNotAllowed
      else let (after, limit) = pagination r in AuditView (dh_audit h after limit (tenantFilter h r s) s))"

definition handleAnomalies :: "('s, 'f, 'm) dash_Handler \<Rightarrow> dash_request \<Rightarrow> 's \<Rightarrow> ('f, 'm) dash_response" where
  "handleAnomalies h r s =
     read_route r (dh_anomalies h) (\<lambda>since. let (after, limit) = pagination r
       in AnomalyView (map anomaly_entry (since after limit (tenantFilter h r s) s)))"

definition handleApprovals :: "('s, 'f, 'm) dash_Handler \<Rightarrow> dash_request \<Rightarrow> 's \<Rightarrow> ('f, 'm) dash_response" where
  "handleApprovals h r s = read_route r (dh_approvals h) (\<lambda>src. ApprovalsView (sp_ListPending src '''' s))"

text \<open>\<open>strings.TrimPrefix\<close> and \<open>strings.Cut\<close> at the first slash.\<close>

definition TrimPrefix :: "string \<Rightarrow> string \<Rightarrow> string" where
  "TrimPrefix s p = (if prefix p s then drop (length p) s else s)"

definition Cut_slash :: "string \<Rightarrow> string \<times> string \<times> bool" where
  "Cut_slash s = (if CHR ''/'' \<in> set s
     then (takeWhile (\<lambda>c. c \<noteq> CHR ''/'') s, tl (dropWhile (\<lambda>c. c \<noteq> CHR ''/'') s), True) else (s, '''', False))"

definition handleApprovalDecision :: "('s, 'f, 'm) dash_Handler \<Rightarrow> dash_request \<Rightarrow> 's \<Rightarrow> ('f, 'm) dash_response \<times> 's" where
  "handleApprovalDecision h r s =
     (if rq_Method r \<noteq> ''POST'' then (methodNotAllowed, s)
      else case (dh_approvals h, dh_reloadAuth h) of
             (Some src, Some authorize) \<Rightarrow>
               let (appliedBy, ok) = authorize (plain r) s
               in if \<not> ok then (DashError 403 ''forbidden'', s)
                  else let (i, action, found) = Cut_slash (TrimPrefix (rq_Path r) ''/dashboard/api/approvals/'')
                       in if \<not> found \<or> i = '''' \<or> action \<noteq> ''approve'' \<and> action \<noteq> ''deny''
                          then (DashError 400 ''path must be /dashboard/api/approvals/{id}/{approve|deny}'', s)
                          else (case (if action = ''deny'' then sp_Deny src else sp_Approve src) i appliedBy s of
                                  (Some _, s) \<Rightarrow> (not_found, s)
                                | (None, s) \<Rightarrow> (DashNoContent, s))
           | _ \<Rightarrow> (not_found, s))"

definition handleJobBudget :: "('s, 'f, 'm) dash_Handler \<Rightarrow> dash_request \<Rightarrow> 's \<Rightarrow> ('f, 'm) dash_response" where
  "handleJobBudget h r s = read_route r (dh_jobBudget h) (\<lambda>list. JobsView (list defaultAuditLimit s))"

definition handleCostBudget :: "('s, 'f, 'm) dash_Handler \<Rightarrow> dash_request \<Rightarrow> 's \<Rightarrow> ('f, 'm) dash_response" where
  "handleCostBudget h r s = read_route r (dh_costBudget h) (\<lambda>list. CostsView (list defaultAuditLimit s))"

definition handleFederationCorrelated :: "('s, 'f, 'm) dash_Handler \<Rightarrow> dash_request \<Rightarrow> 's \<Rightarrow> ('f, 'm) dash_response" where
  "handleFederationCorrelated h r s =
     read_route r (dh_federation h) (\<lambda>since. let (after, limit) = pagination r
       in CorrelatedView (since after limit (tenantFilter h r s) s))"

definition handleBlocked :: "('s, 'f, 'm) dash_Handler \<Rightarrow> dash_request \<Rightarrow> 's \<Rightarrow> ('f, 'm) dash_response" where
  "handleBlocked h r s = read_route r (dh_blocked h) (\<lambda>src. BlockedView (bs_List src (tenantFilter h r s) s))"

definition handleUnblock :: "('s, 'f, 'm) dash_Handler \<Rightarrow> dash_request \<Rightarrow> 's \<Rightarrow> ('f, 'm) dash_response \<times> 's" where
  "handleUnblock h r s =
     (if rq_Method r \<noteq> ''DELETE'' then (methodNotAllowed, s)
      else case (dh_blocked h, dh_unblock h) of
             (Some src, Some allowedFor) \<Rightarrow>
               let identity = TrimPrefix (rq_Path r) ''/dashboard/api/anomalies/blocked/''
               in if identity = '''' then (DashError 400 ''identity is required'', s)
                  else let targetTenant = tenantFilter h r s;
                           targetTenant = (if targetTenant = '''' then rq_Query r ''tenant'' else targetTenant)
                       in if targetTenant = ''''
                          then (DashError 400 ''tenant query parameter is required for a caller with cross-tenant authority'', s)
                          else if \<not> allowedFor (plain r) targetTenant s then (DashError 403 ''forbidden'', s)
                          else let (cleared, s) = bs_Unblock src identity targetTenant s
                               in (if cleared then DashNoContent else not_found, s)
           | _ \<Rightarrow> (not_found, s))"

definition handleRBAC :: "('s, 'f, 'm) dash_Handler \<Rightarrow> dash_request \<Rightarrow> 's \<Rightarrow> ('f, 'm) dash_response" where
  "handleRBAC h r s = read_route r (dh_rbac h) (\<lambda>src. RBACView (role_entries (src s)) (binding_entries (src s)))"

definition handleCompliance :: "('s, 'f, 'm) dash_Handler \<Rightarrow> dash_request \<Rightarrow> 's \<Rightarrow> ('f, 'm) dash_response" where
  "handleCompliance h r s =
     read_route r (dh_compliance h) (\<lambda>query.
       let fromStr = rq_Query r ''from''; toStr = rq_Query r ''to''
       in if fromStr = '''' \<or> toStr = '''' then DashError 400 ''from and to query params are required (RFC3339)''
          else case dh_parseTime h fromStr of
                 Inl e \<Rightarrow> DashError 400 (''invalid from: '' @ e)
               | Inr from' \<Rightarrow>
                   (case dh_parseTime h toStr of
                      Inl e \<Rightarrow> DashError 400 (''invalid to: '' @ e)
                    | Inr to' \<Rightarrow>
                        if \<not> from' < to' then DashError 400 ''from must be before to''
                        else (case query from' to' s of
                                Inl e \<Rightarrow> DashError 500 (''failed to query compliance evidence: '' @ e)
                              | Inr manifest \<Rightarrow> ComplianceView manifest)))"

definition handleBudgetRead :: "('s, 'f, 'm) dash_Handler \<Rightarrow> 's \<Rightarrow> ('f, 'm) dash_response" where
  "handleBudgetRead h s =
     (case dh_budget h of
        None \<Rightarrow> not_found
      | Some src \<Rightarrow>
          BudgetView (li_RequestsPerWindow (bg_Default src s), Seconds (li_Window (bg_Default src s)))
            (map override_entry (bg_Tenants src s) @ map override_entry (bg_Tools src s)))"

text \<open>A Go \<open>time.Duration\<close> is the product in 64 bits.\<close>

definition window_seconds :: "int \<Rightarrow> duration" where
  "window_seconds n = wrap64 (n * second)"

definition toOverrides :: "budgetOverrideInput list \<Rightarrow> OverrideInfo list" where
  "toOverrides xs = map (\<lambda>ov. \<lparr>ov_Scope = bi_Scope ov, ov_Name = bi_Name ov,
     ov_Limit = \<lparr>li_RequestsPerWindow = bi_RequestsPerWindow ov, li_Window = window_seconds (bi_WindowSeconds ov)\<rparr>\<rparr>) xs"

definition handleBudgetWrite :: "('s, 'f, 'm) dash_Handler \<Rightarrow> dash_request \<Rightarrow> 's \<Rightarrow> ('f, 'm) dash_response \<times> 's" where
  "handleBudgetWrite h r s =
     (case (dh_budgetWriter h, dh_reloadAuth h) of
        (Some writer, Some authorize) \<Rightarrow>
          let (appliedBy, ok) = authorize (plain r) s
          in if \<not> ok then (DashError 403 ''forbidden'', s)
             else (case rq_BudgetWrite r of
                     None \<Rightarrow> (DashError 400 ''invalid request body'', s)
                   | Some req \<Rightarrow>
                       (case writer \<lparr>li_RequestsPerWindow = bw_RequestsPerWindow req, li_Window = window_seconds (bw_WindowSeconds req)\<rparr>
                               (toOverrides (bw_TenantOverrides req)) (toOverrides (bw_ToolOverrides req)) appliedBy s of
                          (False, s) \<Rightarrow> (EditError, s)
                        | (True, s) \<Rightarrow> (handleBudgetRead h s, s)))
      | _ \<Rightarrow> (not_found, s))"

definition handleBudget :: "('s, 'f, 'm) dash_Handler \<Rightarrow> dash_request \<Rightarrow> 's \<Rightarrow> ('f, 'm) dash_response \<times> 's" where
  "handleBudget h r s =
     (if rq_Method r = ''GET'' then (handleBudgetRead h s, s)
      else if rq_Method r = ''PUT'' then handleBudgetWrite h r s
      else (methodNotAllowed, s))"

definition handleReload :: "('s, 'f, 'm) dash_Handler \<Rightarrow> dash_request \<Rightarrow> 's \<Rightarrow> ('f, 'm) dash_response \<times> 's" where
  "handleReload h r s =
     (if rq_Method r \<noteq> ''POST'' then (methodNotAllowed, s)
      else case (dh_reload h, dh_reloadAuth h) of
             (Some reload, Some authorize) \<Rightarrow>
               let domainName = TrimPrefix (rq_Path r) ''/dashboard/api/reload/''
               in if domainName = '''' then (DashError 400 ''domain is required'', s)
                  else let (appliedBy, ok) = authorize (plain r) s
                       in if \<not> ok then (DashError 403 ''forbidden'', s)
                          else let (result, s) = reload domainName appliedBy s in (ReloadView result, s)
           | _ \<Rightarrow> (not_found, s))"

definition handleReloadHistory :: "('s, 'f, 'm) dash_Handler \<Rightarrow> dash_request \<Rightarrow> 's \<Rightarrow> ('f, 'm) dash_response" where
  "handleReloadHistory h r s =
     read_route r (dh_reloadHistory h) (\<lambda>since. let (after, limit) = pagination r in ReloadHistoryView (since after limit s))"

definition effect_of_text :: "string \<Rightarrow> Effect" where
  "effect_of_text t = (if t = ''allow'' then EffectAllow else if t = ''deny'' then EffectDeny
     else if t = ''needs_approval'' then EffectNeedsApproval else OtherEffect t)"

definition rule_of_input :: "policyRuleInput \<Rightarrow> Rule" where
  "rule_of_input i = \<lparr>rule_Identity = ri_RuleIdentity i, rule_Tool = ri_RuleTool i, rule_Effect = effect_of_text (ri_RuleEffect i),
     rule_Tenant = ri_RuleTenant i, rule_Method = ri_RuleMethod i\<rparr>"

definition handlePolicyWrite :: "('s, 'f, 'm) dash_Handler \<Rightarrow> dash_request \<Rightarrow> 's \<Rightarrow> ('f, 'm) dash_response \<times> 's" where
  "handlePolicyWrite h r s =
     (case (dh_policyWriter h, dh_reloadAuth h) of
        (Some writer, Some authorize) \<Rightarrow>
          let (appliedBy, ok) = authorize (plain r) s
          in if \<not> ok then (DashError 403 ''forbidden'', s)
             else (case rq_PolicyWrite r of
                     None \<Rightarrow> (DashError 400 ''invalid request body'', s)
                   | Some (rules, def) \<Rightarrow>
                       (case writer (map rule_of_input rules) (effect_of_text def) appliedBy s of
                          (False, s) \<Rightarrow> (EditError, s)
                        | (True, s) \<Rightarrow> (PolicyView (dh_policy h s), s)))
      | _ \<Rightarrow> (not_found, s))"

definition handlePolicy :: "('s, 'f, 'm) dash_Handler \<Rightarrow> dash_request \<Rightarrow> 's \<Rightarrow> ('f, 'm) dash_response \<times> 's" where
  "handlePolicy h r s =
     (if rq_Method r = ''GET'' then (PolicyView (dh_policy h s), s)
      else if rq_Method r = ''PUT'' then handlePolicyWrite h r s
      else (methodNotAllowed, s))"

definition handleStatus :: "('s, 'f, 'm) dash_Handler \<Rightarrow> dash_request \<Rightarrow> 's \<Rightarrow> ('f, 'm) dash_response" where
  "handleStatus h r s =
     (if rq_Method r \<noteq> ''GET'' then methodNotAllowed
      else let (identity, canEdit) = (case dh_callerInfo h of None \<Rightarrow> ('''', False) | Some info \<Rightarrow> info (plain r) s)
           in StatusView (dh_status h s) (tenantFilter h r s) identity canEdit)"

text \<open>A file that is embedded, or the page itself for the root and for every client-side route.\<close>

definition spaHandler :: "(string \<Rightarrow> bool) \<Rightarrow> string \<Rightarrow> ('f, 'm) dash_response" where
  "spaHandler assets path =
     (let p = TrimPrefix (TrimPrefix path ''/dashboard'') ''/'' in if p \<noteq> '''' \<and> assets p then SpaAsset p else SpaIndex)"

section \<open>Routing\<close>

text \<open>
  The registered patterns: exact paths first, then the three subtrees, then everything below \<open>/dashboard/\<close>.
  Every response carries the three headers.
\<close>

definition security_headers :: "(string \<times> string) list" where
  "security_headers =
     [(''X-Content-Type-Options'', ''nosniff''),
      (''Content-Security-Policy'', ''default-src '' @ [CHR 0x27] @ ''self'' @ [CHR 0x27] @ ''; frame-ancestors '' @ [CHR 0x27] @ ''none'' @ [CHR 0x27]),
      (''X-Frame-Options'', ''DENY'')]"

definition dash_mux :: "('s, 'f, 'm) dash_Handler \<Rightarrow> dash_request \<Rightarrow> 's \<Rightarrow> ('f, 'm) dash_response \<times> 's" where
  "dash_mux h r s =
     (let p = rq_Path r
      in if p = ''/dashboard/api/audit'' then (handleAudit h r s, s)
         else if p = ''/dashboard/api/policy'' then handlePolicy h r s
         else if p = ''/dashboard/api/status'' then (handleStatus h r s, s)
         else if p = ''/dashboard/api/anomalies'' then (handleAnomalies h r s, s)
         else if p = ''/dashboard/api/approvals'' then (handleApprovals h r s, s)
         else if p = ''/dashboard/api/job-budget'' then (handleJobBudget h r s, s)
         else if p = ''/dashboard/api/cost-budget'' then (handleCostBudget h r s, s)
         else if p = ''/dashboard/api/federation/correlated'' then (handleFederationCorrelated h r s, s)
         else if p = ''/dashboard/api/anomalies/blocked'' then (handleBlocked h r s, s)
         else if p = ''/dashboard/api/rbac'' then (handleRBAC h r s, s)
         else if p = ''/dashboard/api/budget'' then handleBudget h r s
         else if p = ''/dashboard/api/reload/history'' then (handleReloadHistory h r s, s)
         else if p = ''/dashboard/api/compliance'' then (handleCompliance h r s, s)
         else if prefix ''/dashboard/api/approvals/'' p then handleApprovalDecision h r s
         else if prefix ''/dashboard/api/anomalies/blocked/'' p then handleUnblock h r s
         else if prefix ''/dashboard/api/reload/'' p then handleReload h r s
         else if prefix ''/dashboard/'' p then (spaHandler (dh_assets h) p, s)
         else (DashError 404 ''404 page not found'', s))"

definition dash_ServeHTTP ::
  "('s, 'f, 'm) dash_Handler \<Rightarrow> dash_request \<Rightarrow> 's \<Rightarrow> ((string \<times> string) list \<times> ('f, 'm) dash_response) \<times> 's" where
  "dash_ServeHTTP h r s = (let (resp, s) = dash_mux h r s in ((security_headers, resp), s))"

section \<open>The wiring\<close>

record 'f dash_state =
  ds_ring :: RingBuffer
  ds_alerts :: "'f AlertBuffer"
  ds_correlated :: CorrelatedAlertBuffer
  ds_blocks :: BlockChecker
  ds_approvals :: approval_InMemoryStore
  ds_jobs :: job_InMemoryMeter
  ds_costs :: cost_InMemoryMeter
  ds_running :: running
  ds_files :: files
  ds_clock :: go_time

text \<open>The orders in which the runtime ranges over the maps behind the lists.\<close>

record map_orders =
  mo_blocks :: "string list"
  mo_approvals :: "string list"
  mo_jobs :: "string list"
  mo_costs :: "string list"
  mo_tenants :: "string list"
  mo_tools :: "string list"
  mo_roles :: "string list"

definition static_RBACSource :: "string list \<Rightarrow> StaticAuthorizer \<Rightarrow> RBACSource" where
  "static_RBACSource ks a = \<lparr>rv_Roles = map (\<lambda>n. the (sa_roles a n)) (sort ks),
     rv_Cluster = sa_clusterRoleBindings a, rv_Scoped = sa_roleBindings a\<rparr>"

text \<open>What the process knows from its start; \<open>dw_authn\<close> is the identity authenticator.\<close>

record ('f, 'm, 'a, 'n) dash_wiring =
  dw_flags :: "string \<Rightarrow> bool"
  dw_startup :: startup
  dw_loaders :: loaders
  dw_bindings :: binding_source
  dw_rbacAuthorizer :: StaticAuthorizer \<comment> \<open>as loaded at the start\<close>
  dw_authn :: "method_request \<Rightarrow> unit + string \<times> string"
  dw_grantTTL :: duration
  dw_orders :: map_orders
  dw_autoBlock :: bool
  dw_statusProvider :: StatusProvider
  dw_encode :: "policyYAML \<Rightarrow> string option" \<comment> \<open>\<open>yaml.Marshal\<close> of a policy\<close>
  dw_yaml :: "('a, 'n) yaml_library"
  dw_tmpPath :: string \<comment> \<open>of the file \<open>os.CreateTemp\<close> makes for a save\<close>
  dw_faults :: write_faults
  dw_compliance :: "(go_time \<Rightarrow> go_time \<Rightarrow> 'f dash_state \<Rightarrow> string + 'm) option"
  dw_parseTime :: "string \<Rightarrow> string + go_time"
  dw_assets :: "string \<Rightarrow> bool"

definition dash_checker :: "('f, 'm, 'a, 'n) dash_wiring \<Rightarrow> 'f dash_state \<Rightarrow> checker" where
  "dash_checker w s = rbac_checker (dw_flags w) (authorizer_in_force (dw_bindings w) (rn_authorizer (ds_running s)))"

definition stateless :: "(method_request \<Rightarrow> unit + string \<times> string) \<Rightarrow> 's authenticator" where
  "stateless authn r s = (authn r, s)"

definition dash_manager :: "('f, 'm, 'a, 'n) dash_wiring \<Rightarrow> approval_InMemoryStore Manager" where
  "dash_manager w = NewManager (inmemory_approval_Store (mo_approvals (dw_orders w))) (dw_grantTTL w)"

text \<open>The two editors: write the file, then reload through the coordinator. Of two overrides of one name the later is kept.\<close>

definition policyWriter ::
  "('f, 'm, 'a, 'n) dash_wiring \<Rightarrow> Rule list \<Rightarrow> Effect \<Rightarrow> string \<Rightarrow> 'f dash_state \<Rightarrow> bool \<times> 'f dash_state" where
  "policyWriter w rules def appliedBy s =
     (let (ok, fs, rn) = policy_WriteAndReload (dw_encode w) (dw_tmpPath w) (dw_faults w) (dw_loaders w) (dw_startup w) rules def appliedBy
        (ds_clock s) (ds_files s) (ds_running s)
      in (ok, s\<lparr>ds_files := fs, ds_running := rn\<rparr>))"

definition override_configs :: "OverrideInfo list \<Rightarrow> (string \<times> BudgetConfig) list" where
  "override_configs ovs = fold (\<lambda>ov. AList.update (ov_Name ov)
     (BudgetConfig (li_RequestsPerWindow (ov_Limit ov)) (Seconds (li_Window (ov_Limit ov))) [] [])) ovs []"

definition budgetCfg :: "LimitInfo \<Rightarrow> OverrideInfo list \<Rightarrow> OverrideInfo list \<Rightarrow> BudgetConfig" where
  "budgetCfg def tenantOverrides toolOverrides =
     BudgetConfig (li_RequestsPerWindow def) (Seconds (li_Window def)) (override_configs tenantOverrides) (override_configs toolOverrides)"

definition budgetWriter ::
  "('f, 'm, 'a, 'n) dash_wiring \<Rightarrow> LimitInfo \<Rightarrow> OverrideInfo list \<Rightarrow> OverrideInfo list \<Rightarrow> string \<Rightarrow> 'f dash_state \<Rightarrow> bool \<times> 'f dash_state" where
  "budgetWriter w def tenantOverrides toolOverrides appliedBy s =
     (let (ok, fs, rn) = budget_WriteAndReload (dw_yaml w) (dw_tmpPath w) (dw_faults w) (dw_loaders w) (dw_startup w)
        (budgetCfg def tenantOverrides toolOverrides) appliedBy (ds_clock s) (ds_files s) (ds_running s)
      in (ok, s\<lparr>ds_files := fs, ds_running := rn\<rparr>))"

definition if_on :: "bool \<Rightarrow> 'a \<Rightarrow> 'a option" where
  "if_on b x = (if b then Some x else None)"

definition wired_dashboard :: "('f, 'm, 'a, 'n) dash_wiring \<Rightarrow> ('f dash_state, 'f, 'm) dash_Handler" where
  "wired_dashboard w =
     (let flags = dw_flags w; rbacOn = flags rbacFeatureFlag; os = dw_orders w
      in \<lparr>dh_audit = (\<lambda>after limit t s. RingBuffer_Since (ds_ring s) after limit t),
          dh_status = (\<lambda>s. Status (dw_statusProvider w) (ds_clock s)),
          dh_policy = (\<lambda>s. rn_info (ds_running s)),
          dh_policyWriter = if_on (cf_PolicyBackend (su_cfg (dw_startup w)) = ''yaml'') (policyWriter w),
          dh_anomalies = if_on (flags ''anomaly_detection'') (\<lambda>after limit t s. AlertBuffer_Since (ds_alerts s) after limit t),
          dh_federation = if_on (flags ''federation'') (\<lambda>after limit t s. CorrelatedAlertBuffer_Since (ds_correlated s) after limit t),
          dh_blocked = if_on (dw_autoBlock w)
            \<lparr>bs_List = (\<lambda>t s. block_List (mo_blocks os) t (ds_clock s) (ds_blocks s)),
             bs_Unblock = (\<lambda>identity t s. let (b, bl) = Unblock identity t (ds_clock s) (ds_blocks s) in (b, s\<lparr>ds_blocks := bl\<rparr>))\<rparr>,
          dh_scope = if_on rbacOn (\<lambda>r s. fst (newScopeResolver (stateless (dw_authn w)) (dash_checker w s) r s)),
          dh_unblock = if_on rbacOn (\<lambda>r t s. fst (newUnblockAuthorizer (stateless (dw_authn w)) (dash_checker w s) r t s)),
          dh_rbac = if_on rbacOn (\<lambda>s. static_RBACSource (mo_roles os) (dw_rbacAuthorizer w)),
          dh_budget = if_on (flags ''budget_enforcement'')
            \<lparr>bg_Default = (\<lambda>s. DefaultLimit (rn_limiter (ds_running s))),
             bg_Tenants = (\<lambda>s. TenantOverrides (mo_tenants os) (rn_limiter (ds_running s))),
             bg_Tools = (\<lambda>s. ToolOverrides (mo_tools os) (rn_limiter (ds_running s)))\<rparr>,
          dh_budgetWriter = if_on (flags ''budget_enforcement'') (budgetWriter w),
          dh_reload = Some (\<lambda>domain by' s. let (result, rn) =
              Coordinator_Reload (dw_loaders w) (dw_startup w) domain by' (ds_clock s) (ds_files s) (ds_running s)
            in (result, s\<lparr>ds_running := rn\<rparr>)),
          dh_reloadAuth = if_on rbacOn (\<lambda>r s. fst (newReloadAuthorizer (stateless (dw_authn w)) (dash_checker w s) r s)),
          dh_reloadHistory = Some (\<lambda>after limit s. ReloadEventBuffer_Since (rn_events (ds_running s)) after limit),
          dh_callerInfo = if_on rbacOn (\<lambda>r s. fst (newCallerInfoResolver (stateless (dw_authn w)) (dash_checker w s) r s)),
          dh_compliance = dw_compliance w,
          dh_approvals = if_on (flags ''approval_workflow'')
            \<lparr>sp_ListPending = (\<lambda>t s. Manager_ListPending (dash_manager w) t (ds_approvals s)),
             sp_Approve = (\<lambda>i by' s. let (e, a) = Approve (dash_manager w) i by' (ds_clock s) (ds_approvals s) in (e, s\<lparr>ds_approvals := a\<rparr>)),
             sp_Deny = (\<lambda>i by' s. let (e, a) = Deny (dash_manager w) i by' (ds_clock s) (ds_approvals s) in (e, s\<lparr>ds_approvals := a\<rparr>))\<rparr>,
          dh_jobBudget = if_on (flags ''job_budget'') (\<lambda>limit s. job_ListNearCeiling (mo_jobs os) (ds_jobs s) limit),
          dh_costBudget = if_on (flags ''job_cost_budget'') (\<lambda>limit s. cost_ListNearCeiling (mo_costs os) (ds_costs s) limit),
          dh_parseTime = dw_parseTime w, dh_assets = dw_assets w\<rparr>)"

text \<open>The route as mounted: behind the permission to view the dashboard when RBAC is on.\<close>

definition dashboard_route ::
  "('f, 'm, 'a, 'n) dash_wiring \<Rightarrow> string \<Rightarrow> string \<Rightarrow> dash_request \<Rightarrow> 'f dash_state \<Rightarrow>
   ((string \<times> string) list \<times> ('f, 'm) dash_response) middleware_response \<times> 'f dash_state" where
  "dashboard_route w loginRedirect accept r s =
     (if dw_flags w rbacFeatureFlag
      then RequirePermission (ck_Check (dash_checker w s)) (\<lambda>r s. dw_authn w (plain r)) PermissionDashboardView
             (dash_ServeHTTP (wired_dashboard w)) loginRedirect (rq_Method r) accept r s
      else let (b, s) = dash_ServeHTTP (wired_dashboard w) r s in (Next b, s))"

lemma wired_dashboard_fields:
  "dh_audit (wired_dashboard w) = (\<lambda>after limit t s. RingBuffer_Since (ds_ring s) after limit t)"
  "dh_anomalies (wired_dashboard w) = if_on (dw_flags w ''anomaly_detection'') (\<lambda>after limit t s. AlertBuffer_Since (ds_alerts s) after limit t)"
  "dh_federation (wired_dashboard w) = if_on (dw_flags w ''federation'') (\<lambda>after limit t s. CorrelatedAlertBuffer_Since (ds_correlated s) after limit t)"
  "dh_blocked (wired_dashboard w) = if_on (dw_autoBlock w)
     \<lparr>bs_List = (\<lambda>t s. block_List (mo_blocks (dw_orders w)) t (ds_clock s) (ds_blocks s)),
      bs_Unblock = (\<lambda>identity t s. let (b, bl) = Unblock identity t (ds_clock s) (ds_blocks s) in (b, s\<lparr>ds_blocks := bl\<rparr>))\<rparr>"
  "dh_scope (wired_dashboard w) = if_on (dw_flags w rbacFeatureFlag)
     (\<lambda>r s. fst (newScopeResolver (stateless (dw_authn w)) (dash_checker w s) r s))"
  "dh_unblock (wired_dashboard w) = if_on (dw_flags w rbacFeatureFlag)
     (\<lambda>r t s. fst (newUnblockAuthorizer (stateless (dw_authn w)) (dash_checker w s) r t s))"
  "dh_reloadAuth (wired_dashboard w) = if_on (dw_flags w rbacFeatureFlag)
     (\<lambda>r s. fst (newReloadAuthorizer (stateless (dw_authn w)) (dash_checker w s) r s))"
  "dh_rbac (wired_dashboard w) = if_on (dw_flags w rbacFeatureFlag)
     (\<lambda>s. static_RBACSource (mo_roles (dw_orders w)) (dw_rbacAuthorizer w))"
  "dh_approvals (wired_dashboard w) = if_on (dw_flags w ''approval_workflow'')
     \<lparr>sp_ListPending = (\<lambda>t s. Manager_ListPending (dash_manager w) t (ds_approvals s)),
      sp_Approve = (\<lambda>i by' s. let (e, a) = Approve (dash_manager w) i by' (ds_clock s) (ds_approvals s) in (e, s\<lparr>ds_approvals := a\<rparr>)),
      sp_Deny = (\<lambda>i by' s. let (e, a) = Deny (dash_manager w) i by' (ds_clock s) (ds_approvals s) in (e, s\<lparr>ds_approvals := a\<rparr>))\<rparr>"
  by (simp_all add: wired_dashboard_def)

section \<open>A tenant's view\<close>

text \<open>The state with everything of other tenants removed from the four filtered sources.\<close>

definition tenant_view :: "string \<Rightarrow> 'f dash_state \<Rightarrow> 'f dash_state" where
  "tenant_view t s = s\<lparr>
     ds_ring := (ds_ring s)\<lparr>rg_entries := filter (\<lambda>e. le_Tenant e = t) (rg_entries (ds_ring s))\<rparr>,
     ds_alerts := (ds_alerts s)\<lparr>ab_entries := filter (\<lambda>e. an_Tenant (al_Anomaly e) = t) (ab_entries (ds_alerts s))\<rparr>,
     ds_correlated := (ds_correlated s)\<lparr>cb_entries := filter (\<lambda>e. ca_Tenant (ce_Alert e) = t) (cb_entries (ds_correlated s))\<rparr>,
     ds_blocks := (ds_blocks s)\<lparr>bc_blocked := map_keep (\<lambda>_ e. bl_tenant e = t) (bc_blocked (ds_blocks s))\<rparr>\<rparr>"

lemma range_entries_keep: "range_entries ks (map_keep P m) = filter (\<lambda>(k, v). P k v) (range_entries ks m)"
  by (induction ks) (auto simp: range_entries_def map_keep_def map_filter_simps split: option.split)

lemma view_ring:
  "t \<noteq> '''' \<Longrightarrow> RingBuffer_Since (b\<lparr>rg_entries := filter (\<lambda>e. le_Tenant e = t) (rg_entries b)\<rparr>) after limit t = RingBuffer_Since b after limit t"
  by (simp add: RingBuffer_Since_def conj_commute)

lemma view_alerts:
  "t \<noteq> '''' \<Longrightarrow> AlertBuffer_Since (b\<lparr>ab_entries := filter (\<lambda>e. an_Tenant (al_Anomaly e) = t) (ab_entries b)\<rparr>) after limit t = AlertBuffer_Since b after limit t"
  by (simp add: AlertBuffer_Since_def conj_commute)

lemma view_correlated:
  "t \<noteq> '''' \<Longrightarrow> CorrelatedAlertBuffer_Since (b\<lparr>cb_entries := filter (\<lambda>e. ca_Tenant (ce_Alert e) = t) (cb_entries b)\<rparr>) after limit t =
     CorrelatedAlertBuffer_Since b after limit t"
  by (simp add: CorrelatedAlertBuffer_Since_def conj_commute)

lemma view_blocks:
  assumes "t \<noteq> ''''"
  shows "block_List ks t now (b\<lparr>bc_blocked := map_keep (\<lambda>_ e. bl_tenant e = t) (bc_blocked b)\<rparr>) = block_List ks t now b"
proof -
  have "filter (\<lambda>(k, e). \<not> block_expired now e \<and> \<not> (t \<noteq> '''' \<and> bl_tenant e \<noteq> t)) (filter (\<lambda>(k, e). bl_tenant e = t) xs) =
      filter (\<lambda>(k, e). \<not> block_expired now e \<and> \<not> (t \<noteq> '''' \<and> bl_tenant e \<noteq> t)) xs" for xs :: "(string \<times> blockEntry) list"
    using assms by (induction xs) auto
  then show ?thesis by (simp add: block_List_def range_entries_keep)
qed

lemmas tenant_views = view_ring view_alerts view_correlated view_blocks

lemma dash_checker_view [simp]: "dash_checker w (tenant_view t s) = dash_checker w s"
  by (simp add: dash_checker_def tenant_view_def)

lemma scoped_filter:
  assumes "dw_flags w rbacFeatureFlag" and "dw_authn w (plain r) = Inr (who, t)"
    and "\<not> ck_IsGlobal (dash_checker w s) who PermissionDashboardView"
  shows "tenantFilter (wired_dashboard w) r s = t"
  using assms by (simp add: tenantFilter_def wired_dashboard_fields if_on_def newScopeResolver_def stateless_def)

text \<open>
  C10. A caller without a global grant sees its own tenant and nothing else: on the audit, anomaly,
  correlated-alert and block views every response, whatever the query, is the one the handler would give if the
  entries of all other tenants did not exist.
\<close>

theorem dashboard_views_isolated:
  assumes "dw_flags w rbacFeatureFlag" and "dw_authn w (plain r) = Inr (who, t)" and "t \<noteq> ''''"
    and "\<not> ck_IsGlobal (dash_checker w s) who PermissionDashboardView"
    and "rq_Path r \<in> {''/dashboard/api/audit'', ''/dashboard/api/anomalies'', ''/dashboard/api/federation/correlated'',
      ''/dashboard/api/anomalies/blocked''}"
  shows "fst (dash_ServeHTTP (wired_dashboard w) r s) = fst (dash_ServeHTTP (wired_dashboard w) r (tenant_view t s))"
proof -
  have f: "tenantFilter (wired_dashboard w) r s = t" "tenantFilter (wired_dashboard w) r (tenant_view t s) = t"
    using assms(1,2,4) by (simp_all add: scoped_filter)
  have "handleAudit (wired_dashboard w) r (tenant_view t s) = handleAudit (wired_dashboard w) r s"
    by (simp add: handleAudit_def f wired_dashboard_fields split_def) (simp add: tenant_view_def tenant_views assms(3))
  moreover have "handleAnomalies (wired_dashboard w) r (tenant_view t s) = handleAnomalies (wired_dashboard w) r s"
    by (simp add: handleAnomalies_def read_route_def if_on_def f wired_dashboard_fields split_def)
      (simp add: tenant_view_def tenant_views assms(3))
  moreover have "handleFederationCorrelated (wired_dashboard w) r (tenant_view t s) = handleFederationCorrelated (wired_dashboard w) r s"
    by (simp add: handleFederationCorrelated_def read_route_def if_on_def f wired_dashboard_fields split_def)
      (simp add: tenant_view_def tenant_views assms(3))
  moreover have "handleBlocked (wired_dashboard w) r (tenant_view t s) = handleBlocked (wired_dashboard w) r s"
    by (simp add: handleBlocked_def read_route_def if_on_def f wired_dashboard_fields)
      (simp add: tenant_view_def tenant_views assms(3))
  ultimately show ?thesis using assms(5) by (auto simp: dash_ServeHTTP_def dash_mux_def)
qed

section \<open>Who may change anything\<close>

lemma reload_authorize:
  assumes "dw_flags w rbacFeatureFlag"
  shows "dh_reloadAuth (wired_dashboard w) = Some (\<lambda>r s. case dw_authn w r of Inl _ \<Rightarrow> ('''', False)
     | Inr (who, t) \<Rightarrow> if ck_Check (dash_checker w s) who t PermissionConfigEdit then (who, True) else ('''', False))"
  using assms by (auto simp: wired_dashboard_fields if_on_def newReloadAuthorizer_def stateless_def fun_eq_iff split: sum.split)

lemma unblock_authorize:
  assumes "dw_flags w rbacFeatureFlag"
  shows "dh_unblock (wired_dashboard w) = Some (\<lambda>r target s. case dw_authn w r of Inl _ \<Rightarrow> False
     | Inr (who, t) \<Rightarrow> ck_Check (dash_checker w s) who t PermissionCredentialRevoke \<and>
         (target = '''' \<or> target = t \<or> ck_IsGlobal (dash_checker w s) who PermissionCredentialRevoke))"
  using assms by (auto simp: wired_dashboard_fields if_on_def newUnblockAuthorizer_def stateless_def fun_eq_iff split: sum.split)

definition may_edit :: "('f, 'm, 'a, 'n) dash_wiring \<Rightarrow> dash_request \<Rightarrow> 'f dash_state \<Rightarrow> bool" where
  "may_edit w r s \<longleftrightarrow> (\<exists>who t. dw_authn w (plain r) = Inr (who, t) \<and> ck_Check (dash_checker w s) who t PermissionConfigEdit)"

definition may_revoke :: "('f, 'm, 'a, 'n) dash_wiring \<Rightarrow> dash_request \<Rightarrow> 'f dash_state \<Rightarrow> bool" where
  "may_revoke w r s \<longleftrightarrow> (\<exists>who t. dw_authn w (plain r) = Inr (who, t) \<and> ck_Check (dash_checker w s) who t PermissionCredentialRevoke)"

lemma edit_refused:
  assumes "dw_flags w rbacFeatureFlag" and "\<not> may_edit w r s"
  shows "snd (handleApprovalDecision (wired_dashboard w) r s) = s" "snd (handlePolicyWrite (wired_dashboard w) r s) = s"
    "snd (handleBudgetWrite (wired_dashboard w) r s) = s" "snd (handleReload (wired_dashboard w) r s) = s"
proof -
  obtain authorize where az: "dh_reloadAuth (wired_dashboard w) = Some authorize" "\<not> snd (authorize (plain r) s)"
    using assms by (auto simp: reload_authorize may_edit_def split: sum.split)
  show "snd (handleApprovalDecision (wired_dashboard w) r s) = s" "snd (handlePolicyWrite (wired_dashboard w) r s) = s"
    "snd (handleBudgetWrite (wired_dashboard w) r s) = s" "snd (handleReload (wired_dashboard w) r s) = s"
    using az by (auto simp: handleApprovalDecision_def handlePolicyWrite_def handleBudgetWrite_def handleReload_def
        split_def split: option.split)
qed

lemma unblock_refused:
  assumes "dw_flags w rbacFeatureFlag" and "\<not> may_revoke w r s"
  shows "snd (handleUnblock (wired_dashboard w) r s) = s"
proof -
  obtain allowed where az: "dh_unblock (wired_dashboard w) = Some allowed" "\<And>t. \<not> allowed (plain r) t s"
    using assms by (auto simp: unblock_authorize may_revoke_def split: sum.split)
  then show ?thesis by (auto simp: handleUnblock_def split: option.split)
qed

text \<open>
  C13. With RBAC on, the dashboard is read-only for everyone who may only view it: on no route, with no method and no
  query, does a request of a caller that holds neither the edit nor the revoke permission in its
  tenant, or that is not authenticated at all, change anything.
\<close>

theorem dashboard_read_only_for_viewers:
  assumes "dw_flags w rbacFeatureFlag" and "\<not> may_edit w r s" and "\<not> may_revoke w r s"
  shows "snd (dash_ServeHTTP (wired_dashboard w) r s) = s"
proof -
  have "snd (handlePolicy (wired_dashboard w) r s) = s" "snd (handleBudget (wired_dashboard w) r s) = s"
    using edit_refused [OF assms(1,2)] by (simp_all add: handlePolicy_def handleBudget_def)
  then have "snd (dash_mux (wired_dashboard w) r s) = s"
    by (simp only: dash_mux_def Let_def if_distrib [of snd] snd_conv edit_refused [OF assms(1,2)] unblock_refused [OF assms(1,3)]
        if_cancel)
  then show ?thesis by (simp add: dash_ServeHTTP_def split_def)
qed

text \<open>
  Lifting a block stays within the caller's tenant unless its revoke grant is global, even for a caller that may
  view every tenant and names another one in the request: no other tenant's block changes, nothing but blocks
  changes, and a block is lifted only with the permission to revoke in the caller's own tenant.
\<close>

theorem unblock_confined:
  assumes "dw_flags w rbacFeatureFlag" and "dw_authn w (plain r) = Inr (who, t)"
    and "\<not> ck_IsGlobal (dash_checker w s) who PermissionCredentialRevoke"
    and "handleUnblock (wired_dashboard w) r s = (resp, s')"
  shows "(\<forall>t' i n. t' \<noteq> t \<longrightarrow> BlockChecker_Check (ds_blocks s') i t' n = BlockChecker_Check (ds_blocks s) i t' n) \<and>
    s' = s\<lparr>ds_blocks := ds_blocks s'\<rparr> \<and>
    (resp = DashNoContent \<longrightarrow> ck_Check (dash_checker w s) who t PermissionCredentialRevoke)"
proof -
  have "s' = s \<and> resp \<noteq> DashNoContent \<or>
      (\<exists>i. ck_Check (dash_checker w s) who t PermissionCredentialRevoke \<and> s' = s\<lparr>ds_blocks := snd (Unblock i t (ds_clock s) (ds_blocks s))\<rparr>)"
    using assms
    by (auto simp: handleUnblock_def unblock_authorize wired_dashboard_fields(4) if_on_def not_found_def methodNotAllowed_def
        split_def split: if_splits)
  then show ?thesis
    by (auto simp: Unblock_def BlockChecker_Check_def block_key_eq)
qed

section \<open>Views that are not scoped\<close>

lemma Cut_slash_append: "CHR ''/'' \<notin> set i \<Longrightarrow> Cut_slash (i @ CHR ''/'' # a) = (i, a, True)"
  by (induction i) (auto simp: Cut_slash_def)

text \<open>
  C39. The approval queue ignores the tenant scope: any GET that reaches it lists the pending requests of every tenant
  with their parameters, and a caller with the edit permission in its own tenant alone approves another tenant's
  held call, which thereby gets its grant.
\<close>

theorem approvals_not_tenant_scoped:
  assumes "dw_flags w rbacFeatureFlag" and "dw_flags w ''approval_workflow''" and "dw_authn w (plain post) = Inr (who, t)"
    and "ck_Check (dash_checker w s) who t PermissionConfigEdit"
    and "am_requests (ds_approvals s) i = Some req" and "ar_Status req = StatusPending"
    and "range_order (mo_approvals (dw_orders w)) (am_requests (ds_approvals s))"
    and "rq_Method get = ''GET''" and "rq_Path get = ''/dashboard/api/approvals''"
    and "rq_Method post = ''POST''" and "rq_Path post = ''/dashboard/api/approvals/'' @ i @ ''/approve''"
    and "i \<noteq> ''''" and "CHR ''/'' \<notin> set i"
  shows "(\<exists>rs. snd (fst (dash_ServeHTTP (wired_dashboard w) get s)) = ApprovalsView rs \<and> req \<in> set rs) \<and>
    (let ((_, resp), s') = dash_ServeHTTP (wired_dashboard w) post s
     in resp = DashNoContent \<and>
        map_option ar_Status (am_requests (ds_approvals s') i) = Some StatusApproved \<and>
        am_grants (ds_approvals s') (grantKey (ar_Tenant req) (ar_Identity req) (ar_Session req) (ar_Tool req)) \<noteq> None)"
proof -
  have "req \<in> set (Manager_ListPending (dash_manager w) '''' (ds_approvals s))"
    using assms(5,6) set_range_entries [OF assms(7)]
    by (force simp: Manager_ListPending_def dash_manager_def NewManager_def inmemory_approval_Store_def store_ListPending_def)
  then have get: "\<exists>rs. snd (fst (dash_ServeHTTP (wired_dashboard w) get s)) = ApprovalsView rs \<and> req \<in> set rs"
    using assms(2,8,9) by (simp add: dash_ServeHTTP_def dash_mux_def handleApprovals_def read_route_def
        wired_dashboard_fields(9) if_on_def)
  have path: "Cut_slash (TrimPrefix (rq_Path post) ''/dashboard/api/approvals/'') = (i, ''approve'', True)"
    using Cut_slash_append [OF assms(13), of "''approve''"] assms(11) by (simp add: TrimPrefix_def)
  have "dash_mux (wired_dashboard w) post s = handleApprovalDecision (wired_dashboard w) post s"
    using assms(11) by (simp add: dash_mux_def)
  moreover have "handleApprovalDecision (wired_dashboard w) post s =
      (DashNoContent, s\<lparr>ds_approvals := snd (Approve (dash_manager w) i who (ds_clock s) (ds_approvals s))\<rparr>)"
    using assms(1-6,10,12) path
    by (simp add: handleApprovalDecision_def reload_authorize wired_dashboard_fields(9) if_on_def Approve_def dash_manager_def
        NewManager_def inmemory_approval_Store_def DecideRequest_def)
  ultimately have "dash_ServeHTTP (wired_dashboard w) post s = ((security_headers, DashNoContent),
      s\<lparr>ds_approvals := snd (Approve (dash_manager w) i who (ds_clock s) (ds_approvals s))\<rparr>)"
    by (simp add: dash_ServeHTTP_def)
  with get assms(5,6) show ?thesis
    by (simp add: Approve_def dash_manager_def NewManager_def inmemory_approval_Store_def DecideRequest_def PutGrant_def granted_def)
qed

text \<open>
  C40. The RBAC view shows the roles and bindings loaded at the start, whatever has been reloaded since, while
  every decision is taken on the authorizer in force.
\<close>

theorem rbac_view_shows_startup:
  assumes "dw_flags w rbacFeatureFlag" and "rq_Method r = ''GET''" and "rq_Path r = ''/dashboard/api/rbac''"
    and "rn_authorizer (ds_running s) = HeldStatic a"
  shows "snd (fst (dash_ServeHTTP (wired_dashboard w) r s)) =
      RBACView (role_entries (static_RBACSource (mo_roles (dw_orders w)) (dw_rbacAuthorizer w)))
        (binding_entries (static_RBACSource (mo_roles (dw_orders w)) (dw_rbacAuthorizer w))) \<and>
    ck_Check (dash_checker w s) identity tenant perm = Static_Authorize a identity tenant perm"
  using assms by (simp add: dash_ServeHTTP_def dash_mux_def handleRBAC_def read_route_def wired_dashboard_fields if_on_def
      dash_checker_def rbac_checker_def rbac_Check_def authorizer_in_force_def static_Authorizer_def)

text \<open>Query parameters never get a page larger than the views allow.\<close>

lemma pagination_bounds: "1 \<le> snd (pagination r) \<and> snd (pagination r) \<le> 1000 \<and> - (2 ^ 63) \<le> fst (pagination r) \<and> fst (pagination r) < 2 ^ 63"
proof -
  have "- (2 ^ 63) \<le> v \<and> v < 2 ^ 63" if "ParseInt64 x = Some v" for x v
    using that by (auto simp: ParseInt64_def split_def split: if_splits)
  then show ?thesis
    by (auto simp: pagination_def defaultAuditLimit_def maxAuditLimit_def split: option.split)
qed

text \<open>
  A window up to \<open>2^63\<close> nanoseconds reaches the configuration file as it was entered. Beyond, the editor's product
  has wrapped before validation sees it: a window of a billion years is saved as one of a second.
\<close>

lemma edited_window:
  "\<bar>n\<bar> \<le> 9223372036 \<Longrightarrow> Seconds (window_seconds n) = n"
proof -
  assume "\<bar>n\<bar> \<le> 9223372036"
  then have "wrap64 (n * 1000000000) = n * 1000000000" by (intro wrap64_id) auto
  with Seconds_whole [of n] \<open>\<bar>n\<bar> \<le> 9223372036\<close> show ?thesis by (simp add: window_seconds_def second_def)
qed

lemma edited_window_wraps:
  "maxBudgetWindowSeconds < 36028797018963969 \<and>
   bc_WindowSeconds (budgetCfg \<lparr>li_RequestsPerWindow = 5, li_Window = window_seconds 36028797018963969\<rparr> [] []) = 1"
  using Seconds_whole [of 1]
  by (simp add: budgetCfg_def window_seconds_def wrap64_def second_def maxBudgetWindowSeconds_def)

section \<open>An example deployment\<close>

text \<open>Eve administers acme, Vic may view it; entries, blocks and a held call of globex are in the stores.\<close>

definition example_static :: StaticAuthorizer where
  "example_static = \<lparr>sa_roles = builtinRoles, sa_clusterRoleBindings = [],
     sa_roleBindings = [\<lparr>rb_Subject = ''eve'', rb_RoleName = ''admin'', rb_Tenant = ''acme''\<rparr>,
       \<lparr>rb_Subject = ''vic'', rb_RoleName = ''viewer'', rb_Tenant = ''acme''\<rparr>]\<rparr>"

definition example_pending :: approval_Request where
  "example_pending = new_request ''r1'' ''globex'' ''gus'' ''pay'' ''tools/call'' ''s'' Map.empty 1"

definition example_live :: "string \<Rightarrow> int \<Rightarrow> LiveEntry" where
  "example_live t i = \<lparr>le_ID = i, le_Timestamp = i, le_Identity = ''x'', le_Tenant = t, le_Tool = ''y'', le_Decision = ''allow'',
     le_LatencyMS = 1, le_Reason = '''', le_TraceID = ''''\<rparr>"

definition example_dash :: "unit dash_state" where
  "example_dash = \<lparr>ds_ring = \<lparr>rg_cap = 10, rg_entries = [example_live ''acme'' 1, example_live ''globex'' 2], rg_nextID = 2\<rparr>,
     ds_alerts = NewAlertBuffer 10, ds_correlated = NewCorrelatedAlertBuffer 10,
     ds_blocks = Block ''gus'' ''globex'' ''spike'' 1 (NewBlockChecker 60),
     ds_approvals = \<lparr>am_requests = [''r1'' \<mapsto> example_pending], am_grants = Map.empty\<rparr>,
     ds_jobs = job_NewInMemoryMeter, ds_costs = cost_NewInMemoryMeter,
     ds_running = example_running\<lparr>rn_authorizer := HeldStatic example_static\<rparr>, ds_files = Map.empty, ds_clock = 5\<rparr>"

definition example_wiring :: "(unit, unit, unit, unit) dash_wiring" where
  "example_wiring = \<lparr>dw_flags = (\<lambda>_. True), dw_startup = example_startup, dw_loaders = example_loaders,
     dw_bindings = (\<lambda>_. ([], [])),
     dw_rbacAuthorizer = \<lparr>sa_roles = builtinRoles, sa_clusterRoleBindings = [\<lparr>crb_Subject = ''root'', crb_RoleName = ''admin''\<rparr>], sa_roleBindings = []\<rparr>,
     dw_authn = (\<lambda>r. Inr (HeaderIdentity_Authenticate (http_request.truncate r))), dw_grantTTL = 300,
     dw_orders = \<lparr>mo_blocks = [tenant_Key ''globex'' ''gus''], mo_approvals = [''r1''], mo_jobs = [], mo_costs = [], mo_tenants = [],
       mo_tools = [], mo_roles = [''admin'', ''viewer'']\<rparr>,
     dw_autoBlock = True, dw_statusProvider = NewStatusProvider (\<lambda>_. None) ''1'' ''l'' ''u'' (\<lambda>_. True) 0,
     dw_encode = (\<lambda>_. None),
     dw_yaml = \<lparr>yl_Unmarshal = (\<lambda>_. None), yl_bare = (), yl_EncodeBudget = (\<lambda>_. None), yl_Marshal = (\<lambda>_. None)\<rparr>,
     dw_tmpPath = ''t'', dw_faults = no_faults, dw_compliance = None,
     dw_parseTime = (\<lambda>_. Inl ''''), dw_assets = (\<lambda>_. False)\<rparr>"

definition example_dash_request :: "string \<Rightarrow> string \<Rightarrow> string \<Rightarrow> dash_request" where
  "example_dash_request who meth path = \<lparr>rq_RemoteAddr = ''10.0.0.1:1'',
     rq_Header = (\<lambda>k. if k = ''X-Wardline-Identity'' then [who] else if k = ''X-Wardline-Tenant'' then [''acme''] else []),
     rq_Body = '''', rq_BodyBroken = False, rq_Method = meth, rq_Path = path, rq_Query = (\<lambda>k. if k = ''tenant'' then ''globex'' else ''''),
     rq_PolicyWrite = None, rq_BudgetWrite = None\<rparr>"

lemma example_authn:
  "dw_flags example_wiring rbacFeatureFlag"
  "dw_authn example_wiring (plain (example_dash_request who meth path)) = Inr (who, ''acme'')"
proof -
  have "CanonicalMIMEHeaderKey ''X-Wardline-Identity'' = ''X-Wardline-Identity''" "CanonicalMIMEHeaderKey ''X-Wardline-Tenant'' = ''X-Wardline-Tenant''"
    by code_simp+
  then show "dw_authn example_wiring (plain (example_dash_request who meth path)) = Inr (who, ''acme'')"
    by (simp add: example_wiring_def example_dash_request_def method_request.defs http_request.defs HeaderIdentity_Authenticate_def Header_Get_def)
qed (simp add: example_wiring_def)

lemma example_dash_checks:
  "ck_Check (dash_checker example_wiring example_dash) who t p = Static_Authorize example_static who t p"
  "ck_IsGlobal (dash_checker example_wiring example_dash) who p = Static_IsGlobal example_static who p"
  by (simp_all add: dash_checker_def rbac_checker_def rbac_Check_def rbac_IsGlobal_def example_wiring_def example_dash_def
      authorizer_in_force_def static_Authorizer_def)

lemma example_static_grants:
  "\<not> Static_IsGlobal example_static who p" "Static_Authorize example_static ''eve'' ''acme'' PermissionConfigEdit"
  "Static_Authorize example_static ''eve'' ''acme'' PermissionCredentialRevoke"
  "\<not> Static_Authorize example_static ''vic'' ''acme'' PermissionConfigEdit"
  "\<not> Static_Authorize example_static ''vic'' ''acme'' PermissionCredentialRevoke"
  by (simp_all add: Static_IsGlobal_def Static_Authorize_def example_static_def RoleHasPermission_def builtinRoles_def
      PermissionConfigEdit_def PermissionCredentialRevoke_def PermissionDashboardView_def)

theorem dashboard_views_isolated_witness:
  "let h = wired_dashboard example_wiring; r = example_dash_request ''vic'' ''GET'' ''/dashboard/api/audit''
   in length (rg_entries (ds_ring (tenant_view ''acme'' example_dash))) < length (rg_entries (ds_ring example_dash)) \<and>
      fst (dash_ServeHTTP h r example_dash) = fst (dash_ServeHTTP h r (tenant_view ''acme'' example_dash))"
proof -
  have "rq_Path (example_dash_request ''vic'' ''GET'' ''/dashboard/api/audit'') = ''/dashboard/api/audit''"
    by (simp add: example_dash_request_def)
  moreover have "length (rg_entries (ds_ring (tenant_view ''acme'' example_dash))) < length (rg_entries (ds_ring example_dash))"
    by (simp add: tenant_view_def example_dash_def example_live_def)
  ultimately show ?thesis
    using dashboard_views_isolated [OF example_authn(1) example_authn(2) [of "''vic''" "''GET''" "''/dashboard/api/audit''"], of example_dash]
    by (simp add: example_dash_checks example_static_grants)
qed

theorem dashboard_read_only_for_viewers_witness:
  "snd (dash_ServeHTTP (wired_dashboard example_wiring)
     (example_dash_request ''vic'' ''DELETE'' ''/dashboard/api/anomalies/blocked/gus'') example_dash) = example_dash"
  by (rule dashboard_read_only_for_viewers [OF example_authn(1)])
    (simp_all add: may_edit_def may_revoke_def example_authn example_dash_checks example_static_grants)

theorem unblock_confined_witness:
  "let run = handleUnblock (wired_dashboard example_wiring) (example_dash_request ''eve'' ''DELETE'' ''/dashboard/api/anomalies/blocked/gus'') example_dash
   in BlockChecker_Check (ds_blocks (snd run)) ''gus'' ''globex'' 6 = BlockChecker_Check (ds_blocks example_dash) ''gus'' ''globex'' 6"
proof -
  let ?r = "example_dash_request ''eve'' ''DELETE'' ''/dashboard/api/anomalies/blocked/gus''"
  obtain resp s' where run: "handleUnblock (wired_dashboard example_wiring) ?r example_dash = (resp, s')" by fastforce
  have "\<not> ck_IsGlobal (dash_checker example_wiring example_dash) ''eve'' PermissionCredentialRevoke"
    by (simp add: example_dash_checks example_static_grants)
  from unblock_confined [OF example_authn this run] show ?thesis using run by simp
qed

theorem approvals_not_tenant_scoped_witness:
  "let h = wired_dashboard example_wiring; get = example_dash_request ''vic'' ''GET'' ''/dashboard/api/approvals'';
       post = example_dash_request ''eve'' ''POST'' ''/dashboard/api/approvals/r1/approve''
   in ar_Tenant example_pending = ''globex'' \<and>
      (\<exists>rs. snd (fst (dash_ServeHTTP h get example_dash)) = ApprovalsView rs \<and> example_pending \<in> set rs) \<and>
      snd (fst (dash_ServeHTTP h post example_dash)) = DashNoContent"
proof -
  let ?h = "wired_dashboard example_wiring" and ?get = "example_dash_request ''vic'' ''GET'' ''/dashboard/api/approvals''"
  let ?post = "example_dash_request ''eve'' ''POST'' ''/dashboard/api/approvals/r1/approve''"
  have "(\<exists>rs. snd (fst (dash_ServeHTTP ?h ?get example_dash)) = ApprovalsView rs \<and> example_pending \<in> set rs) \<and>
    (let ((_, resp), s') = dash_ServeHTTP ?h ?post example_dash
     in resp = DashNoContent \<and> map_option ar_Status (am_requests (ds_approvals s') ''r1'') = Some StatusApproved \<and>
        am_grants (ds_approvals s') (grantKey (ar_Tenant example_pending) (ar_Identity example_pending) (ar_Session example_pending)
          (ar_Tool example_pending)) \<noteq> None)"
    by (rule approvals_not_tenant_scoped [OF example_authn(1) _ example_authn(2)])
      (simp_all add: example_dash_checks example_static_grants example_dash_request_def,
        simp_all add: example_wiring_def example_dash_def example_pending_def new_request_def range_order_def)
  then show ?thesis by (simp add: split_def example_pending_def new_request_def)
qed

theorem rbac_view_shows_startup_witness:
  "(\<exists>roles. snd (fst (dash_ServeHTTP (wired_dashboard example_wiring) (example_dash_request ''vic'' ''GET'' ''/dashboard/api/rbac'') example_dash)) =
      RBACView roles [\<lparr>bn_Subject = ''root'', bn_Role = ''admin'', bn_Tenant = ''''\<rparr>]) \<and>
   \<not> ck_Check (dash_checker example_wiring example_dash) ''root'' ''acme'' PermissionConfigEdit"
proof -
  have held: "rn_authorizer (ds_running example_dash) = HeldStatic example_static" by (simp add: example_dash_def)
  have "binding_entries (static_RBACSource ks (dw_rbacAuthorizer example_wiring)) =
      [\<lparr>bn_Subject = ''root'', bn_Role = ''admin'', bn_Tenant = ''''\<rparr>]" for ks
    by (simp add: binding_entries_def static_RBACSource_def example_wiring_def)
  moreover have "\<not> Static_Authorize example_static ''root'' ''acme'' PermissionConfigEdit"
    by (simp add: Static_Authorize_def example_static_def)
  ultimately show ?thesis
    using rbac_view_shows_startup [OF example_authn(1) _ _ held, of "example_dash_request ''vic'' ''GET'' ''/dashboard/api/rbac''" "''root''" "''acme''" PermissionConfigEdit]
    by (simp add: example_dash_request_def)
qed

end
