(* ===== verification/Spec2Isabelle.thy ===== *)
theory Spec2Isabelle
  imports Wardline_System Approval RBAC Bootstrap Scim_Filter Scim_Provisioning Federation Policy_Files Config Reload File_Watcher
    Oidc Credential_Endpoints Dashboard
begin

text \<open>
  \<^bold>\<open>Wardline\<close> is a control-plane proxy between AI agents and the tools they call. Every JSON-RPC
  request is authenticated, checked against an automatic block list, a policy, an approval
  workflow, a rate limit and two per-job ceilings, then forwarded or refused, and recorded in an audit
  log that feeds the live views, the anomaly detectors and taint tracking. This development models the Go
  code under \<open>src/\<close> and proves what makes it correct.

  \<^bold>\<open>How the code is represented.\<close> A struct is a \<open>record\<close>, an enum a \<open>datatype\<close>, a mutable object a
  record passed and returned, an error a constructor of a sum or option type. Strings are byte lists.
  Times and durations are nanoseconds as integers, wrapped to 64 bits (\<open>wrap64\<close>) where the code multiplies
  them; counters whose wrap-around the code can reach are words. What an
  operation reads from outside (the clock, a fresh id, the iteration order of a Go map, a failing writer)
  is an argument. A lock-protected object is one atomic step per method; where a service
  calls several methods, their interleaving with others is explicit (\<open>Approval\<close>, \<open>Refresh_Tokens\<close>).

  \<^bold>\<open>The theories.\<close>
  \<^item> \<open>Wardline_Prelude\<close>, \<open>Keys\<close>: shared types, 64-bit arithmetic, decimal and duration printing; composite keys
    and session ids (\<open>platform/tenant\<close>, \<open>platform/session\<close>, the key functions of approval and taint).
  \<^item> \<open>Policy\<close> (\<open>features/policy\<close>): the first-match matcher, against a declarative semantics.
  \<^item> \<open>Audit_Log\<close> (\<open>features/audit\<close>): entries, the recorder, the fan-out to sinks.
  \<^item> \<open>Budget\<close> (\<open>features/budget\<close>): the fixed-window limiter, with a bound on every sliding interval and the isolation of
    tenants, as functions of how late calls may reach it (it is given the time a request started).
  \<^item> \<open>Meter\<close>, \<open>Job_Budget\<close>, \<open>Cost_Budget\<close>: the per-job meters and their gates.
  \<^item> \<open>Taint\<close> (\<open>features/taint\<close>): labels follow the audit stream; refinement to the history.
  \<^item> \<open>Approval\<close> (\<open>features/approval\<close>): requests and single-use grants as a step relation.
  \<^item> \<open>RBAC\<close> (\<open>features/rbac\<close>): file loading, static and composite authorizers, middleware.
  \<^item> \<open>Revocation\<close>, \<open>Refresh_Tokens\<close>, \<open>Bootstrap\<close> (\<open>features/credential\<close>): revocation list and token
    verification, rotating refresh tokens with reuse detection, identity registries.
  \<^item> \<open>Token_Signing\<close>, \<open>Oidc\<close> (\<open>features/credential/adapter\<close>): signing keys and their rotation, issuing and verifying access
    tokens over a token library; identity providers, with the lock-free throttle of key-set refreshes as an interleaving of its callers.
  \<^item> \<open>Loopback\<close>, \<open>Credential_Endpoints\<close>: address parsing and the loopback test; the token, refresh, revoke, login and logout
    handlers with the authorizers \<open>main.go\<close> gives them, and who can revoke whom.
  \<^item> \<open>Dashboard\<close> (\<open>features/dashboard\<close>): every route of the dashboard over the stores of the other theories; tenant isolation
    of its views and who can change anything through it.
  \<^item> \<open>Json\<close>, \<open>Proxy_Request\<close>, \<open>Proxy\<close> (\<open>features/proxy\<close>): what the code uses of \<open>encoding/json\<close>, request
    parsing, decision, redaction; the handler with all its gates. \<open>Proxy\<close> proves, for arbitrary ports,
    which requests are forwarded; its locales \<open>observed_ports\<close> and \<open>invariant_ports\<close> carry what a request
    leaves behind and which state properties serving preserves.
  \<^item> \<open>Grpc_Proxy\<close> (\<open>features/grpcproxy\<close>): the gates of an RPC, the relay as an interleaving of its two goroutines and
    the loop that waits for them, the codec with the buffer each pump reuses and the library's writes out of it.
  \<^item> \<open>Scim_Provisioning\<close>, \<open>Scim_Filter\<close> (\<open>features/scim\<close>): users, groups and the role bindings derived from
    membership, kept equal to it by every operation; the filter language, its parser total and inverse to printing.
  \<^item> \<open>Federation\<close> (\<open>features/federation\<close>): aggregation of alerts into signed summaries, publication with its cursor, the
    inbound endpoint, correlation across instances against the history of batches, its sweep.
  \<^item> \<open>Policy_Files\<close> (\<open>features/policy/adapter\<close>, \<open>features/policygen\<close>): loading, the atomic save over a file system that
    may fail at every call, and the policy inferred from the audit trail.
  \<^item> \<open>Config\<close> (\<open>platform/config\<close>): validation of the configuration, the defaults it fills in, the surgical rewrite of the budget section.
  \<^item> \<open>Reload\<close>, \<open>File_Watcher\<close> (\<open>platform/reload\<close>, the closures of \<open>main.go\<close>): hot reload of policy, roles and budget against what a restart
    on the same files and with the same feature flags would build, what failed reloads change, the dashboard's editors, the debounced watcher.
  \<^item> \<open>Auto_Block\<close>, \<open>Ring_Buffer\<close>: the block list and the bounded live views.
  \<^item> \<open>Float64\<close>, \<open>Anomaly_Stats\<close>, \<open>Anomaly_Detector\<close> (\<open>features/anomaly/usecase\<close>): double-precision arithmetic with its rounding, the
    online statistics and scores, and the detector fed by the audit stream: every block is explained by an alert, alerts are at most one per
    window and kind, tenants do not see each other's baselines, blocked calls change nothing, a checkpoint resumes where it was taken.
  \<^item> \<open>Wardline_System\<close> (\<open>cmd/wardline/main.go\<close>): the components wired over one state, a step relation
    for requests and operator actions, and the invariants of a run.
  This theory holds the properties of the whole: every request is accounted for in the audit log, the
  sinks agree with the log, a revoked identity is not served.

  \<^bold>\<open>Interfaces.\<close> Each store contract is a locale, interpreted on the in-memory implementation:
  \<open>policy_engine\<close>, \<open>taint_store\<close>, \<open>approval_store\<close>, \<open>authorizer\<close>, \<open>revoker\<close>, \<open>refresh_store\<close>,
  \<open>registry_loader\<close>, \<open>ring\<close>, \<open>binding_sink\<close>, and two locales each for the ports of the HTTP handler and of the gRPC
  handler (\<open>observed_grpc\<close>, \<open>invariant_grpc\<close>).

  \<^bold>\<open>Fuel.\<close> The JSON parser takes fuel; \<open>Json.pval_fuel\<close> shows that any fuel above twice the input length
  gives the same result, and the model uses the first such. The filter parser takes the number of tokens as fuel;
  \<open>filter_parser_total\<close> shows it never runs out.

  \<^bold>\<open>Not modelled.\<close> Cryptography: the token, RSA, KMS and hash libraries are parameters, with what the code relies on
  as hypotheses (\<open>signs_and_parses\<close>); the SPIFFE workload library;
  Postgres-backed stores, whose behaviour is in SQL; the OPA and Cedar engines (loaders that give an engine or fail); the YAML library (a codec parameter that
  reads back what it writes); the hash and signatures of federation (parameters); the keyed hash and
  the shared window stores of the anomaly detectors (parameters), fused multiply-adds and signed zeros of floating-point arithmetic; the gRPC library (its answers and the moments
  of its writes are arbitrary); the reverse proxy of the standard library, hop-by-hop headers included (the upstream port is what it is handed to); the
  HTTP surface of SCIM; compliance archives and the embedded policy packs; rendering of JSON and HTML,
  files, servers, metrics and tracing.
\<close>

section \<open>One request, one audit entry\<close>

text \<open>
  C1. Every request is accounted for. An unauthenticated request leaves no trace and gets a 401. Any
  other leaves exactly one audit entry, of the caller's identity and tenant, and is sent upstream, without
  its credentials, exactly when every gate admitted it; a refused request is never recorded as allowed and
  carries no effect; the parameters recorded for an admitted one are redacted. The one exception is a
  rejected protocol upgrade, which leaves two entries.
\<close>

theorem every_request_accounted:
  "let h = wardline_handler cfg; (resp, s') = ServeHTTP h r s
   in case caller h r s of
        None \<Rightarrow> ws_obs s' = ws_obs s \<and> resp = writeJSONRPCError 401 rpcCodeUnauthorized '''' ''unauthorized''
      | Some (i, t) \<Rightarrow>
          \<exists>es. audits (ws_obs s') = es @ audits (ws_obs s) \<and>
            length es = (if request_admitted h r s \<and> upgrade_rejected h r s then 2 else 1) \<and>
            sends (ws_obs s') = (if request_admitted h r s then [outgoing h r] else []) @ sends (ws_obs s) \<and>
            list_all (\<lambda>e. e_Identity e = i \<and> e_Tenant e = t \<and> effect_redacted (e_Effect e) \<and>
              (if request_admitted h r s then e_Decision e \<in> {''allow'', ''passthrough'', ''error''}
               else e_Decision e \<notin> {''allow'', ''passthrough''} \<and> e_Effect e = None)) es"
proof (cases "caller (wardline_handler cfg) r s")
  case None
  then show ?thesis
    using wired.serve_unauthenticated [of cfg r s] by (auto simp: Let_def case_prod_beta prod_eq_iff)
next
  case (Some it)
  obtain i t where it: "it = (i, t)"
    by (cases it)
  show ?thesis
  proof (cases "request_admitted (wardline_handler cfg) r s")
    case True
    then obtain es where "ws_obs (snd (ServeHTTP (wardline_handler cfg) r s)) =
        map Audited es @ Sent (outgoing (wardline_handler cfg) r) # ws_obs s"
      "length es = (if upgrade_rejected (wardline_handler cfg) r s then 2 else 1)"
      "\<forall>e \<in> set es. e_Identity e = i \<and> e_Tenant e = t \<and> e_Decision e \<in> {''allow'', ''passthrough'', ''error''} \<and>
        effect_redacted (e_Effect e)"
      using wired.serve_admitted [OF Some [unfolded it]] by blast
    then show ?thesis
      using Some it True by (auto simp: case_prod_beta list_all_iff audits_sent)
  next
    case False
    then obtain e where "ws_obs (snd (ServeHTTP (wardline_handler cfg) r s)) = Audited e # ws_obs s"
      "e_Identity e = i" "e_Tenant e = t" "e_Decision e \<notin> {''allow'', ''passthrough''}" "e_Effect e = None"
      using wired.serve_refused [OF Some [unfolded it] False] by blast
    then show ?thesis
      using Some it False by (auto simp: case_prod_beta intro!: exI [of _ "[e]"])
  qed
qed

text \<open>
  C11. Every RPC is accounted for. One without a method or without an authenticated caller leaves no trace. Any other is
  opened upstream, without the caller's credentials, exactly when the gates of the gRPC transport admit it; a
  refused one leaves exactly one entry, never as allowed; an admitted one leaves nothing more while its stream is
  open and exactly one entry when it has ended, as allowed exactly when the RPC succeeded.
\<close>

theorem every_rpc_accounted:
  "let p = wardline_grpc cfg; (res, s') = grpc_Handler p st s
   in case rpc_caller p st s of
        None \<Rightarrow> ws_obs s' = ws_obs s \<and> (\<exists>code msg. code \<in> {Internal, Unauthenticated} \<and> res = Some (RPC_Status code msg))
      | Some (i, t, m) \<Rightarrow>
          if rpc_admitted p st s
          then \<exists>es. ws_obs s' = map Audited es @ Opened m (outMD (st_md st)) # ws_obs s \<and>
                 length es = (if res = None then 0 else 1) \<and>
                 list_all (\<lambda>e. e_Identity e = i \<and> e_Tenant e = t \<and> e_Tool e = m \<and>
                   e_Decision e = (if res = Some RPC_OK then ''allow'' else ''error'')) es
          else \<exists>code msg e. res = Some (RPC_Status code msg) \<and> ws_obs s' = Audited e # ws_obs s \<and> e_Identity e = i \<and>
                 e_Tenant e = t \<and> e_Tool e = m \<and> e_Decision e \<in> {''blocked'', ''deny'', ''throttled''}"
proof (cases "rpc_caller (wardline_grpc cfg) st s")
  case None
  then show ?thesis
    using wired_grpc.rpc_accounts [of cfg st s] by (simp add: Let_def case_prod_beta)
next
  case (Some c)
  obtain i t m where c: "c = (i, t, m)"
    by (cases c)
  have acc: "wired_grpc.accounted (rpc_admitted (wardline_grpc cfg) st s) i t m (st_md st) (grpc_Handler (wardline_grpc cfg) st s) s"
    using wired_grpc.rpc_accounts [of cfg st s] Some c by simp
  show ?thesis
  proof (cases "rpc_admitted (wardline_grpc cfg) st s")
    case False
    then show ?thesis
      using acc Some c by (simp add: wired_grpc.accounted_def case_prod_beta)
  next
    case True
    show ?thesis
    proof (cases "fst (grpc_Handler (wardline_grpc cfg) st s)")
      case None
      then show ?thesis
        using acc Some c True by (simp add: wired_grpc.accounted_def case_prod_beta)
    next
      case (Some res)
      then obtain e where "ws_obs (snd (grpc_Handler (wardline_grpc cfg) st s)) = Audited e # Opened m (outMD (st_md st)) # ws_obs s"
        "e_Identity e = i" "e_Tenant e = t" "e_Tool e = m" "e_Decision e = (if res = RPC_OK then ''allow'' else ''error'')"
        using acc True by (auto simp: wired_grpc.accounted_def)
      then show ?thesis
        using \<open>rpc_caller (wardline_grpc cfg) st s = Some c\<close> c True Some by (auto simp: case_prod_beta intro!: exI [of _ "[e]"])
    qed
  qed
qed

text \<open>
  A small deployment for the concrete instances: taint tracking, the live view and token authentication
  are on; the upstream answers every call, and rejects protocol upgrades.
\<close>

definition example_config :: wardline_config where
  "example_config = \<lparr>wc_flags = (\<lambda>f. f \<in> {''taint_tracking'', ''web_ui'', ''credential_issuance''}),
     wc_policy = NewMatcher [] EffectDeny,
     wc_taint = example_taint_config\<lparr>tc_UntrustedSources := [''ping'']\<rparr>,
     wc_job = \<lparr>jc_RequestsPerJob = 0, jc_SessionWindowSeconds = 0\<rparr>,
     wc_cost = \<lparr>cc_Ceiling = 0, cc_ToolCosts = Map.empty, cc_DefaultCost = 0, cc_SessionWindowSeconds = 0\<rparr>,
     wc_grantTTLSeconds = 300, wc_autoBlock = False, wc_revocationHorizon = 100, wc_mtlsHeader = '''',
     wc_verify = (\<lambda>token now. if token = ''t'' then Inr \<lparr>cl_Subject = ''alice'', cl_Tenant = ''acme'',
         cl_IssuedAt = 0, cl_ExpiresAt = 1000, cl_ID = ''j1''\<rparr> else Inl ''bad''),
     wc_cookie = (\<lambda>_ _. None), wc_tick = (\<lambda>now. now + 1), wc_newID = (\<lambda>_. ''r1''), wc_writeError = (\<lambda>_. None),
     wc_detector = example_env, wc_readings = example_readings, wc_alertError = (\<lambda>_. None), wc_traceID = (\<lambda>_. ''''), wc_inject = (\<lambda>_ hd. hd), wc_errorText = (\<lambda>_. ''''),
     wc_parseErrorText = (\<lambda>_. ''''),
     wc_upstream = (\<lambda>q _. (if rq_Header q ''Upgrade'' = [] then UpstreamResponse
         else UpstreamUpgradeRejected) \<lparr>rsp_Status = 200, rsp_ContentType = '''', rsp_Body = None, rsp_BodyBroken = False\<rparr>),
     wc_grpcDial = (\<lambda>_ _ _. None), wc_grpcRelay = (\<lambda>_ _. example_relay)\<rparr>"

definition ping_body :: string where
  "ping_body = ''{'' @ json_quoted ''method'' @ '':'' @ json_quoted ''ping'' @ ''}''"

definition example_ping :: "string list \<Rightarrow> http_request" where
  "example_ping upgrade =
     \<lparr>rq_RemoteAddr = ''10.0.0.1:1'',
      rq_Header = (\<lambda>_. [])(''Authorization'' := [''Bearer t''], ''X-Wardline-Session'' := [''s1''], ''Upgrade'' := upgrade),
      rq_Body = ping_body, rq_BodyBroken = False\<rparr>"

definition example_start :: wardline_state where
  "example_start = initial_state (new_limiter 10 60 [] []) 60 5 5"

lemma ping_parse:
  "ParseRequest i t ping_body =
     (\<lparr>pr_Call = zero_ToolCall, pr_Method = ''ping'', pr_ID = nullID, pr_IsToolCall = False, pr_IsGated = False\<rparr>, None)"
proof -
  have "map_option (\<lambda>env. (env_Method env, env_ID env)) (decode_envelope ping_body) = Some (''ping'', '''')" by code_simp
  then obtain env where "decode_envelope ping_body = Some env" "env_Method env = ''ping''" "env_ID env = ''''"
    by auto
  moreover have "\<not> isGatedMethod ''ping''" by code_simp
  ultimately show ?thesis by (simp add: ParseRequest_def)
qed

lemma example_header_names:
  "CanonicalMIMEHeaderKey ''Authorization'' = ''Authorization''"
  "CanonicalMIMEHeaderKey ''X-Wardline-Session'' = ''X-Wardline-Session''"
  by code_simp+

lemma example_session: "TaintConfig_Header (wc_taint example_config) = ''X-Wardline-Session''"
  by (simp add: example_config_def TaintConfig_Header_def example_taint_config_def DefaultSessionHeader_def)

lemma example_authenticate:
  "sys_authenticate example_config (example_ping up) (example_start\<lparr>ws_clock := 1\<rparr>) =
     (Inr (''alice'', ''acme''), example_start\<lparr>ws_clock := 1, ws_revoked := \<lparr>rl_entries = Map.empty, rl_calls = 1\<rparr>\<rparr>)"
  by (simp add: sys_authenticate_def bearerIdentity_Authenticate_def example_config_def example_ping_def
      Header_Get_def CutPrefix_def example_header_names sys_token_check_def Verification_Authenticate_def
      inmemory_Revoker_def IsRevoked_def NewRevocationList_def example_start_def initial_state_def
      checkAndSelfHeal_def revocationEvictionSweepInterval_def)

text \<open>The ping is a protocol method: it passes through every gate, and is recorded with its method as tool.\<close>

lemma example_gate:
  "\<exists>c. gate (wardline_handler example_config) (example_ping up) example_start =
     (Forward c, example_start\<lparr>ws_clock := 1, ws_revoked := \<lparr>rl_entries = Map.empty, rl_calls = 1\<rparr>\<rparr>) \<and>
     fw_parsed c = \<lparr>pr_Call = zero_ToolCall\<lparr>tcl_SessionID := ''s1''\<rparr>, pr_Method = ''ping'', pr_ID = nullID,
       pr_IsToolCall = False, pr_IsGated = False\<rparr> \<and>
     fw_identity c = ''alice'' \<and> fw_tenant c = ''acme'' \<and> fw_tool c = ''ping'' \<and> fw_start c = 0 \<and>
     fw_decision c = ''passthrough''"
proof -
  have now: "sys_now example_config example_start = (0, example_start\<lparr>ws_clock := 1\<rparr>)"
    by (simp add: sys_now_def example_config_def example_start_def initial_state_def)
  have body: "rq_Body (example_ping up) = ping_body" "\<not> rq_BodyBroken (example_ping up)"
    by (simp_all add: example_ping_def)
  have len: "\<not> maxRequestBodyBytes < length ping_body"
    by (simp add: ping_body_def json_quoted_def maxRequestBodyBytes_def)
  have session: "Header_Get (rq_Header (example_ping up)) (sys_sessionHeader example_config) = ''s1''"
    using example_session
    by (simp add: sys_sessionHeader_def) (simp add: example_config_def example_ping_def Header_Get_def example_header_names)
  have flags: "\<not> wc_flags example_config ''anomaly_detection''"
    by (simp add: example_config_def)
  show ?thesis
    by (simp add: gate_def wardline_handler_def now example_authenticate body len ping_parse session flags gate_parsed_def)
qed

lemma example_now: "h_now (wardline_handler example_config) example_start = (0, example_start\<lparr>ws_clock := 1\<rparr>)"
  by (simp add: wardline_handler_def sys_now_def example_config_def example_start_def initial_state_def)

lemma example_caller: "caller (wardline_handler example_config) (example_ping up) example_start = Some (''alice'', ''acme'')"
proof -
  have "h_authenticate (wardline_handler example_config) = sys_authenticate example_config"
    by (simp add: wardline_handler_def)
  then show ?thesis
    by (simp add: caller_def example_now example_authenticate)
qed

lemma example_outgoing: "rq_Header (outgoing (wardline_handler example_config) (example_ping up)) ''Upgrade'' = up"
proof -
  have "h_inject (wardline_handler example_config) q hd = hd" "h_trustedIdentityHeader (wardline_handler example_config) = ''''" for q hd
    by (simp_all add: wardline_handler_def example_config_def)
  then show ?thesis
    by (simp add: outgoing_def Header_Del_def example_header_names example_ping_def)
qed

lemma example_upstream:
  "fst (h_upstream (wardline_handler example_config) q s) =
     (if rq_Header q ''Upgrade'' = [] then UpstreamResponse else UpstreamUpgradeRejected)
       \<lparr>rsp_Status = 200, rsp_ContentType = '''', rsp_Body = None, rsp_BodyBroken = False\<rparr>"
  by (simp add: wardline_handler_def sys_upstream_def example_config_def)

lemma example_upgrade_rejected:
  "upgrade_rejected (wardline_handler example_config) (example_ping up) example_start \<longleftrightarrow> up \<noteq> []"
  using example_gate [of up] by (auto simp: upgrade_rejected_def example_upstream example_outgoing)

text \<open>
  A protocol upgrade whose handshake the reverse proxy rejects after the upstream answered is audited
  twice: once as allowed (or passed through) when the response is seen, and again as an error.
\<close>

theorem rejected_upgrade_audited_twice:
  assumes "caller (wardline_handler cfg) r s = Some (i, t)" and "upgrade_rejected (wardline_handler cfg) r s"
  shows "\<exists>e1 e2. audits (ws_obs (snd (ServeHTTP (wardline_handler cfg) r s))) = e2 # e1 # audits (ws_obs s) \<and>
     e_Decision e1 \<in> {''allow'', ''passthrough''} \<and> e_Decision e2 = ''error''"
proof -
  let ?h = "wardline_handler cfg"
  obtain c s0 resp where g: "gate ?h r s = (Forward c, s0)"
    and up: "fst (h_upstream ?h (outgoing ?h r) s0) = UpstreamUpgradeRejected resp"
    using assms(2) by (auto simp: upgrade_rejected_def)
  define s1 where "s1 = snd (h_upstream ?h (outgoing ?h r) s0)"
  have c: "fw_decision c \<in> {''allow'', ''passthrough''}" "ws_obs s0 = ws_obs s"
    using wired.gate_obs_gate [OF assms(1)] g by (simp_all add: wired.gate_obs_def)
  have "ws_obs s1 = Sent (outgoing ?h r) # ws_obs s"
    unfolding s1_def using wired.obs_upstream c(2) by simp
  moreover have "snd (ServeHTTP ?h r s) = snd (forward_error ?h r c (forward_response ?h r c resp s1))"
    using g up by (simp add: ServeHTTP_def forward_def case_prod_beta s1_def)
  moreover obtain e1 where "ws_obs (forward_response ?h r c resp s1) = Audited e1 # ws_obs s1" "e_Decision e1 = fw_decision c"
    using wired.obs_forward_response by blast
  moreover obtain e2 where "ws_obs (snd (forward_error ?h r c (forward_response ?h r c resp s1))) =
      Audited e2 # ws_obs (forward_response ?h r c resp s1)" "e_Decision e2 = ''error''"
    using wired.obs_forward_error by blast
  ultimately show ?thesis
    using c(1) by simp
qed

theorem rejected_upgrade_audited_twice_witness:
  "\<exists>e1 e2. audits (ws_obs (snd (ServeHTTP (wardline_handler example_config) (example_ping [''websocket'']) example_start))) = [e2, e1] \<and>
     e_Decision e1 \<in> {''allow'', ''passthrough''} \<and> e_Decision e2 = ''error''"
proof -
  have "audits (ws_obs example_start) = []"
    by (simp add: example_start_def initial_state_def)
  then show ?thesis
    using rejected_upgrade_audited_twice [OF example_caller, of "[''websocket'']"] by (simp add: example_upgrade_rejected)
qed

section \<open>The sinks and the audit log\<close>

lemma taint_from_audit_log:
  assumes "wardline_run cfg (initial_state limiter bds cap acap) s" and "wc_flags cfg ''taint_tracking''"
  shows "sys_taintLookup cfg call s =
     (let (tainted, sources) = taint_spec (wc_taint cfg)
            (tcl_Tenant call, tcl_Identity call, SessionID (tcl_SessionID call) (tcl_Tenant call) (tcl_Identity call)
               (tcl_Timestamp call) (TaintConfig_Window (wc_taint cfg)))
            (tcl_Timestamp call) (rev (audits (ws_obs s)))
      in \<lparr>sig_Tainted = tainted, sig_Sources = sources\<rparr>)"
  using sinks_mirror_run [OF assms(1) sinks_mirror_init] assms(2)
  by (simp add: sinks_mirror_def sys_taintLookup_def sys_engine_def taint_lookup_history)


definition example_after :: wardline_state where
  "example_after = snd (ServeHTTP (wardline_handler example_config) (example_ping []) example_start)"

lemma example_served:
  "\<exists>e. audits (ws_obs example_after) = [e] \<and> e_Identity e = ''alice'' \<and> e_Tenant e = ''acme'' \<and> e_Tool e = ''ping'' \<and>
     e_Decision e = ''passthrough'' \<and> e_Timestamp e = 0 \<and> e_SessionID e = ''s1''"
proof -
  let ?h = "wardline_handler example_config" and ?r = "example_ping []"
  obtain c s0 where g: "gate ?h ?r example_start = (Forward c, s0)" and s0: "ws_obs s0 = []"
    and c: "tcl_SessionID (pr_Call (fw_parsed c)) = ''s1''" "fw_identity c = ''alice''" "fw_tenant c = ''acme''"
      "fw_tool c = ''ping''" "fw_start c = 0" "fw_decision c = ''passthrough''"
    using example_gate [of "[]"] by (auto simp: example_start_def initial_state_def)
  define s1 where "s1 = snd (h_upstream ?h (outgoing ?h ?r) s0)"
  obtain resp where "fst (h_upstream ?h (outgoing ?h ?r) s0) = UpstreamResponse resp"
    by (simp add: example_upstream example_outgoing)
  then have "example_after = forward_response ?h ?r c resp s1"
    using g by (simp add: example_after_def ServeHTTP_def forward_def case_prod_beta s1_def)
  moreover have "audits (ws_obs s1) = []"
    unfolding s1_def using wired.obs_upstream [of example_config "outgoing ?h ?r" s0] s0 by simp
  ultimately show ?thesis
    using wired.obs_finish [of example_config ?r "fw_identity c" "fw_tenant c" "fw_tool c" "fw_decision c" "fw_reason c"
        "tcl_SessionID (pr_Call (fw_parsed c))" "fw_start c"
        "fst (ExtractEffect (fw_parsed c) (readResponseSignal resp) (Some RedactSecrets))"
        "snd (ExtractEffect (fw_parsed c) (readResponseSignal resp) (Some RedactSecrets))" "fw_taintSources c" s1] c
    by (auto simp: forward_response_def case_prod_beta)
qed

lemma example_run: "wardline_run example_config (initial_state (new_limiter 10 60 [] []) 60 5 5) example_after"
  using wardline_run.more [OF wardline_run.stop wardline_step.serve]
  by (simp add: example_after_def example_start_def)


text \<open>
  The dashboard's live view shows the audit log: after any run, a page of the live view is the
  numbered audit log's most recent entries, cut to the buffer's capacity, filtered by tenant and by the last seen number.
\<close>

theorem live_view_shows_audit_log:
  assumes "wardline_run cfg (initial_state limiter bds cap acap) s" and "wc_flags cfg ''web_ui''"
  shows "RingBuffer_Since (ws_ring s) afterID limit tf =
     (let es = rev (audits (ws_obs s))
      in keep_last limit
           (filter (\<lambda>e. (if int (length es) < afterID then 0 else afterID) < le_ID e \<and>
                (tf = '''' \<or> le_Tenant e = tf))
              (last_n (effective_cap cap) (numbered FromAuditEntry es))))"
  using sinks_mirror_run [OF assms(1) sinks_mirror_init] assms(2) by (simp add: sinks_mirror_def live_view_of_published)

theorem live_view_shows_audit_log_witness:
  "map le_Tool (RingBuffer_Since (ws_ring example_after) 0 10 ''acme'') = [''ping''] \<and>
   RingBuffer_Since (ws_ring example_after) 0 10 ''other'' = []"
proof -
  have flag: "wc_flags example_config ''web_ui''"
    by (simp add: example_config_def)
  obtain e where "audits (ws_obs example_after) = [e]" "e_Tenant e = ''acme''" "e_Tool e = ''ping''"
    using example_served by blast
  then show ?thesis
    by (simp add: live_view_shows_audit_log [OF example_run flag] Let_def numbered_def FromAuditEntry_def last_n_def
        effective_cap_def keep_last_def)
qed

section \<open>Revocation at work\<close>

text \<open>
  C7. A revoked identity is not served: from the moment an operator revokes an identity, in its tenant or
  in every tenant, and for as long as the revocation horizon lasts, no request is taken to come from it, whatever
  other requests, revocations and operator actions happen meanwhile. The same holds of RPCs on the gRPC transport.
\<close>

theorem revoked_identity_never_served:
  assumes "wardline_run cfg (s\<lparr>ws_revoked := Revoke t i (ws_clock s + wc_revocationHorizon cfg) (ws_revoked s)\<rparr>) s'"
    and "wc_flags cfg ''credential_issuance''" and "\<And>now. now \<le> wc_tick cfg now"
    and "wc_tick cfg (ws_clock s') \<le> ws_clock s + wc_revocationHorizon cfg" and "t = '''' \<or> t = t'"
  shows "caller (wardline_handler cfg) r s' \<noteq> Some (i, t') \<and> rpc_caller (wardline_grpc cfg) st s' \<noteq> Some (i, t', m)"
proof -
  let ?e = "ws_clock s + wc_revocationHorizon cfg"
  have "list_in_force (Revoke t i ?e (ws_revoked s)) t' i ?e"
    using inmemory_revoker.revoke_in_force [of t i ?e "ws_revoked s" _ t'] assms(5) by (simp add: inmemory_Revoker_def)
  then have "revoked_until t' i (ws_clock s) ?e s'"
    by (intro revoked_until_run [OF assms(1) assms(3)]) (simp_all add: revoked_until_def)
  then have "list_in_force (ws_revoked s') t' i ?e"
    using assms(3) [of "ws_clock s'"] assms(4) by (simp add: revoked_until_def)
  then show ?thesis
    using revoked_not_caller [OF _ assms(4) assms(2)] revoked_not_rpc_caller [OF _ assms(4) assms(2)] by blast
qed

theorem revoked_identity_never_served_witness:
  "caller (wardline_handler example_config) (example_ping []) example_start = Some (''alice'', ''acme'') \<and>
   caller (wardline_handler example_config) (example_ping [])
     (example_start\<lparr>ws_revoked := Revoke ''acme'' ''alice'' 100 NewRevocationList, ws_clock := 7\<rparr>) \<noteq> Some (''alice'', ''acme'')"
proof -
  let ?s = "example_start\<lparr>ws_revoked := Revoke ''acme'' ''alice'' (ws_clock example_start + wc_revocationHorizon example_config)
    (ws_revoked example_start)\<rparr>"
  have "ws_clock ?s \<le> 7"
    by (simp add: example_start_def initial_state_def)
  then have "wardline_run example_config ?s (?s\<lparr>ws_clock := 7\<rparr>)"
    by (intro wardline_run.more [OF wardline_run.stop] wardline_step.elapse)
  moreover have cfg: "wc_flags example_config ''credential_issuance''" "wc_tick example_config now = now + 1"
    "wc_revocationHorizon example_config = 100" for now
    by (simp_all add: example_config_def)
  moreover have "ws_clock example_start = 0" "ws_revoked example_start = NewRevocationList"
    by (simp_all add: example_start_def initial_state_def)
  ultimately show ?thesis
    using revoked_identity_never_served [where cfg = example_config and s = example_start and t = "''acme''" and i = "''alice''"
        and s' = "?s\<lparr>ws_clock := 7\<rparr>" and t' = "''acme''" and r = "example_ping []"] example_caller by simp
qed


end
